(* ===== verification/AV_Prelude.thy ===== *)
theory AV_Prelude
  imports Main "HOL-Library.Word" "HOL-Library.Sublist"
begin

text \<open>
  Prelude of the AgentVerify development: the machine integers of the source, the \<open>Result\<close>
  type and its combinators, the Rust string operations the program uses (\<open>split\<close>,
  \<open>strip_prefix\<close>, \<open>contains\<close>, the byte order of \<open>str\<close>, \<open>parse\<close> and \<open>to_string\<close> of unsigned
  integers), and the generic lemmas on them that the component theories share.

  A Rust \<open>String\<close> is the list of its UTF-8 bytes, one \<^typ>\<open>char\<close> per byte, so \<open>len()\<close> is
  \<^const>\<open>length\<close> and \<open>str\<close> comparison is comparison of bytes.
\<close>

section \<open>Machine integers\<close>

type_synonym u32 = "32 word"
type_synonym u64 = "64 word"
type_synonym i32 = "32 word"
type_synonym i64 = "64 word"

text \<open>\<open>saturating_sub\<close> of an unsigned integer: zero instead of wrapping below zero.\<close>

definition saturating_sub :: "'a::len word \<Rightarrow> 'a word \<Rightarrow> 'a word" where
  "saturating_sub a b = (if a < b then 0 else a - b)"

section \<open>Result\<close>

text \<open>
  \<open>Result<T, E>\<close> is the sum \<open>'e + 'a\<close>: \<open>Inl e\<close> is \<open>Err(e)\<close> and \<open>Inr x\<close> is \<open>Ok(x)\<close>.
  \<open>and_then_res\<close> is the question-mark operator, \<open>map_err\<close> the method of that name.
\<close>

definition and_then_res :: "('e + 'a) \<Rightarrow> ('a \<Rightarrow> 'e + 'b) \<Rightarrow> 'e + 'b" where
  "and_then_res r k = (case r of Inl e \<Rightarrow> Inl e | Inr x \<Rightarrow> k x)"

definition map_err :: "('e \<Rightarrow> 'f) \<Rightarrow> 'e + 'a \<Rightarrow> 'f + 'a" where
  "map_err f r = (case r of Inl e \<Rightarrow> Inl (f e) | Inr x \<Rightarrow> Inr x)"

definition is_ok :: "'e + 'a \<Rightarrow> bool" where
  "is_ok r = (case r of Inl _ \<Rightarrow> False | Inr _ \<Rightarrow> True)"

text \<open>
  A loop that runs a fallible check over a sequence and leaves at the first error
  (\<open>for x in xs { check(x)?; }\<close>).
\<close>

fun for_each_res :: "('a \<Rightarrow> 'e + unit) \<Rightarrow> 'a list \<Rightarrow> 'e + unit" where
  "for_each_res f [] = Inr ()"
| "for_each_res f (x # xs) = (case f x of Inl e \<Rightarrow> Inl e | Inr _ \<Rightarrow> for_each_res f xs)"

section \<open>Strings\<close>

text \<open>\<open>s.split(c)\<close>, collected: always at least one segment, empty segments kept.\<close>

fun split_on :: "char \<Rightarrow> string \<Rightarrow> string list" where
  "split_on c [] = [[]]"
| "split_on c (x # xs) =
     (if x = c then [] # split_on c xs
      else (case split_on c xs of [] \<Rightarrow> [[x]] | s # ss \<Rightarrow> (x # s) # ss))"

text \<open>The inverse of \<open>split_on\<close>: \<open>segments.join(c)\<close>.\<close>

fun join_with :: "char \<Rightarrow> string list \<Rightarrow> string" where
  "join_with c [] = []"
| "join_with c [s] = s"
| "join_with c (s # t # ss) = s @ c # join_with c (t # ss)"

fun strip_prefix_str :: "string \<Rightarrow> string \<Rightarrow> string option" where
  "strip_prefix_str [] s = Some s"
| "strip_prefix_str (p # ps) [] = None"
| "strip_prefix_str (p # ps) (x # xs) = (if p = x then strip_prefix_str ps xs else None)"

definition starts_with :: "string \<Rightarrow> string \<Rightarrow> bool" where
  "starts_with p s = (strip_prefix_str p s \<noteq> None)"

definition ends_with :: "string \<Rightarrow> string \<Rightarrow> bool" where
  "ends_with p s = starts_with (rev p) (rev s)"

text \<open>\<open>s.contains(p)\<close> for a string pattern.\<close>

fun contains_str :: "string \<Rightarrow> string \<Rightarrow> bool" where
  "contains_str p [] = (p = [])"
| "contains_str p (x # xs) = (starts_with p (x # xs) \<or> contains_str p xs)"

text \<open>The order of \<open>str\<close>: lexicographic on bytes.\<close>

fun str_less :: "string \<Rightarrow> string \<Rightarrow> bool" where
  "str_less [] [] = False"
| "str_less [] (y # ys) = True"
| "str_less (x # xs) [] = False"
| "str_less (x # xs) (y # ys) =
     ((of_char x :: nat) < of_char y \<or> x = y \<and> str_less xs ys)"

subsection \<open>Unsigned integers in decimal\<close>

definition digit_value :: "char \<Rightarrow> nat option" where
  "digit_value c =
     (let n = (of_char c :: nat) in if 48 \<le> n \<and> n \<le> 57 then Some (n - 48) else None)"

fun parse_digits :: "nat \<Rightarrow> string \<Rightarrow> nat option" where
  "parse_digits acc [] = Some acc"
| "parse_digits acc (c # cs) =
     (case digit_value c of None \<Rightarrow> None | Some d \<Rightarrow> parse_digits (10 * acc + d) cs)"

text \<open>
  \<open>str::parse\<close> for an unsigned integer type whose largest value is \<open>limit\<close>: one optional
  leading \<open>+\<close>, then at least one digit, and the value must not exceed the type.
\<close>

definition parse_uint :: "nat \<Rightarrow> string \<Rightarrow> nat option" where
  "parse_uint limit s =
     (let ds = (case s of [] \<Rightarrow> [] | c # cs \<Rightarrow> if c = CHR ''+'' then cs else s)
      in if ds = [] then None
         else case parse_digits 0 ds of
                None \<Rightarrow> None
              | Some n \<Rightarrow> if n \<le> limit then Some n else None)"

definition digit_char :: "nat \<Rightarrow> char" where
  "digit_char d = char_of (48 + d)"

text \<open>\<open>to_string\<close> of an unsigned integer: decimal, no leading zeros.\<close>

fun show_nat :: "nat \<Rightarrow> string" where
  "show_nat n = (if n < 10 then [digit_char n] else show_nat (n div 10) @ [digit_char (n mod 10)])"

declare show_nat.simps [simp del]

named_theorems av_simps \<open>unfolding rules of the model's small definitions\<close>

declare and_then_res_def [av_simps] map_err_def [av_simps] is_ok_def [av_simps]
  starts_with_def [av_simps]


section \<open>Lemmas\<close>

subsection \<open>Result\<close>

lemma and_then_res_ok:
  "and_then_res r k = Inr y \<longleftrightarrow> (\<exists>x. r = Inr x \<and> k x = Inr y)"
  by (auto simp: and_then_res_def split: sum.splits)

lemma and_then_res_simps [simp]:
  "and_then_res (Inl e) k = Inl e" "and_then_res (Inr x) k = k x"
  by (simp_all add: and_then_res_def)

lemma for_each_res_ok: "for_each_res f xs = Inr () \<longleftrightarrow> (\<forall>x\<in>set xs. f x = Inr ())"
  by (induction xs) (auto split: sum.splits)

lemma for_each_res_err:
  "for_each_res f xs = Inl e \<Longrightarrow>
   \<exists>ys x zs. xs = ys @ x # zs \<and> (\<forall>y\<in>set ys. f y = Inr ()) \<and> f x = Inl e"
proof (induction xs)
  case Nil
  then show ?case by simp
next
  case (Cons a xs)
  show ?case
  proof (cases "f a")
    case (Inl e')
    with Cons.prems have "a # xs = [] @ a # xs \<and> f a = Inl e" by simp
    then show ?thesis by (metis empty_iff list.set(1))
  next
    case (Inr u)
    with Cons obtain ys x zs
      where "xs = ys @ x # zs" "\<forall>y\<in>set ys. f y = Inr ()" "f x = Inl e" by auto
    with Inr have "a # xs = (a # ys) @ x # zs \<and> (\<forall>y\<in>set (a # ys). f y = Inr ()) \<and> f x = Inl e"
      by simp
    then show ?thesis by blast
  qed
qed

lemma for_each_res_cases: "for_each_res f xs = Inr () \<or> (\<exists>e. for_each_res f xs = Inl e)"
  by (cases "for_each_res f xs") auto

subsection \<open>Strings\<close>

lemma split_on_not_Nil [simp]: "split_on c s \<noteq> []"
  by (induction s) (auto split: list.splits)

lemma join_with_Cons: "ss \<noteq> [] \<Longrightarrow> join_with c (s # ss) = s @ c # join_with c ss"
  by (cases ss) auto

lemma join_with_Cons_Cons: "join_with c ((x # s) # ss) = x # join_with c (s # ss)"
  by (cases ss) auto

lemma join_with_split_on [simp]: "join_with c (split_on c s) = s"
proof (induction s)
  case Nil
  show ?case by simp
next
  case (Cons x xs)
  obtain s ss where "split_on c xs = s # ss"
    by (cases "split_on c xs") auto
  with Cons show ?case by (auto simp: join_with_Cons join_with_Cons_Cons)
qed

lemma split_on_none: "c \<notin> set s \<Longrightarrow> split_on c s = [s]"
  by (induction s) auto

lemma split_on_append: "c \<notin> set s \<Longrightarrow> split_on c (s @ c # t) = s # split_on c t"
  by (induction s) auto

lemma split_on_pieces: "seg \<in> set (split_on c s) \<Longrightarrow> c \<notin> set seg"
proof (induction s arbitrary: seg)
  case Nil
  then show ?case by simp
next
  case (Cons x xs)
  obtain h ss where h: "split_on c xs = h # ss"
    by (cases "split_on c xs") auto
  with Cons.IH have "c \<notin> set h" and "\<And>q. q \<in> set ss \<Longrightarrow> c \<notin> set q" by auto
  with Cons.prems h show ?case by (auto split: if_splits)
qed

lemma strip_prefix_str_iff: "strip_prefix_str p s = Some r \<longleftrightarrow> s = p @ r"
  by (induction p s rule: strip_prefix_str.induct) auto

lemma starts_with_iff: "starts_with p s \<longleftrightarrow> prefix p s"
  by (auto simp: starts_with_def prefix_def strip_prefix_str_iff)

lemma ends_with_iff: "ends_with p s \<longleftrightarrow> suffix p s"
  by (simp add: ends_with_def starts_with_iff suffix_to_prefix)

lemma contains_str_iff: "contains_str p s \<longleftrightarrow> sublist p s"
  by (induction p s rule: contains_str.induct) (auto simp: starts_with_iff sublist_Cons_right)

lemma str_less_irrefl [simp]: "\<not> str_less s s"
  by (induction s) auto

lemma str_less_trans: "str_less a b \<Longrightarrow> str_less b c \<Longrightarrow> str_less a c"
proof (induction a b arbitrary: c rule: str_less.induct)
  case (2 y ys)
  then show ?case by (cases c) auto
next
  case (4 x xs y ys)
  then show ?case by (cases c) auto
qed auto

lemma str_less_total: "str_less a b \<or> a = b \<or> str_less b a"
proof (induction a b rule: str_less.induct)
  case (4 x xs y ys)
  have "x = y \<or> (of_char x :: nat) < of_char y \<or> (of_char y :: nat) < of_char x"
    by (metis char_of_char linorder_neqE_nat)
  with 4 show ?case by auto
qed auto

lemma str_less_asym: "str_less a b \<Longrightarrow> \<not> str_less b a"
  using str_less_trans str_less_irrefl by blast

subsection \<open>Decimal numerals\<close>

lemma digit_value_digit_char [simp]: "d < 10 \<Longrightarrow> digit_value (digit_char d) = Some d"
  by (simp add: digit_value_def digit_char_def)

lemma parse_digits_append:
  "parse_digits acc (xs @ ys) =
   (case parse_digits acc xs of None \<Rightarrow> None | Some n \<Rightarrow> parse_digits n ys)"
  by (induction acc xs rule: parse_digits.induct) (auto split: option.splits)

lemma parse_digits_show_nat: "parse_digits 0 (show_nat n) = Some n"
proof (induction n rule: show_nat.induct)
  case (1 n)
  show ?case
  proof (cases "n < 10")
    case True
    then show ?thesis by (simp add: show_nat.simps [of n])
  next
    case False
    with 1 show ?thesis by (simp add: show_nat.simps [of n] parse_digits_append)
  qed
qed

lemma show_nat_not_Nil [simp]: "show_nat n \<noteq> []"
  by (subst show_nat.simps) simp

lemma digit_char_digits: "d < 10 \<Longrightarrow> 48 \<le> (of_char (digit_char d) :: nat) \<and> (of_char (digit_char d) :: nat) \<le> 57"
  by (simp add: digit_char_def)

lemma show_nat_digits: "c \<in> set (show_nat n) \<Longrightarrow> 48 \<le> (of_char c :: nat) \<and> (of_char c :: nat) \<le> 57"
proof (induction n rule: show_nat.induct)
  case (1 n)
  then show ?case
    by (cases "n < 10") (auto simp: show_nat.simps [of n] digit_char_digits)
qed

lemma show_nat_no_dot: "CHR ''.'' \<notin> set (show_nat n)"
  using show_nat_digits [of "CHR ''.''" n] by auto

lemma show_nat_no_plus: "CHR ''+'' \<notin> set (show_nat n)"
  using show_nat_digits [of "CHR ''+''" n] by auto

lemma parse_uint_show_nat: "n \<le> limit \<Longrightarrow> parse_uint limit (show_nat n) = Some n"
proof -
  assume n: "n \<le> limit"
  obtain c cs where s: "show_nat n = c # cs"
    using show_nat_not_Nil by (cases "show_nat n") auto
  with show_nat_no_plus [of n] have "c \<noteq> CHR ''+''" by auto
  with s n parse_digits_show_nat [of n] show ?thesis by (simp add: parse_uint_def)
qed

lemma parse_uint_bound: "parse_uint limit s = Some n \<Longrightarrow> n \<le> limit"
  by (auto simp: parse_uint_def Let_def split: option.splits if_splits list.splits)

lemma saturating_sub_unat: "unat (saturating_sub a b) = unat a - unat b"
proof (cases "a < b")
  case True
  then show ?thesis by (simp add: saturating_sub_def word_less_nat_alt)
next
  case False
  then show ?thesis by (simp add: saturating_sub_def unat_sub_if' word_le_nat_alt word_less_nat_alt not_less)
qed

end
