(* ===== verification/Float64.thy ===== *)
theory Float64
  imports AV_Prelude
begin

text \<open>
  The part of Rust's \<open>f64\<close> that the program uses. A value is its IEEE 754 binary64 bit pattern
  (\<open>f64::to_bits\<close>); comparison, multiplication with rounding to nearest, ties to even, and the
  conversions of the \<open>as\<close> operator (which saturate and send NaN to zero) are defined on it by
  integer arithmetic, so they evaluate. \<open>f64::powi\<close> is not defined here: the standard library
  leaves its precision unspecified, so the definitions that use it take it as an argument.
\<close>

type_synonym f64 = "64 word"

section \<open>Fields of a value\<close>

definition f64_neg :: "f64 \<Rightarrow> bool" where
  "f64_neg w = (2 ^ 63 \<le> unat w)"

definition f64_mag :: "f64 \<Rightarrow> nat" where
  "f64_mag w = unat w mod 2 ^ 63"

definition f64_exp :: "f64 \<Rightarrow> nat" where
  "f64_exp w = f64_mag w div 2 ^ 52"

definition f64_frac :: "f64 \<Rightarrow> nat" where
  "f64_frac w = f64_mag w mod 2 ^ 52"

definition f64_is_nan :: "f64 \<Rightarrow> bool" where
  "f64_is_nan w = (f64_exp w = 2047 \<and> f64_frac w \<noteq> 0)"

definition f64_is_inf :: "f64 \<Rightarrow> bool" where
  "f64_is_inf w = (f64_exp w = 2047 \<and> f64_frac w = 0)"

text \<open>A finite value is \<open>\<plusminus> mant * 2 ^ scale\<close>.\<close>

definition f64_mant :: "f64 \<Rightarrow> nat" where
  "f64_mant w = (if f64_exp w = 0 then f64_frac w else 2 ^ 52 + f64_frac w)"

definition f64_scale :: "f64 \<Rightarrow> int" where
  "f64_scale w = int (max 1 (f64_exp w)) - 1075"

definition f64_nan :: f64 where
  "f64_nan = 0x7FF8000000000000"

definition f64_inf :: "bool \<Rightarrow> f64" where
  "f64_inf neg = (if neg then 0xFFF0000000000000 else 0x7FF0000000000000)"

definition f64_zero :: f64 where
  "f64_zero = 0"

section \<open>Rounding\<close>

fun bit_len :: "nat \<Rightarrow> nat" where
  "bit_len n = (if n = 0 then 0 else Suc (bit_len (n div 2)))"

declare bit_len.simps [simp del]

definition round_half_even :: "nat \<Rightarrow> nat \<Rightarrow> nat" where
  "round_half_even m k =
     (let q = m div 2 ^ k; r = m mod 2 ^ k; h = 2 ^ (k - 1)
      in if k = 0 then m else if h < r \<or> r = h \<and> odd q then Suc q else q)"

text \<open>
  The binary64 value nearest to \<open>\<plusminus> m * 2 ^ e\<close>. The unit in the last place is \<open>2 ^ q\<close>; adding
  the rounded significand to \<open>(q + 1074) * 2 ^ 52\<close> gives the bit pattern of normal and
  subnormal results alike, and carries into the exponent where rounding overflows.
\<close>

definition f64_round :: "bool \<Rightarrow> nat \<Rightarrow> int \<Rightarrow> f64" where
  "f64_round neg m e =
     (let q = max (e + int (bit_len m) - 53) (-1074);
          sig = (if q \<le> e then m * 2 ^ nat (e - q) else round_half_even m (nat (q - e)));
          mag = nat (q + 1074) * 2 ^ 52 + sig;
          sign = (if neg then 2 ^ 63 else 0)
      in if m = 0 then of_nat sign
         else if 2047 * 2 ^ 52 \<le> mag then f64_inf neg
         else of_nat (sign + mag))"

section \<open>Operations\<close>

definition f64_mul :: "f64 \<Rightarrow> f64 \<Rightarrow> f64" where
  "f64_mul a b =
     (let neg = (f64_neg a \<noteq> f64_neg b)
      in if f64_is_nan a \<or> f64_is_nan b then f64_nan
         else if f64_is_inf a \<or> f64_is_inf b
           then (if f64_mag a = 0 \<or> f64_mag b = 0 then f64_nan else f64_inf neg)
         else f64_round neg (f64_mant a * f64_mant b) (f64_scale a + f64_scale b))"

text \<open>Position of a value on the line, the same for both zeros.\<close>

definition f64_key :: "f64 \<Rightarrow> int" where
  "f64_key w = (if f64_neg w then - int (f64_mag w) else int (f64_mag w))"

definition f64_lt :: "f64 \<Rightarrow> f64 \<Rightarrow> bool" where
  "f64_lt a b = (\<not> f64_is_nan a \<and> \<not> f64_is_nan b \<and> f64_key a < f64_key b)"

definition f64_le :: "f64 \<Rightarrow> f64 \<Rightarrow> bool" where
  "f64_le a b = (\<not> f64_is_nan a \<and> \<not> f64_is_nan b \<and> f64_key a \<le> f64_key b)"

definition f64_eq :: "f64 \<Rightarrow> f64 \<Rightarrow> bool" where
  "f64_eq a b = (\<not> f64_is_nan a \<and> \<not> f64_is_nan b \<and> f64_key a = f64_key b)"

text \<open>Conversions: \<open>n as f64\<close> and \<open>f64::from(n)\<close>, then \<open>x as u64\<close> and \<open>x as i64\<close>.\<close>

definition f64_of_nat :: "nat \<Rightarrow> f64" where
  "f64_of_nat n = f64_round False n 0"

definition f64_of_int :: "int \<Rightarrow> f64" where
  "f64_of_int i = f64_round (i < 0) (nat \<bar>i\<bar>) 0"

definition f64_trunc_abs :: "f64 \<Rightarrow> nat" where
  "f64_trunc_abs w =
     (if f64_scale w < 0 then f64_mant w div 2 ^ nat (- f64_scale w)
      else f64_mant w * 2 ^ nat (f64_scale w))"

definition f64_as_u64 :: "f64 \<Rightarrow> u64" where
  "f64_as_u64 w =
     (if f64_is_nan w \<or> f64_neg w then 0
      else if f64_is_inf w then 0xFFFFFFFFFFFFFFFF
      else of_nat (min (f64_trunc_abs w) (2 ^ 64 - 1)))"

definition f64_as_i64 :: "f64 \<Rightarrow> int" where
  "f64_as_i64 w =
     (if f64_is_nan w then 0
      else if f64_neg w
        then (if f64_is_inf w then - (2 ^ 63) else max (- int (f64_trunc_abs w)) (- (2 ^ 63)))
      else (if f64_is_inf w then 2 ^ 63 - 1 else min (int (f64_trunc_abs w)) (2 ^ 63 - 1)))"

section \<open>Lemmas\<close>

lemma f64_lt_irrefl [simp]: "\<not> f64_lt a a"
  by (simp add: f64_lt_def)

lemma f64_lt_asym: "f64_lt a b \<Longrightarrow> \<not> f64_lt b a"
  by (simp add: f64_lt_def)

lemma f64_lt_trans: "f64_lt a b \<Longrightarrow> f64_lt b c \<Longrightarrow> f64_lt a c"
  by (simp add: f64_lt_def)

lemma f64_eq_sym: "f64_eq a b \<longleftrightarrow> f64_eq b a"
  by (auto simp: f64_eq_def)

lemma f64_eq_trans: "f64_eq a b \<Longrightarrow> f64_eq b c \<Longrightarrow> f64_eq a c"
  by (simp add: f64_eq_def)

lemma f64_eq_refl: "\<not> f64_is_nan a \<Longrightarrow> f64_eq a a"
  by (simp add: f64_eq_def)

lemma f64_as_i64_range: "- (2 ^ 63) \<le> f64_as_i64 w \<and> f64_as_i64 w < 2 ^ 63"
  by (auto simp: f64_as_i64_def)

section \<open>Small integers\<close>

lemma bit_len_0 [simp]: "bit_len 0 = 0"
  by (simp add: bit_len.simps)

lemma bit_len_pos: "0 < n \<Longrightarrow> bit_len n = Suc (bit_len (n div 2))"
  by (simp add: bit_len.simps)

lemma bit_len_upper: "n < 2 ^ bit_len n"
proof (induction n rule: bit_len.induct)
  case (1 n)
  show ?case
  proof (cases "n = 0")
    case False
    with 1 have "n div 2 < 2 ^ bit_len (n div 2)" by simp
    then show ?thesis using False by (simp add: bit_len_pos)
  qed simp
qed

lemma bit_len_lower: "0 < n \<Longrightarrow> 2 ^ bit_len n \<le> 2 * n"
proof (induction n rule: bit_len.induct)
  case (1 n)
  show ?case
  proof (cases "n = 1")
    case True
    then show ?thesis by (simp add: bit_len_pos)
  next
    case False
    with 1 have "2 ^ bit_len (n div 2) \<le> 2 * (n div 2)" by simp
    then show ?thesis using 1(2) by (simp add: bit_len_pos)
  qed
qed

lemma bit_len_le: "n < 2 ^ k \<Longrightarrow> bit_len n \<le> k"
proof -
  assume "n < 2 ^ k"
  show ?thesis
  proof (cases "n = 0")
    case False
    then have "(2 :: nat) ^ bit_len n < 2 ^ Suc k" using bit_len_lower [of n] \<open>n < 2 ^ k\<close> by simp
    then show ?thesis using power_less_imp_less_exp [of "2 :: nat" "bit_len n" "Suc k"] by simp
  qed simp
qed

text \<open>The bit pattern of a positive integer below \<open>2 ^ 53\<close>, which is exact.\<close>

definition small_mag :: "nat \<Rightarrow> nat" where
  "small_mag n = (if n = 0 then 0 else (bit_len n + 1021) * 2 ^ 52 + n * 2 ^ (53 - bit_len n))"

lemma small_mag_bounds:
  assumes "0 < n" "n < 2 ^ 53"
  shows "(bit_len n + 1022) * 2 ^ 52 \<le> small_mag n" "small_mag n < (bit_len n + 1023) * 2 ^ 52"
proof -
  let ?k = "53 - bit_len n"
  have bl: "bit_len n \<le> 53" "bit_len n + ?k = 53" using bit_len_le [OF assms(2)] by auto
  have "2 ^ bit_len n * 2 ^ ?k \<le> 2 * n * 2 ^ ?k" using bit_len_lower [OF assms(1)] by (rule mult_right_mono) simp
  then have lo: "2 ^ 52 \<le> n * 2 ^ ?k" by (simp add: power_add [symmetric] bl(2))
  have "n * 2 ^ ?k < 2 ^ bit_len n * 2 ^ ?k" using bit_len_upper [of n] by simp
  then have hi: "n * 2 ^ ?k < 2 ^ 53" by (simp add: power_add [symmetric] bl(2))
  show "(bit_len n + 1022) * 2 ^ 52 \<le> small_mag n" using lo assms(1) by (simp add: small_mag_def algebra_simps)
  show "small_mag n < (bit_len n + 1023) * 2 ^ 52" using hi assms(1) by (simp add: small_mag_def algebra_simps)
qed

lemma small_mag_less: "n < 2 ^ 53 \<Longrightarrow> small_mag n < 1076 * 2 ^ 52"
proof (cases "n = 0")
  case False
  assume n: "n < 2 ^ 53"
  have "(bit_len n + 1023) * 2 ^ 52 \<le> 1076 * (2 ^ 52 :: nat)" using bit_len_le [OF n] by simp
  then show ?thesis using small_mag_bounds(2) [of n] False n by simp
qed (simp add: small_mag_def)

lemma f64_of_nat_small:
  assumes "n < 2 ^ 53"
  shows "f64_of_nat n = of_nat (small_mag n)"
proof (cases "n = 0")
  case False
  have bl: "bit_len n \<le> 53" by (rule bit_len_le [OF assms])
  define q where "q = max (int (bit_len n) - 53) (-1074)"
  have q: "q = int (bit_len n) - 53" "q \<le> 0" "nat (- q) = 53 - bit_len n" "nat (q + 1074) = bit_len n + 1021"
    using bl by (auto simp: q_def)
  have "small_mag n < 2047 * 2 ^ 52" using small_mag_less [OF assms] by simp
  then show ?thesis using False q
    by (simp add: f64_of_nat_def f64_round_def Let_def small_mag_def flip: q_def)
qed (simp add: small_mag_def f64_of_nat_def f64_round_def)

lemma f64_small_sel:
  assumes "n < 2 ^ 53"
  shows "f64_key (f64_of_nat n) = int (small_mag n)" "\<not> f64_is_nan (f64_of_nat n)"
proof -
  have m: "small_mag n < 2 ^ 63" "small_mag n div 2 ^ 52 < 2047" using small_mag_less [OF assms] by simp_all
  then have "unat (of_nat (small_mag n) :: f64) = small_mag n"
    by (simp add: unat_of_nat take_bit_eq_mod)
  with m show "f64_key (f64_of_nat n) = int (small_mag n)" "\<not> f64_is_nan (f64_of_nat n)"
    by (simp_all add: f64_of_nat_small [OF assms] f64_key_def f64_neg_def f64_mag_def f64_is_nan_def f64_exp_def)
qed

lemma small_mag_mono:
  assumes "m < n" "n < 2 ^ 53"
  shows "small_mag m < small_mag n"
proof (cases "m = 0")
  case True
  then show ?thesis using small_mag_bounds(1) [of n] assms by (simp add: small_mag_def)
next
  case False
  have bl: "bit_len m \<le> bit_len n"
    using bit_len_le [of m "bit_len n"] bit_len_upper [of n] assms(1) by simp
  show ?thesis
  proof (cases "bit_len m = bit_len n")
    case True
    then show ?thesis using assms False by (simp add: small_mag_def)
  next
    case ne: False
    have "small_mag m < (bit_len m + 1023) * 2 ^ 52" using small_mag_bounds(2) [of m] False assms by simp
    also have "\<dots> \<le> (bit_len n + 1022) * 2 ^ 52" using bl ne by simp
    also have "\<dots> \<le> small_mag n" using small_mag_bounds(1) [of n] assms by simp
    finally show ?thesis .
  qed
qed

lemma f64_lt_small: "m < 2 ^ 53 \<Longrightarrow> n < 2 ^ 53 \<Longrightarrow> f64_lt (f64_of_nat m) (f64_of_nat n) \<longleftrightarrow> m < n"
  using small_mag_mono [of m n] small_mag_mono [of n m]
  by (cases m n rule: linorder_cases) (auto simp: f64_lt_def f64_small_sel)

lemma bit_len_between: "2 ^ k \<le> n \<Longrightarrow> n < 2 ^ Suc k \<Longrightarrow> bit_len n = Suc k"
proof (rule antisym)
  assume "2 ^ k \<le> n"
  then have "(2 :: nat) ^ k < 2 ^ bit_len n" using bit_len_upper [of n] by (rule order.strict_trans1)
  then show "Suc k \<le> bit_len n" by simp
qed (rule bit_len_le)

lemma f64_two_53: "f64_of_nat (2 ^ 53 + 1) = f64_of_nat (2 ^ 53)"
proof -
  have "bit_len (2 ^ 53 + 1) = 54" "bit_len (2 ^ 53) = 54"
    using bit_len_between [of 53 "2 ^ 53 + 1"] bit_len_between [of 53 "2 ^ 53"] by simp_all
  moreover have "round_half_even (2 ^ 53 + 1) 1 = round_half_even (2 ^ 53) 1"
    by (simp add: round_half_even_def Let_def)
  ultimately show ?thesis by (simp add: f64_of_nat_def f64_round_def Let_def)
qed

end
