(* ===== verification/Json.thy ===== *)
theory Json
  imports Float64
begin

text \<open>
  JSON documents as the program handles them: \<open>serde_json::Value\<close> with its numbers (an
  unsigned, a negative or a floating-point number) and objects as the entries of the ordered
  map, in key order. \<open>json_eq\<close> is the \<open>==\<close> of values, which compares floats as IEEE numbers.
  The dot-path lookups of \<open>observation.rs\<close> (\<open>jsonpath_get\<close>) and \<open>engine.rs\<close> (\<open>get_path\<close>) and
  the argument references of \<open>engine.rs\<close> (\<open>resolve_value\<close>) are defined here.
\<close>

section \<open>Values\<close>

datatype number = PosInt u64 | NegInt i64 | Float f64

datatype json =
    JNull
  | JBool bool
  | JNumber number
  | JString string
  | JArray "json list"
  | JObject "(string \<times> json) list"

fun number_eq :: "number \<Rightarrow> number \<Rightarrow> bool" where
  "number_eq (PosInt a) (PosInt b) = (a = b)"
| "number_eq (NegInt a) (NegInt b) = (a = b)"
| "number_eq (Float a) (Float b) = f64_eq a b"
| "number_eq _ _ = False"

fun json_eq :: "json \<Rightarrow> json \<Rightarrow> bool"
and json_list_eq :: "json list \<Rightarrow> json list \<Rightarrow> bool"
and json_entries_eq :: "(string \<times> json) list \<Rightarrow> (string \<times> json) list \<Rightarrow> bool" where
  "json_eq JNull JNull = True"
| "json_eq (JBool a) (JBool b) = (a = b)"
| "json_eq (JNumber a) (JNumber b) = number_eq a b"
| "json_eq (JString a) (JString b) = (a = b)"
| "json_eq (JArray a) (JArray b) = json_list_eq a b"
| "json_eq (JObject a) (JObject b) = json_entries_eq a b"
| "json_eq _ _ = False"
| "json_list_eq [] [] = True"
| "json_list_eq (x # xs) (y # ys) = (json_eq x y \<and> json_list_eq xs ys)"
| "json_list_eq _ _ = False"
| "json_entries_eq [] [] = True"
| "json_entries_eq ((k, x) # xs) ((l, y) # ys) = (k = l \<and> json_eq x y \<and> json_entries_eq xs ys)"
| "json_entries_eq _ _ = False"

text \<open>\<open>Value::as_str\<close>, and inserting into an object, which keeps its entries in key order.\<close>

fun as_str :: "json \<Rightarrow> string option" where
  "as_str (JString s) = Some s"
| "as_str _ = None"

fun obj_insert :: "string \<Rightarrow> json \<Rightarrow> (string \<times> json) list \<Rightarrow> (string \<times> json) list" where
  "obj_insert k v [] = [(k, v)]"
| "obj_insert k v ((l, w) # es) =
     (if k = l then (k, v) # es
      else if str_less k l then (k, v) # (l, w) # es
      else (l, w) # obj_insert k v es)"

text \<open>The \<open>json!({...})\<close> literal: its keys inserted one after the other.\<close>

definition json_object :: "(string \<times> json) list \<Rightarrow> json" where
  "json_object kvs = JObject (fold (\<lambda>(k, v) es. obj_insert k v es) kvs [])"

section \<open>Path lookup\<close>

definition usize_max :: nat where
  "usize_max = 2 ^ 64 - 1"

text \<open>One step of the lookup loop: the value a segment selects in the current value.\<close>

definition path_step :: "json \<Rightarrow> string \<Rightarrow> json option" where
  "path_step current seg =
     (case (current, parse_uint usize_max seg) of
        (JObject obj, _) \<Rightarrow> map_of obj seg
      | (JArray arr, Some idx) \<Rightarrow> if idx < length arr then Some (arr ! idx) else None
      | _ \<Rightarrow> None)"

fun get_segments :: "json \<Rightarrow> string list \<Rightarrow> json option" where
  "get_segments current [] = Some current"
| "get_segments current (seg # segs) =
     (case path_step current seg of None \<Rightarrow> None | Some v \<Rightarrow> get_segments v segs)"

definition get_path :: "json \<Rightarrow> string \<Rightarrow> json option" where
  "get_path v path = get_segments v (split_on CHR ''.'' path)"

text \<open>The same loop in \<open>observation.rs\<close>.\<close>

definition jsonpath_get :: "json \<Rightarrow> string \<Rightarrow> json option" where
  "jsonpath_get v path = get_segments v (split_on CHR ''.'' path)"

section \<open>References to the action's arguments\<close>

definition resolve_value :: "json \<Rightarrow> json \<Rightarrow> json" where
  "resolve_value v args =
     (case as_str v of
        None \<Rightarrow> v
      | Some s \<Rightarrow>
          (case strip_prefix_str ''$args.'' s of
             None \<Rightarrow> v
           | Some key \<Rightarrow> (case get_path args key of None \<Rightarrow> v | Some w \<Rightarrow> w)))"

section \<open>Lemmas\<close>

text \<open>A value without NaN, as every value read from JSON text is.\<close>

fun number_ok :: "number \<Rightarrow> bool" where
  "number_ok (Float f) = (\<not> f64_is_nan f)"
| "number_ok _ = True"

fun json_ok :: "json \<Rightarrow> bool" where
  "json_ok (JNumber n) = number_ok n"
| "json_ok (JArray vs) = list_all json_ok vs"
| "json_ok (JObject es) = list_all (\<lambda>e. json_ok (snd e)) es"
| "json_ok _ = True"

lemma number_eq_refl: "number_ok n \<Longrightarrow> number_eq n n"
  by (cases n) (auto simp: f64_eq_refl)

lemma number_eq_sym: "number_eq a b = number_eq b a"
  by (cases a; cases b) (auto simp: f64_eq_sym)

lemma json_list_eq_refl: "(\<And>x. x \<in> set vs \<Longrightarrow> json_eq x x) \<Longrightarrow> json_list_eq vs vs"
  by (induction vs) auto

lemma json_entries_eq_refl: "(\<And>e. e \<in> set es \<Longrightarrow> json_eq (snd e) (snd e)) \<Longrightarrow> json_entries_eq es es"
proof (induction es)
  case (Cons e es)
  from Cons.prems [of e] Cons show ?case by (cases e) simp
qed simp

lemma json_eq_refl: "json_ok v \<Longrightarrow> json_eq v v"
proof (induction v)
  case (JArray vs)
  then show ?case by (auto simp: list_all_iff intro: json_list_eq_refl)
next
  case (JObject es)
  then show ?case
    by (auto simp: list_all_iff intro!: json_entries_eq_refl)
qed (auto simp: number_eq_refl)

lemma split_on_append_sep: "split_on c (p @ c # q) = split_on c p @ split_on c q"
proof (induction p)
  case Nil
  show ?case by simp
next
  case (Cons x p)
  obtain s ss where "split_on c p = s # ss"
    by (cases "split_on c p") auto
  with Cons show ?case by simp
qed

lemma get_segments_append:
  "get_segments v (xs @ ys) =
   (case get_segments v xs of None \<Rightarrow> None | Some w \<Rightarrow> get_segments w ys)"
  by (induction v xs rule: get_segments.induct) (auto split: option.splits)

lemma get_path_append:
  "get_path v (p @ CHR ''.'' # q) = (case get_path v p of None \<Rightarrow> None | Some w \<Rightarrow> get_path w q)"
  by (simp add: get_path_def split_on_append_sep get_segments_append split: option.split)

lemma jsonpath_get_eq_get_path: "jsonpath_get = get_path"
  by (simp add: fun_eq_iff jsonpath_get_def get_path_def)

lemma path_step_scalar [simp]:
  "path_step JNull s = None" "path_step (JBool b) s = None"
  "path_step (JNumber n) s = None" "path_step (JString t) s = None"
  by (simp_all add: path_step_def)

lemma path_step_object [simp]: "path_step (JObject es) s = map_of es s"
  by (simp add: path_step_def)

lemma path_step_array:
  "path_step (JArray vs) s =
   (case parse_uint usize_max s of
      None \<Rightarrow> None | Some i \<Rightarrow> if i < length vs then Some (vs ! i) else None)"
  by (simp add: path_step_def split: option.splits)

text \<open>No path, not even the empty one, names anything in a value that is not a container.\<close>

lemma get_path_scalar: "(\<And>s. path_step v s = None) \<Longrightarrow> get_path v p = None"
  by (cases "split_on CHR ''.'' p") (auto simp: get_path_def)

lemma map_of_obj_insert: "map_of (obj_insert k v es) = (map_of es)(k \<mapsto> v)"
  by (induction k v es rule: obj_insert.induct) auto

lemma resolve_value_no_ref:
  "as_str v = None \<or> (\<exists>s. as_str v = Some s \<and> strip_prefix_str ''$args.'' s = None) \<Longrightarrow>
   resolve_value v args = v"
  by (auto simp: resolve_value_def)

lemma resolve_value_ref:
  "get_path args key = Some w \<Longrightarrow> resolve_value (JString (''$args.'' @ key)) args = w"
  by (simp add: resolve_value_def)

section \<open>Properties\<close>

text \<open>
  The two dotted-path lookups of the program (the predicate engine's
  \<open>get_path\<close> and the observation's \<open>jsonpath_get\<close>) are one function, and it is compositional:
  looking up \<open>p.q\<close> looks up \<open>q\<close> in what \<open>p\<close> names, and fails when \<open>p\<close> does. This holds for
  every \<open>p\<close> and \<open>q\<close>, dots and empty segments included.
\<close>

theorem path_lookup_compositional:
  "jsonpath_get v (p @ ''.'' @ q) = Option.bind (get_path v p) (\<lambda>w. jsonpath_get w q)"
  by (simp add: jsonpath_get_eq_get_path get_path_append split: option.split)

end
