(* ===== verification/Core_Types.thy ===== *)
theory Core_Types
  imports Json
begin

text \<open>
  The plain data of \<open>agentverify-core\<close>: identifiers, actions, observations and their evidence,
  and verification results. Identifiers are UUIDs and timestamps are instants; the program only
  compares and prints them, so a UUID is a 128-bit word and an instant an integer. What
  \<open>Uuid::new_v4\<close> and \<open>Utc::now\<close> return is an argument of the constructors that call them.
\<close>

type_synonym uuid = "128 word"
type_synonym action_id = uuid
type_synonym contract_id = uuid
type_synonym receipt_id = uuid
type_synonym datetime = int

text \<open>\<open>chrono::Duration\<close>: a signed span of time, in nanoseconds.\<close>

type_synonym duration = int

text \<open>The identifiers wrap a UUID, which they print.\<close>

definition new_action_id :: "uuid \<Rightarrow> action_id" where
  "new_action_id fresh = fresh"

definition new_contract_id :: "uuid \<Rightarrow> contract_id" where
  "new_contract_id fresh = fresh"

definition new_receipt_id :: "uuid \<Rightarrow> receipt_id" where
  "new_receipt_id fresh = fresh"

definition show_action_id :: "(uuid \<Rightarrow> string) \<Rightarrow> action_id \<Rightarrow> string" where
  "show_action_id show_uuid i = show_uuid i"

definition show_contract_id :: "(uuid \<Rightarrow> string) \<Rightarrow> contract_id \<Rightarrow> string" where
  "show_contract_id show_uuid i = show_uuid i"

definition show_receipt_id :: "(uuid \<Rightarrow> string) \<Rightarrow> receipt_id \<Rightarrow> string" where
  "show_receipt_id show_uuid i = show_uuid i"

section \<open>Verification results\<close>

datatype verification_result = Verified | Failed | Unknown | Partial | Duplicate

fun is_success :: "verification_result \<Rightarrow> bool" where
  "is_success Verified = True"
| "is_success Duplicate = True"
| "is_success _ = False"

fun is_failure :: "verification_result \<Rightarrow> bool" where
  "is_failure Failed = True"
| "is_failure Partial = True"
| "is_failure _ = False"

fun is_unknown :: "verification_result \<Rightarrow> bool" where
  "is_unknown Unknown = True"
| "is_unknown _ = False"

definition can_retry_without_verify :: "verification_result \<Rightarrow> bool" where
  "can_retry_without_verify r = False"

text \<open>The \<open>Display\<close> of a result, which stores and receipts use as its name.\<close>

fun show_result :: "verification_result \<Rightarrow> string" where
  "show_result Verified = ''verified''"
| "show_result Failed = ''failed''"
| "show_result Unknown = ''unknown''"
| "show_result Partial = ''partial''"
| "show_result Duplicate = ''duplicate''"

section \<open>Actions\<close>

text \<open>\<open>IdempotencyKey\<close> wraps a string.\<close>

type_synonym idempotency_key = string

record action =
  act_id :: action_id
  act_name :: string
  arguments :: json
  act_idempotency_key :: "idempotency_key option"
  act_created_at :: datetime

definition new_idempotency_key :: "string \<Rightarrow> idempotency_key" where
  "new_idempotency_key key = key"

definition new_action :: "uuid \<Rightarrow> datetime \<Rightarrow> string \<Rightarrow> json \<Rightarrow> action" where
  "new_action uid now name args =
     \<lparr>act_id = uid, act_name = name, arguments = args, act_idempotency_key = None,
      act_created_at = now\<rparr>"

definition with_idempotency ::
  "uuid \<Rightarrow> datetime \<Rightarrow> string \<Rightarrow> json \<Rightarrow> idempotency_key \<Rightarrow> action" where
  "with_idempotency uid now name args key =
     \<lparr>act_id = uid, act_name = name, arguments = args, act_idempotency_key = Some key,
      act_created_at = now\<rparr>"

text \<open>\<open>IdempotencyKey::from_action_id\<close>, over the \<open>Display\<close> of UUIDs.\<close>

definition from_action_id :: "(uuid \<Rightarrow> string) \<Rightarrow> action_id \<Rightarrow> idempotency_key" where
  "from_action_id show_uuid i = ''av_'' @ show_uuid i"

section \<open>Observations\<close>

type_synonym source_id = string

record evidence =
  ev_source :: string
  ev_data :: json
  ev_timestamp :: datetime

record observation =
  obs_source :: source_id
  obs_timestamp :: datetime
  obs_state :: json
  obs_evidence :: "evidence list"

definition new_evidence :: "datetime \<Rightarrow> string \<Rightarrow> json \<Rightarrow> evidence" where
  "new_evidence now src d = \<lparr>ev_source = src, ev_data = d, ev_timestamp = now\<rparr>"

definition new_observation :: "datetime \<Rightarrow> source_id \<Rightarrow> json \<Rightarrow> observation" where
  "new_observation now src st =
     \<lparr>obs_source = src, obs_timestamp = now, obs_state = st, obs_evidence = []\<rparr>"

definition with_evidence :: "evidence \<Rightarrow> observation \<Rightarrow> observation" where
  "with_evidence e obs = obs\<lparr>obs_evidence := obs_evidence obs @ [e]\<rparr>"

definition observation_get :: "observation \<Rightarrow> string \<Rightarrow> json option" where
  "observation_get obs path = jsonpath_get (obs_state obs) path"

section \<open>Lemmas\<close>

lemma show_result_inject [simp]: "show_result a = show_result b \<longleftrightarrow> a = b"
  by (cases a; cases b) simp_all

lemma result_trichotomy:
  "is_success r \<and> \<not> is_failure r \<and> \<not> is_unknown r \<or>
   \<not> is_success r \<and> is_failure r \<and> \<not> is_unknown r \<or>
   \<not> is_success r \<and> \<not> is_failure r \<and> is_unknown r"
  by (cases r) simp_all

lemma from_action_id_inject:
  "inj show_uuid \<Longrightarrow> from_action_id show_uuid i = from_action_id show_uuid j \<longleftrightarrow> i = j"
  by (auto simp: from_action_id_def dest: injD)

end
