(* ===== verification/State_Machine.thy ===== *)
theory State_Machine
  imports Core_Types
begin

text \<open>
  The lifecycle of an action (\<open>agentverify-core/src/state_machine.rs\<close>): the seventeen states,
  the terminal states, the table of successors, the checked transition, and the machine that
  holds the current state. The runs of a machine are an inductive relation over \<open>advance\<close>; a
  rank that falls with every accepted transition bounds their length, and the reachable states
  are computed exactly.
\<close>

section \<open>States and transitions\<close>

datatype lifecycle =
    Proposed | Validating | Rejected | Authorized | Executing | Executed | Failed_st | Timeout
  | Unknown_st | Observing | Verifying | Verified_st | VerificationFailed | Recovering
  | Recovered | Escalated | Committed

datatype state_error = InvalidTransition lifecycle lifecycle | TerminalState lifecycle

fun show_lifecycle :: "lifecycle \<Rightarrow> string" where
  "show_lifecycle Proposed = ''proposed''"
| "show_lifecycle Validating = ''validating''"
| "show_lifecycle Rejected = ''rejected''"
| "show_lifecycle Authorized = ''authorized''"
| "show_lifecycle Executing = ''executing''"
| "show_lifecycle Executed = ''executed''"
| "show_lifecycle Failed_st = ''failed''"
| "show_lifecycle Timeout = ''timeout''"
| "show_lifecycle Unknown_st = ''unknown''"
| "show_lifecycle Observing = ''observing''"
| "show_lifecycle Verifying = ''verifying''"
| "show_lifecycle Verified_st = ''verified''"
| "show_lifecycle VerificationFailed = ''verification_failed''"
| "show_lifecycle Recovering = ''recovering''"
| "show_lifecycle Recovered = ''recovered''"
| "show_lifecycle Escalated = ''escalated''"
| "show_lifecycle Committed = ''committed''"

fun show_state_error :: "state_error \<Rightarrow> string" where
  "show_state_error (InvalidTransition a b) =
     ''Invalid transition from '' @ show_lifecycle a @ '' to '' @ show_lifecycle b"
| "show_state_error (TerminalState s) = ''Action is in terminal state '' @ show_lifecycle s"

definition is_terminal :: "lifecycle \<Rightarrow> bool" where
  "is_terminal s = (s \<in> {Committed, Rejected, Escalated, VerificationFailed})"

fun valid_transitions :: "lifecycle \<Rightarrow> lifecycle list" where
  "valid_transitions Proposed = [Validating]"
| "valid_transitions Validating = [Authorized, Rejected]"
| "valid_transitions Authorized = [Executing]"
| "valid_transitions Executing = [Executed, Failed_st, Timeout, Unknown_st]"
| "valid_transitions Executed = [Observing]"
| "valid_transitions Timeout = [Observing]"
| "valid_transitions Unknown_st = [Observing]"
| "valid_transitions Failed_st = [Verifying]"
| "valid_transitions Observing = [Verifying]"
| "valid_transitions Recovered = [Verifying]"
| "valid_transitions Verifying = [Verified_st, VerificationFailed]"
| "valid_transitions Verified_st = [Committed]"
| "valid_transitions VerificationFailed = [Recovering]"
| "valid_transitions Recovering = [Recovered, Escalated]"
| "valid_transitions Rejected = []"
| "valid_transitions Escalated = []"
| "valid_transitions Committed = []"

definition transition :: "lifecycle \<Rightarrow> lifecycle \<Rightarrow> state_error + lifecycle" where
  "transition s next =
     (if is_terminal s then Inl (TerminalState s)
      else if next \<in> set (valid_transitions s) then Inr next
      else Inl (InvalidTransition s next))"

section \<open>The machine\<close>

record state_machine =
  sm_state :: lifecycle

definition new_machine :: state_machine where
  "new_machine = \<lparr>sm_state = Proposed\<rparr>"

definition with_state :: "lifecycle \<Rightarrow> state_machine" where
  "with_state s = \<lparr>sm_state = s\<rparr>"

definition current :: "state_machine \<Rightarrow> lifecycle" where
  "current m = sm_state m"

text \<open>\<open>advance\<close> returns its result and the machine after the call.\<close>

definition advance :: "state_machine \<Rightarrow> lifecycle \<Rightarrow> (state_error + lifecycle) \<times> state_machine" where
  "advance m next =
     (case transition (sm_state m) next of
        Inl e \<Rightarrow> (Inl e, m)
      | Inr s \<Rightarrow> (Inr s, m\<lparr>sm_state := s\<rparr>))"

section \<open>Runs\<close>

inductive sm_step :: "lifecycle \<Rightarrow> lifecycle \<Rightarrow> bool" where
  step: "fst (advance m s) = Inr t \<Longrightarrow> sm_step (sm_state m) (sm_state (snd (advance m s)))"

inductive sm_run :: "lifecycle \<Rightarrow> nat \<Rightarrow> lifecycle \<Rightarrow> bool" where
  start: "sm_run s 0 s"
| extend: "sm_run s n t \<Longrightarrow> sm_step t u \<Longrightarrow> sm_run s (Suc n) u"

text \<open>A bound on the accepted transitions that can still follow a state.\<close>

fun rank :: "lifecycle \<Rightarrow> nat" where
  "rank Proposed = 8"
| "rank Validating = 7"
| "rank Authorized = 6"
| "rank Executing = 5"
| "rank Executed = 4"
| "rank Timeout = 4"
| "rank Unknown_st = 4"
| "rank Failed_st = 3"
| "rank Observing = 3"
| "rank Recovering = 4"
| "rank Recovered = 3"
| "rank Verifying = 2"
| "rank Verified_st = 1"
| "rank VerificationFailed = 1"
| "rank Rejected = 1"
| "rank Escalated = 0"
| "rank Committed = 0"

definition reachable_states :: "lifecycle set" where
  "reachable_states =
     {Proposed, Validating, Rejected, Authorized, Executing, Executed, Failed_st, Timeout,
      Unknown_st, Observing, Verifying, Verified_st, VerificationFailed, Committed}"

section \<open>Lemmas\<close>

lemma transition_ok_iff:
  "transition s t = Inr u \<longleftrightarrow> u = t \<and> \<not> is_terminal s \<and> t \<in> set (valid_transitions s)"
  by (auto simp: transition_def)

lemma transition_accepted [simp]: 
  "\<not> is_terminal s \<Longrightarrow> t \<in> set (valid_transitions s) \<Longrightarrow> transition s t = Inr t"
  by (simp add: transition_ok_iff)

lemma advance_simps:
  "fst (advance m t) = transition (sm_state m) t"
  "sm_state (snd (advance m t)) = (case transition (sm_state m) t of Inl _ \<Rightarrow> sm_state m | Inr s \<Rightarrow> s)"
  by (simp_all add: advance_def split: sum.splits)

lemma sm_step_iff: "sm_step s t \<longleftrightarrow> \<not> is_terminal s \<and> t \<in> set (valid_transitions s)"
proof
  assume "sm_step s t"
  then show "\<not> is_terminal s \<and> t \<in> set (valid_transitions s)"
    by cases (auto simp: advance_simps transition_ok_iff)
next
  assume *: "\<not> is_terminal s \<and> t \<in> set (valid_transitions s)"
  then have "fst (advance (with_state s) t) = Inr t"
    by (simp add: advance_simps with_state_def)
  from sm_step.step [OF this] * show "sm_step s t"
    by (simp add: advance_simps with_state_def)
qed

lemma rank_step: "sm_step s t \<Longrightarrow> rank t < rank s"
  by (cases s) (auto simp: sm_step_iff is_terminal_def)

lemma rank_run: "sm_run s n t \<Longrightarrow> rank t + n \<le> rank s"
  by (induction rule: sm_run.induct) (auto dest: rank_step)

lemma sm_run_step: "sm_step s t \<Longrightarrow> sm_run s 1 t"
  using sm_run.extend [OF sm_run.start] by simp

lemma sm_run_trans: "sm_run s m t \<Longrightarrow> sm_run t n u \<Longrightarrow> sm_run s (m + n) u"
  by (rotate_tac, induction rule: sm_run.induct) (auto intro: sm_run.extend)

lemma sm_step_reachable: "s \<in> reachable_states \<Longrightarrow> sm_step s t \<Longrightarrow> t \<in> reachable_states"
  by (cases s) (auto simp: reachable_states_def sm_step_iff is_terminal_def)

lemma sm_run_reachable: "sm_run s n t \<Longrightarrow> s \<in> reachable_states \<Longrightarrow> t \<in> reachable_states"
  by (induction rule: sm_run.induct) (auto intro: sm_step_reachable)

lemma run_to: "sm_run s n t \<Longrightarrow> sm_step t u \<Longrightarrow> \<exists>m. sm_run s m u"
  by (blast intro: sm_run.extend)

text \<open>The one rule that carries a run along the table of successors.\<close>

lemma runs_along:
  assumes "\<exists>n. sm_run Proposed n s" "\<not> is_terminal s" "t \<in> set (valid_transitions s)"
  shows "\<exists>n. sm_run Proposed n t"
  using assms run_to by (auto simp: sm_step_iff)

lemma reachable_states_reached:
  assumes "t \<in> reachable_states"
  shows "\<exists>n. sm_run Proposed n t"
proof -
  have p: "\<exists>n. sm_run Proposed n Proposed" by (blast intro: sm_run.start)
  have v: "\<exists>n. sm_run Proposed n Validating" by (rule runs_along [OF p]) (simp_all add: is_terminal_def)
  have a: "\<exists>n. sm_run Proposed n Authorized" by (rule runs_along [OF v]) (simp_all add: is_terminal_def)
  have x: "\<exists>n. sm_run Proposed n Executing" by (rule runs_along [OF a]) (simp_all add: is_terminal_def)
  have d: "\<exists>n. sm_run Proposed n Executed" by (rule runs_along [OF x]) (simp_all add: is_terminal_def)
  have o: "\<exists>n. sm_run Proposed n Observing" by (rule runs_along [OF d]) (simp_all add: is_terminal_def)
  have f: "\<exists>n. sm_run Proposed n Verifying" by (rule runs_along [OF o]) (simp_all add: is_terminal_def)
  have g: "\<exists>n. sm_run Proposed n Verified_st" by (rule runs_along [OF f]) (simp_all add: is_terminal_def)
  from assms p v a x d o f g runs_along [OF v, of Rejected] runs_along [OF x, of Failed_st]
    runs_along [OF x, of Timeout] runs_along [OF x, of Unknown_st]
    runs_along [OF f, of VerificationFailed] runs_along [OF g, of Committed]
  show ?thesis by (auto simp: reachable_states_def is_terminal_def)
qed

section \<open>Properties\<close>

text \<open>
  Property C26 (invariant): the states that a machine started in \<open>Proposed\<close> can be driven into
  are exactly the fourteen states of \<open>reachable_states\<close>. \<open>Recovering\<close>, \<open>Recovered\<close> and
  \<open>Escalated\<close> are not among them, although \<open>valid_transitions\<close> lists \<open>Recovering\<close> after
  \<open>VerificationFailed\<close>: \<open>transition\<close> refuses to leave that terminal state.
\<close>

theorem reachable_exactly:
  "{t. \<exists>n. sm_run (sm_state new_machine) n t} = reachable_states"
proof -
  have "Proposed \<in> reachable_states" by (simp add: reachable_states_def)
  then show ?thesis
    using reachable_states_reached sm_run_reachable by (auto simp: new_machine_def)
qed

text \<open>
  Whatever a caller asks for, a new machine accepts at most eight
  transitions, and one that has accepted eight is in \<open>Committed\<close>.
\<close>

theorem lifecycle_bounded:
  assumes "sm_run (sm_state new_machine) n t"
  shows "n \<le> 8 \<and> (n = 8 \<longrightarrow> t = Committed)"
proof -
  have le: "rank t + n \<le> 8" using rank_run [OF assms] by (simp add: new_machine_def)
  have "t \<in> reachable_states"
    using assms sm_run_reachable by (force simp: new_machine_def reachable_states_def)
  with le show ?thesis by (cases t) (auto simp: reachable_states_def)
qed

theorem lifecycle_bounded_witness:
  "sm_run (sm_state new_machine) 2 Rejected \<and> (2::nat) \<le> 8"
proof -
  have "sm_step Proposed Validating" "sm_step Validating Rejected"
    by (simp_all add: sm_step_iff is_terminal_def)
  from sm_run_trans [OF sm_run_step [OF this(1)] sm_run_step [OF this(2)]]
  have "sm_run (sm_state new_machine) 2 Rejected" by (simp add: new_machine_def numeral_2_eq_2)
  with lifecycle_bounded [of 2 Rejected] show ?thesis by simp
qed

end
