(* ===== verification/Contract.thy ===== *)
theory Contract
  imports Core_Types
begin

text \<open>
  Predicates and contracts of \<open>agentverify-core\<close> (\<open>predicate.rs\<close>, \<open>contract.rs\<close>): the predicate
  language, schema versions with their parser and printer, recovery and verification
  configuration, the contract record with its builders, and \<open>Contract::validate\<close> with every
  error it reports.
\<close>

section \<open>Predicates\<close>

datatype count_operator = Eq | Ne | Lt | Le | Gt | Ge

datatype predicate =
    Exists string
  | NotExists string
  | Equals string json
  | NotEquals string json
  | Contains string json
  | Matches string string
  | GreaterThan string json
  | LessThan string json
  | Count string count_operator i64
  | IsEmpty string
  | IsNotEmpty string
  | PAll "predicate list"
  | PAny "predicate list"
  | PNot predicate
  | Implies predicate predicate

text \<open>The constructors of \<open>Predicate\<close> that contracts are written with.\<close>

definition p_exists :: "string \<Rightarrow> predicate" where "p_exists path = Exists path"
definition p_not_exists :: "string \<Rightarrow> predicate" where "p_not_exists path = NotExists path"
definition p_equals :: "string \<Rightarrow> json \<Rightarrow> predicate" where "p_equals path v = Equals path v"
definition p_not_equals :: "string \<Rightarrow> json \<Rightarrow> predicate" where "p_not_equals path v = NotEquals path v"
definition p_contains :: "string \<Rightarrow> json \<Rightarrow> predicate" where "p_contains path v = Contains path v"
definition p_matches :: "string \<Rightarrow> string \<Rightarrow> predicate" where "p_matches path pattern = Matches path pattern"
definition p_greater_than :: "string \<Rightarrow> json \<Rightarrow> predicate" where "p_greater_than path v = GreaterThan path v"
definition p_less_than :: "string \<Rightarrow> json \<Rightarrow> predicate" where "p_less_than path v = LessThan path v"
definition p_count :: "string \<Rightarrow> count_operator \<Rightarrow> i64 \<Rightarrow> predicate" where
  "p_count path operator v = Count path operator v"
definition p_is_empty :: "string \<Rightarrow> predicate" where "p_is_empty path = IsEmpty path"
definition p_is_not_empty :: "string \<Rightarrow> predicate" where "p_is_not_empty path = IsNotEmpty path"
definition p_all :: "predicate list \<Rightarrow> predicate" where "p_all ps = PAll ps"
definition p_any :: "predicate list \<Rightarrow> predicate" where "p_any ps = PAny ps"
definition p_negate :: "predicate \<Rightarrow> predicate" where "p_negate p = PNot p"

section \<open>Schema versions\<close>

definition CONTRACT_SCHEMA_VERSION :: string where
  "CONTRACT_SCHEMA_VERSION = ''1.0''"

record schema_version =
  major :: u32
  minor :: u32

definition u32_max :: nat where
  "u32_max = 2 ^ 32 - 1"

definition parse_u32 :: "string \<Rightarrow> u32 option" where
  "parse_u32 s = map_option of_nat (parse_uint u32_max s)"

definition schema_version_new :: "string \<Rightarrow> schema_version option" where
  "schema_version_new version =
     (case split_on CHR ''.'' version of
        [p0, p1] \<Rightarrow>
          (case parse_u32 p0 of
             None \<Rightarrow> None
           | Some ma \<Rightarrow>
               (case parse_u32 p1 of
                  None \<Rightarrow> None
                | Some mi \<Rightarrow> Some \<lparr>major = ma, minor = mi\<rparr>))
      | _ \<Rightarrow> None)"

definition is_compatible_with :: "schema_version \<Rightarrow> schema_version \<Rightarrow> bool" where
  "is_compatible_with a b = (major a = major b)"

definition version_string :: "schema_version \<Rightarrow> string" where
  "version_string v = show_nat (unat (major v)) @ CHR ''.'' # show_nat (unat (minor v))"

definition default_version :: schema_version where
  "default_version = \<lparr>major = 1, minor = 0\<rparr>"

section \<open>Configuration\<close>

datatype consistency_mode = Strong | Eventual | Polling | Webhook

record verification_config =
  consistency :: consistency_mode
  verification_timeout :: duration

definition default_verification_config :: verification_config where
  "default_verification_config = \<lparr>consistency = Strong, verification_timeout = 5 * 10 ^ 9\<rparr>"

datatype recovery_strategy =
  NoAction | Retry | VerifyThenRetry | PollStrategy | Compensate | Rollback | Escalate
  | HumanApproval | Abort_strategy

datatype backoff_type = Linear | Exponential

record backoff_config =
  backoff_type :: backoff_type
  bc_initial :: duration
  bc_max :: duration
  bc_multiplier :: f64

datatype alert_severity = Info | Warning | Error_severity | Critical

datatype recovery_action =
  VerifyAction | PollAction duration u32 | Alert alert_severity | RequireApproval

record recovery_config =
  strategy :: recovery_strategy
  max_attempts :: u32
  backoff :: "backoff_config option"
  on_unknown :: "recovery_action list"

definition default_max_attempts :: u32 where
  "default_max_attempts = 3"

definition default_multiplier :: f64 where
  "default_multiplier = 0x4000000000000000"

section \<open>Contracts\<close>

record precondition =
  pre_predicate :: predicate
  pre_description :: string

record postcondition =
  post_predicate :: predicate
  post_description :: string
  mandatory :: bool

record contract =
  schema_version :: string
  contract_id :: contract_id
  action_name :: string
  preconditions :: "precondition list"
  postconditions :: "postcondition list"
  recovery :: "recovery_config option"
  verification :: verification_config
  con_created_at :: datetime

definition new_contract :: "uuid \<Rightarrow> datetime \<Rightarrow> string \<Rightarrow> contract" where
  "new_contract uid now name =
     \<lparr>schema_version = CONTRACT_SCHEMA_VERSION, contract_id = uid, action_name = name,
      preconditions = [], postconditions = [], recovery = None,
      verification = default_verification_config, con_created_at = now\<rparr>"

definition with_precondition :: "predicate \<Rightarrow> string \<Rightarrow> contract \<Rightarrow> contract" where
  "with_precondition p d c =
     c\<lparr>preconditions := preconditions c @ [\<lparr>pre_predicate = p, pre_description = d\<rparr>]\<rparr>"

definition with_postcondition :: "predicate \<Rightarrow> string \<Rightarrow> contract \<Rightarrow> contract" where
  "with_postcondition p d c =
     c\<lparr>postconditions := postconditions c
         @ [\<lparr>post_predicate = p, post_description = d, mandatory = True\<rparr>]\<rparr>"

definition with_recovery :: "recovery_config \<Rightarrow> contract \<Rightarrow> contract" where
  "with_recovery r c = c\<lparr>recovery := Some r\<rparr>"

section \<open>Validation\<close>

datatype contract_validation_error =
    InvalidSchemaVersion string
  | IncompatibleSchemaVersion string string
  | EmptyActionName
  | NoPostconditions
  | DuplicatePostconditionPath string
  | InvalidMaxAttempts
  | InvalidBackoff duration duration
  | InvalidBackoffMultiplier f64

fun extract_predicate_path :: "predicate \<Rightarrow> string" where
  "extract_predicate_path (Exists path) = path"
| "extract_predicate_path (NotExists path) = path"
| "extract_predicate_path (Equals path _) = path"
| "extract_predicate_path (NotEquals path _) = path"
| "extract_predicate_path (Contains path _) = path"
| "extract_predicate_path (Matches path _) = path"
| "extract_predicate_path (GreaterThan path _) = path"
| "extract_predicate_path (LessThan path _) = path"
| "extract_predicate_path (Count path _ _) = path"
| "extract_predicate_path (IsEmpty path) = path"
| "extract_predicate_path (IsNotEmpty path) = path"
| "extract_predicate_path (PAll ps) = (case ps of [] \<Rightarrow> [] | p # _ \<Rightarrow> extract_predicate_path p)"
| "extract_predicate_path (PAny ps) = (case ps of [] \<Rightarrow> [] | p # _ \<Rightarrow> extract_predicate_path p)"
| "extract_predicate_path (PNot p) = extract_predicate_path p"
| "extract_predicate_path (Implies a _) = extract_predicate_path a"

definition check_schema_version :: "string \<Rightarrow> contract_validation_error + unit" where
  "check_schema_version s =
     (case schema_version_new s of
        None \<Rightarrow> Inl (InvalidSchemaVersion s)
      | Some version \<Rightarrow>
          if is_compatible_with version default_version then Inr ()
          else Inl (IncompatibleSchemaVersion (version_string default_version) s))"

text \<open>The loop over the postconditions, with the paths seen so far.\<close>

fun check_duplicate_paths :: "string list \<Rightarrow> postcondition list \<Rightarrow> contract_validation_error + unit" where
  "check_duplicate_paths seen [] = Inr ()"
| "check_duplicate_paths seen (pc # pcs) =
     (let path = extract_predicate_path (post_predicate pc)
      in if path \<noteq> [] \<and> path \<in> set seen then Inl (DuplicatePostconditionPath path)
         else check_duplicate_paths (if path = [] then seen else path # seen) pcs)"

definition check_backoff :: "backoff_config \<Rightarrow> contract_validation_error + unit" where
  "check_backoff b =
     (if bc_max b < bc_initial b then Inl (InvalidBackoff (bc_initial b) (bc_max b))
      else if f64_le (bc_multiplier b) f64_zero then Inl (InvalidBackoffMultiplier (bc_multiplier b))
      else Inr ())"

definition check_recovery :: "recovery_config option \<Rightarrow> contract_validation_error + unit" where
  "check_recovery r =
     (case r of
        None \<Rightarrow> Inr ()
      | Some cfg \<Rightarrow>
          if max_attempts cfg = 0 then Inl InvalidMaxAttempts
          else (case backoff cfg of None \<Rightarrow> Inr () | Some b \<Rightarrow> check_backoff b))"

definition validate :: "contract \<Rightarrow> contract_validation_error + unit" where
  "validate c =
     and_then_res (check_schema_version (schema_version c)) (\<lambda>_.
       if action_name c = [] then Inl EmptyActionName
       else if postconditions c = [] then Inl NoPostconditions
       else and_then_res (check_duplicate_paths [] (postconditions c)) (\<lambda>_.
         check_recovery (recovery c)))"

text \<open>
  The messages of the errors. Durations and floats print through their own \<open>Display\<close>
  implementations, which are arguments.
\<close>

fun show_validation_error ::
  "(duration \<Rightarrow> string) \<Rightarrow> (f64 \<Rightarrow> string) \<Rightarrow> contract_validation_error \<Rightarrow> string" where
  "show_validation_error sd sf (InvalidSchemaVersion s) = ''Invalid schema version: '' @ s"
| "show_validation_error sd sf (IncompatibleSchemaVersion e a) =
     ''Incompatible schema version: expected '' @ e @ '', got '' @ a"
| "show_validation_error sd sf EmptyActionName = ''Action name cannot be empty''"
| "show_validation_error sd sf NoPostconditions =
     ''Contract must have at least one postcondition''"
| "show_validation_error sd sf (DuplicatePostconditionPath p) =
     ''Duplicate postcondition path: '' @ p"
| "show_validation_error sd sf InvalidMaxAttempts = ''max_attempts must be greater than 0''"
| "show_validation_error sd sf (InvalidBackoff i m) =
     ''Backoff max ('' @ sd m @ '') must be >= initial ('' @ sd i @ '')''"
| "show_validation_error sd sf (InvalidBackoffMultiplier m) =
     ''Backoff multiplier must be positive, got '' @ sf m"

section \<open>Lemmas\<close>

lemma parse_u32_show [simp]: "parse_u32 (show_nat (unat (w :: u32))) = Some w"
proof -
  have "unat w \<le> u32_max"
    using unsigned_less [where ?'a = nat, of w] by (simp add: u32_max_def)
  then show ?thesis by (simp add: parse_u32_def parse_uint_show_nat)
qed

lemma split_on_version_string:
  "split_on CHR ''.'' (version_string v) = [show_nat (unat (major v)), show_nat (unat (minor v))]"
  by (simp add: version_string_def split_on_append split_on_none show_nat_no_dot)

lemma check_duplicate_paths_ok:
  "check_duplicate_paths seen pcs = Inr () \<longleftrightarrow>
   (let ps = filter (\<lambda>p. p \<noteq> []) (map (extract_predicate_path \<circ> post_predicate) pcs)
    in distinct ps \<and> set ps \<inter> set seen = {})"
  by (induction seen pcs rule: check_duplicate_paths.induct) (auto simp: Let_def)

lemma check_schema_version_ok:
  "check_schema_version s = Inr () \<longleftrightarrow> (\<exists>v. schema_version_new s = Some v \<and> major v = 1)"
  by (auto simp: check_schema_version_def is_compatible_with_def default_version_def
      split: option.splits)

lemma check_recovery_ok:
  "check_recovery r = Inr () \<longleftrightarrow>
   (case r of
      None \<Rightarrow> True
    | Some cfg \<Rightarrow> max_attempts cfg \<noteq> 0 \<and>
        (case backoff cfg of
           None \<Rightarrow> True
         | Some b \<Rightarrow> bc_initial b \<le> bc_max b \<and> \<not> f64_le (bc_multiplier b) f64_zero))"
  by (auto simp: check_recovery_def check_backoff_def split: option.splits)

section \<open>Properties\<close>

text \<open>
  The printed form of every schema version parses back to it.
\<close>

theorem schema_version_roundtrip:
  "schema_version_new (version_string v) = Some v"
  by (cases v) (simp add: schema_version_new_def split_on_version_string)

text \<open>
  Property C35 (functional): a contract validates exactly when its version parses with major
  version 1, its action name and postconditions are not empty, no two postconditions have the
  same non-empty primary path, and its recovery configuration allows an attempt with a backoff
  whose maximum is not below its start and whose multiplier is not zero or negative.
\<close>

theorem validate_ok_iff:
  "validate c = Inr () \<longleftrightarrow>
   (\<exists>v. schema_version_new (schema_version c) = Some v \<and> major v = 1) \<and>
   action_name c \<noteq> [] \<and> postconditions c \<noteq> [] \<and>
   distinct (filter (\<lambda>p. p \<noteq> [])
     (map (extract_predicate_path \<circ> post_predicate) (postconditions c))) \<and>
   (case recovery c of
      None \<Rightarrow> True
    | Some cfg \<Rightarrow> max_attempts cfg \<noteq> 0 \<and>
        (case backoff cfg of
           None \<Rightarrow> True
         | Some b \<Rightarrow> bc_initial b \<le> bc_max b \<and> \<not> f64_le (bc_multiplier b) f64_zero))"
  by (auto simp: validate_def and_then_res_ok check_schema_version_ok check_recovery_ok
      check_duplicate_paths_ok Let_def)

end
