(* ===== verification/Predicate_Semantics.thy ===== *)
theory Predicate_Semantics
  imports Contract
begin

text \<open>
  What the predicates of a contract mean, apart from the engine that evaluates them. A dotted path
  locates a value by rules (\<open>located\<close>), a reference \<open>$args.\<close> denotes an argument (\<open>denotes\<close>),
  values are compared by rules (\<open>same_json\<close>), and the sizes and the voids of values are relations. No
  definition here uses a function of \<open>engine.rs\<close> or of \<open>observation.rs\<close>; the section on lemmas
  joins each relation to the function of the code that decides it.
\<close>

section \<open>Paths\<close>

text \<open>The decimal numerals, read from the right, and the texts that Rust parses as an index.\<close>

inductive numeral_text :: "string \<Rightarrow> nat \<Rightarrow> bool" where
  digit: "d < 10 \<Longrightarrow> numeral_text [digit_char d] d"
| digits: "numeral_text ds n \<Longrightarrow> d < 10 \<Longrightarrow> numeral_text (ds @ [digit_char d]) (10 * n + d)"

inductive index_text :: "string \<Rightarrow> nat \<Rightarrow> bool" where
  plain: "numeral_text ds i \<Longrightarrow> i < 2 ^ 64 \<Longrightarrow> index_text ds i"
| signed: "numeral_text ds i \<Longrightarrow> i < 2 ^ 64 \<Longrightarrow> index_text (CHR ''+'' # ds) i"

text \<open>The part of a container that a segment names: a field, or the element at an index.\<close>

inductive json_child :: "json \<Rightarrow> string \<Rightarrow> json \<Rightarrow> bool" where
  field: "k \<notin> fst ` set front \<Longrightarrow> json_child (JObject (front @ (k, w) # rest)) k w"
| element: "index_text seg (length front) \<Longrightarrow> json_child (JArray (front @ w # rest)) seg w"

text \<open>What a path locates: the part its first segment names, and what the rest locates in it.\<close>

inductive located :: "json \<Rightarrow> string \<Rightarrow> json \<Rightarrow> bool" where
  last: "CHR ''.'' \<notin> set seg \<Longrightarrow> json_child v seg w \<Longrightarrow> located v seg w"
| first: "CHR ''.'' \<notin> set seg \<Longrightarrow> json_child v seg u \<Longrightarrow> located u path w
    \<Longrightarrow> located v (seg @ CHR ''.'' # path) w"

text \<open>
  What the value of a predicate denotes: the argument that a reference \<open>$args.path\<close> locates; a
  reference that locates nothing, and every other value, denotes itself.
\<close>

inductive denotes :: "json \<Rightarrow> json \<Rightarrow> json \<Rightarrow> bool" for args where
  argument: "located args path w \<Longrightarrow> denotes args (JString (''$args.'' @ path)) w"
| dangling: "(\<forall>w. \<not> located args path w)
    \<Longrightarrow> denotes args (JString (''$args.'' @ path)) (JString (''$args.'' @ path))"
| literal: "(\<forall>path. v \<noteq> JString (''$args.'' @ path)) \<Longrightarrow> denotes args v v"

section \<open>Values\<close>

inductive same_number :: "number \<Rightarrow> number \<Rightarrow> bool" where
  "same_number (PosInt n) (PosInt n)"
| "same_number (NegInt i) (NegInt i)"
| "f64_eq a b \<Longrightarrow> same_number (Float a) (Float b)"

inductive same_json :: "json \<Rightarrow> json \<Rightarrow> bool" where
  same_null: "same_json JNull JNull"
| same_bool: "same_json (JBool b) (JBool b)"
| same_num: "same_number m n \<Longrightarrow> same_json (JNumber m) (JNumber n)"
| same_string: "same_json (JString s) (JString s)"
| same_array: "list_all2 same_json vs ws \<Longrightarrow> same_json (JArray vs) (JArray ws)"
| same_object: "list_all2 (rel_prod (=) same_json) es fs \<Longrightarrow> same_json (JObject es) (JObject fs)"
  monos list.rel_mono prod.rel_mono

text \<open>The order of strings is the lexicographic order of their bytes.\<close>

definition byte_order :: "(char \<times> char) set" where
  "byte_order = {(c, d). (of_char c :: nat) < of_char d}"

text \<open>How many items a value has, and the values that have none.\<close>

inductive json_items :: "json \<Rightarrow> nat \<Rightarrow> bool" where
  "json_items (JArray vs) (length vs)"
| "json_items (JObject es) (length es)"
| "json_items (JString s) (length s)"

inductive json_void :: "json \<Rightarrow> bool" where
  "json_void JNull"
| "json_items v 0 \<Longrightarrow> json_void v"

fun count_holds :: "count_operator \<Rightarrow> int \<Rightarrow> int \<Rightarrow> bool" where
  "count_holds Eq i k \<longleftrightarrow> i = k"
| "count_holds Ne i k \<longleftrightarrow> i \<noteq> k"
| "count_holds Lt i k \<longleftrightarrow> i < k"
| "count_holds Le i k \<longleftrightarrow> i < k \<or> i = k"
| "count_holds Gt i k \<longleftrightarrow> k < i"
| "count_holds Ge i k \<longleftrightarrow> k < i \<or> i = k"

section \<open>The functions of the code decide the relations\<close>

lemma digit_value_iff: "digit_value c = Some d \<longleftrightarrow> d < 10 \<and> c = digit_char d"
proof
  assume "digit_value c = Some d"
  then have "48 \<le> (of_char c :: nat)" "(of_char c :: nat) \<le> 57" "d = of_char c - 48"
    by (auto simp: digit_value_def Let_def split: if_splits)
  then show "d < 10 \<and> c = digit_char d" by (auto simp: digit_char_def)
qed simp

lemma digit_char_not_plus: "d < 10 \<Longrightarrow> digit_char d \<noteq> CHR ''+''"
proof
  assume "d < 10" "digit_char d = CHR ''+''"
  then have "digit_value CHR ''+'' = Some d" by (metis digit_value_digit_char)
  then show False by (simp add: digit_value_def)
qed

lemma numeral_text_digits: "numeral_text ds n \<Longrightarrow> ds \<noteq> [] \<and> hd ds \<noteq> CHR ''+''"
  by (induction rule: numeral_text.induct) (auto simp: digit_char_not_plus)

lemma parse_digits_numeral: "ds \<noteq> [] \<Longrightarrow> parse_digits 0 ds = Some n \<longleftrightarrow> numeral_text ds n"
proof (induction ds arbitrary: n rule: rev_induct)
  case (snoc c ds)
  show ?case
  proof (cases "ds = []")
    case True
    have "numeral_text [c] n \<longleftrightarrow> n < 10 \<and> c = digit_char n"
      by (subst numeral_text.simps) (auto dest: numeral_text_digits)
    moreover have "parse_digits 0 [c] = Some n \<longleftrightarrow> digit_value c = Some n"
      by (simp split: option.split)
    ultimately show ?thesis using True by (simp add: digit_value_iff)
  next
    case False
    have "numeral_text (ds @ [c]) n \<longleftrightarrow> (\<exists>m d. numeral_text ds m \<and> d < 10 \<and> c = digit_char d \<and> n = 10 * m + d)"
      using False by (subst numeral_text.simps) auto
    also have "\<dots> \<longleftrightarrow> (\<exists>m d. parse_digits 0 ds = Some m \<and> digit_value c = Some d \<and> n = 10 * m + d)"
      by (simp add: snoc.IH [OF False] digit_value_iff)
    also have "\<dots> \<longleftrightarrow> parse_digits 0 (ds @ [c]) = Some n"
      by (cases "parse_digits 0 ds"; cases "digit_value c") (auto simp: parse_digits_append)
    finally show ?thesis by simp
  qed
qed simp

lemma parse_uint_index: "parse_uint usize_max s = Some i \<longleftrightarrow> index_text s i"
proof -
  have max: "n \<le> usize_max \<longleftrightarrow> n < 2 ^ 64" for n by (simp add: usize_max_def) linarith
  consider "s = []" | ds where "s = CHR ''+'' # ds" | c ds where "s = c # ds" "c \<noteq> CHR ''+''"
    by (cases s) auto
  then show ?thesis
  proof cases
    case 1
    then show ?thesis by (auto simp: parse_uint_def elim!: index_text.cases dest: numeral_text_digits)
  next
    case (2 ds)
    have "index_text s i \<longleftrightarrow> numeral_text ds i \<and> i < 2 ^ 64"
      using 2 by (auto intro: index_text.intros elim!: index_text.cases dest: numeral_text_digits)
    also have "\<dots> \<longleftrightarrow> ds \<noteq> [] \<and> parse_digits 0 ds = Some i \<and> i < 2 ^ 64"
      using parse_digits_numeral [of ds i] by (auto dest: numeral_text_digits)
    finally show ?thesis using 2 by (auto simp: parse_uint_def max split: option.split)
  next
    case (3 c ds)
    have "index_text s i \<longleftrightarrow> numeral_text s i \<and> i < 2 ^ 64"
      using 3 by (auto intro: index_text.intros elim!: index_text.cases)
    also have "\<dots> \<longleftrightarrow> parse_digits 0 s = Some i \<and> i < 2 ^ 64"
      using parse_digits_numeral [of s i] 3 by simp
    finally show ?thesis using 3 by (auto simp: parse_uint_def max split: option.split)
  qed
qed

lemma map_of_first: "map_of es k = Some w \<longleftrightarrow> (\<exists>front rest. es = front @ (k, w) # rest \<and> k \<notin> fst ` set front)"
proof
  show "map_of es k = Some w \<Longrightarrow> \<exists>front rest. es = front @ (k, w) # rest \<and> k \<notin> fst ` set front"
  proof (induction es)
    case (Cons e es)
    show ?case
    proof (cases "fst e = k")
      case True
      with Cons.prems have "e # es = [] @ (k, w) # es" by (cases e) simp
      then show ?thesis by force
    next
      case False
      with Cons.prems have "map_of es k = Some w" by (cases e) simp
      from Cons.IH [OF this] obtain front rest where "es = front @ (k, w) # rest" "k \<notin> fst ` set front"
        by blast
      with False have "e # es = (e # front) @ (k, w) # rest \<and> k \<notin> fst ` set (e # front)" by auto
      then show ?thesis by blast
    qed
  qed simp
qed (auto simp: map_add_Some_iff map_of_eq_None_iff)

lemma path_step_child: "path_step v seg = Some w \<longleftrightarrow> json_child v seg w"
proof (cases v)
  case (JArray vs)
  have "json_child v seg w \<longleftrightarrow> (\<exists>i. index_text seg i \<and> i < length vs \<and> w = vs ! i)" (is "_ \<longleftrightarrow> ?R")
  proof
    assume "json_child v seg w" then show ?R using JArray by (cases rule: json_child.cases) auto
  next
    assume ?R
    then obtain i where i: "index_text seg i" "i < length vs" "w = vs ! i" by blast
    then have "json_child (JArray (take i vs @ vs ! i # drop (Suc i) vs)) seg (vs ! i)"
      by (intro json_child.element) simp
    then show "json_child v seg w" using i JArray by (simp add: id_take_nth_drop [symmetric])
  qed
  then show ?thesis using JArray by (auto simp: path_step_array parse_uint_index split: option.split)
      (metis option.inject option.distinct(1) parse_uint_index)+
next
  case (JObject es)
  have "json_child (JObject es) seg w \<longleftrightarrow> (\<exists>front rest. es = front @ (seg, w) # rest \<and> seg \<notin> fst ` set front)"
    by (subst json_child.simps) auto
  with JObject show ?thesis by (simp add: map_of_first)
qed (auto elim: json_child.cases)

lemma get_path_segment: "CHR ''.'' \<notin> set seg \<Longrightarrow> get_path v seg = path_step v seg"
  by (simp add: get_path_def split_on_none split: option.split)

theorem located_iff: "located v path w \<longleftrightarrow> get_path v path = Some w"
proof
  show "located v path w \<Longrightarrow> get_path v path = Some w"
    by (induction rule: located.induct)
      (simp_all add: get_path_append get_path_segment path_step_child [symmetric])
next
  show "get_path v path = Some w \<Longrightarrow> located v path w"
  proof (induction path arbitrary: v rule: length_induct)
    case (1 path)
    show ?case
    proof (cases "CHR ''.'' \<in> set path")
      case False
      with 1(2) show ?thesis
        by (auto simp: get_path_segment path_step_child intro: located.last)
    next
      case True
      then obtain seg rest where s: "path = seg @ CHR ''.'' # rest" "CHR ''.'' \<notin> set seg"
        by (auto dest: split_list_first)
      with 1(2) obtain u where "path_step v seg = Some u" "get_path u rest = Some w"
        by (auto simp: get_path_append get_path_segment split: option.splits)
      with 1(1) s show ?thesis
        by (auto simp: path_step_child intro!: located.first)
    qed
  qed
qed

lemma denotes_iff: "denotes args v w \<longleftrightarrow> resolve_value v args = w"
proof (cases "\<exists>path. v = JString (''$args.'' @ path)")
  case True
  then obtain path where v: "v = JString (''$args.'' @ path)" by blast
  have "denotes args v w \<longleftrightarrow> (case get_path args path of None \<Rightarrow> w = v | Some u \<Rightarrow> w = u)"
    using v by (auto simp: denotes.simps located_iff split: option.split)
  then show ?thesis using v
    by (auto simp: resolve_value_def strip_prefix_str_iff split: option.split)
next
  case False
  then have "resolve_value v args = v"
    by (cases v) (auto simp: resolve_value_def strip_prefix_str_iff split: option.split)
  with False show ?thesis by (auto simp: denotes.simps)
qed

lemma same_number_iff: "same_number m n \<longleftrightarrow> number_eq m n"
  by (cases m; cases n) (auto simp: same_number.simps)

lemma same_simps [simp]:
  "same_json JNull w \<longleftrightarrow> w = JNull" "same_json (JBool b) w \<longleftrightarrow> w = JBool b"
  "same_json (JNumber m) w \<longleftrightarrow> (\<exists>n. w = JNumber n \<and> number_eq m n)"
  "same_json (JString s) w \<longleftrightarrow> w = JString s"
  "same_json (JArray vs) w \<longleftrightarrow> (\<exists>ws. w = JArray ws \<and> list_all2 same_json vs ws)"
  "same_json (JObject es) w \<longleftrightarrow> (\<exists>fs. w = JObject fs \<and> list_all2 (rel_prod (=) same_json) es fs)"
  by (auto simp: same_number_iff intro: same_json.intros elim: same_json.cases)

lemma same_iff:
  "json_eq v w \<longleftrightarrow> same_json v w"
  "json_list_eq vs ws \<longleftrightarrow> list_all2 same_json vs ws"
  "json_entries_eq es fs \<longleftrightarrow> list_all2 (rel_prod (=) same_json) es fs"
  by (induction v w and vs ws and es fs rule: json_eq_json_list_eq_json_entries_eq.induct) auto

lemma str_less_lexord: "str_less s t \<longleftrightarrow> (s, t) \<in> lexord byte_order"
  by (induction s t rule: str_less.induct) (auto simp: byte_order_def)

end
