(* ===== verification/Predicate_Engine.thy ===== *)
theory Predicate_Engine
  imports Predicate_Semantics
begin

text \<open>
  The predicate engine (\<open>agentverify-engine/src/engine.rs\<close>). One definition per \<open>eval_*\<close>
  function; \<open>evaluate\<close> threads the engine's regex cache, the only state the engine has. The
  libraries the engine calls are the fields of \<open>engine_lib\<close>: compiling and matching a regular
  expression, printing an object with \<open>serde_json::to_string\<close>, and \<open>Number::as_f64\<close>. A regex
  error is carried by its message, the only part of it the program reads.

  \<open>eval_ref\<close> is the evaluator without a cache, and \<open>psem\<close> the truth value a predicate has.
\<close>

section \<open>The engine's environment\<close>

record 're engine_lib =
  rx_new :: "string \<Rightarrow> string + 're"
  rx_is_match :: "'re \<Rightarrow> string \<Rightarrow> bool"
  js_to_string :: "(string \<times> json) list \<Rightarrow> string option"
  num_as_f64 :: "number \<Rightarrow> f64 option"

datatype engine_error =
  InvalidPath string | TypeMismatch string | EvaluationFailed string | RegexError string

fun show_engine_error :: "engine_error \<Rightarrow> string" where
  "show_engine_error (InvalidPath s) = ''Invalid path: '' @ s"
| "show_engine_error (TypeMismatch s) = ''Type mismatch: '' @ s"
| "show_engine_error (EvaluationFailed s) = ''Evaluation failed: '' @ s"
| "show_engine_error (RegexError s) = ''Regex error: '' @ s"

type_synonym 're regex_cache = "string \<Rightarrow> 're option"

definition new_engine :: "'re regex_cache" where
  "new_engine = Map.empty"

definition verdict :: "bool \<Rightarrow> verification_result" where
  "verdict b = (if b then Verified else Failed)"

section \<open>Basic predicates\<close>

definition eval_exists :: "json \<Rightarrow> string \<Rightarrow> verification_result" where
  "eval_exists st path = (if get_path st path \<noteq> None then Verified else Failed)"

definition eval_not_exists :: "json \<Rightarrow> string \<Rightarrow> verification_result" where
  "eval_not_exists st path = (if get_path st path = None then Verified else Failed)"

definition eval_equals :: "json \<Rightarrow> string \<Rightarrow> json \<Rightarrow> json \<Rightarrow> verification_result" where
  "eval_equals st path expected args =
     (let expected = resolve_value expected args
      in case get_path st path of
           Some actual_val \<Rightarrow> if json_eq actual_val expected then Verified else Failed
         | None \<Rightarrow> Failed)"

definition eval_not_equals :: "json \<Rightarrow> string \<Rightarrow> json \<Rightarrow> json \<Rightarrow> verification_result" where
  "eval_not_equals st path v args =
     (let v = resolve_value v args
      in case get_path st path of
           Some actual_val \<Rightarrow> if \<not> json_eq actual_val v then Verified else Failed
         | None \<Rightarrow> Failed)"

definition eval_contains ::
  "'re engine_lib \<Rightarrow> json \<Rightarrow> string \<Rightarrow> json \<Rightarrow> json \<Rightarrow> verification_result" where
  "eval_contains ext st path v args =
     (let v = resolve_value v args
      in case get_path st path of
           Some (JString s) \<Rightarrow>
             if contains_str (case as_str v of Some t \<Rightarrow> t | None \<Rightarrow> []) s then Verified else Failed
         | Some (JArray arr) \<Rightarrow> if list_ex (\<lambda>x. json_eq x v) arr then Verified else Failed
         | Some (JObject obj) \<Rightarrow>
             (case js_to_string ext obj of
                Some obj_str \<Rightarrow>
                  (case as_str v of
                     Some val_str \<Rightarrow> if contains_str val_str obj_str then Verified else Failed
                   | None \<Rightarrow> Failed)
              | None \<Rightarrow> Failed)
         | _ \<Rightarrow> Failed)"

definition eval_matches ::
  "'re engine_lib \<Rightarrow> json \<Rightarrow> string \<Rightarrow> string \<Rightarrow> 're regex_cache
   \<Rightarrow> (engine_error + verification_result) \<times> 're regex_cache" where
  "eval_matches ext st path pattern cache =
     (case get_path st path of
        Some (JString s) \<Rightarrow>
          (case cache pattern of
             Some r \<Rightarrow> (Inr (if rx_is_match ext r s then Verified else Failed), cache)
           | None \<Rightarrow>
               (case rx_new ext pattern of
                  Inl e \<Rightarrow> (Inl (RegexError e), cache)
                | Inr r \<Rightarrow>
                    (Inr (if rx_is_match ext r s then Verified else Failed), cache(pattern \<mapsto> r))))
      | _ \<Rightarrow> (Inr Failed, cache))"

definition eval_greater_than ::
  "'re engine_lib \<Rightarrow> json \<Rightarrow> string \<Rightarrow> json \<Rightarrow> json \<Rightarrow> verification_result" where
  "eval_greater_than ext st path v args =
     (case (get_path st path, resolve_value v args) of
        (Some (JNumber a), JNumber e) \<Rightarrow>
          (case (num_as_f64 ext a, num_as_f64 ext e) of
             (Some x, Some y) \<Rightarrow> if f64_lt y x then Verified else Failed
           | _ \<Rightarrow> Failed)
      | (Some (JString a), JString e) \<Rightarrow> if str_less e a then Verified else Failed
      | _ \<Rightarrow> Failed)"

definition eval_less_than ::
  "'re engine_lib \<Rightarrow> json \<Rightarrow> string \<Rightarrow> json \<Rightarrow> json \<Rightarrow> verification_result" where
  "eval_less_than ext st path v args =
     (case (get_path st path, resolve_value v args) of
        (Some (JNumber a), JNumber e) \<Rightarrow>
          (case (num_as_f64 ext a, num_as_f64 ext e) of
             (Some x, Some y) \<Rightarrow> if f64_lt x y then Verified else Failed
           | _ \<Rightarrow> Failed)
      | (Some (JString a), JString e) \<Rightarrow> if str_less a e then Verified else Failed
      | _ \<Rightarrow> Failed)"

section \<open>Collections\<close>

text \<open>\<open>len() as i64\<close>, and the signed comparisons of the operator.\<close>

definition count_of :: "json option \<Rightarrow> i64 option" where
  "count_of actual =
     (case actual of
        Some (JArray arr) \<Rightarrow> Some (of_nat (length arr))
      | Some (JObject obj) \<Rightarrow> Some (of_nat (length obj))
      | Some (JString s) \<Rightarrow> Some (of_nat (length s))
      | None \<Rightarrow> Some 0
      | _ \<Rightarrow> None)"

fun count_compare :: "count_operator \<Rightarrow> i64 \<Rightarrow> i64 \<Rightarrow> bool" where
  "count_compare Eq c e = (c = e)"
| "count_compare Ne c e = (c \<noteq> e)"
| "count_compare Lt c e = (sint c < sint e)"
| "count_compare Le c e = (sint c \<le> sint e)"
| "count_compare Gt c e = (sint e < sint c)"
| "count_compare Ge c e = (sint e \<le> sint c)"

definition eval_count :: "json \<Rightarrow> string \<Rightarrow> count_operator \<Rightarrow> i64 \<Rightarrow> verification_result" where
  "eval_count st path operator expected =
     (case count_of (get_path st path) of
        None \<Rightarrow> Failed
      | Some count \<Rightarrow> if count_compare operator count expected then Verified else Failed)"

definition eval_is_empty :: "json \<Rightarrow> string \<Rightarrow> verification_result" where
  "eval_is_empty st path =
     (let is_empty = (case get_path st path of
             Some (JArray arr) \<Rightarrow> arr = []
           | Some (JObject obj) \<Rightarrow> obj = []
           | Some (JString s) \<Rightarrow> s = []
           | Some JNull \<Rightarrow> True
           | None \<Rightarrow> True
           | _ \<Rightarrow> False)
      in if is_empty then Verified else Failed)"

definition eval_is_not_empty :: "json \<Rightarrow> string \<Rightarrow> verification_result" where
  "eval_is_not_empty st path = (case eval_is_empty st path of Failed \<Rightarrow> Verified | _ \<Rightarrow> Failed)"

section \<open>Compound predicates and the evaluator\<close>

text \<open>What \<open>eval_not\<close> makes of the result of its operand.\<close>

fun not_result :: "verification_result \<Rightarrow> verification_result" where
  "not_result Verified = Failed"
| "not_result Failed = Verified"
| "not_result _ = Unknown"

fun evaluate ::
  "'re engine_lib \<Rightarrow> predicate \<Rightarrow> json \<Rightarrow> json \<Rightarrow> 're regex_cache
   \<Rightarrow> (engine_error + verification_result) \<times> 're regex_cache"
and eval_all ::
  "'re engine_lib \<Rightarrow> predicate list \<Rightarrow> json \<Rightarrow> json \<Rightarrow> 're regex_cache
   \<Rightarrow> (engine_error + verification_result) \<times> 're regex_cache"
and eval_any ::
  "'re engine_lib \<Rightarrow> predicate list \<Rightarrow> json \<Rightarrow> json \<Rightarrow> 're regex_cache
   \<Rightarrow> (engine_error + verification_result) \<times> 're regex_cache" where
  "evaluate ext (Exists path) st args c = (Inr (eval_exists st path), c)"
| "evaluate ext (NotExists path) st args c = (Inr (eval_not_exists st path), c)"
| "evaluate ext (Equals path v) st args c = (Inr (eval_equals st path v args), c)"
| "evaluate ext (NotEquals path v) st args c = (Inr (eval_not_equals st path v args), c)"
| "evaluate ext (Contains path v) st args c = (Inr (eval_contains ext st path v args), c)"
| "evaluate ext (Matches path pattern) st args c = eval_matches ext st path pattern c"
| "evaluate ext (GreaterThan path v) st args c = (Inr (eval_greater_than ext st path v args), c)"
| "evaluate ext (LessThan path v) st args c = (Inr (eval_less_than ext st path v args), c)"
| "evaluate ext (Count path operator v) st args c = (Inr (eval_count st path operator v), c)"
| "evaluate ext (IsEmpty path) st args c = (Inr (eval_is_empty st path), c)"
| "evaluate ext (IsNotEmpty path) st args c = (Inr (eval_is_not_empty st path), c)"
| "evaluate ext (PAll ps) st args c = eval_all ext ps st args c"
| "evaluate ext (PAny ps) st args c = eval_any ext ps st args c"
| "evaluate ext (PNot p) st args c =
     (case evaluate ext p st args c of
        (Inl e, c1) \<Rightarrow> (Inl e, c1)
      | (Inr r, c1) \<Rightarrow> (Inr (not_result r), c1))"
| "evaluate ext (Implies a q) st args c =
     (case evaluate ext a st args c of
        (Inl e, c1) \<Rightarrow> (Inl e, c1)
      | (Inr r, c1) \<Rightarrow>
          if r \<noteq> Verified then (Inr Verified, c1)
          else (case evaluate ext q st args c1 of
                  (Inl e, c2) \<Rightarrow> (Inl e, c2)
                | (Inr r2, c2) \<Rightarrow> (Inr (if r2 = Verified then Verified else Failed), c2)))"
| "eval_all ext [] st args c = (Inr Verified, c)"
| "eval_all ext (p # ps) st args c =
     (case evaluate ext p st args c of
        (Inl e, c1) \<Rightarrow> (Inl e, c1)
      | (Inr r, c1) \<Rightarrow> if r \<noteq> Verified then (Inr Failed, c1) else eval_all ext ps st args c1)"
| "eval_any ext [] st args c = (Inr Failed, c)"
| "eval_any ext (p # ps) st args c =
     (case evaluate ext p st args c of
        (Inl e, c1) \<Rightarrow> (Inl e, c1)
      | (Inr r, c1) \<Rightarrow> if r = Verified then (Inr Verified, c1) else eval_any ext ps st args c1)"

text \<open>\<open>eval_not\<close> and \<open>eval_implies\<close> as the functions they are in the code.\<close>

definition eval_not ::
  "'re engine_lib \<Rightarrow> predicate \<Rightarrow> json \<Rightarrow> json \<Rightarrow> 're regex_cache
   \<Rightarrow> (engine_error + verification_result) \<times> 're regex_cache" where
  "eval_not ext p st args c =
     (case evaluate ext p st args c of
        (Inl e, c1) \<Rightarrow> (Inl e, c1)
      | (Inr r, c1) \<Rightarrow> (Inr (not_result r), c1))"

definition eval_implies ::
  "'re engine_lib \<Rightarrow> predicate \<Rightarrow> predicate \<Rightarrow> json \<Rightarrow> json \<Rightarrow> 're regex_cache
   \<Rightarrow> (engine_error + verification_result) \<times> 're regex_cache" where
  "eval_implies ext antecedent consequent st args c =
     (case evaluate ext antecedent st args c of
        (Inl e, c1) \<Rightarrow> (Inl e, c1)
      | (Inr r, c1) \<Rightarrow>
          if r \<noteq> Verified then (Inr Verified, c1)
          else (case evaluate ext consequent st args c1 of
                  (Inl e, c2) \<Rightarrow> (Inl e, c2)
                | (Inr r2, c2) \<Rightarrow> (Inr (if r2 = Verified then Verified else Failed), c2)))"

lemma evaluate_connectives:
  "evaluate ext (PNot p) st args c = eval_not ext p st args c"
  "evaluate ext (Implies a q) st args c = eval_implies ext a q st args c"
  by (simp_all add: eval_not_def eval_implies_def)

section \<open>Reference evaluator and semantics\<close>

definition matches_ref ::
  "'re engine_lib \<Rightarrow> json \<Rightarrow> string \<Rightarrow> string \<Rightarrow> engine_error + verification_result" where
  "matches_ref ext st path pattern =
     (case get_path st path of
        Some (JString s) \<Rightarrow>
          (case rx_new ext pattern of
             Inl e \<Rightarrow> Inl (RegexError e)
           | Inr r \<Rightarrow> Inr (verdict (rx_is_match ext r s)))
      | _ \<Rightarrow> Inr Failed)"

fun eval_ref :: "'re engine_lib \<Rightarrow> json \<Rightarrow> json \<Rightarrow> predicate \<Rightarrow> engine_error + verification_result"
and all_ref :: "'re engine_lib \<Rightarrow> json \<Rightarrow> json \<Rightarrow> predicate list \<Rightarrow> engine_error + verification_result"
and any_ref :: "'re engine_lib \<Rightarrow> json \<Rightarrow> json \<Rightarrow> predicate list \<Rightarrow> engine_error + verification_result" where
  "eval_ref ext st args (Exists path) = Inr (eval_exists st path)"
| "eval_ref ext st args (NotExists path) = Inr (eval_not_exists st path)"
| "eval_ref ext st args (Equals path v) = Inr (eval_equals st path v args)"
| "eval_ref ext st args (NotEquals path v) = Inr (eval_not_equals st path v args)"
| "eval_ref ext st args (Contains path v) = Inr (eval_contains ext st path v args)"
| "eval_ref ext st args (Matches path pattern) = matches_ref ext st path pattern"
| "eval_ref ext st args (GreaterThan path v) = Inr (eval_greater_than ext st path v args)"
| "eval_ref ext st args (LessThan path v) = Inr (eval_less_than ext st path v args)"
| "eval_ref ext st args (Count path operator v) = Inr (eval_count st path operator v)"
| "eval_ref ext st args (IsEmpty path) = Inr (eval_is_empty st path)"
| "eval_ref ext st args (IsNotEmpty path) = Inr (eval_is_not_empty st path)"
| "eval_ref ext st args (PAll ps) = all_ref ext st args ps"
| "eval_ref ext st args (PAny ps) = any_ref ext st args ps"
| "eval_ref ext st args (PNot p) =
     and_then_res (eval_ref ext st args p) (\<lambda>r. Inr (verdict (r \<noteq> Verified)))"
| "eval_ref ext st args (Implies a q) =
     and_then_res (eval_ref ext st args a) (\<lambda>r.
       if r = Verified then eval_ref ext st args q else Inr Verified)"
| "all_ref ext st args [] = Inr Verified"
| "all_ref ext st args (p # ps) =
     and_then_res (eval_ref ext st args p) (\<lambda>r.
       if r = Verified then all_ref ext st args ps else Inr Failed)"
| "any_ref ext st args [] = Inr Failed"
| "any_ref ext st args (p # ps) =
     and_then_res (eval_ref ext st args p) (\<lambda>r.
       if r = Verified then Inr Verified else any_ref ext st args ps)"

text \<open>
  The truth value of a predicate, from the relations of \<open>Predicate_Semantics\<close> alone: none of the
  \<open>eval_\<close> functions, nor the code's path lookup, occurs in it. A value comprises another when it is
  a string with that substring, an array with that member, or an object whose printed text has it;
  a string comprises every value that is not a string, as \<open>as_str().unwrap_or("")\<close> makes it. Numbers
  precede one another as the doubles they convert to, strings in the order of their bytes.
\<close>

inductive comprises :: "'re engine_lib \<Rightarrow> json \<Rightarrow> json \<Rightarrow> bool" for ext where
  substring: "sublist t s \<Longrightarrow> comprises ext (JString s) (JString t)"
| no_string: "(\<forall>t. u \<noteq> JString t) \<Longrightarrow> comprises ext (JString s) u"
| member: "w \<in> set ws \<Longrightarrow> same_json w u \<Longrightarrow> comprises ext (JArray ws) u"
| printed: "js_to_string ext es = Some s \<Longrightarrow> sublist t s \<Longrightarrow> comprises ext (JObject es) (JString t)"

inductive precedes :: "'re engine_lib \<Rightarrow> json \<Rightarrow> json \<Rightarrow> bool" for ext where
  numbers: "num_as_f64 ext m = Some x \<Longrightarrow> num_as_f64 ext n = Some y \<Longrightarrow> f64_lt x y
    \<Longrightarrow> precedes ext (JNumber m) (JNumber n)"
| strings: "(s, t) \<in> lexord byte_order \<Longrightarrow> precedes ext (JString s) (JString t)"

fun psem :: "'re engine_lib \<Rightarrow> json \<Rightarrow> json \<Rightarrow> predicate \<Rightarrow> bool" where
  "psem ext st args (Exists path) \<longleftrightarrow> (\<exists>w. located st path w)"
| "psem ext st args (NotExists path) \<longleftrightarrow> (\<nexists>w. located st path w)"
| "psem ext st args (Equals path v) \<longleftrightarrow> (\<exists>w u. located st path w \<and> denotes args v u \<and> same_json w u)"
| "psem ext st args (NotEquals path v) \<longleftrightarrow> (\<exists>w u. located st path w \<and> denotes args v u \<and> \<not> same_json w u)"
| "psem ext st args (Contains path v) \<longleftrightarrow>
     (\<exists>w u. located st path w \<and> denotes args v u \<and> comprises ext w u)"
| "psem ext st args (Matches path pattern) \<longleftrightarrow>
     (\<exists>s r. located st path (JString s) \<and> rx_new ext pattern = Inr r \<and> rx_is_match ext r s)"
| "psem ext st args (GreaterThan path v) \<longleftrightarrow>
     (\<exists>w u. located st path w \<and> denotes args v u \<and> precedes ext u w)"
| "psem ext st args (LessThan path v) \<longleftrightarrow>
     (\<exists>w u. located st path w \<and> denotes args v u \<and> precedes ext w u)"
| "psem ext st args (Count path operator k) \<longleftrightarrow>
     (\<exists>w n. located st path w \<and> json_items w n \<and> count_holds operator (sint (of_nat n :: i64)) (sint k))
     \<or> (\<nexists>w. located st path w) \<and> count_holds operator 0 (sint k)"
| "psem ext st args (IsEmpty path) \<longleftrightarrow> (\<forall>w. located st path w \<longrightarrow> json_void w)"
| "psem ext st args (IsNotEmpty path) \<longleftrightarrow> (\<exists>w. located st path w \<and> \<not> json_void w)"
| "psem ext st args (PAll ps) = list_all (psem ext st args) ps"
| "psem ext st args (PAny ps) = list_ex (psem ext st args) ps"
| "psem ext st args (PNot p) = (\<not> psem ext st args p)"
| "psem ext st args (Implies a q) = (psem ext st args a \<longrightarrow> psem ext st args q)"

fun pred_patterns :: "predicate \<Rightarrow> string list" where
  "pred_patterns (Matches path pattern) = [pattern]"
| "pred_patterns (PAll ps) = concat (map pred_patterns ps)"
| "pred_patterns (PAny ps) = concat (map pred_patterns ps)"
| "pred_patterns (PNot p) = pred_patterns p"
| "pred_patterns (Implies a q) = pred_patterns a @ pred_patterns q"
| "pred_patterns _ = []"

text \<open>A cache whose entries are what compiling their patterns gives.\<close>

definition cache_ok :: "'re engine_lib \<Rightarrow> 're regex_cache \<Rightarrow> bool" where
  "cache_ok ext c = (\<forall>pattern r. c pattern = Some r \<longrightarrow> rx_new ext pattern = Inr r)"

section \<open>Lemmas\<close>

lemma cache_ok_new [simp]: "cache_ok ext new_engine"
  by (simp add: cache_ok_def new_engine_def)

lemma cache_ok_upd: "cache_ok ext c \<Longrightarrow> rx_new ext p = Inr r \<Longrightarrow> cache_ok ext (c(p \<mapsto> r))"
  by (simp add: cache_ok_def)

lemma verdict_simps [simp]:
  "verdict True = Verified" "verdict False = Failed"
  "verdict b = Verified \<longleftrightarrow> b" "verdict b = Failed \<longleftrightarrow> \<not> b"
  by (simp_all add: verdict_def)

named_theorems eval_defs \<open>definitions of the basic predicates\<close>

declare eval_exists_def [eval_defs] eval_not_exists_def [eval_defs] eval_equals_def [eval_defs]
  eval_not_equals_def [eval_defs] eval_contains_def [eval_defs] eval_greater_than_def [eval_defs]
  eval_less_than_def [eval_defs] eval_count_def [eval_defs] eval_is_empty_def [eval_defs]
  eval_is_not_empty_def [eval_defs]

text \<open>Each basic predicate is decided by its \<open>eval_\<close> function.\<close>

lemma comprises_simps:
  "comprises ext (JString s) u \<longleftrightarrow> contains_str (case as_str u of Some t \<Rightarrow> t | None \<Rightarrow> []) s"
  "comprises ext (JArray ws) u \<longleftrightarrow> list_ex (\<lambda>w. json_eq w u) ws"
  "comprises ext (JObject es) u \<longleftrightarrow>
     (\<exists>s t. js_to_string ext es = Some s \<and> as_str u = Some t \<and> contains_str t s)"
  "\<not> comprises ext JNull u" "\<not> comprises ext (JBool b) u" "\<not> comprises ext (JNumber n) u"
  by (cases u; auto simp: comprises.simps contains_str_iff same_iff list_ex_iff)+

lemma precedes_simps:
  "precedes ext v w \<longleftrightarrow>
     (\<exists>m n x y. v = JNumber m \<and> w = JNumber n \<and> num_as_f64 ext m = Some x
        \<and> num_as_f64 ext n = Some y \<and> f64_lt x y)
     \<or> (\<exists>s t. v = JString s \<and> w = JString t \<and> str_less s t)"
  by (auto simp: precedes.simps str_less_lexord)

lemma count_compare_holds: "count_compare operator c k \<longleftrightarrow> count_holds operator (sint c) (sint k)"
  by (cases operator) (auto simp: word_eq_iff_signed)

lemma json_items_simps [simp]:
  "json_items (JArray vs) n \<longleftrightarrow> n = length vs" "json_items (JObject es) n \<longleftrightarrow> n = length es"
  "json_items (JString s) n \<longleftrightarrow> n = length s" "\<not> json_items JNull n" "\<not> json_items (JBool b) n"
  "\<not> json_items (JNumber m) n"
  by (auto simp: json_items.simps)

lemma void_simps [simp]:
  "json_void JNull" "\<not> json_void (JBool b)" "\<not> json_void (JNumber n)" "json_void (JString s) \<longleftrightarrow> s = []"
  "json_void (JArray vs) \<longleftrightarrow> vs = []" "json_void (JObject es) \<longleftrightarrow> es = []"
  by (auto simp: json_void.simps)

lemma verified_iff:
  "eval_exists st path = Verified \<longleftrightarrow> psem ext st args (Exists path)"
  "eval_not_exists st path = Verified \<longleftrightarrow> psem ext st args (NotExists path)"
  "eval_equals st path v args = Verified \<longleftrightarrow> psem ext st args (Equals path v)"
  "eval_not_equals st path v args = Verified \<longleftrightarrow> psem ext st args (NotEquals path v)"
  "eval_contains ext st path v args = Verified \<longleftrightarrow> psem ext st args (Contains path v)"
  "eval_greater_than ext st path v args = Verified \<longleftrightarrow> psem ext st args (GreaterThan path v)"
  "eval_less_than ext st path v args = Verified \<longleftrightarrow> psem ext st args (LessThan path v)"
  "eval_is_empty st path = Verified \<longleftrightarrow> psem ext st args (IsEmpty path)"
  "eval_is_not_empty st path = Verified \<longleftrightarrow> psem ext st args (IsNotEmpty path)"
  by (auto simp: eval_defs Let_def located_iff denotes_iff same_iff [symmetric] comprises_simps
      precedes_simps split: option.split json.split)

lemma verified_count: "eval_count st path operator k = Verified \<longleftrightarrow> psem ext st args (Count path operator k)"
proof (cases "get_path st path")
  case None
  then show ?thesis by (simp add: eval_count_def count_of_def located_iff count_compare_holds)
next
  case (Some w)
  then show ?thesis
    by (cases w) (simp_all add: eval_count_def count_of_def located_iff count_compare_holds)
qed

lemma verified_matches: "matches_ref ext st path pattern = Inr Verified \<longleftrightarrow> psem ext st args (Matches path pattern)"
  by (auto simp: matches_ref_def located_iff split: option.split json.split sum.split)

lemmas psem_basic [simp] = verified_iff [symmetric] verified_count [symmetric] verified_matches [symmetric]

declare psem.simps(1-11) [simp del]

text \<open>Every basic predicate answers \<^const>\<open>Verified\<close> or \<^const>\<open>Failed\<close>.\<close>

definition definite :: "verification_result \<Rightarrow> bool" where
  "definite r \<longleftrightarrow> r = Verified \<or> r = Failed"

lemma definite_verdict [simp]: "definite (verdict b)"
  by (simp add: definite_def verdict_def)

lemma definite_simps [simp]: "definite Verified" "definite Failed"
  by (simp_all add: definite_def)

lemma definite_if [simp]: "definite (if b then Verified else Failed)"
  by simp

lemma definite_eq: "definite r \<Longrightarrow> r = verdict (r = Verified)"
  by (auto simp: definite_def verdict_def)

lemma definite_Failed: "definite r \<Longrightarrow> r \<noteq> Verified \<Longrightarrow> r = Failed"
  by (simp add: definite_def)

lemma definite_basic [simp]:
  "definite (eval_exists st p)" "definite (eval_not_exists st p)"
  "definite (eval_equals st p v a)" "definite (eval_not_equals st p v a)"
  "definite (eval_count st p op n)" "definite (eval_is_empty st p)"
  "definite (eval_is_not_empty st p)"
  by (auto simp: eval_defs Let_def split: option.split json.split verification_result.split)

lemma definite_ext [simp]:
  "definite (eval_contains ext st p v a)" "definite (eval_greater_than ext st p v a)"
  "definite (eval_less_than ext st p v a)"
  by (auto simp: eval_defs Let_def split: option.split json.split)

lemma definite_matches_ref: "matches_ref ext st p q = Inr r \<Longrightarrow> definite r"
  by (auto simp: matches_ref_def split: option.splits json.splits sum.splits)

lemma definite_eval_ref:
  "eval_ref ext st args p = Inr r \<Longrightarrow> definite r"
  "all_ref ext st args ps = Inr r \<Longrightarrow> definite r"
  "any_ref ext st args ps = Inr r \<Longrightarrow> definite r"
  by (induction ext st args p and ext st args ps and ext st args ps arbitrary: r and r and r
      rule: eval_ref_all_ref_any_ref.induct)
    (auto simp: and_then_res_ok definite_matches_ref split: if_splits)

lemma eval_matches_ref:
  "cache_ok ext c \<Longrightarrow> fst (eval_matches ext st path q c) = matches_ref ext st path q"
  by (auto simp: eval_matches_def matches_ref_def cache_ok_def verdict_def
      split: option.splits json.splits sum.splits)

lemma eval_matches_cache_ok:
  "cache_ok ext c \<Longrightarrow> cache_ok ext (snd (eval_matches ext st path q c))"
  by (auto simp: eval_matches_def intro: cache_ok_upd split: option.splits json.splits sum.splits)

text \<open>The evaluator computes what the reference does, and keeps the cache sound.\<close>

lemma not_result_definite: "definite r \<Longrightarrow> not_result r = verdict (r \<noteq> Verified)"
  by (auto simp: definite_def)

lemma evaluate_ref_step:
  assumes "fst x = r" "cache_ok ext (snd x)"
  obtains c1 where "x = (r, c1)" "cache_ok ext c1"
  using assms by (cases x) auto

lemma evaluate_ref:
  "cache_ok ext c \<Longrightarrow> fst (evaluate ext p st args c) = eval_ref ext st args p
     \<and> cache_ok ext (snd (evaluate ext p st args c))"
  "cache_ok ext c \<Longrightarrow> fst (eval_all ext ps st args c) = all_ref ext st args ps
     \<and> cache_ok ext (snd (eval_all ext ps st args c))"
  "cache_ok ext c \<Longrightarrow> fst (eval_any ext ps st args c) = any_ref ext st args ps
     \<and> cache_ok ext (snd (eval_any ext ps st args c))"
proof (induction ext p st args c and ext ps st args c and ext ps st args c
    rule: evaluate_eval_all_eval_any.induct)
  case (6 ext path q st args c)
  then show ?case by (simp add: eval_matches_ref eval_matches_cache_ok)
next
  case (14 ext p st args c)
  then have IH: "fst (evaluate ext p st args c) = eval_ref ext st args p"
    "cache_ok ext (snd (evaluate ext p st args c))" by auto
  obtain c1 where "evaluate ext p st args c = (eval_ref ext st args p, c1)" "cache_ok ext c1"
    using IH by (rule evaluate_ref_step)
  then show ?case
    by (cases "eval_ref ext st args p")
      (auto dest!: definite_eval_ref(1) simp: not_result_definite)
next
  case (15 ext a q st args c)
  then have IH: "fst (evaluate ext a st args c) = eval_ref ext st args a"
    "cache_ok ext (snd (evaluate ext a st args c))" by auto
  obtain c1 where c1: "evaluate ext a st args c = (eval_ref ext st args a, c1)" "cache_ok ext c1"
    using IH by (rule evaluate_ref_step)
  show ?case
  proof (cases "eval_ref ext st args a = Inr Verified")
    case True
    with 15(2) c1 have IH2: "fst (evaluate ext q st args c1) = eval_ref ext st args q"
      "cache_ok ext (snd (evaluate ext q st args c1))" by auto
    obtain c2 where "evaluate ext q st args c1 = (eval_ref ext st args q, c2)" "cache_ok ext c2"
      using IH2 by (rule evaluate_ref_step)
    with True c1 show ?thesis
      by (cases "eval_ref ext st args q") (auto dest!: definite_eval_ref(1) simp: definite_def)
  next
    case False
    with c1 show ?thesis by (cases "eval_ref ext st args a") auto
  qed
next
  case (17 ext p ps st args c)
  then have IH: "fst (evaluate ext p st args c) = eval_ref ext st args p"
    "cache_ok ext (snd (evaluate ext p st args c))" by auto
  obtain c1 where c1: "evaluate ext p st args c = (eval_ref ext st args p, c1)" "cache_ok ext c1"
    using IH by (rule evaluate_ref_step)
  with 17(2) show ?case by (cases "eval_ref ext st args p") auto
next
  case (19 ext p ps st args c)
  then have IH: "fst (evaluate ext p st args c) = eval_ref ext st args p"
    "cache_ok ext (snd (evaluate ext p st args c))" by auto
  obtain c1 where c1: "evaluate ext p st args c = (eval_ref ext st args p, c1)" "cache_ok ext c1"
    using IH by (rule evaluate_ref_step)
  with 19(2) show ?case by (cases "eval_ref ext st args p") auto
qed auto

lemmas evaluate_eq_ref = evaluate_ref(1) [THEN conjunct1]
lemmas evaluate_cache_ok = evaluate_ref(1) [THEN conjunct2]

lemma eval_ref_psem:
  "(\<forall>q\<in>set (pred_patterns p). is_ok (rx_new ext q)) \<Longrightarrow>
   eval_ref ext st args p = Inr (verdict (psem ext st args p))"
  "(\<forall>p\<in>set ps. \<forall>q\<in>set (pred_patterns p). is_ok (rx_new ext q)) \<Longrightarrow>
   all_ref ext st args ps = Inr (verdict (list_all (psem ext st args) ps))"
  "(\<forall>p\<in>set ps. \<forall>q\<in>set (pred_patterns p). is_ok (rx_new ext q)) \<Longrightarrow>
   any_ref ext st args ps = Inr (verdict (list_ex (psem ext st args) ps))"
proof (induction ext st args p and ext st args ps and ext st args ps
    rule: eval_ref_all_ref_any_ref.induct)
  case (6 ext st args path q)
  then show ?case
    by (auto simp: matches_ref_def is_ok_def split: option.splits json.splits sum.splits)
qed (auto intro: definite_Failed simp: verdict_def)

lemma eval_ref_error:
  "eval_ref ext st args p = Inl e \<Longrightarrow>
     \<exists>q\<in>set (pred_patterns p). \<exists>m. rx_new ext q = Inl m \<and> e = RegexError m"
  "all_ref ext st args ps = Inl e \<Longrightarrow>
     \<exists>p\<in>set ps. \<exists>q\<in>set (pred_patterns p). \<exists>m. rx_new ext q = Inl m \<and> e = RegexError m"
  "any_ref ext st args ps = Inl e \<Longrightarrow>
     \<exists>p\<in>set ps. \<exists>q\<in>set (pred_patterns p). \<exists>m. rx_new ext q = Inl m \<and> e = RegexError m"
proof (induction ext st args p and ext st args ps and ext st args ps
    rule: eval_ref_all_ref_any_ref.induct)
  case (6 ext st args path q)
  then show ?case
    by (auto simp: matches_ref_def split: option.splits json.splits sum.splits)
qed (auto simp: and_then_res_def split: sum.splits if_splits)

text \<open>The cache after a history of evaluations, each of any predicate on any document.\<close>

definition run_history ::
  "'re engine_lib \<Rightarrow> (predicate \<times> json \<times> json) list \<Rightarrow> 're regex_cache" where
  "run_history ext hist =
     fold (\<lambda>(p, st, args) c. snd (evaluate ext p st args c)) hist new_engine"

lemma cache_ok_history: "cache_ok ext (run_history ext hist)"
proof -
  have "cache_ok ext c \<Longrightarrow> cache_ok ext (fold (\<lambda>(p, st, args) c. snd (evaluate ext p st args c)) hist c)"
    for c by (induction hist arbitrary: c) (auto simp: evaluate_cache_ok)
  then show ?thesis by (simp add: run_history_def)
qed

lemma evaluate_history: "fst (evaluate ext p st args (run_history ext hist)) = eval_ref ext st args p"
  by (simp add: evaluate_eq_ref cache_ok_history)

text \<open>
  An environment for the witnesses: patterns are literal substrings, an opening parenthesis
  does not compile, and only non-negative integers convert to floats.
\<close>

definition literal_ext :: "string engine_lib" where
  "literal_ext =
     \<lparr>rx_new = (\<lambda>p. if p = ''('' then Inl ''unclosed group'' else Inr p),
      rx_is_match = contains_str,
      js_to_string = (\<lambda>_. None),
      num_as_f64 = (\<lambda>n. case n of PosInt w \<Rightarrow> Some (f64_of_nat (unat w)) | _ \<Rightarrow> None)\<rparr>"

section \<open>Properties\<close>

text \<open>
  The regex cache is transparent. After any history of evaluations
  the engine answers every query as a fresh engine does.
\<close>

theorem evaluate_cache_transparent:
  "fst (evaluate ext p st args (run_history ext hist)) = fst (evaluate ext p st args new_engine)"
  by (simp add: evaluate_history evaluate_eq_ref)

text \<open>
  Property C15 (functional): where every regular expression of the predicate compiles, the
  engine, after any history of evaluations, returns \<open>Verified\<close> or \<open>Failed\<close> according to the truth
  value of the predicate. That value is given by rules on what a path denotes in the state, on the
  equality and order of values, and on what a value comprises, without the functions of the engine;
  \<open>All\<close>, \<open>Any\<close>, \<open>Not\<close> and \<open>Implies\<close> are read as the logical connectives.
\<close>

theorem evaluate_sound:
  assumes "\<forall>q\<in>set (pred_patterns p). is_ok (rx_new ext q)"
  shows "fst (evaluate ext p st args (run_history ext hist)) = Inr (verdict (psem ext st args p))"
  using eval_ref_psem(1) [OF assms] by (simp add: evaluate_history)

theorem evaluate_sound_witness:
  "fst (evaluate literal_ext (PNot (PAny [Matches ''status'' ''err'', NotExists ''id'']))
      (JObject [(''id'', JNull), (''status'', JString ''ok'')]) JNull
      (run_history literal_ext [])) = Inr Verified"
proof -
  let ?p = "PNot (PAny [Matches ''status'' ''err'', NotExists ''id''])"
  let ?st = "JObject [(''id'', JNull), (''status'', JString ''ok'')]"
  have "\<forall>q\<in>set (pred_patterns ?p). is_ok (rx_new literal_ext q)"
    by (simp add: literal_ext_def is_ok_def)
  from evaluate_sound [OF this, of ?st JNull "[]"] show ?thesis
    by (simp add: matches_ref_def eval_not_exists_def get_path_def literal_ext_def starts_with_def)
qed

text \<open>
  Property C39 (safety): the engine never answers \<open>Unknown\<close>, \<open>Partial\<close> or \<open>Duplicate\<close>; a
  result is \<open>Verified\<close> or \<open>Failed\<close>.
\<close>

theorem evaluate_definite:
  "fst (evaluate ext p st args (run_history ext hist)) \<notin> {Inr Unknown, Inr Partial, Inr Duplicate}"
  using definite_eval_ref(1) [of ext st args p] by (auto simp: evaluate_history definite_def)

text \<open>
  Evaluation fails only with a regex error, and only when a pattern that
  occurs in the predicate does not compile.
\<close>

theorem evaluate_error_only_regex:
  assumes "fst (evaluate ext p st args (run_history ext hist)) = Inl e"
  shows "\<exists>q\<in>set (pred_patterns p). \<exists>m. rx_new ext q = Inl m \<and> e = RegexError m"
  using assms eval_ref_error(1) by (simp add: evaluate_history)

theorem evaluate_error_only_regex_witness:
  "\<exists>q\<in>set (pred_patterns (PAll [Exists ''a'', Matches ''a'' ''('']) ).
     \<exists>m. rx_new literal_ext q = Inl m \<and> RegexError ''unclosed group'' = RegexError m"
proof (rule evaluate_error_only_regex)
  show "fst (evaluate literal_ext (PAll [Exists ''a'', Matches ''a'' ''(''])
      (JObject [(''a'', JString ''x'')]) JNull (run_history literal_ext []))
      = Inl (RegexError ''unclosed group'')"
    by (simp add: eval_exists_def eval_matches_def get_path_def literal_ext_def run_history_def
        new_engine_def)
qed

text \<open>
  Two laws of comparison: \<open>Equals\<close> and \<open>NotEquals\<close> on one path and value exclude each other,
  and one of them holds exactly when the path exists, so \<open>NotEquals\<close> is not the negation of
  \<open>Equals\<close>. \<open>GreaterThan\<close> and \<open>LessThan\<close> exclude each other, on numbers and on strings.
\<close>

theorem comparison_laws:
  "(eval_equals st p v args = Verified \<or> eval_not_equals st p v args = Verified)
     = (get_path st p \<noteq> None) \<and>
   \<not> (eval_equals st p v args = Verified \<and> eval_not_equals st p v args = Verified) \<and>
   \<not> (eval_greater_than ext st p v args = Verified \<and> eval_less_than ext st p v args = Verified)"
proof -
  have "\<not> (eval_greater_than ext st p v args = Verified \<and> eval_less_than ext st p v args = Verified)"
    using f64_lt_asym str_less_asym
    by (auto simp: eval_greater_than_def eval_less_than_def split: option.splits json.splits if_splits)
  then show ?thesis
    by (auto simp: eval_equals_def eval_not_equals_def Let_def split: option.splits)
qed

text \<open>
  For a value shorter than \<open>2^63\<close>, \<open>IsEmpty\<close> agrees with a count of
  zero on arrays, objects, strings and missing paths; on null \<open>IsEmpty\<close> holds and every count
  fails; on booleans and numbers both fail. \<open>IsNotEmpty\<close> is always the negation of \<open>IsEmpty\<close>.
\<close>

definition json_len :: "json \<Rightarrow> nat" where
  "json_len v = (case v of JArray a \<Rightarrow> length a | JObject es \<Rightarrow> length es | JString s \<Rightarrow> length s | _ \<Rightarrow> 0)"

lemma of_nat_len_zero: "n < 2 ^ 63 \<Longrightarrow> (of_nat n :: i64) = 0 \<longleftrightarrow> n = 0"
  by (simp add: word_of_nat_eq_0_iff) (auto dest: dvd_imp_le)

theorem is_empty_count:
  assumes "case get_path st p of None \<Rightarrow> True | Some v \<Rightarrow> json_len v < 2 ^ 63"
  shows "eval_is_empty st p =
      (if get_path st p = Some JNull then Verified else eval_count st p Eq 0) \<and>
    (eval_is_not_empty st p = Verified) = (eval_is_empty st p \<noteq> Verified)"
  using assms of_nat_len_zero
  by (auto simp: eval_is_empty_def eval_is_not_empty_def eval_count_def count_of_def json_len_def
      split: option.splits json.splits)

theorem is_empty_count_witness:
  "eval_is_empty (JObject [(''xs'', JArray [])]) ''xs'' = Verified \<and>
   eval_count (JObject [(''xs'', JArray [])]) ''xs'' Eq 0 = Verified"
proof -
  have "case get_path (JObject [(''xs'', JArray [])]) ''xs'' of
      None \<Rightarrow> True | Some v \<Rightarrow> json_len v < 2 ^ 63"
    by (simp add: get_path_def json_len_def)
  from is_empty_count [OF this] show ?thesis
    by (simp add: eval_is_empty_def get_path_def)
qed

text \<open>
  Comparisons of integers are exact up to \<open>2 ^ 53\<close>. When \<open>Number::as_f64\<close> converts
  an integer as the \<open>as\<close> operator does, \<open>GreaterThan\<close> and \<open>LessThan\<close> on non-negative integers below
  \<open>2 ^ 53\<close> are verified exactly when the numbers compare so.
\<close>

theorem integer_comparison_exact:
  assumes "\<forall>w. num_as_f64 ext (PosInt w) = Some (f64_of_nat (unat w))"
    and "get_path st p = Some (JNumber (PosInt a))" and "resolve_value v args = JNumber (PosInt b)"
    and "unat a < 2 ^ 53" "unat b < 2 ^ 53"
  shows "(eval_greater_than ext st p v args = Verified \<longleftrightarrow> b < a) \<and>
    (eval_less_than ext st p v args = Verified \<longleftrightarrow> a < b)"
  using assms
  by (simp add: eval_greater_than_def eval_less_than_def f64_lt_small word_less_nat_alt)

theorem integer_comparison_exact_witness:
  "eval_greater_than literal_ext (JObject [(''n'', JNumber (PosInt 7))]) ''n'' (JNumber (PosInt 5)) JNull = Verified"
proof -
  let ?st = "JObject [(''n'', JNumber (PosInt 7))]"
  have "\<forall>w. num_as_f64 literal_ext (PosInt w) = Some (f64_of_nat (unat w))" by (simp add: literal_ext_def)
  moreover have "get_path ?st ''n'' = Some (JNumber (PosInt 7))" by (simp add: get_path_def)
  moreover have "resolve_value (JNumber (PosInt 5)) JNull = JNumber (PosInt 5)" by (simp add: resolve_value_def)
  moreover have "unat (7 :: u64) < 2 ^ 53" "unat (5 :: u64) < 2 ^ 53" by simp_all
  ultimately have "eval_greater_than literal_ext ?st ''n'' (JNumber (PosInt 5)) JNull = Verified \<longleftrightarrow> (5 :: u64) < 7"
    using integer_comparison_exact by blast
  also have "(5 :: u64) < 7" by simp
  finally show ?thesis by simp
qed

text \<open>
  Beyond that they are not: two integers can share a double, and a state of \<open>2 ^ 53 + 1\<close> fails
  \<open>GreaterThan\<close> with \<open>2 ^ 53\<close>.
\<close>

theorem large_integers_collapse:
  assumes "\<forall>w. num_as_f64 ext (PosInt w) = Some (f64_of_nat (unat w))"
    and "get_path st p = Some (JNumber (PosInt (2 ^ 53 + 1)))"
  shows "eval_greater_than ext st p (JNumber (PosInt (2 ^ 53))) args = Failed"
proof -
  have "unat (2 ^ 53 + 1 :: u64) = 2 ^ 53 + 1" "unat (2 ^ 53 :: u64) = 2 ^ 53" by simp_all
  then have "num_as_f64 ext (PosInt (2 ^ 53 + 1)) = num_as_f64 ext (PosInt (2 ^ 53))"
    using assms(1) f64_two_53 by metis
  then show ?thesis using assms
    by (simp add: eval_greater_than_def resolve_value_def f64_lt_def split: option.split)
qed

end
