(* ===== verification/Receipt.thy ===== *)
theory Receipt
  imports Contract
begin

text \<open>
  Receipts (\<open>agentverify-core/src/receipt.rs\<close>) and their signatures
  (\<open>agentverify-receipt/src/signing.rs\<close>): the receipt record, its constructors and builders,
  the canonical document that the digest covers, the shorter document that the signature
  covers, and the Ed25519 service. The libraries they call are the fields of \<open>receipt_lib\<close> (the
  \<open>Display\<close> of UUIDs, RFC 3339 timestamps, the derived \<open>Serialize\<close> of observations and
  postcondition results, \<open>serde_json::to_vec\<close>, and the hex form of SHA-256) and of \<open>sig_lib\<close>.
\<close>

type_synonym byte = "8 word"

section \<open>Receipts\<close>

definition RECEIPT_SCHEMA_VERSION :: string where
  "RECEIPT_SCHEMA_VERSION = ''1.0''"

record postcondition_result =
  pcr_predicate :: predicate
  pcr_description :: string
  pcr_passed :: bool
  pcr_error :: "string option"

record receipt =
  rc_version :: string
  rc_id :: receipt_id
  rc_action_id :: action_id
  rc_contract_id :: contract_id
  rc_contract_version :: string
  rc_result :: verification_result
  rc_attempts :: u32
  rc_observations :: "observation list"
  rc_postcondition_results :: "postcondition_result list"
  rc_digest :: string
  rc_key_id :: "string option"
  rc_idempotency_key :: "string option"
  rc_signature :: "byte list option"
  rc_timestamp :: datetime

record receipt_lib =
  show_uuid :: "uuid \<Rightarrow> string"
  show_rfc3339 :: "datetime \<Rightarrow> string"
  obs_to_json :: "observation \<Rightarrow> json"
  pcr_to_json :: "postcondition_result \<Rightarrow> json"
  js_to_vec :: "json \<Rightarrow> byte list option"
  sha256_hex :: "byte list \<Rightarrow> string"

definition json_opt_string :: "string option \<Rightarrow> json" where
  "json_opt_string s = (case s of None \<Rightarrow> JNull | Some t \<Rightarrow> JString t)"

definition json_u32 :: "u32 \<Rightarrow> json" where
  "json_u32 w = JNumber (PosInt (ucast w))"

definition canonical_json :: "receipt_lib \<Rightarrow> receipt \<Rightarrow> json" where
  "canonical_json ext r = json_object
     [(''version'', JString (rc_version r)),
      (''id'', JString (show_uuid ext (rc_id r))),
      (''action_id'', JString (show_uuid ext (rc_action_id r))),
      (''contract_id'', JString (show_uuid ext (rc_contract_id r))),
      (''contract_version'', JString (rc_contract_version r)),
      (''result'', JString (show_result (rc_result r))),
      (''attempts'', json_u32 (rc_attempts r)),
      (''observations'', JArray (map (obs_to_json ext) (rc_observations r))),
      (''postcondition_results'', JArray (map (pcr_to_json ext) (rc_postcondition_results r))),
      (''idempotency_key'', json_opt_string (rc_idempotency_key r)),
      (''timestamp'', JString (show_rfc3339 ext (rc_timestamp r)))]"

definition canonical_data :: "receipt_lib \<Rightarrow> receipt \<Rightarrow> byte list" where
  "canonical_data ext r =
     (case js_to_vec ext (canonical_json ext r) of None \<Rightarrow> [] | Some bytes \<Rightarrow> bytes)"

definition compute_digest :: "receipt_lib \<Rightarrow> receipt \<Rightarrow> string" where
  "compute_digest ext r = sha256_hex ext (canonical_data ext r)"

definition with_digest :: "receipt_lib \<Rightarrow> receipt \<Rightarrow> receipt" where
  "with_digest ext r = r\<lparr>rc_digest := compute_digest ext r\<rparr>"

definition with_contract_version_and_key ::
  "receipt_lib \<Rightarrow> uuid \<Rightarrow> datetime \<Rightarrow> action_id \<Rightarrow> contract_id \<Rightarrow> string \<Rightarrow> verification_result \<Rightarrow> u32
   \<Rightarrow> string option \<Rightarrow> receipt" where
  "with_contract_version_and_key ext uid now aid cid cver res att key =
     with_digest ext
       \<lparr>rc_version = RECEIPT_SCHEMA_VERSION, rc_id = uid, rc_action_id = aid,
        rc_contract_id = cid, rc_contract_version = cver, rc_result = res, rc_attempts = att,
        rc_observations = [], rc_postcondition_results = [], rc_digest = [],
        rc_key_id = None, rc_idempotency_key = key, rc_signature = None, rc_timestamp = now\<rparr>"

definition new_receipt ::
  "receipt_lib \<Rightarrow> uuid \<Rightarrow> datetime \<Rightarrow> action_id \<Rightarrow> contract_id \<Rightarrow> verification_result \<Rightarrow> u32 \<Rightarrow> receipt" where
  "new_receipt ext uid now aid cid res att =
     with_digest ext
       \<lparr>rc_version = RECEIPT_SCHEMA_VERSION, rc_id = uid, rc_action_id = aid,
        rc_contract_id = cid, rc_contract_version = [], rc_result = res, rc_attempts = att,
        rc_observations = [], rc_postcondition_results = [], rc_digest = [],
        rc_key_id = None, rc_idempotency_key = None, rc_signature = None, rc_timestamp = now\<rparr>"

definition with_observation :: "receipt_lib \<Rightarrow> observation \<Rightarrow> receipt \<Rightarrow> receipt" where
  "with_observation ext obs r =
     (let r1 = r\<lparr>rc_observations := rc_observations r @ [obs]\<rparr>
      in r1\<lparr>rc_digest := compute_digest ext r1\<rparr>)"

definition with_postcondition_result ::
  "receipt_lib \<Rightarrow> postcondition_result \<Rightarrow> receipt \<Rightarrow> receipt" where
  "with_postcondition_result ext res r =
     (let r1 = r\<lparr>rc_postcondition_results := rc_postcondition_results r @ [res]\<rparr>
      in r1\<lparr>rc_digest := compute_digest ext r1\<rparr>)"

definition with_key_id :: "string \<Rightarrow> receipt \<Rightarrow> receipt" where
  "with_key_id k r = r\<lparr>rc_key_id := Some k\<rparr>"

definition sign_receipt :: "byte list \<Rightarrow> receipt \<Rightarrow> receipt" where
  "sign_receipt sig r = r\<lparr>rc_signature := Some sig\<rparr>"

definition is_signed :: "receipt \<Rightarrow> bool" where
  "is_signed r = (rc_signature r \<noteq> None)"

definition receipt_version :: "receipt \<Rightarrow> string" where
  "receipt_version r = rc_version r"

definition receipt_key_id :: "receipt \<Rightarrow> string option" where
  "receipt_key_id r = rc_key_id r"

definition verify_digest :: "receipt_lib \<Rightarrow> receipt \<Rightarrow> bool" where
  "verify_digest ext r = (rc_digest r = compute_digest ext r)"

text \<open>The receipts that the constructors and builders can make.\<close>

inductive built :: "receipt_lib \<Rightarrow> receipt \<Rightarrow> bool" for ext where
  new: "built ext (new_receipt ext uid now aid cid res att)"
| versioned: "built ext (with_contract_version_and_key ext uid now aid cid cver res att key)"
| observation: "built ext r \<Longrightarrow> built ext (with_observation ext obs r)"
| postcondition: "built ext r \<Longrightarrow> built ext (with_postcondition_result ext res r)"
| key_id: "built ext r \<Longrightarrow> built ext (with_key_id k r)"
| signature: "built ext r \<Longrightarrow> built ext (sign_receipt sig r)"

section \<open>Signing\<close>

datatype signing_error =
  MissingKey | SigningFailed string | SigVerificationFailed string | KeyError string

text \<open>The trait's \<open>canonicalize\<close>, the bytes that are signed.\<close>

definition signing_json :: "receipt_lib \<Rightarrow> receipt \<Rightarrow> json" where
  "signing_json ext r = json_object
     [(''id'', JString (show_uuid ext (rc_id r))),
      (''action_id'', JString (show_uuid ext (rc_action_id r))),
      (''contract_id'', JString (show_uuid ext (rc_contract_id r))),
      (''result'', JString (show_result (rc_result r))),
      (''attempts'', json_u32 (rc_attempts r)),
      (''observations'', JArray (map (obs_to_json ext) (rc_observations r))),
      (''postcondition_results'', JArray (map (pcr_to_json ext) (rc_postcondition_results r))),
      (''timestamp'', JString (show_rfc3339 ext (rc_timestamp r)))]"

definition canonicalize :: "receipt_lib \<Rightarrow> receipt \<Rightarrow> byte list" where
  "canonicalize ext r =
     (case js_to_vec ext (signing_json ext r) of None \<Rightarrow> [] | Some bytes \<Rightarrow> bytes)"

record ('sk, 'vk) sig_lib =
  sk_from_bytes :: "byte list \<Rightarrow> 'sk"
  verifying_key_of :: "'sk \<Rightarrow> 'vk"
  vk_bytes :: "'vk \<Rightarrow> byte list"
  ed_sign :: "'sk \<Rightarrow> byte list \<Rightarrow> byte list"
  ed_verify_strict :: "'vk \<Rightarrow> byte list \<Rightarrow> byte list \<Rightarrow> bool"
  base64_decode :: "string \<Rightarrow> string + byte list"
  hex_encode :: "byte list \<Rightarrow> string"

record ('sk, 'vk) ed25519_service =
  signing_key :: 'sk
  verifying_key :: 'vk

text \<open>A new service keeps the key that the system's generator made.\<close>

definition new_signing_service :: "('sk, 'vk) sig_lib \<Rightarrow> 'sk \<Rightarrow> ('sk, 'vk) ed25519_service" where
  "new_signing_service sx generated =
     \<lparr>signing_key = generated, verifying_key = verifying_key_of sx generated\<rparr>"

definition from_seed :: "('sk, 'vk) sig_lib \<Rightarrow> byte list \<Rightarrow> ('sk, 'vk) ed25519_service" where
  "from_seed sx seed =
     (let sk = sk_from_bytes sx seed
      in \<lparr>signing_key = sk, verifying_key = verifying_key_of sx sk\<rparr>)"

definition from_base64 ::
  "('sk, 'vk) sig_lib \<Rightarrow> string \<Rightarrow> signing_error + ('sk, 'vk) ed25519_service" where
  "from_base64 sx encoded =
     (case base64_decode sx encoded of
        Inl e \<Rightarrow> Inl (SigningFailed (''Invalid base64: '' @ e))
      | Inr bytes \<Rightarrow>
          if length bytes \<noteq> 32 then Inl (SigningFailed ''Key must be 32 bytes'')
          else Inr (from_seed sx bytes))"

definition verifying_key_base64 ::
  "('sk, 'vk) sig_lib \<Rightarrow> (byte list \<Rightarrow> string) \<Rightarrow> ('sk, 'vk) ed25519_service \<Rightarrow> string" where
  "verifying_key_base64 sx base64_encode svc = base64_encode (vk_bytes sx (verifying_key svc))"

definition service_sign ::
  "receipt_lib \<Rightarrow> ('sk, 'vk) sig_lib \<Rightarrow> ('sk, 'vk) ed25519_service \<Rightarrow> receipt
   \<Rightarrow> signing_error + byte list" where
  "service_sign ext sx svc r = Inr (ed_sign sx (signing_key svc) (canonicalize ext r))"

definition service_verify ::
  "receipt_lib \<Rightarrow> ('sk, 'vk) sig_lib \<Rightarrow> ('sk, 'vk) ed25519_service \<Rightarrow> receipt
   \<Rightarrow> signing_error + bool" where
  "service_verify ext sx svc r =
     (case rc_signature r of
        None \<Rightarrow> Inl MissingKey
      | Some sig \<Rightarrow>
          if length sig \<noteq> 64 then Inl (SigVerificationFailed ''Invalid signature length'')
          else Inr (ed_verify_strict sx (verifying_key svc) (canonicalize ext r) sig))"

definition service_key_id ::
  "('sk, 'vk) sig_lib \<Rightarrow> ('sk, 'vk) ed25519_service \<Rightarrow> string" where
  "service_key_id sx svc = hex_encode sx (take 8 (vk_bytes sx (verifying_key svc)))"

section \<open>Lemmas\<close>

lemma canonical_json_frame [simp]:
  "canonical_json ext (r\<lparr>rc_digest := d\<rparr>) = canonical_json ext r"
  "canonical_json ext (r\<lparr>rc_key_id := k\<rparr>) = canonical_json ext r"
  "canonical_json ext (r\<lparr>rc_signature := s\<rparr>) = canonical_json ext r"
  by (simp_all add: canonical_json_def)

lemma compute_digest_frame [simp]:
  "compute_digest ext (r\<lparr>rc_digest := d\<rparr>) = compute_digest ext r"
  "compute_digest ext (r\<lparr>rc_key_id := k\<rparr>) = compute_digest ext r"
  "compute_digest ext (r\<lparr>rc_signature := s\<rparr>) = compute_digest ext r"
  by (simp_all add: compute_digest_def canonical_data_def)

lemma verify_digest_with_digest [simp]: "verify_digest ext (with_digest ext r)"
  by (simp add: verify_digest_def with_digest_def)

lemma verify_digest_builders [simp]:
  "verify_digest ext (with_observation ext obs r)"
  "verify_digest ext (with_postcondition_result ext res r)"
  "verify_digest ext (with_key_id k r) = verify_digest ext r"
  "verify_digest ext (sign_receipt sig r) = verify_digest ext r"
  by (simp_all add: verify_digest_def with_observation_def with_postcondition_result_def
      with_key_id_def sign_receipt_def Let_def)

lemma json_opt_string_inject [simp]: "json_opt_string a = json_opt_string b \<longleftrightarrow> a = b"
  by (auto simp: json_opt_string_def split: option.splits)

lemma ucast_u32_u64_inject: "(ucast (a :: u32) :: u64) = ucast b \<Longrightarrow> a = b"
  by transfer (simp add: take_bit_eq_mod)

lemma json_u32_inject [simp]: "json_u32 a = json_u32 b \<longleftrightarrow> a = b"
  by (auto simp: json_u32_def dest: ucast_u32_u64_inject)

text \<open>What it takes of the libraries for the canonical document to determine the receipt.\<close>

definition faithful_encoding :: "receipt_lib \<Rightarrow> receipt \<Rightarrow> receipt \<Rightarrow> bool" where
  "faithful_encoding ext r s \<longleftrightarrow>
     inj (show_uuid ext) \<and> inj_on (show_rfc3339 ext) {rc_timestamp r, rc_timestamp s} \<and>
     inj_on (obs_to_json ext) (set (rc_observations r) \<union> set (rc_observations s)) \<and>
     inj_on (pcr_to_json ext) (set (rc_postcondition_results r) \<union> set (rc_postcondition_results s))"

definition same_content :: "receipt \<Rightarrow> receipt \<Rightarrow> bool" where
  "same_content r s \<longleftrightarrow>
     rc_version r = rc_version s \<and> rc_id r = rc_id s \<and> rc_action_id r = rc_action_id s \<and>
     rc_contract_id r = rc_contract_id s \<and> rc_contract_version r = rc_contract_version s \<and>
     rc_result r = rc_result s \<and> rc_attempts r = rc_attempts s \<and>
     rc_observations r = rc_observations s \<and>
     rc_postcondition_results r = rc_postcondition_results s \<and>
     rc_idempotency_key r = rc_idempotency_key s \<and> rc_timestamp r = rc_timestamp s"

lemma canonical_json_sorted:
  "canonical_json ext r = JObject
     [(''action_id'', JString (show_uuid ext (rc_action_id r))),
      (''attempts'', json_u32 (rc_attempts r)),
      (''contract_id'', JString (show_uuid ext (rc_contract_id r))),
      (''contract_version'', JString (rc_contract_version r)),
      (''id'', JString (show_uuid ext (rc_id r))),
      (''idempotency_key'', json_opt_string (rc_idempotency_key r)),
      (''observations'', JArray (map (obs_to_json ext) (rc_observations r))),
      (''postcondition_results'', JArray (map (pcr_to_json ext) (rc_postcondition_results r))),
      (''result'', JString (show_result (rc_result r))),
      (''timestamp'', JString (show_rfc3339 ext (rc_timestamp r))),
      (''version'', JString (rc_version r))]"
  by (simp add: canonical_json_def json_object_def)

lemma canonical_json_inject:
  assumes "faithful_encoding ext r s"
  shows "canonical_json ext r = canonical_json ext s \<longleftrightarrow> same_content r s"
proof -
  have u: "show_uuid ext a = show_uuid ext b \<longleftrightarrow> a = b" for a b
    using assms by (simp add: faithful_encoding_def inj_eq)
  have t: "show_rfc3339 ext (rc_timestamp r) = show_rfc3339 ext (rc_timestamp s)
      \<longleftrightarrow> rc_timestamp r = rc_timestamp s"
    by (rule inj_on_eq_iff [of _ "{rc_timestamp r, rc_timestamp s}"])
      (use assms in \<open>simp_all add: faithful_encoding_def\<close>)
  have o: "map (obs_to_json ext) (rc_observations r) = map (obs_to_json ext) (rc_observations s)
      \<longleftrightarrow> rc_observations r = rc_observations s"
    using assms by (simp add: faithful_encoding_def inj_on_map_eq_map)
  have p: "map (pcr_to_json ext) (rc_postcondition_results r)
        = map (pcr_to_json ext) (rc_postcondition_results s)
      \<longleftrightarrow> rc_postcondition_results r = rc_postcondition_results s"
    using assms by (simp add: faithful_encoding_def inj_on_map_eq_map)
  show ?thesis
    by (simp only: canonical_json_sorted same_content_def json.inject list.inject prod.inject
        simp_thms json_u32_inject json_opt_string_inject show_result_inject u t o p) blast
qed

lemma faithful_key_id:
  assumes "inj (show_uuid ext)" "inj_on (obs_to_json ext) (set (rc_observations r))"
    "inj_on (pcr_to_json ext) (set (rc_postcondition_results r))"
  shows "faithful_encoding ext r (with_key_id k r)"
  using assms by (simp add: faithful_encoding_def with_key_id_def)

lemma canonical_json_key_id [simp]: "canonical_json ext (with_key_id k r) = canonical_json ext r"
  by (simp add: with_key_id_def)

text \<open>
  Instances of the libraries for the witnesses. \<open>demo_ext\<close> has an identity for a hash and a
  constant for the serialised document; \<open>demo_sig\<close> signs with 64 zero bytes.
\<close>

definition demo_ext :: receipt_lib where
  "demo_ext =
     \<lparr>show_uuid = (\<lambda>u. show_nat (unat u)), show_rfc3339 = (\<lambda>_. ''2024-01-01T00:00:00+00:00''),
      obs_to_json = obs_state, pcr_to_json = (\<lambda>p. JBool (pcr_passed p)),
      js_to_vec = (\<lambda>v. Some [case v of JObject es \<Rightarrow> of_nat (length es) | _ \<Rightarrow> 0]),
      sha256_hex = map (\<lambda>b. char_of (unat b))\<rparr>"

lemma show_nat_inject: "show_nat m = show_nat n \<Longrightarrow> m = n"
  by (metis option.inject parse_digits_show_nat)

lemma demo_ext_uuid: "inj (show_uuid demo_ext)"
  by (auto simp: demo_ext_def inj_def dest!: show_nat_inject intro: unsigned_word_eqI)

lemma demo_ext_vec: "js_to_vec demo_ext v \<noteq> None"
  by (simp add: demo_ext_def)

definition demo_sig :: "(byte list, byte list) sig_lib" where
  "demo_sig =
     \<lparr>sk_from_bytes = id, verifying_key_of = id, vk_bytes = id,
      ed_sign = (\<lambda>_ _. replicate 64 0), ed_verify_strict = (\<lambda>_ _ s. s = replicate 64 0),
      base64_decode = (\<lambda>_. Inr (replicate 32 0)), hex_encode = (\<lambda>_. [])\<rparr>"

text \<open>Two digests that agree and check out, without collisions, give the same content.\<close>

lemma same_digest_same_content:
  assumes "verify_digest ext r" "verify_digest ext s" "rc_digest r = rc_digest s"
    and "sha256_hex ext (canonical_data ext r) = sha256_hex ext (canonical_data ext s)
      \<Longrightarrow> canonical_data ext r = canonical_data ext s"
    and "js_to_vec ext (canonical_json ext r) \<noteq> None" "js_to_vec ext (canonical_json ext s) \<noteq> None"
    and "js_to_vec ext (canonical_json ext r) = js_to_vec ext (canonical_json ext s)
      \<Longrightarrow> canonical_json ext r = canonical_json ext s"
    and "faithful_encoding ext r s"
  shows "same_content r s"
proof -
  from assms(1-3) have "sha256_hex ext (canonical_data ext r) = sha256_hex ext (canonical_data ext s)"
    by (simp add: verify_digest_def compute_digest_def)
  from assms(4) [OF this] assms(5,6) have "js_to_vec ext (canonical_json ext r) = js_to_vec ext (canonical_json ext s)"
    by (auto simp: canonical_data_def)
  from assms(7) [OF this] canonical_json_inject [OF assms(8)] show ?thesis by simp
qed

lemma built_digest: "built ext r \<Longrightarrow> verify_digest ext r"
  by (induction rule: built.induct)
    (simp_all add: new_receipt_def with_contract_version_and_key_def)

section \<open>Properties\<close>

text \<open>
  Property C23 (invariant): every receipt that the constructors and builders can make, in any
  order and number, passes its own digest check.
\<close>

theorem built_verify_digest:
  assumes "built ext r"
  shows "verify_digest ext r"
  using assms by (rule built_digest)

theorem built_verify_digest_witness:
  "verify_digest demo_ext
     (sign_receipt [7] (with_observation demo_ext (new_observation 0 ''db'' JNull)
        (new_receipt demo_ext 1 0 2 3 Verified 1)))"
  by (rule built_verify_digest) (intro built.intros)

text \<open>
  Property C22 (safety): a receipt is tamper evident. If two receipts carry the same digest and
  both pass the digest check, then they agree on every field the digest covers, provided the
  documents serialise, the serialiser and SHA-256 do not collide on these two documents, and
  the encodings of the fields are injective.
\<close>

theorem digest_tamper_evident:
  assumes "verify_digest ext r" "verify_digest ext s" "rc_digest r = rc_digest s"
    and "sha256_hex ext (canonical_data ext r) = sha256_hex ext (canonical_data ext s)
      \<Longrightarrow> canonical_data ext r = canonical_data ext s"
    and "js_to_vec ext (canonical_json ext r) \<noteq> None" "js_to_vec ext (canonical_json ext s) \<noteq> None"
    and "js_to_vec ext (canonical_json ext r) = js_to_vec ext (canonical_json ext s)
      \<Longrightarrow> canonical_json ext r = canonical_json ext s"
    and "faithful_encoding ext r s"
  shows "same_content r s"
  using assms by (rule same_digest_same_content)

theorem digest_tamper_evident_witness:
  "same_content
     (with_observation demo_ext (new_observation 0 ''db'' JNull) (new_receipt demo_ext 1 0 2 3 Verified 1))
     (with_key_id ''k''
       (with_observation demo_ext (new_observation 0 ''db'' JNull) (new_receipt demo_ext 1 0 2 3 Verified 1)))"
proof (rule digest_tamper_evident [of demo_ext])
  let ?r = "with_observation demo_ext (new_observation 0 ''db'' JNull) (new_receipt demo_ext 1 0 2 3 Verified 1)"
  have "rc_observations ?r = [new_observation 0 ''db'' JNull]" "rc_postcondition_results ?r = []"
    by (simp_all add: with_observation_def new_receipt_def with_digest_def Let_def)
  then show "faithful_encoding demo_ext ?r (with_key_id ''k'' ?r)"
    by (intro faithful_key_id demo_ext_uuid) simp_all
qed (simp_all add: canonical_data_def demo_ext_vec, simp add: with_key_id_def)

text \<open>
  A receipt signed by the service verifies, provided Ed25519
  signatures have 64 bytes and verify under the key they were made with.
\<close>

theorem sign_verify_roundtrip:
  assumes "service_sign ext sx svc r = Inr sig"
    and "\<And>m. length (ed_sign sx (signing_key svc) m) = 64"
    and "\<And>m. ed_verify_strict sx (verifying_key svc) m (ed_sign sx (signing_key svc) m)"
  shows "service_verify ext sx svc (sign_receipt sig r) = Inr True"
proof -
  have "canonicalize ext (sign_receipt sig r) = canonicalize ext r"
    by (simp add: canonicalize_def signing_json_def sign_receipt_def)
  with assms show ?thesis
    by (auto simp: service_verify_def service_sign_def sign_receipt_def)
qed

theorem sign_verify_roundtrip_witness:
  "service_verify demo_ext demo_sig (from_seed demo_sig [])
     (sign_receipt (replicate 64 0) (new_receipt demo_ext 1 0 2 3 Verified 1)) = Inr True"
  by (rule sign_verify_roundtrip) (simp_all add: service_sign_def demo_sig_def)

text \<open>
  What the signature does not bind. Replacing the schema version, the
  contract version, the idempotency key, the digest or the key identifier of a receipt never
  changes what signature verification answers, while the digest covers the first three.
\<close>

theorem signature_does_not_bind:
  "service_verify ext sx svc
     (r\<lparr>rc_version := v, rc_contract_version := cv, rc_digest := d, rc_key_id := k,
       rc_idempotency_key := ik\<rparr>)
   = service_verify ext sx svc r"
  by (simp add: service_verify_def canonicalize_def signing_json_def split: option.split)

end
