(* ===== verification/File_System.thy ===== *)
theory File_System
  imports AV_Prelude
begin

text \<open>
  The files that the file-backed stores use. A file system maps paths to contents. Every call
  may fail, and which calls fail is an argument: a write that fails leaves some content or no
  file behind, a rename, a removal or a read that fails leaves the files as they are.
  \<open>write_atomic\<close> is the temp-file-then-rename sequence that all the stores share.
\<close>

type_synonym path = string
type_synonym fs = "path \<Rightarrow> string option"

datatype write_outcome = WriteOk | WriteFails "string option"

definition path_join :: "path \<Rightarrow> string \<Rightarrow> path" where
  "path_join base name = base @ ''/'' @ name"

definition fs_write :: "write_outcome \<Rightarrow> path \<Rightarrow> string \<Rightarrow> fs \<Rightarrow> bool \<times> fs" where
  "fs_write w p content f =
     (case w of WriteOk \<Rightarrow> (True, f(p \<mapsto> content)) | WriteFails left \<Rightarrow> (False, f(p := left)))"

definition fs_rename :: "bool \<Rightarrow> path \<Rightarrow> path \<Rightarrow> fs \<Rightarrow> bool \<times> fs" where
  "fs_rename ok src dst f = (if ok then (True, (f(src := None))(dst := f src)) else (False, f))"

definition fs_remove :: "bool \<Rightarrow> path \<Rightarrow> fs \<Rightarrow> fs" where
  "fs_remove ok p f = (if ok then f(p := None) else f)"

definition fs_read :: "bool \<Rightarrow> path \<Rightarrow> fs \<Rightarrow> string option" where
  "fs_read ok p f = (if ok then f p else None)"

text \<open>Write \<open>content\<close> to \<open>tmp\<close>, then rename \<open>tmp\<close> to \<open>target\<close>.\<close>

definition write_atomic ::
  "write_outcome \<Rightarrow> bool \<Rightarrow> path \<Rightarrow> path \<Rightarrow> string \<Rightarrow> fs \<Rightarrow> bool \<times> fs" where
  "write_atomic w rename_ok tmp target content f =
     (case fs_write w tmp content f of
        (False, f1) \<Rightarrow> (False, f1)
      | (True, f1) \<Rightarrow> fs_rename rename_ok tmp target f1)"

text \<open>\<open>Path::extension\<close> and \<open>Path::file_stem\<close> of a file name: split at the last dot, unless
  nothing stands before it.\<close>

definition rsplit_dot :: "string \<Rightarrow> (string \<times> string) option" where
  "rsplit_dot name =
     (case dropWhile (\<lambda>c. c \<noteq> CHR ''.'') (rev name) of
        [] \<Rightarrow> None
      | _ # before \<Rightarrow> if before = [] \<or> name = ''..'' then None
                     else Some (rev before, rev (takeWhile (\<lambda>c. c \<noteq> CHR ''.'') (rev name))))"

definition path_extension :: "string \<Rightarrow> string option" where
  "path_extension name = map_option snd (rsplit_dot name)"

definition file_stem :: "string \<Rightarrow> string" where
  "file_stem name = (case rsplit_dot name of None \<Rightarrow> name | Some (stem, _) \<Rightarrow> stem)"

text \<open>\<open>Path::extension\<close> of a whole path: that of its last component.\<close>

definition extension_of_path :: "path \<Rightarrow> string option" where
  "extension_of_path p = path_extension (last (split_on CHR ''/'' p))"

section \<open>Lemmas\<close>

lemma path_join_inject [simp]: "path_join b m = path_join b n \<longleftrightarrow> m = n"
  by (simp add: path_join_def)

text \<open>
  An atomic write leaves every file but the temporary one and the target alone, and the target
  holds either what it held or the whole new content.
\<close>

lemma write_atomic_frame:
  "p \<noteq> tmp \<Longrightarrow> p \<noteq> target \<Longrightarrow> snd (write_atomic w rn tmp target content f) p = f p"
  by (auto simp: write_atomic_def fs_write_def fs_rename_def split: write_outcome.splits)

lemma write_atomic_target:
  "tmp \<noteq> target \<Longrightarrow>
   snd (write_atomic w rn tmp target content f) target =
     (if w = WriteOk \<and> rn then Some content else f target)"
  by (auto simp: write_atomic_def fs_write_def fs_rename_def split: write_outcome.splits)

lemma write_atomic_ok: "fst (write_atomic w rn tmp target content f) \<longleftrightarrow> w = WriteOk \<and> rn"
  by (auto simp: write_atomic_def fs_write_def fs_rename_def split: write_outcome.splits)

end
