(* ===== verification/Receipt_Store.thy ===== *)
theory Receipt_Store
  imports Receipt File_System
begin

text \<open>
  Receipt stores (\<open>agentverify-core/src/receipt.rs\<close>): the \<open>ReceiptStore\<close> trait as the locale
  \<open>receipt_store\<close>, the \<open>InMemoryReceiptStore\<close> and the \<open>FileReceiptStore\<close>. The in-memory store
  holds both of its locks for a whole \<open>store\<close>, which is one step. The file store has no lock:
  its \<open>store\<close> is three steps (write the receipt, read the index, write the index) that other
  calls can come between.
\<close>

section \<open>The interface\<close>

datatype receipt_store_error = Persist string | Serialize string

text \<open>A sequence of \<open>store\<close> calls, and that each of them finds its outside in order.\<close>

fun store_all :: "('io \<Rightarrow> receipt \<Rightarrow> 's \<Rightarrow> 'e \<times> 's) \<Rightarrow> ('io \<times> receipt) list \<Rightarrow> 's \<Rightarrow> 's" where
  "store_all st [] s = s"
| "store_all st ((io, r) # rs) s = store_all st rs (snd (st io r s))"

fun each_ok :: "('io \<Rightarrow> receipt \<Rightarrow> 's \<Rightarrow> bool) \<Rightarrow> ('io \<Rightarrow> receipt \<Rightarrow> 's \<Rightarrow> 'e \<times> 's)
    \<Rightarrow> ('io \<times> receipt) list \<Rightarrow> 's \<Rightarrow> bool" where
  "each_ok ok st [] s = True"
| "each_ok ok st ((io, r) # rs) s = (ok io r s \<and> each_ok ok st rs (snd (st io r s)))"

locale receipt_store =
  fixes wf :: "'s \<Rightarrow> bool"
    and ok :: "'io \<Rightarrow> receipt \<Rightarrow> 's \<Rightarrow> bool"
    and store :: "'io \<Rightarrow> receipt \<Rightarrow> 's \<Rightarrow> (receipt_store_error + unit) \<times> 's"
    and get :: "receipt_id \<Rightarrow> 's \<Rightarrow> receipt option"
    and list_by :: "action_id \<Rightarrow> 's \<Rightarrow> receipt list"
    and holds :: "receipt_id \<Rightarrow> 's \<Rightarrow> bool"
  assumes store_ok: "wf s \<Longrightarrow> ok io r s \<Longrightarrow> fst (store io r s) = Inr ()"
    and store_wf: "wf s \<Longrightarrow> ok io r s \<Longrightarrow> wf (snd (store io r s))"
    and get_store: "wf s \<Longrightarrow> ok io r s \<Longrightarrow>
      get i (snd (store io r s)) = (if i = rc_id r then Some r else get i s)"
    and holds_store: "wf s \<Longrightarrow> ok io r s \<Longrightarrow>
      holds i (snd (store io r s)) \<longleftrightarrow> i = rc_id r \<or> holds i s"
    and list_store: "wf s \<Longrightarrow> ok io r s \<Longrightarrow> \<not> holds (rc_id r) s \<Longrightarrow>
      list_by a (snd (store io r s)) = list_by a s @ (if rc_action_id r = a then [r] else [])"
begin

text \<open>After any stores of new receipts, an action's list is what was stored for it, in order.\<close>

lemma list_store_all:
  assumes "wf s" "each_ok ok store rs s" "distinct (map (\<lambda>x. rc_id (snd x)) rs)"
    and "\<And>x. x \<in> set rs \<Longrightarrow> \<not> holds (rc_id (snd x)) s"
  shows "list_by a (store_all store rs s) =
    list_by a s @ filter (\<lambda>r. rc_action_id r = a) (map snd rs)"
  using assms
proof (induction rs arbitrary: s)
  case (Cons x rs)
  obtain io r where x: "x = (io, r)" by (cases x)
  with Cons.prems(2) have ok: "ok io r s" by simp
  have new: "\<not> holds (rc_id r) s" using Cons.prems(4) [of x] x by simp
  have "\<not> holds (rc_id (snd y)) (snd (store io r s))" if "y \<in> set rs" for y
    using that Cons.prems(3,4) holds_store [OF Cons.prems(1) ok] x by (auto simp: image_iff)
  then have "list_by a (store_all store rs (snd (store io r s))) =
      list_by a (snd (store io r s)) @ filter (\<lambda>r. rc_action_id r = a) (map snd rs)"
    using Cons.IH store_wf [OF Cons.prems(1) ok] Cons.prems(2,3) x by auto
  with list_store [OF Cons.prems(1) ok new] x show ?case by simp
qed simp

text \<open>And every receipt stored can be read back.\<close>

lemma get_store_all:
  assumes "wf s" "each_ok ok store rs s" "distinct (map (\<lambda>x. rc_id (snd x)) rs)"
  shows "get i (store_all store rs s) =
    (case map_of (map (\<lambda>x. (rc_id (snd x), snd x)) rs) i of Some r \<Rightarrow> Some r | None \<Rightarrow> get i s)"
  using assms
proof (induction rs arbitrary: s)
  case (Cons x rs)
  obtain io r where x: "x = (io, r)" by (cases x)
  with Cons.prems have ok: "ok io r s" by auto
  have none: "map_of (map (\<lambda>x. (rc_id (snd x), snd x)) rs) (rc_id r) = None"
    using Cons.prems(3) x by (force simp: map_of_eq_None_iff image_iff)
  have "get i (store_all store rs (snd (store io r s))) =
      (case map_of (map (\<lambda>x. (rc_id (snd x), snd x)) rs) i of
         Some r \<Rightarrow> Some r | None \<Rightarrow> get i (snd (store io r s)))"
    using Cons.IH store_wf [OF Cons.prems(1) ok] Cons.prems(2,3) x by auto
  with none x get_store [OF Cons.prems(1) ok] show ?case by (auto split: option.split)
qed simp

end

section \<open>The in-memory store\<close>

record mem_receipts =
  mr_receipts :: "receipt_id \<Rightarrow> receipt option"
  mr_by_action :: "action_id \<Rightarrow> receipt_id list option"

definition new_mem_receipts :: mem_receipts where
  "new_mem_receipts = \<lparr>mr_receipts = Map.empty, mr_by_action = Map.empty\<rparr>"

text \<open>\<open>entry(k).or_default().push(x)\<close>\<close>

definition push_entry :: "'k \<Rightarrow> 'v \<Rightarrow> ('k \<Rightarrow> 'v list option) \<Rightarrow> 'k \<Rightarrow> 'v list option" where
  "push_entry k x m = m(k \<mapsto> (case m k of None \<Rightarrow> [] | Some xs \<Rightarrow> xs) @ [x])"

definition mem_store ::
  "receipt \<Rightarrow> mem_receipts \<Rightarrow> (receipt_store_error + unit) \<times> mem_receipts" where
  "mem_store r s =
     (Inr (), \<lparr>mr_receipts = (mr_receipts s)(rc_id r \<mapsto> r),
               mr_by_action = push_entry (rc_action_id r) (rc_id r) (mr_by_action s)\<rparr>)"

definition mem_get :: "receipt_id \<Rightarrow> mem_receipts \<Rightarrow> receipt option" where
  "mem_get i s = mr_receipts s i"

definition mem_list_by_action :: "action_id \<Rightarrow> mem_receipts \<Rightarrow> receipt list" where
  "mem_list_by_action a s =
     (case mr_by_action s a of
        None \<Rightarrow> [] | Some ids \<Rightarrow> List.map_filter (\<lambda>i. mr_receipts s i) ids)"

definition mem_exists :: "receipt_id \<Rightarrow> mem_receipts \<Rightarrow> bool" where
  "mem_exists i s = (mr_receipts s i \<noteq> None)"

definition mem_wf :: "mem_receipts \<Rightarrow> bool" where
  "mem_wf s \<longleftrightarrow> (\<forall>a ids. mr_by_action s a = Some ids \<longrightarrow> set ids \<subseteq> dom (mr_receipts s))"

lemma map_filter_cong: "(\<And>x. x \<in> set xs \<Longrightarrow> f x = g x) \<Longrightarrow> List.map_filter f xs = List.map_filter g xs"
  by (induction xs) (auto simp: List.map_filter_simps split: option.split)

lemma map_filter_append: "List.map_filter f (xs @ ys) = List.map_filter f xs @ List.map_filter f ys"
  by (simp add: List.map_filter_def)

interpretation mem_rs: receipt_store
  mem_wf "\<lambda>_ :: unit. \<lambda>_ _. True" "\<lambda>_. mem_store" mem_get mem_list_by_action mem_exists
proof
  fix s :: mem_receipts and r :: receipt and a
  assume wf: "mem_wf s" and fresh: "\<not> mem_exists (rc_id r) s"
  have *: "List.map_filter (\<lambda>i. if i = rc_id r then Some r else mr_receipts s i) ids
      = List.map_filter (\<lambda>i. mr_receipts s i) ids" if "mr_by_action s a = Some ids" for ids
    by (rule map_filter_cong) (use wf fresh that in \<open>auto simp: mem_wf_def mem_exists_def\<close>)
  then show "mem_list_by_action a (snd (mem_store r s)) =
      mem_list_by_action a s @ (if rc_action_id r = a then [r] else [])"
    by (auto simp: mem_list_by_action_def mem_store_def push_entry_def fun_upd_def
        map_filter_append List.map_filter_simps split: option.split)
next
  fix s :: mem_receipts and r :: receipt
  assume wf: "mem_wf s"
  have "\<exists>y. mr_receipts s i = Some y" if "mr_by_action s a = Some ids" "i \<in> set ids" for a ids i
    using wf that by (fastforce simp: mem_wf_def)
  then show "mem_wf (snd (mem_store r s))"
    by (cases "mr_by_action s (rc_action_id r)")
      (auto simp: mem_store_def mem_wf_def push_entry_def split: if_splits)
qed (auto simp: mem_store_def mem_get_def mem_exists_def)

section \<open>The file store\<close>

text \<open>
  What the store takes from libraries: the \<open>Display\<close> of UUIDs and the JSON text of receipts and
  of the index, with its parsers.
\<close>

record rstore_lib =
  id_string :: "uuid \<Rightarrow> string"
  receipt_to_string :: "receipt \<Rightarrow> string + string"
  receipt_from_str :: "string \<Rightarrow> receipt option"
  index_to_string :: "(string \<Rightarrow> string list option) \<Rightarrow> string option"
  index_from_str :: "string \<Rightarrow> (string \<Rightarrow> string list option) option"

text \<open>The fortunes of one \<open>store\<close>: which of its calls fail, and what the error says.\<close>

record rstore_io =
  ri_write :: write_outcome
  ri_rename_ok :: bool
  ri_mkdir_ok :: bool
  ri_index_read_ok :: bool
  ri_index_write :: write_outcome
  ri_index_rename_ok :: bool
  ri_error :: string

type_synonym receipt_index = "string \<Rightarrow> string list option"

definition receipt_path :: "rstore_lib \<Rightarrow> path \<Rightarrow> receipt_id \<Rightarrow> path" where
  "receipt_path ext base i = path_join base (id_string ext i @ ''.json'')"

definition receipt_tmp_path :: "rstore_lib \<Rightarrow> path \<Rightarrow> receipt_id \<Rightarrow> path" where
  "receipt_tmp_path ext base i = path_join base (id_string ext i @ ''.tmp'')"

definition new_file_receipts :: "bool \<Rightarrow> string \<Rightarrow> path \<Rightarrow> string + path" where
  "new_file_receipts mkdir_ok err base = (if mkdir_ok then Inr base else Inl err)"

definition index_path :: "path \<Rightarrow> path" where
  "index_path base = path_join base ''index.json''"

definition read_index :: "rstore_lib \<Rightarrow> bool \<Rightarrow> path \<Rightarrow> fs \<Rightarrow> receipt_index option" where
  "read_index ext read_ok base f =
     (if f (index_path base) = None then Some Map.empty
      else case fs_read read_ok (index_path base) f of
             None \<Rightarrow> None | Some content \<Rightarrow> index_from_str ext content)"

definition write_index ::
  "rstore_lib \<Rightarrow> write_outcome \<Rightarrow> bool \<Rightarrow> path \<Rightarrow> receipt_index \<Rightarrow> fs \<Rightarrow> bool \<times> fs" where
  "write_index ext w rn base index f =
     (case index_to_string ext index of
        None \<Rightarrow> (False, f)
      | Some content \<Rightarrow> write_atomic w rn (path_join base ''index.tmp'') (index_path base) content f)"

text \<open>The three steps of \<open>store\<close>.\<close>

definition store_receipt_file ::
  "rstore_lib \<Rightarrow> path \<Rightarrow> rstore_io \<Rightarrow> receipt \<Rightarrow> fs \<Rightarrow> (receipt_store_error + unit) \<times> fs" where
  "store_receipt_file ext base io r f =
     (case receipt_to_string ext r of
        Inl e \<Rightarrow> (Inl (Serialize e), f)
      | Inr content \<Rightarrow>
          (case write_atomic (ri_write io) (ri_rename_ok io) (receipt_tmp_path ext base (rc_id r))
                  (receipt_path ext base (rc_id r)) content f of
             (False, f1) \<Rightarrow> (Inl (Persist (ri_error io)), f1)
           | (True, f1) \<Rightarrow> (Inr (), f1)))"

definition store_load_index ::
  "rstore_lib \<Rightarrow> path \<Rightarrow> rstore_io \<Rightarrow> fs \<Rightarrow> receipt_store_error + receipt_index" where
  "store_load_index ext base io f =
     (case new_file_receipts (ri_mkdir_ok io) (ri_error io) base of
        Inl e \<Rightarrow> Inl (Persist e)
      | Inr b \<Rightarrow> Inr (case read_index ext (ri_index_read_ok io) b f of
                      None \<Rightarrow> Map.empty | Some index \<Rightarrow> index))"

definition store_save_index ::
  "rstore_lib \<Rightarrow> path \<Rightarrow> rstore_io \<Rightarrow> receipt \<Rightarrow> receipt_index \<Rightarrow> fs
   \<Rightarrow> (receipt_store_error + unit) \<times> fs" where
  "store_save_index ext base io r index f =
     (case write_index ext (ri_index_write io) (ri_index_rename_ok io) base
             (push_entry (id_string ext (rc_action_id r)) (id_string ext (rc_id r)) index) f of
        (False, f1) \<Rightarrow> (Inl (Persist (ri_error io)), f1)
      | (True, f1) \<Rightarrow> (Inr (), f1))"

definition file_store ::
  "rstore_lib \<Rightarrow> path \<Rightarrow> rstore_io \<Rightarrow> receipt \<Rightarrow> fs \<Rightarrow> (receipt_store_error + unit) \<times> fs" where
  "file_store ext base io r f =
     (case store_receipt_file ext base io r f of
        (Inl e, f1) \<Rightarrow> (Inl e, f1)
      | (Inr _, f1) \<Rightarrow>
          (case store_load_index ext base io f1 of
             Inl e \<Rightarrow> (Inl e, f1)
           | Inr index \<Rightarrow> store_save_index ext base io r index f1))"

definition file_get :: "rstore_lib \<Rightarrow> path \<Rightarrow> bool \<Rightarrow> receipt_id \<Rightarrow> fs \<Rightarrow> receipt option" where
  "file_get ext base read_ok i f =
     (if f (receipt_path ext base i) = None then None
      else Option.bind (fs_read read_ok (receipt_path ext base i) f) (receipt_from_str ext))"

definition file_list_by_action ::
  "rstore_lib \<Rightarrow> path \<Rightarrow> bool \<Rightarrow> bool \<Rightarrow> (string \<Rightarrow> bool) \<Rightarrow> action_id \<Rightarrow> fs \<Rightarrow> receipt list" where
  "file_list_by_action ext base mkdir_ok index_ok read_ok a f =
     (case new_file_receipts mkdir_ok [] base of
        Inl _ \<Rightarrow> []
      | Inr b \<Rightarrow>
          (case read_index ext index_ok b f of
             None \<Rightarrow> []
           | Some index \<Rightarrow>
               (case index (id_string ext a) of
                  None \<Rightarrow> []
                | Some ids \<Rightarrow>
                    List.map_filter (\<lambda>i. Option.bind
                      (fs_read (read_ok i) (path_join base (i @ ''.json'')) f)
                      (receipt_from_str ext)) ids)))"

definition file_exists :: "rstore_lib \<Rightarrow> path \<Rightarrow> receipt_id \<Rightarrow> fs \<Rightarrow> bool" where
  "file_exists ext base i f = (f (receipt_path ext base i) \<noteq> None)"

text \<open>
  The store's well-formedness: the index can be read and lists only receipts that are there.
  \<open>file_ok\<close> says that the outside is in order for one call: identifiers print to distinct names
  other than \<open>index\<close>, no call fails, and what is serialised now can be parsed later.
\<close>

definition id_lib_ok :: "rstore_lib \<Rightarrow> bool" where
  "id_lib_ok ext \<longleftrightarrow> inj (id_string ext) \<and> (\<forall>i. id_string ext i \<noteq> ''index'')"

definition file_wf :: "rstore_lib \<Rightarrow> path \<Rightarrow> fs \<Rightarrow> bool" where
  "file_wf ext base f \<longleftrightarrow> (\<exists>index. read_index ext True base f = Some index \<and>
     (\<forall>k ids. index k = Some ids \<longrightarrow>
        (\<forall>x \<in> set ids. \<exists>i. x = id_string ext i \<and> file_exists ext base i f)))"

definition file_ok :: "rstore_lib \<Rightarrow> path \<Rightarrow> rstore_io \<Rightarrow> receipt \<Rightarrow> fs \<Rightarrow> bool" where
  "file_ok ext base io r f \<longleftrightarrow>
     id_lib_ok ext \<and> ri_write io = WriteOk \<and> ri_rename_ok io \<and> ri_mkdir_ok io \<and>
     ri_index_read_ok io \<and> ri_index_write io = WriteOk \<and> ri_index_rename_ok io \<and>
     (case receipt_to_string ext r of Inl _ \<Rightarrow> False | Inr c \<Rightarrow> receipt_from_str ext c = Some r) \<and>
     (case read_index ext True base f of
        None \<Rightarrow> False
      | Some index \<Rightarrow>
          (let idx = push_entry (id_string ext (rc_action_id r)) (id_string ext (rc_id r)) index
           in Option.bind (index_to_string ext idx) (index_from_str ext) = Some idx))"

lemma ext_json_tmp [simp]: "x @ ''.json'' \<noteq> y @ ''.tmp''" "y @ ''.tmp'' \<noteq> x @ ''.json''"
proof -
  have "last (x @ ''.json'') \<noteq> last (y @ ''.tmp'')" by simp
  then show "x @ ''.json'' \<noteq> y @ ''.tmp''" "y @ ''.tmp'' \<noteq> x @ ''.json''" by metis+
qed

lemma json_name_inject [simp]: "''index.json'' = x @ ''.json'' \<longleftrightarrow> x = ''index''"
  using append_same_eq [of "''index''" "''.json''" x] by auto

lemma tmp_names [simp]:
  "x @ ''.json'' \<noteq> ''index.tmp''" "y @ ''.tmp'' \<noteq> ''index.json''" "''index.tmp'' \<noteq> x @ ''.json''"
  "''index.json'' \<noteq> y @ ''.tmp''"
  using ext_json_tmp [of x "''index''"] ext_json_tmp [of "''index''" y] by auto

text \<open>
  Every path that a \<open>store\<close> touches is one of the receipt's two files or one of the index's; the
  files of the other receipts are as they were, whatever fails.
\<close>

lemma store_receipt_file_frame:
  "p \<noteq> receipt_path ext base (rc_id r) \<Longrightarrow> p \<noteq> receipt_tmp_path ext base (rc_id r) \<Longrightarrow>
   snd (store_receipt_file ext base io r f) p = f p"
  using write_atomic_frame [of p "receipt_tmp_path ext base (rc_id r)" "receipt_path ext base (rc_id r)"]
  by (auto simp: store_receipt_file_def split: sum.splits prod.splits bool.splits)
    (metis snd_conv)+

lemma store_save_index_frame:
  "p \<noteq> index_path base \<Longrightarrow> p \<noteq> path_join base ''index.tmp'' \<Longrightarrow>
   snd (store_save_index ext base io r index f) p = f p"
  using write_atomic_frame [of p "path_join base ''index.tmp''" "index_path base"]
  by (auto simp: store_save_index_def write_index_def split: option.splits prod.splits bool.splits)
    (metis snd_conv)+

lemma file_store_frame:
  assumes "p \<noteq> receipt_path ext base (rc_id r)" "p \<noteq> receipt_tmp_path ext base (rc_id r)"
    and "p \<noteq> index_path base" "p \<noteq> path_join base ''index.tmp''"
  shows "snd (file_store ext base io r f) p = f p"
  using store_receipt_file_frame [OF assms(1,2), of io f] store_save_index_frame [OF assms(3,4)]
  by (auto simp: file_store_def split: sum.splits prod.splits)

lemma read_index_cong: "g (index_path base) = f (index_path base) \<Longrightarrow>
    read_index ext ok base g = read_index ext ok base f"
  by (simp add: read_index_def fs_read_def)

lemma receipt_path_inject:
  "id_lib_ok ext \<Longrightarrow> receipt_path ext base i = receipt_path ext base j \<longleftrightarrow> i = j"
  by (auto simp: receipt_path_def id_lib_ok_def dest: injD)

lemma receipt_path_distinct [simp]:
  "receipt_path ext base i \<noteq> receipt_tmp_path ext base j"
  "receipt_tmp_path ext base j \<noteq> receipt_path ext base i"
  "index_path base \<noteq> receipt_tmp_path ext base j"
  "receipt_path ext base i \<noteq> path_join base ''index.tmp''"
  "index_path base \<noteq> path_join base ''index.tmp''"
  by (simp_all add: receipt_path_def receipt_tmp_path_def index_path_def)

lemma receipt_path_index:
  "id_lib_ok ext \<Longrightarrow> receipt_path ext base i \<noteq> index_path base"
  using json_name_inject [of "id_string ext i"]
  by (auto simp: receipt_path_def index_path_def id_lib_ok_def)

text \<open>What a \<open>store\<close> whose outside is in order does.\<close>

lemma file_store_done:
  assumes "file_ok ext base io r f"
  obtains c index where "fst (file_store ext base io r f) = Inr ()"
    and "receipt_from_str ext c = Some r"
    and "\<And>i. snd (file_store ext base io r f) (receipt_path ext base i) =
          (if i = rc_id r then Some c else f (receipt_path ext base i))"
    and "read_index ext True base f = Some index"
    and "read_index ext True base (snd (file_store ext base io r f)) =
          Some (push_entry (id_string ext (rc_action_id r)) (id_string ext (rc_id r)) index)"
proof -
  from assms have lib: "id_lib_ok ext" by (simp add: file_ok_def)
  from assms obtain c where c: "receipt_to_string ext r = Inr c" "receipt_from_str ext c = Some r"
    by (auto simp: file_ok_def split: sum.splits)
  from assms obtain index where index: "read_index ext True base f = Some index"
    by (auto simp: file_ok_def split: option.splits)
  define idx where "idx = push_entry (id_string ext (rc_action_id r)) (id_string ext (rc_id r)) index"
  from assms index obtain ic where ic: "index_to_string ext idx = Some ic" "index_from_str ext ic = Some idx"
    by (auto simp: file_ok_def idx_def Let_def bind_eq_Some_conv)
  define f1 where "f1 = (f(receipt_tmp_path ext base (rc_id r) := None))
    (receipt_path ext base (rc_id r) \<mapsto> c)"
  have s1: "store_receipt_file ext base io r f = (Inr (), f1)"
    using assms c
    by (simp add: store_receipt_file_def f1_def file_ok_def write_atomic_def fs_write_def fs_rename_def)
  have "f1 (index_path base) = f (index_path base)"
    using receipt_path_index [OF lib] by (simp add: f1_def) metis
  from read_index_cong [of f1 base f, OF this] index have "read_index ext True base f1 = Some index" by simp
  with assms have s2: "store_load_index ext base io f1 = Inr index"
    by (simp add: store_load_index_def new_file_receipts_def file_ok_def)
  define f2 where "f2 = (f1(path_join base ''index.tmp'' := None))(index_path base \<mapsto> ic)"
  have s3: "store_save_index ext base io r index f1 = (Inr (), f2)"
    using assms ic
    by (simp add: store_save_index_def write_index_def f2_def idx_def [symmetric] file_ok_def
        write_atomic_def fs_write_def fs_rename_def)
  have all: "file_store ext base io r f = (Inr (), f2)"
    using s1 s2 s3 by (simp add: file_store_def)
  have "f2 (receipt_path ext base i) = (if i = rc_id r then Some c else f (receipt_path ext base i))" for i
    using receipt_path_inject [OF lib] receipt_path_index [OF lib] by (simp add: f2_def f1_def)
  moreover have "read_index ext True base f2 = Some idx"
    by (simp add: read_index_def fs_read_def f2_def ic)
  ultimately show ?thesis using that [of c index] all c(2) index by (simp add: idx_def)
qed

text \<open>\<open>get\<close> and \<open>list_by_action\<close> with reads that succeed.\<close>

abbreviation "file_get_ok ext base \<equiv> file_get ext base True"
abbreviation "file_list_ok ext base \<equiv> file_list_by_action ext base True True (\<lambda>_. True)"

lemma file_get_eq: "file_get ext base True i f = Option.bind (f (receipt_path ext base i)) (receipt_from_str ext)"
  by (simp add: file_get_def fs_read_def)

lemma file_list_eq:
  assumes "read_index ext True base f = Some index"
  shows "file_list_ok ext base a f = (case index (id_string ext a) of None \<Rightarrow> []
    | Some ids \<Rightarrow> List.map_filter (\<lambda>x. Option.bind (f (path_join base (x @ ''.json'')))
        (receipt_from_str ext)) ids)"
  using assms
  by (simp add: file_list_by_action_def new_file_receipts_def fs_read_def split: option.split)

lemma file_wf_store:
  assumes "file_wf ext base f" "file_ok ext base io r f"
  shows "file_wf ext base (snd (file_store ext base io r f))"
proof (rule file_store_done [OF assms(2)])
  fix c index
  assume p: "\<And>i. snd (file_store ext base io r f) (receipt_path ext base i) =
        (if i = rc_id r then Some c else f (receipt_path ext base i))"
    and index: "read_index ext True base f = Some index"
    and index': "read_index ext True base (snd (file_store ext base io r f)) =
          Some (push_entry (id_string ext (rc_action_id r)) (id_string ext (rc_id r)) index)"
  have mono: "file_exists ext base i f \<Longrightarrow> file_exists ext base i (snd (file_store ext base io r f))" for i
    using p [of i] by (simp add: file_exists_def)
  have new: "file_exists ext base (rc_id r) (snd (file_store ext base io r f))"
    using p [of "rc_id r"] by (simp add: file_exists_def)
  have "\<exists>i. x = id_string ext i \<and> file_exists ext base i f" if "index k = Some ids" "x \<in> set ids" for k ids x
    using assms(1) index that by (auto simp: file_wf_def)
  then have "\<exists>i. x = id_string ext i \<and> file_exists ext base i (snd (file_store ext base io r f))"
    if "push_entry (id_string ext (rc_action_id r)) (id_string ext (rc_id r)) index k = Some ids" "x \<in> set ids" for k ids x
    using that mono new
    by (cases "index (id_string ext (rc_action_id r))"; cases "k = id_string ext (rc_action_id r)")
      (auto simp: push_entry_def, blast+)
  with index' show ?thesis by (auto simp: file_wf_def)
qed

lemma file_list_store:
  assumes "file_wf ext base f" "file_ok ext base io r f" "\<not> file_exists ext base (rc_id r) f"
  shows "file_list_ok ext base a (snd (file_store ext base io r f)) =
    file_list_ok ext base a f @ (if rc_action_id r = a then [r] else [])"
proof (rule file_store_done [OF assms(2)])
  fix c index
  let ?f = "snd (file_store ext base io r f)"
  assume c: "receipt_from_str ext c = Some r"
    and p: "\<And>i. ?f (receipt_path ext base i) =
        (if i = rc_id r then Some c else f (receipt_path ext base i))"
    and index: "read_index ext True base f = Some index"
    and index': "read_index ext True base ?f =
          Some (push_entry (id_string ext (rc_action_id r)) (id_string ext (rc_id r)) index)"
  let ?rd = "\<lambda>g x. Option.bind (g (path_join base (x @ ''.json''))) (receipt_from_str ext)"
  have inj: "id_string ext i = id_string ext j \<longleftrightarrow> i = j" for i j
    using assms(2) by (auto simp: file_ok_def id_lib_ok_def dest: injD)
  have old: "List.map_filter (?rd ?f) ids = List.map_filter (?rd f) ids" if "index k = Some ids" for k ids
  proof (rule map_filter_cong)
    fix x assume "x \<in> set ids"
    with assms(1) index that obtain i where "x = id_string ext i" "file_exists ext base i f"
      by (fastforce simp: file_wf_def)
    moreover from this assms(3) have "i \<noteq> rc_id r" by auto
    ultimately show "?rd ?f x = ?rd f x" using p [of i] by (simp add: receipt_path_def)
  qed
  have new: "?rd ?f (id_string ext (rc_id r)) = Some r"
    using p [of "rc_id r"] c by (simp add: receipt_path_def)
  show ?thesis
    using file_list_eq [OF index, of a] file_list_eq [OF index', of a] old new
    by (auto simp: push_entry_def map_filter_append List.map_filter_simps inj split: option.splits)
qed

interpretation file_rs: receipt_store
  "file_wf ext base" "file_ok ext base" "file_store ext base"
  "file_get_ok ext base" "file_list_ok ext base" "file_exists ext base" for ext base
proof
  fix f io r i
  assume "file_ok ext base io r f"
  then show "fst (file_store ext base io r f) = Inr ()"
    "file_get_ok ext base i (snd (file_store ext base io r f)) =
      (if i = rc_id r then Some r else file_get_ok ext base i f)"
    "file_exists ext base i (snd (file_store ext base io r f)) \<longleftrightarrow>
      i = rc_id r \<or> file_exists ext base i f"
    by (auto elim!: file_store_done simp: file_get_eq file_exists_def)
qed (simp_all add: file_wf_store file_list_store)

text \<open>
  Instances for the witnesses: receipts print as their identifier and the index as the list of
  receipts of action \<open>1\<close>.
\<close>

definition demo_receipt :: "nat \<Rightarrow> receipt" where
  "demo_receipt n =
     \<lparr>rc_version = [], rc_id = of_nat n, rc_action_id = 1, rc_contract_id = 0,
      rc_contract_version = [], rc_result = Verified, rc_attempts = 1, rc_observations = [],
      rc_postcondition_results = [], rc_digest = [], rc_key_id = None, rc_idempotency_key = None,
      rc_signature = None, rc_timestamp = 0\<rparr>"

definition demo_store_lib :: rstore_lib where
  "demo_store_lib =
     \<lparr>id_string = (\<lambda>u. show_nat (unat u)), receipt_to_string = (\<lambda>r. Inr (show_nat (unat (rc_id r)))),
      receipt_from_str = (\<lambda>s. map_option demo_receipt (parse_digits 0 s)),
      index_to_string = (\<lambda>m. map_option (join_with CHR '','') (m ''1'')),
      index_from_str = (\<lambda>s. Some [''1'' \<mapsto> split_on CHR '','' s])\<rparr>"

definition good_store_io :: rstore_io where
  "good_store_io = \<lparr>ri_write = WriteOk, ri_rename_ok = True, ri_mkdir_ok = True,
     ri_index_read_ok = True, ri_index_write = WriteOk, ri_index_rename_ok = True, ri_error = []\<rparr>"

lemma demo_store_lib_ids: "id_lib_ok demo_store_lib"
proof -
  have "show_nat n \<noteq> ''index''" for n
    using parse_digits_show_nat [of n] by (auto simp: digit_value_def)
  then show ?thesis
    by (auto simp: id_lib_ok_def demo_store_lib_def inj_def dest!: show_nat_inject
        intro: unsigned_word_eqI)
qed

lemma demo_names [simp]:
  "show_nat 1 = ''1''" "show_nat (Suc 0) = ''1''" "show_nat 7 = ''7''" "show_nat 8 = ''8''"
  "digit_value CHR ''7'' = Some 7" "digit_value CHR ''8'' = Some 8"
  by code_simp+

lemma demo_store_lib_sel [simp]:
  "id_string demo_store_lib u = show_nat (unat u)"
  "receipt_to_string demo_store_lib r = Inr (show_nat (unat (rc_id r)))"
  "receipt_from_str demo_store_lib s = map_option demo_receipt (parse_digits 0 s)"
  "index_to_string demo_store_lib m = map_option (join_with CHR '','') (m ''1'')"
  "index_from_str demo_store_lib s = Some [''1'' \<mapsto> split_on CHR '','' s]"
  by (simp_all add: demo_store_lib_def)

section \<open>Properties\<close>

text \<open>
  Property C28 (functional): the file store keeps a faithful record. When receipts with new and
  distinct identifiers are stored one after the other and no call to the outside fails, the list
  of every action is what it was followed by the receipts stored for that action, in the order
  they were stored, and each of them can be read back by its identifier.
\<close>

theorem file_store_record:
  assumes "file_wf ext base f" "each_ok (file_ok ext base) (file_store ext base) rs f"
    and "distinct (map (\<lambda>x. rc_id (snd x)) rs)"
    and "\<forall>x \<in> set rs. \<not> file_exists ext base (rc_id (snd x)) f"
  shows "file_list_by_action ext base True True (\<lambda>_. True) a (store_all (file_store ext base) rs f) =
      file_list_by_action ext base True True (\<lambda>_. True) a f @
        filter (\<lambda>r. rc_action_id r = a) (map snd rs)
    \<and> (\<forall>x \<in> set rs. file_get ext base True (rc_id (snd x)) (store_all (file_store ext base) rs f)
        = Some (snd x))"
proof (intro conjI ballI)
  show "file_list_ok ext base a (store_all (file_store ext base) rs f) =
      file_list_ok ext base a f @ filter (\<lambda>r. rc_action_id r = a) (map snd rs)"
    by (rule file_rs.list_store_all) (use assms in auto)
  fix x assume x: "x \<in> set rs"
  have "map_of (map (\<lambda>x. (rc_id (snd x), snd x)) rs) (rc_id (snd x)) = Some (snd x)"
    by (rule map_of_is_SomeI) (use assms(3) x in \<open>auto simp: comp_def\<close>)
  with file_rs.get_store_all [OF assms(1-3), of "rc_id (snd x)"]
  show "file_get_ok ext base (rc_id (snd x)) (store_all (file_store ext base) rs f) = Some (snd x)"
    by simp
qed

theorem file_store_record_witness:
  "file_list_by_action demo_store_lib ''d'' True True (\<lambda>_. True) 1
     (store_all (file_store demo_store_lib ''d'')
       [(good_store_io, demo_receipt 7)] Map.empty) = [demo_receipt 7]"
proof -
  have "file_ok demo_store_lib ''d'' good_store_io (demo_receipt 7) Map.empty"
    using demo_store_lib_ids
    by (simp add: file_ok_def good_store_io_def demo_receipt_def read_index_def push_entry_def)
  moreover have "file_wf demo_store_lib ''d'' Map.empty"
    by (simp add: file_wf_def read_index_def)
  ultimately show ?thesis
    using file_store_record [of demo_store_lib "''d''" Map.empty "[(good_store_io, demo_receipt 7)]" 1]
    by (simp add: file_exists_def file_list_by_action_def read_index_def new_file_receipts_def)
      (simp add: demo_receipt_def)
qed

text \<open>
  A stored receipt is never disturbed. Whatever later \<open>store\<close> calls for
  other receipts do, and whichever of their writes, renames and reads fail or leave partial files
  behind, reading the receipt gives what it gave before.
\<close>

theorem stored_receipt_undisturbed:
  assumes "id_lib_ok ext" "\<forall>x \<in> set rs. rc_id (snd x) \<noteq> i"
  shows "file_get ext base ok i (store_all (file_store ext base) rs f) = file_get ext base ok i f"
  using assms(2)
proof (induction rs arbitrary: f)
  case (Cons x rs)
  obtain io r where x: "x = (io, r)" by (cases x)
  have "snd (file_store ext base io r f) (receipt_path ext base i) = f (receipt_path ext base i)"
    by (rule file_store_frame)
      (use Cons.prems x assms(1) in \<open>auto simp: receipt_path_inject receipt_path_index\<close>)
  then have "file_get ext base ok i (snd (file_store ext base io r f)) = file_get ext base ok i f"
    by (simp add: file_get_def fs_read_def)
  with Cons x show ?case by simp
qed simp

theorem stored_receipt_undisturbed_witness:
  "file_get demo_store_lib ''d'' True 7 (store_all (file_store demo_store_lib ''d'')
      [(good_store_io\<lparr>ri_write := WriteFails (Some ''junk'')\<rparr>, demo_receipt 8)]
      [''d/7.json'' \<mapsto> ''7'']) = Some (demo_receipt 7)"
  by (subst stored_receipt_undisturbed [OF demo_store_lib_ids])
    (simp_all add: demo_receipt_def [of 8] file_get_def fs_read_def receipt_path_def path_join_def)

text \<open>
  Two calls of \<open>store\<close> whose steps alternate: each reads the index after writing its receipt and
  before either writes the index.
\<close>

definition store_interleaved ::
  "rstore_lib \<Rightarrow> path \<Rightarrow> rstore_io \<Rightarrow> receipt \<Rightarrow> receipt \<Rightarrow> fs
   \<Rightarrow> (receipt_store_error + unit) \<times> (receipt_store_error + unit) \<times> fs" where
  "store_interleaved ext base io r1 r2 f =
     (let f1 = snd (store_receipt_file ext base io r1 f);
          f2 = snd (store_receipt_file ext base io r2 f1)
      in case (store_load_index ext base io f2, store_load_index ext base io f2) of
           (Inr i1, Inr i2) \<Rightarrow>
             (let (a, f3) = store_save_index ext base io r1 i1 f2;
                  (b, f4) = store_save_index ext base io r2 i2 f3 in (a, b, f4))
         | (Inl e, _) \<Rightarrow> (Inl e, Inl e, f2)
         | (Inr _, Inl e) \<Rightarrow> (Inl e, Inl e, f2))"

text \<open>
  Concurrent stores lose receipts from the index. When the steps of two
  \<open>store\<close> calls for the same action alternate, both calls return \<open>Ok\<close> and both receipts are on
  disk, but the action's list has only the second.
\<close>

theorem concurrent_store_loses_index_entry:
  "(case store_interleaved demo_store_lib ''d'' good_store_io (demo_receipt 7) (demo_receipt 8) Map.empty of
      (a, b, f) \<Rightarrow> a = Inr () \<and> b = Inr () \<and>
        file_get demo_store_lib ''d'' True 7 f = Some (demo_receipt 7) \<and>
        file_get demo_store_lib ''d'' True 8 f = Some (demo_receipt 8) \<and>
        file_list_by_action demo_store_lib ''d'' True True (\<lambda>_. True) 1 f = [demo_receipt 8])"
proof -
  have r: "rc_id (demo_receipt n) = of_nat n" "rc_action_id (demo_receipt n) = 1" for n
    by (simp_all add: demo_receipt_def)
  show ?thesis
    by (simp add: store_interleaved_def store_receipt_file_def store_load_index_def
        store_save_index_def write_index_def read_index_def new_file_receipts_def file_get_def
        file_list_by_action_def good_store_io_def write_atomic_def fs_write_def fs_rename_def
        fs_read_def receipt_path_def receipt_tmp_path_def index_path_def path_join_def push_entry_def
        r List.map_filter_simps Let_def)
qed

end
