(* ===== verification/Idempotency.thy ===== *)
theory Idempotency
  imports Core_Types File_System
begin

text \<open>
  Idempotency stores (\<open>agentverify-runtime/src/executor.rs\<close> and \<open>idempotency_store.rs\<close>): the
  \<open>IdempotencyStore\<close> trait as the locale \<open>idempotency_store\<close>, the in-memory
  \<open>IdempotencyRegistry\<close>, the \<open>FileIdempotencyStore\<close> with its in-process cache over a directory
  whose calls may fail, and the \<open>RedisIdempotencyStore\<close> over a server given by its commands.
  Here a method is one step and concurrent callers are sequences of steps, which is what the
  registry's mutex gives. The file store writes and unlinks outside its mutex and the Redis store
  has none: their interleavings call by call are in \<open>Idem_Interleaving\<close>.
\<close>

section \<open>The interface\<close>

datatype claim_result = Claimed | AlreadyClaimed

type_synonym claim_answer = "claim_result \<times> verification_result option"

datatype entry_state = InFlight | Completed verification_result

text \<open>The calls a client can make, and what a sequence of them answers.\<close>

datatype idem_op = OpClaim string | OpComplete string verification_result | OpRelease string

fun run_ops ::
  "('io \<Rightarrow> string \<Rightarrow> 's \<Rightarrow> claim_answer \<times> 's) \<Rightarrow> ('io \<Rightarrow> string \<Rightarrow> verification_result \<Rightarrow> 's \<Rightarrow> 's)
   \<Rightarrow> ('io \<Rightarrow> string \<Rightarrow> 's \<Rightarrow> 's) \<Rightarrow> ('io \<times> idem_op) list \<Rightarrow> 's
   \<Rightarrow> (string \<times> claim_answer) list \<times> 's" where
  "run_ops cl co re [] s = ([], s)"
| "run_ops cl co re ((io, OpClaim k) # ops) s =
     (let (a, s1) = cl io k s; (as, s2) = run_ops cl co re ops s1 in ((k, a) # as, s2))"
| "run_ops cl co re ((io, OpComplete k r) # ops) s = run_ops cl co re ops (co io k r s)"
| "run_ops cl co re ((io, OpRelease k) # ops) s = run_ops cl co re ops (re io k s)"

fun op_key :: "idem_op \<Rightarrow> string" where
  "op_key (OpClaim k) = k"
| "op_key (OpComplete k r) = k"
| "op_key (OpRelease k) = k"

text \<open>How many of the answers for a key say that the caller owns it.\<close>

definition wins :: "string \<Rightarrow> (string \<times> claim_answer) list \<Rightarrow> nat" where
  "wins k as = length (filter (\<lambda>a. fst a = k \<and> fst (snd a) = Claimed) as)"

lemma wins_Nil [simp]: "wins k [] = 0"
  by (simp add: wins_def)

lemma wins_claim:
  "wins k (fst (run_ops cl co re ((io, OpClaim j) # ops) s)) =
   (if j = k \<and> fst (fst (cl io j s)) = Claimed then 1 else 0)
     + wins k (fst (run_ops cl co re ops (snd (cl io j s))))"
  by (auto simp: wins_def Let_def split_def)

text \<open>
  The contract of a store. \<open>view\<close> reads the state of a key, \<open>ok\<close> says that the calls to the
  outside that the store cannot do without succeed, and \<open>sep\<close> that two keys do not share a slot.
\<close>

locale idempotency_store =
  fixes view :: "'s \<Rightarrow> string \<Rightarrow> entry_state option"
    and ok :: "'io \<Rightarrow> bool"
    and sep :: "string \<Rightarrow> string \<Rightarrow> bool"
    and claim :: "'io \<Rightarrow> string \<Rightarrow> 's \<Rightarrow> claim_answer \<times> 's"
    and complete :: "'io \<Rightarrow> string \<Rightarrow> verification_result \<Rightarrow> 's \<Rightarrow> 's"
    and release :: "'io \<Rightarrow> string \<Rightarrow> 's \<Rightarrow> 's"
  assumes claim_vacant: "ok io \<Longrightarrow> view s k = None \<Longrightarrow>
      fst (claim io k s) = (Claimed, None) \<and> view (snd (claim io k s)) k = Some InFlight"
    and claim_in_flight: "ok io \<Longrightarrow> view s k = Some InFlight \<Longrightarrow>
      fst (claim io k s) = (AlreadyClaimed, None) \<and> view (snd (claim io k s)) k = Some InFlight"
    and claim_completed: "ok io \<Longrightarrow> view s k = Some (Completed r) \<Longrightarrow>
      fst (claim io k s) = (AlreadyClaimed, Some r) \<and>
      view (snd (claim io k s)) k = Some (Completed r)"
    and view_complete: "ok io \<Longrightarrow> view (complete io k r s) k = Some (Completed r)"
    and view_release: "ok io \<Longrightarrow> view (release io k s) k = None"
    and claim_frame: "ok io \<Longrightarrow> sep k k' \<Longrightarrow> view (snd (claim io k s)) k' = view s k'"
    and complete_frame: "ok io \<Longrightarrow> sep k k' \<Longrightarrow> view (complete io k r s) k' = view s k'"
    and release_frame: "ok io \<Longrightarrow> sep k k' \<Longrightarrow> view (release io k s) k' = view s k'"
begin

lemma claim_not_vacant:
  "ok io \<Longrightarrow> view s k \<noteq> None \<Longrightarrow>
   fst (fst (claim io k s)) = AlreadyClaimed \<and> view (snd (claim io k s)) k = view s k"
  by (cases "view s k"; cases "the (view s k)") (auto simp: claim_in_flight claim_completed)

lemma claim_wins_iff: "ok io \<Longrightarrow> fst (fst (claim io k s)) = Claimed \<longleftrightarrow> view s k = None"
  using claim_vacant claim_not_vacant by (metis claim_result.distinct(1) fst_conv)

lemma claim_occupies: "ok io \<Longrightarrow> view (snd (claim io k s)) k \<noteq> None"
  using claim_vacant claim_not_vacant by (cases "view s k") force+

text \<open>Once a key is taken, nobody wins it again while it is not released.\<close>

lemma no_wins_when_taken:
  assumes "\<And>io op. (io, op) \<in> set ops \<Longrightarrow> ok io \<and> (op_key op = k \<or> sep (op_key op) k)"
    and "\<And>io. (io, OpRelease k) \<notin> set ops" and "view s k \<noteq> None"
  shows "wins k (fst (run_ops claim complete release ops s)) = 0"
  using assms
proof (induction ops arbitrary: s)
  case (Cons x ops)
  obtain io op where x: "x = (io, op)" by (cases x)
  with Cons.prems(1) have ok: "ok io" "op_key op = k \<or> sep (op_key op) k" by auto
  have IH: "view s' k \<noteq> None \<Longrightarrow> wins k (fst (run_ops claim complete release ops s')) = 0" for s'
    using Cons.IH [of s'] Cons.prems(1,2) by auto
  show ?case
  proof (cases op)
    case (OpClaim j)
    have "view (snd (claim io j s)) k \<noteq> None"
      using ok Cons.prems(3) claim_not_vacant claim_frame OpClaim by (cases "j = k") auto
    moreover have "j = k \<longrightarrow> fst (fst (claim io j s)) = AlreadyClaimed"
      using ok Cons.prems(3) claim_not_vacant by auto
    ultimately show ?thesis using IH x OpClaim by (simp add: wins_claim del: run_ops.simps)
  next
    case (OpComplete j r)
    have "view (complete io j r s) k \<noteq> None"
      using ok Cons.prems(3) view_complete complete_frame OpComplete by (cases "j = k") auto
    with IH x OpComplete show ?thesis by simp
  next
    case (OpRelease j)
    with Cons.prems(2) x have "j \<noteq> k" by auto
    with ok OpRelease have "view (release io j s) k \<noteq> None"
      using Cons.prems(3) release_frame by auto
    with IH x OpRelease show ?thesis by simp
  qed
qed simp

text \<open>In a run without releases of the key, at most one caller wins it.\<close>

lemma at_most_one_winner:
  assumes "\<And>io op. (io, op) \<in> set ops \<Longrightarrow> ok io \<and> (op_key op = k \<or> sep (op_key op) k)"
    and "\<And>io. (io, OpRelease k) \<notin> set ops"
  shows "wins k (fst (run_ops claim complete release ops s)) \<le> 1"
  using assms
proof (induction ops arbitrary: s)
  case (Cons x ops)
  obtain io op where x: "x = (io, op)" by (cases x)
  have IH: "wins k (fst (run_ops claim complete release ops s')) \<le> 1" for s'
    using Cons.IH [of s'] Cons.prems by auto
  show ?case
  proof (cases op)
    case (OpClaim j)
    with Cons.prems(1) x have ok: "ok io" by auto
    let ?rest = "wins k (fst (run_ops claim complete release ops (snd (claim io j s))))"
    have "j = k \<longrightarrow> ?rest = 0"
      using no_wins_when_taken [of ops k "snd (claim io j s)"] claim_occupies [OF ok] Cons.prems
      by auto
    moreover have "?rest \<le> 1" by (rule IH)
    ultimately show ?thesis using x OpClaim by (simp add: wins_claim del: run_ops.simps)
  qed (use IH x in simp_all)
qed simp

text \<open>A vacant key that is only claimed has exactly one winner as soon as somebody claims it.\<close>

lemma exactly_one_winner:
  assumes "\<And>io op. (io, op) \<in> set ops \<Longrightarrow> ok io \<and> (op = OpClaim k \<or> sep (op_key op) k)"
    and "\<And>j. \<not> sep j j" and "view s k = None"
  shows "wins k (fst (run_ops claim complete release ops s)) =
    (if \<exists>io. (io, OpClaim k) \<in> set ops then 1 else 0)"
  using assms
proof (induction ops arbitrary: s)
  case (Cons x ops)
  obtain io op where x: "x = (io, op)" by (cases x)
  have prems: "\<And>io op. (io, op) \<in> set ops \<Longrightarrow> ok io \<and> (op = OpClaim k \<or> sep (op_key op) k)"
    using Cons.prems(1) by auto
  have IH: "view s' k = None \<Longrightarrow> wins k (fst (run_ops claim complete release ops s')) =
      (if \<exists>io. (io, OpClaim k) \<in> set ops then 1 else 0)" for s'
    using Cons.IH [of s'] prems Cons.prems(2) by blast
  have ok: "ok io" "op = OpClaim k \<or> sep (op_key op) k" using Cons.prems(1) x by auto
  show ?case
  proof (cases "op = OpClaim k")
    case True
    have "wins k (fst (run_ops claim complete release ops (snd (claim io k s)))) = 0"
    proof (rule no_wins_when_taken)
      show "(io, OpRelease k) \<notin> set ops" for io using prems Cons.prems(2) by fastforce
    qed (use prems claim_occupies [OF ok(1)] in fastforce)+
    with True x ok claim_vacant [OF ok(1) Cons.prems(3)] show ?thesis
      by (auto simp: wins_claim simp del: run_ops.simps)
  next
    case False
    with ok have sep: "sep (op_key op) k" by simp
    with Cons.prems(2) have "op_key op \<noteq> k" by auto
    with False x IH ok sep Cons.prems(3) show ?thesis
      by (cases op) (auto simp: wins_claim claim_frame complete_frame release_frame
          simp del: run_ops.simps(2))
  qed
qed simp

end

section \<open>The in-memory registry\<close>

type_synonym registry = "string \<Rightarrow> entry_state option"

definition new_registry :: registry where
  "new_registry = Map.empty"

definition registry_claim_or_check :: "string \<Rightarrow> registry \<Rightarrow> claim_answer \<times> registry" where
  "registry_claim_or_check key entries =
     (case entries key of
        None \<Rightarrow> ((Claimed, None), entries(key \<mapsto> InFlight))
      | Some InFlight \<Rightarrow> ((AlreadyClaimed, None), entries)
      | Some (Completed result) \<Rightarrow> ((AlreadyClaimed, Some result), entries))"

definition registry_complete :: "string \<Rightarrow> verification_result \<Rightarrow> registry \<Rightarrow> registry" where
  "registry_complete key result entries = entries(key \<mapsto> Completed result)"

definition registry_release :: "string \<Rightarrow> registry \<Rightarrow> registry" where
  "registry_release key entries = entries(key := None)"

interpretation reg: idempotency_store
  "\<lambda>s. s" "\<lambda>_ :: unit. True" "\<lambda>a b. a \<noteq> b"
  "\<lambda>_. registry_claim_or_check" "\<lambda>_. registry_complete" "\<lambda>_. registry_release"
  by unfold_locales
    (simp_all add: registry_claim_or_check_def registry_complete_def registry_release_def
      split: option.split entry_state.split)

section \<open>The file store\<close>

datatype persisted_state = PInFlight | PCompleted string

record persisted_entry =
  original_key :: string
  pe_state :: persisted_state
  pe_created_at :: string

text \<open>
  What the store takes from libraries: the hex SHA-256 of a key, the JSON form of an entry and
  its parser.
\<close>

record file_idem_lib =
  sha256_hex_str :: "string \<Rightarrow> string"
  entry_to_string :: "persisted_entry \<Rightarrow> string option"
  entry_from_str :: "string \<Rightarrow> persisted_entry option"

text \<open>One call's fortunes: whether the read, the write, the rename and the removal succeed.\<close>

record idem_io =
  io_now :: string
  io_read_ok :: bool
  io_write :: write_outcome
  io_rename_ok :: bool
  io_remove_ok :: bool

record file_idem =
  fi_base_path :: path
  fi_cache :: "string \<Rightarrow> persisted_entry option"
  fi_fs :: fs

definition new_file_idem :: "path \<Rightarrow> fs \<Rightarrow> file_idem" where
  "new_file_idem base f = \<lparr>fi_base_path = base, fi_cache = Map.empty, fi_fs = f\<rparr>"

text \<open>\<open>FileIdempotencyStore::new\<close> fails when the directory cannot be made.\<close>

definition open_file_idem :: "(string + unit) \<Rightarrow> path \<Rightarrow> fs \<Rightarrow> string + file_idem" where
  "open_file_idem created base f =
     (case created of Inl e \<Rightarrow> Inl e | Inr _ \<Rightarrow> Inr (new_file_idem base f))"

definition new_in_flight :: "string \<Rightarrow> string \<Rightarrow> persisted_entry" where
  "new_in_flight now key = \<lparr>original_key = key, pe_state = PInFlight, pe_created_at = now\<rparr>"

definition new_completed :: "string \<Rightarrow> string \<Rightarrow> verification_result \<Rightarrow> persisted_entry" where
  "new_completed now key result =
     \<lparr>original_key = key, pe_state = PCompleted (show_result result), pe_created_at = now\<rparr>"

definition parse_result :: "string \<Rightarrow> verification_result option" where
  "parse_result s =
     (if s = ''verified'' then Some Verified
      else if s = ''failed'' then Some Failed
      else if s = ''unknown'' then Some Unknown
      else if s = ''partial'' then Some Partial
      else if s = ''duplicate'' then Some Duplicate
      else None)"

definition to_result :: "persisted_entry \<Rightarrow> verification_result option" where
  "to_result e = (case pe_state e of PInFlight \<Rightarrow> None | PCompleted s \<Rightarrow> parse_result s)"

definition key_to_filename :: "file_idem_lib \<Rightarrow> string \<Rightarrow> string" where
  "key_to_filename ext key = take 16 (sha256_hex_str ext key)"

definition entry_path :: "file_idem_lib \<Rightarrow> path \<Rightarrow> string \<Rightarrow> path" where
  "entry_path ext base key = path_join base (key_to_filename ext key @ ''.json'')"

definition entry_tmp_path :: "file_idem_lib \<Rightarrow> path \<Rightarrow> string \<Rightarrow> path" where
  "entry_tmp_path ext base key = path_join base (key_to_filename ext key @ ''.tmp'')"

definition load_entry :: "file_idem_lib \<Rightarrow> idem_io \<Rightarrow> file_idem \<Rightarrow> string \<Rightarrow> persisted_entry option" where
  "load_entry ext io s key =
     (let p = entry_path ext (fi_base_path s) key
      in if fi_fs s p = None then None
         else (case fs_read (io_read_ok io) p (fi_fs s) of
                 None \<Rightarrow> None
               | Some content \<Rightarrow> entry_from_str ext content))"

text \<open>\<open>save_entry\<close>: the callers log an error and go on, so only the files matter.\<close>

definition save_entry :: "file_idem_lib \<Rightarrow> idem_io \<Rightarrow> persisted_entry \<Rightarrow> file_idem \<Rightarrow> file_idem" where
  "save_entry ext io e s =
     (case entry_to_string ext e of
        None \<Rightarrow> s
      | Some content \<Rightarrow>
          s\<lparr>fi_fs := snd (write_atomic (io_write io) (io_rename_ok io)
                (entry_tmp_path ext (fi_base_path s) (original_key e))
                (entry_path ext (fi_base_path s) (original_key e)) content (fi_fs s))\<rparr>)"

definition cache_insert :: "string \<Rightarrow> persisted_entry \<Rightarrow> file_idem \<Rightarrow> file_idem" where
  "cache_insert key e s = s\<lparr>fi_cache := (fi_cache s)(key \<mapsto> e)\<rparr>"

definition file_claim_or_check ::
  "file_idem_lib \<Rightarrow> idem_io \<Rightarrow> string \<Rightarrow> file_idem \<Rightarrow> claim_answer \<times> file_idem" where
  "file_claim_or_check ext io key s =
     (case fi_cache s key of
        Some e \<Rightarrow>
          (case pe_state e of
             PInFlight \<Rightarrow> ((AlreadyClaimed, None), s)
           | PCompleted _ \<Rightarrow> ((AlreadyClaimed, to_result e), s))
      | None \<Rightarrow>
          (case load_entry ext io s key of
             Some e \<Rightarrow> ((AlreadyClaimed, to_result e), cache_insert key e s)
           | None \<Rightarrow>
               (let e = new_in_flight (io_now io) key
                in ((Claimed, None), cache_insert key e (save_entry ext io e s)))))"

definition file_complete ::
  "file_idem_lib \<Rightarrow> idem_io \<Rightarrow> string \<Rightarrow> verification_result \<Rightarrow> file_idem \<Rightarrow> file_idem" where
  "file_complete ext io key result s =
     (let e = new_completed (io_now io) key result
      in cache_insert key e (save_entry ext io e s))"

definition file_release :: "file_idem_lib \<Rightarrow> idem_io \<Rightarrow> string \<Rightarrow> file_idem \<Rightarrow> file_idem" where
  "file_release ext io key s =
     (let s1 = s\<lparr>fi_fs := fs_remove (io_remove_ok io) (entry_path ext (fi_base_path s) key) (fi_fs s)\<rparr>
      in s1\<lparr>fi_cache := (fi_cache s1)(key := None)\<rparr>)"

text \<open>
  The state of a key: the cached entry if there is one, else the entry on disk. An entry whose
  stored result does not parse counts as in flight, as the callers see it.
\<close>

definition entry_view :: "persisted_entry \<Rightarrow> entry_state" where
  "entry_view e = (case to_result e of None \<Rightarrow> InFlight | Some r \<Rightarrow> Completed r)"

definition disk_entry :: "file_idem_lib \<Rightarrow> file_idem \<Rightarrow> string \<Rightarrow> persisted_entry option" where
  "disk_entry ext s key =
     (case fi_fs s (entry_path ext (fi_base_path s) key) of
        None \<Rightarrow> None | Some content \<Rightarrow> entry_from_str ext content)"

definition file_view :: "file_idem_lib \<Rightarrow> file_idem \<Rightarrow> string \<Rightarrow> entry_state option" where
  "file_view ext s key =
     map_option entry_view
       (case fi_cache s key of Some e \<Rightarrow> Some e | None \<Rightarrow> disk_entry ext s key)"

definition file_io_ok :: "idem_io \<Rightarrow> bool" where
  "file_io_ok io = (io_read_ok io \<and> io_remove_ok io)"

definition file_sep :: "file_idem_lib \<Rightarrow> string \<Rightarrow> string \<Rightarrow> bool" where
  "file_sep ext a b = (key_to_filename ext a \<noteq> key_to_filename ext b)"

lemma parse_show_result [simp]: "parse_result (show_result r) = Some r"
  by (cases r) (simp_all add: parse_result_def)

lemma entry_view_simps [simp]:
  "entry_view (new_in_flight now key) = InFlight"
  "entry_view (new_completed now key r) = Completed r"
  by (simp_all add: entry_view_def to_result_def new_in_flight_def new_completed_def)

lemma entry_paths [simp]:
  "entry_path ext b k = entry_path ext b j \<longleftrightarrow> key_to_filename ext k = key_to_filename ext j"
  "entry_tmp_path ext b k \<noteq> entry_path ext b j" "entry_path ext b j \<noteq> entry_tmp_path ext b k"
proof -
  have "x @ ''.tmp'' \<noteq> y @ ''.json''" for x y :: string
  proof
    assume "x @ ''.tmp'' = y @ ''.json''"
    then have "last (x @ ''.tmp'') = last (y @ ''.json'')" by (rule arg_cong)
    then show False by simp
  qed
  then show "entry_tmp_path ext b k \<noteq> entry_path ext b j" "entry_path ext b j \<noteq> entry_tmp_path ext b k"
    by (auto simp: entry_path_def entry_tmp_path_def)
qed (simp add: entry_path_def)

lemma load_entry_ok: "io_read_ok io \<Longrightarrow> load_entry ext io s key = disk_entry ext s key"
  by (simp add: load_entry_def disk_entry_def fs_read_def Let_def split: option.split)

lemma cache_insert_sel [simp]:
  "fi_cache (cache_insert k e s) = (fi_cache s)(k \<mapsto> e)" "fi_fs (cache_insert k e s) = fi_fs s"
  "fi_base_path (cache_insert k e s) = fi_base_path s"
  by (simp_all add: cache_insert_def)

lemma save_entry_sel [simp]:
  "fi_cache (save_entry ext io e s) = fi_cache s"
  "fi_base_path (save_entry ext io e s) = fi_base_path s"
  by (simp_all add: save_entry_def split: option.split)

lemma disk_entry_save_frame:
  "key_to_filename ext (original_key e) \<noteq> key_to_filename ext k \<Longrightarrow>
   disk_entry ext (save_entry ext io e s) k = disk_entry ext s k"
  by (simp add: disk_entry_def save_entry_def write_atomic_frame split: option.split)

lemma disk_entry_insert [simp]: "disk_entry ext (cache_insert k e s) j = disk_entry ext s j"
  by (simp add: disk_entry_def)

lemma file_view_insert [simp]:
  "file_view ext (cache_insert k e s) j = (if j = k then Some (entry_view e) else file_view ext s j)"
  by (simp add: file_view_def split: option.split)

lemma file_view_save_frame:
  "key_to_filename ext (original_key e) \<noteq> key_to_filename ext k \<Longrightarrow>
   file_view ext (save_entry ext io e s) k = file_view ext s k"
  by (simp add: file_view_def disk_entry_save_frame split: option.split)

lemma original_key_simps [simp]:
  "original_key (new_in_flight now k) = k" "original_key (new_completed now k r) = k"
  by (simp_all add: new_in_flight_def new_completed_def)

lemma file_sep_neq: "file_sep ext a b \<Longrightarrow> b \<noteq> a"
  by (auto simp: file_sep_def)

lemma to_result_in_flight: "pe_state e = PInFlight \<Longrightarrow> to_result e = None"
  by (simp add: to_result_def)

text \<open>What a claim does, by the state of the key.\<close>

lemma file_claim_cases:
  assumes "file_io_ok io"
  shows "fst (file_claim_or_check ext io k s) =
      (case file_view ext s k of
         None \<Rightarrow> (Claimed, None) | Some InFlight \<Rightarrow> (AlreadyClaimed, None)
       | Some (Completed r) \<Rightarrow> (AlreadyClaimed, Some r))"
    and "file_view ext (snd (file_claim_or_check ext io k s)) k =
      (case file_view ext s k of None \<Rightarrow> Some InFlight | Some v \<Rightarrow> Some v)"
  using assms
  by (auto simp: file_claim_or_check_def file_view_def load_entry_ok file_io_ok_def entry_view_def
      to_result_in_flight Let_def to_result_def [of "new_in_flight now key" for now key] new_in_flight_def
      split: option.splits persisted_state.splits)

lemma file_claim_frame:
  "file_sep ext k j \<Longrightarrow> file_view ext (snd (file_claim_or_check ext io k s)) j = file_view ext s j"
  by (auto simp: file_claim_or_check_def file_sep_def file_view_save_frame Let_def
      split: option.splits persisted_state.splits)

interpretation file_store: idempotency_store
  "file_view ext" file_io_ok "file_sep ext"
  "file_claim_or_check ext" "file_complete ext" "file_release ext" for ext
proof
  fix io s k r k'
  show "file_io_ok io \<Longrightarrow> file_view ext (file_complete ext io k r s) k = Some (Completed r)"
    by (simp add: file_complete_def Let_def)
  show "file_io_ok io \<Longrightarrow> file_view ext (file_release ext io k s) k = None"
    by (simp add: file_release_def Let_def file_view_def disk_entry_def fs_remove_def file_io_ok_def)
  show "file_view ext (file_complete ext io k r s) k' = file_view ext s k'" if "file_sep ext k k'"
    using that by (auto simp: file_complete_def Let_def file_view_save_frame file_sep_def)
  show "file_view ext (file_release ext io k s) k' = file_view ext s k'" if "file_sep ext k k'"
    using that file_sep_neq [OF that]
    by (simp add: file_release_def Let_def file_view_def disk_entry_def fs_remove_def file_sep_def
        split: option.split)
qed (simp_all add: file_claim_cases file_claim_frame)

section \<open>The Redis store\<close>

text \<open>
  The server is given by its commands over a state of its own. A connection may not be had; a
  \<open>SET NX EX\<close> answers whether it set the key, or an error; a \<open>GET\<close> yields the value or, for a
  missing key and for an error alike, nothing. Entries have the fields of the file store's.
\<close>

definition REDIS_KEY_PREFIX :: string where
  "REDIS_KEY_PREFIX = ''idempotency:''"

type_synonym redis_entry = persisted_entry

record 'r redis_lib =
  pool_get :: "'r \<Rightarrow> bool \<times> 'r"
  set_nx_ex :: "string \<Rightarrow> string \<Rightarrow> int \<Rightarrow> 'r \<Rightarrow> (string + bool) \<times> 'r"
  redis_get :: "string \<Rightarrow> 'r \<Rightarrow> string option \<times> 'r"
  set_ex :: "string \<Rightarrow> string \<Rightarrow> int \<Rightarrow> 'r \<Rightarrow> 'r"
  redis_del :: "string \<Rightarrow> 'r \<Rightarrow> 'r"
  redis_entry_to_string :: "redis_entry \<Rightarrow> string option"
  redis_entry_from_str :: "string \<Rightarrow> redis_entry option"

definition redis_key :: "string \<Rightarrow> string" where
  "redis_key key = REDIS_KEY_PREFIX @ key"

text \<open>\<open>i64::try_from(ttl_secs).unwrap_or(i64::MAX)\<close>\<close>

definition ttl_arg :: "u64 \<Rightarrow> int" where
  "ttl_arg ttl = min (uint ttl) (2 ^ 63 - 1)"

definition redis_new_in_flight :: "string \<Rightarrow> string \<Rightarrow> redis_entry" where
  "redis_new_in_flight now key = \<lparr>original_key = key, pe_state = PInFlight, pe_created_at = now\<rparr>"

definition redis_new_completed :: "string \<Rightarrow> string \<Rightarrow> verification_result \<Rightarrow> redis_entry" where
  "redis_new_completed now key result =
     \<lparr>original_key = key, pe_state = PCompleted (show_result result), pe_created_at = now\<rparr>"

definition redis_to_result :: "redis_entry \<Rightarrow> verification_result option" where
  "redis_to_result e =
     (case pe_state e of
        PInFlight \<Rightarrow> None
      | PCompleted s \<Rightarrow>
          if s = ''verified'' then Some Verified
          else if s = ''failed'' then Some Failed
          else if s = ''unknown'' then Some Unknown
          else if s = ''partial'' then Some Partial
          else if s = ''duplicate'' then Some Duplicate
          else None)"

text \<open>The same code as the file store's.\<close>

lemma redis_entry_same [simp]:
  "redis_new_in_flight now key = new_in_flight now key"
  "redis_new_completed now key r = new_completed now key r" "redis_to_result e = to_result e"
  by (simp_all add: redis_new_in_flight_def new_in_flight_def redis_new_completed_def
      new_completed_def redis_to_result_def to_result_def parse_result_def split: persisted_state.split)

text \<open>A store is a pool and the time its entries live; the pool is made from a URL or fails.\<close>

record 'p redis_idempotency_store =
  ri_pool :: 'p
  ri_ttl_secs :: u64

definition new_redis_store :: "'p \<Rightarrow> u64 \<Rightarrow> 'p redis_idempotency_store" where
  "new_redis_store pool ttl = \<lparr>ri_pool = pool, ri_ttl_secs = ttl\<rparr>"

definition redis_store_from_url ::
  "(string \<Rightarrow> string + 'p) \<Rightarrow> string \<Rightarrow> u64 \<Rightarrow> string + 'p redis_idempotency_store" where
  "redis_store_from_url create_pool url ttl =
     (case create_pool url of Inl e \<Rightarrow> Inl e | Inr pool \<Rightarrow> Inr (new_redis_store pool ttl))"

definition redis_claim_or_check ::
  "'r redis_lib \<Rightarrow> u64 \<Rightarrow> string \<Rightarrow> string \<Rightarrow> 'r \<Rightarrow> claim_answer \<times> 'r" where
  "redis_claim_or_check lib ttl now key s =
     (case pool_get lib s of
        (False, s1) \<Rightarrow> ((Claimed, None), s1)
      | (True, s1) \<Rightarrow>
          (case redis_entry_to_string lib (redis_new_in_flight now key) of
             None \<Rightarrow> ((Claimed, None), s1)
           | Some v \<Rightarrow>
               (case set_nx_ex lib (redis_key key) v (ttl_arg ttl) s1 of
                  (Inr True, s2) \<Rightarrow> ((Claimed, None), s2)
                | (Inr False, s2) \<Rightarrow>
                    (case redis_get lib (redis_key key) s2 of
                       (Some raw, s3) \<Rightarrow>
                         (case redis_entry_from_str lib raw of
                            Some e \<Rightarrow> ((AlreadyClaimed, redis_to_result e), s3)
                          | None \<Rightarrow> ((AlreadyClaimed, None), s3))
                     | (None, s3) \<Rightarrow>
                         (case set_nx_ex lib (redis_key key)
                                 (case redis_entry_to_string lib (redis_new_in_flight now key) of
                                    None \<Rightarrow> [] | Some v2 \<Rightarrow> v2) (ttl_arg ttl) s3 of
                            (Inr True, s4) \<Rightarrow> ((Claimed, None), s4)
                          | (Inr False, s4) \<Rightarrow> ((AlreadyClaimed, None), s4)
                          | (Inl e, s4) \<Rightarrow> ((AlreadyClaimed, None), s4)))
                | (Inl e, s2) \<Rightarrow> ((AlreadyClaimed, None), s2))))"

definition redis_complete ::
  "'r redis_lib \<Rightarrow> u64 \<Rightarrow> string \<Rightarrow> string \<Rightarrow> verification_result \<Rightarrow> 'r \<Rightarrow> 'r" where
  "redis_complete lib ttl now key result s =
     (case pool_get lib s of
        (False, s1) \<Rightarrow> s1
      | (True, s1) \<Rightarrow>
          (case redis_entry_to_string lib (redis_new_completed now key result) of
             None \<Rightarrow> s1
           | Some v \<Rightarrow> set_ex lib (redis_key key) v (ttl_arg ttl) s1))"

definition redis_release :: "'r redis_lib \<Rightarrow> string \<Rightarrow> 'r \<Rightarrow> 'r" where
  "redis_release lib key s =
     (case pool_get lib s of (True, s1) \<Rightarrow> redis_del lib (redis_key key) s1 | (False, s1) \<Rightarrow> s1)"

text \<open>
  A server that keeps its keys in a map and never expires them, and one that cannot be reached;
  both store entries by \<open>entry_name\<close>, an encoding that keeps what \<open>to_result\<close> reads.
\<close>

definition entry_name :: "persisted_entry \<Rightarrow> string" where
  "entry_name e = (case pe_state e of PInFlight \<Rightarrow> ''-'' | PCompleted r \<Rightarrow> CHR ''+'' # r)"

definition entry_of_name :: "string \<Rightarrow> persisted_entry option" where
  "entry_of_name n =
     (case n of [] \<Rightarrow> None
      | c # r \<Rightarrow> Some \<lparr>original_key = [], pe_state = (if c = CHR ''+'' then PCompleted r else PInFlight),
                  pe_created_at = []\<rparr>)"

definition map_redis :: "(string \<Rightarrow> string option) redis_lib" where
  "map_redis =
     \<lparr>pool_get = (\<lambda>s. (True, s)),
      set_nx_ex = (\<lambda>k v t s. if s k = None then (Inr True, s(k \<mapsto> v)) else (Inr False, s)),
      redis_get = (\<lambda>k s. (s k, s)), set_ex = (\<lambda>k v t s. s(k \<mapsto> v)),
      redis_del = (\<lambda>k s. s(k := None)),
      redis_entry_to_string = (\<lambda>e. Some (entry_name e)), redis_entry_from_str = entry_of_name\<rparr>"

definition down_redis :: "(string \<Rightarrow> string option) redis_lib" where
  "down_redis = map_redis\<lparr>pool_get := (\<lambda>s. (False, s))\<rparr>"

definition redis_view :: "(string \<Rightarrow> string option) \<Rightarrow> string \<Rightarrow> entry_state option" where
  "redis_view s key =
     (case s (redis_key key) of
        None \<Rightarrow> None
      | Some raw \<Rightarrow> Some (case entry_of_name raw of None \<Rightarrow> InFlight | Some e \<Rightarrow> entry_view e))"

lemma redis_key_inject [simp]: "redis_key a = redis_key b \<longleftrightarrow> a = b"
  by (simp add: redis_key_def)

lemma entry_of_name_simps [simp]:
  "map_option entry_view (entry_of_name (entry_name (new_in_flight now k))) = Some InFlight"
  "map_option entry_view (entry_of_name (entry_name (new_completed now k r))) = Some (Completed r)"
  by (simp_all add: entry_of_name_def entry_name_def new_in_flight_def new_completed_def
      entry_view_def to_result_def)

lemma redis_view_set:
  "map_option entry_view (entry_of_name v) = Some x \<Longrightarrow>
   redis_view (s(redis_key k \<mapsto> v)) j = (if j = k then Some x else redis_view s j)"
  by (auto simp: redis_view_def split: option.splits)

lemma map_redis_sel [simp]:
  "pool_get map_redis s = (True, s)" "redis_entry_to_string map_redis e = Some (entry_name e)"
  "set_nx_ex map_redis k v t s = (if s k = None then (Inr True, s(k \<mapsto> v)) else (Inr False, s))"
  "redis_get map_redis k s = (s k, s)" "set_ex map_redis k v t s = s(k \<mapsto> v)"
  "redis_del map_redis k s = s(k := None)" "redis_entry_from_str map_redis = entry_of_name"
  by (simp_all add: map_redis_def)

text \<open>Over a reachable server whose entries do not expire, the Redis store keeps the contract.\<close>

interpretation redis_store: idempotency_store
  redis_view "\<lambda>_ :: string. True" "\<lambda>a b. a \<noteq> b"
  "redis_claim_or_check map_redis ttl" "redis_complete map_redis ttl" "\<lambda>_. redis_release map_redis"
  for ttl
proof
  fix now s k r k'
  show "redis_view (redis_complete map_redis ttl now k r s) k = Some (Completed r)"
    by (simp add: redis_complete_def redis_view_set)
  show "redis_view (redis_release map_redis k s) k = None"
    by (simp add: redis_release_def redis_view_def)
  show "redis_view (redis_complete map_redis ttl now k r s) k' = redis_view s k'" if "k \<noteq> k'"
    using that by (simp add: redis_complete_def redis_view_set)
  show "redis_view (redis_release map_redis k s) k' = redis_view s k'" if "k \<noteq> k'"
    using that by (simp add: redis_release_def redis_view_def)
  show "redis_view (snd (redis_claim_or_check map_redis ttl now k s)) k' = redis_view s k'" if "k \<noteq> k'"
    using that by (auto simp: redis_claim_or_check_def redis_view_set split: option.splits)
next
  fix now s k
  assume "redis_view s k = None"
  then have "s (redis_key k) = None" by (simp add: redis_view_def split: option.splits)
  then show "fst (redis_claim_or_check map_redis ttl now k s) = (Claimed, None) \<and>
      redis_view (snd (redis_claim_or_check map_redis ttl now k s)) k = Some InFlight"
    by (simp add: redis_claim_or_check_def redis_view_set)
next
  fix now s k
  assume "redis_view s k = Some InFlight"
  then show "fst (redis_claim_or_check map_redis ttl now k s) = (AlreadyClaimed, None) \<and>
      redis_view (snd (redis_claim_or_check map_redis ttl now k s)) k = Some InFlight"
    by (auto simp: redis_claim_or_check_def redis_view_def entry_view_def split: option.splits)
next
  fix now s k r
  assume "redis_view s k = Some (Completed r)"
  then show "fst (redis_claim_or_check map_redis ttl now k s) = (AlreadyClaimed, Some r) \<and>
      redis_view (snd (redis_claim_or_check map_redis ttl now k s)) k = Some (Completed r)"
    by (auto simp: redis_claim_or_check_def redis_view_def entry_view_def split: option.splits)
qed

section \<open>Refinement of the registry\<close>

text \<open>
  The registry, a plain map, is the specification of every store. A run of a store that keeps
  the contract gives the answers of the registry started from the store's view, for any set of
  keys that do not share a slot, and ends with the registry's view of them.
\<close>

lemma registry_frame:
  "k \<noteq> op_key op \<Longrightarrow> snd (run_ops (\<lambda>_. registry_claim_or_check) (\<lambda>_. registry_complete)
     (\<lambda>_. registry_release) [(io, op)] r) k = r k"
  by (cases op) (auto simp: registry_claim_or_check_def registry_complete_def registry_release_def
      split: option.split entry_state.split)

lemma run_ops_Cons:
  "run_ops cl co re (x # ops) s =
     (let (as, s1) = run_ops cl co re [x] s; (bs, s2) = run_ops cl co re ops s1 in (as @ bs, s2))"
  by (cases x; cases "snd x") (auto simp: Let_def split_def)

context idempotency_store
begin

lemma step_refines:
  assumes "ok io" and "view s (op_key op) = r (op_key op)"
  shows "fst (run_ops claim complete release [(io, op)] s) =
      fst (run_ops (\<lambda>_. registry_claim_or_check) (\<lambda>_. registry_complete) (\<lambda>_. registry_release) [(io, op)] r)"
    and "view (snd (run_ops claim complete release [(io, op)] s)) (op_key op) =
      snd (run_ops (\<lambda>_. registry_claim_or_check) (\<lambda>_. registry_complete) (\<lambda>_. registry_release) [(io, op)] r)
        (op_key op)"
  using assms claim_vacant [of io s "op_key op"] claim_in_flight [of io s "op_key op"]
    claim_completed [of io s "op_key op"] view_complete [of io "op_key op"] view_release [of io "op_key op"]
  by (cases op; auto simp: registry_claim_or_check_def registry_complete_def registry_release_def
      Let_def split_def split: option.splits entry_state.splits)+

lemma step_frame:
  "ok io \<Longrightarrow> sep (op_key op) k \<Longrightarrow>
   view (snd (run_ops claim complete release [(io, op)] s)) k = view s k"
  by (cases op) (simp_all add: claim_frame complete_frame release_frame Let_def split_def)

lemma run_refines_registry:
  assumes "\<And>io op. (io, op) \<in> set ops \<Longrightarrow> ok io \<and> op_key op \<in> K"
    and "\<And>j k. j \<in> K \<Longrightarrow> k \<in> K \<Longrightarrow> j \<noteq> k \<Longrightarrow> sep j k"
    and "\<And>k. k \<in> K \<Longrightarrow> view s k = r k"
  shows "fst (run_ops claim complete release ops s) =
      fst (run_ops (\<lambda>_. registry_claim_or_check) (\<lambda>_. registry_complete) (\<lambda>_. registry_release) ops r) \<and>
    (\<forall>k \<in> K. view (snd (run_ops claim complete release ops s)) k =
      snd (run_ops (\<lambda>_. registry_claim_or_check) (\<lambda>_. registry_complete) (\<lambda>_. registry_release) ops r) k)"
  using assms
proof (induction ops arbitrary: s r)
  case (Cons x ops)
  obtain io op where x: "x = (io, op)" by (cases x)
  let ?s = "snd (run_ops claim complete release [x] s)"
  let ?r = "snd (run_ops (\<lambda>_. registry_claim_or_check) (\<lambda>_. registry_complete) (\<lambda>_. registry_release) [x] r)"
  have ok: "ok io" and key: "op_key op \<in> K" using Cons.prems(1) x by auto
  have "view ?s k = ?r k" if "k \<in> K" for k
  proof (cases "k = op_key op")
    case True
    then show ?thesis using step_refines(2) [OF ok, of s op r] Cons.prems(3) [OF key] x by simp
  next
    case False
    then show ?thesis
      using step_frame [OF ok, of op k s] registry_frame [of k op io r] Cons.prems(2) [OF key that]
        Cons.prems(3) [OF that] x by simp
  qed
  from Cons.IH [OF _ Cons.prems(2) this] Cons.prems(1)
  have rest: "fst (run_ops claim complete release ops ?s) = fst (run_ops (\<lambda>_. registry_claim_or_check)
        (\<lambda>_. registry_complete) (\<lambda>_. registry_release) ops ?r) \<and>
    (\<forall>k \<in> K. view (snd (run_ops claim complete release ops ?s)) k = snd (run_ops
        (\<lambda>_. registry_claim_or_check) (\<lambda>_. registry_complete) (\<lambda>_. registry_release) ops ?r) k)"
    by auto
  have "fst (run_ops claim complete release [x] s) = fst (run_ops (\<lambda>_. registry_claim_or_check)
      (\<lambda>_. registry_complete) (\<lambda>_. registry_release) [x] r)"
    using step_refines(1) [OF ok, of s op r] Cons.prems(3) [OF key] x by simp
  with rest show ?case
    by (simp add: run_ops_Cons [of _ _ _ x ops] Let_def split_def del: run_ops.simps)
qed simp

end

section \<open>Properties\<close>

text \<open>
  Property C9 (safety): mutual exclusion of the in-memory registry. However the claims,
  completions and releases of any number of callers interleave, when the key is vacant at the
  start and none of them completes or releases it, exactly one of the callers that claim it is
  told \<open>Claimed\<close>.
\<close>

theorem registry_exactly_one_winner:
  assumes "\<forall>op \<in> set ops. op = OpClaim k \<or> op_key op \<noteq> k" and "s k = None"
  shows "wins k (fst (run_ops (\<lambda>_. registry_claim_or_check) (\<lambda>_. registry_complete)
      (\<lambda>_. registry_release) (map (Pair ()) ops) s)) = (if OpClaim k \<in> set ops then 1 else 0)"
  using reg.exactly_one_winner [of "map (Pair ()) ops" k s] assms by (auto simp: image_iff)

theorem registry_exactly_one_winner_witness:
  "wins ''k'' (fst (run_ops (\<lambda>_. registry_claim_or_check) (\<lambda>_. registry_complete)
      (\<lambda>_. registry_release)
      (map (Pair ()) [OpClaim ''k'', OpRelease ''j'', OpClaim ''k'']) new_registry)) = 1"
  by (subst registry_exactly_one_winner) (simp_all add: new_registry_def)

text \<open>A key the process has in its cache is not won by anybody until it is released.\<close>

lemma file_cache_kept:
  "k \<in> dom (fi_cache s) \<Longrightarrow> k \<in> dom (fi_cache (snd (file_claim_or_check ext io j s)))"
  "k \<in> dom (fi_cache s) \<Longrightarrow> k \<in> dom (fi_cache (file_complete ext io j r s))"
  "k \<in> dom (fi_cache s) \<Longrightarrow> j \<noteq> k \<Longrightarrow> k \<in> dom (fi_cache (file_release ext io j s))"
  "k \<in> dom (fi_cache (snd (file_claim_or_check ext io k s)))"
  by (auto simp: file_claim_or_check_def file_complete_def file_release_def Let_def
      split: option.split persisted_state.split)

lemma file_cached_claim:
  "k \<in> dom (fi_cache s) \<Longrightarrow> fst (fst (file_claim_or_check ext io k s)) = AlreadyClaimed"
  by (auto simp: file_claim_or_check_def split: option.split persisted_state.split)

lemma file_no_wins_when_cached:
  assumes "\<And>io. (io, OpRelease k) \<notin> set ops" and "k \<in> dom (fi_cache s)"
  shows "wins k (fst (run_ops (file_claim_or_check ext) (file_complete ext) (file_release ext) ops s)) = 0"
  using assms
proof (induction ops arbitrary: s)
  case (Cons x ops)
  have IH: "k \<in> dom (fi_cache s') \<Longrightarrow>
      wins k (fst (run_ops (file_claim_or_check ext) (file_complete ext) (file_release ext) ops s')) = 0" for s'
    using Cons.IH [of s'] Cons.prems(1) by auto
  obtain io op where x: "x = (io, op)" by (cases x)
  moreover from this Cons.prems(1) have "op \<noteq> OpRelease k" by auto
  ultimately show ?case
    using Cons.prems(2) IH by (cases op) (simp_all add: wins_claim file_cached_claim file_cache_kept del: run_ops.simps(2))
qed simp

text \<open>
  One handle of the file store admits at most one winner for a key, over
  any sequence of calls without a release of that key, whatever reads, writes, renames and
  removals fail and whatever other keys share its file name: the cache is keyed by the whole key.
\<close>

theorem file_at_most_one_winner:
  assumes "\<forall>io. (io, OpRelease k) \<notin> set ops"
  shows "wins k (fst (run_ops (file_claim_or_check ext) (file_complete ext) (file_release ext) ops s)) \<le> 1"
  using assms
proof (induction ops arbitrary: s)
  case (Cons x ops)
  obtain io op where x: "x = (io, op)" by (cases x)
  let ?wins = "\<lambda>s'. wins k (fst (run_ops (file_claim_or_check ext) (file_complete ext) (file_release ext) ops s'))"
  have IH: "?wins s' \<le> 1" for s' using Cons.IH [of s'] Cons.prems by auto
  show ?case
  proof (cases op)
    case (OpClaim j)
    have "j = k \<longrightarrow> ?wins (snd (file_claim_or_check ext io j s)) = 0"
      using file_no_wins_when_cached file_cache_kept(4) Cons.prems by auto
    with IH [of "snd (file_claim_or_check ext io j s)"] show ?thesis
      using x OpClaim by (simp add: wins_claim del: run_ops.simps)
  qed (use IH x in simp_all)
qed simp

text \<open>An instance of the libraries: keys hash to themselves, entries are stored as \<open>entry_name\<close>s.\<close>

definition demo_file_lib :: file_idem_lib where
  "demo_file_lib = \<lparr>sha256_hex_str = id, entry_to_string = (\<lambda>e. Some (entry_name e)),
     entry_from_str = entry_of_name\<rparr>"

definition good_io :: idem_io where
  "good_io = \<lparr>io_now = [], io_read_ok = True, io_write = WriteOk, io_rename_ok = True,
     io_remove_ok = True\<rparr>"

theorem file_at_most_one_winner_witness:
  "wins ''a'' (fst (run_ops (file_claim_or_check demo_file_lib) (file_complete demo_file_lib)
      (file_release demo_file_lib)
      [(good_io, OpClaim ''a''), (good_io\<lparr>io_write := WriteFails None\<rparr>, OpClaim ''b''),
       (good_io\<lparr>io_read_ok := False\<rparr>, OpClaim ''a'')] (new_file_idem ''d'' Map.empty))) \<le> 1"
  by (rule file_at_most_one_winner) simp

text \<open>
  Property C10 (refinement): the file store is a registry. Any sequence of calls, each with its own I/O
  fortunes as long as reads and removals work (writes and renames may fail), is answered as the
  in-memory registry that starts with the state the store shows would answer it, and the states the store
  shows at the end are the registry's, when the keys in use have pairwise different file names.
\<close>

theorem file_store_refines_registry:
  assumes "\<forall>(io, op) \<in> set ops. file_io_ok io \<and> op_key op \<in> K"
    and "\<forall>j \<in> K. \<forall>k \<in> K. j \<noteq> k \<longrightarrow> key_to_filename ext j \<noteq> key_to_filename ext k"
  shows "fst (run_ops (file_claim_or_check ext) (file_complete ext) (file_release ext) ops s) =
      fst (run_ops (\<lambda>_. registry_claim_or_check) (\<lambda>_. registry_complete) (\<lambda>_. registry_release)
        ops (file_view ext s)) \<and>
    (\<forall>k \<in> K. file_view ext
        (snd (run_ops (file_claim_or_check ext) (file_complete ext) (file_release ext) ops s)) k =
      snd (run_ops (\<lambda>_. registry_claim_or_check) (\<lambda>_. registry_complete) (\<lambda>_. registry_release)
        ops (file_view ext s)) k)"
  by (rule file_store.run_refines_registry) (use assms in \<open>auto simp: file_sep_def\<close>)

theorem file_store_refines_registry_witness:
  "fst (run_ops (file_claim_or_check demo_file_lib) (file_complete demo_file_lib)
      (file_release demo_file_lib)
      [(good_io, OpClaim ''a''), (good_io\<lparr>io_write := WriteFails None\<rparr>, OpComplete ''a'' Verified),
       (good_io, OpClaim ''b''), (good_io, OpClaim ''a''), (good_io, OpRelease ''b''),
       (good_io, OpClaim ''b'')] (new_file_idem ''d'' Map.empty)) =
   [(''a'', Claimed, None), (''b'', Claimed, None), (''a'', AlreadyClaimed, Some Verified),
    (''b'', Claimed, None)]"
proof -
  let ?ops = "[(good_io, OpClaim ''a''), (good_io\<lparr>io_write := WriteFails None\<rparr>, OpComplete ''a'' Verified),
       (good_io, OpClaim ''b''), (good_io, OpClaim ''a''), (good_io, OpRelease ''b''),
       (good_io, OpClaim ''b'')]"
  have "file_view demo_file_lib (new_file_idem ''d'' Map.empty) = Map.empty"
    by (rule ext) (simp add: file_view_def disk_entry_def new_file_idem_def)
  then show ?thesis
    using file_store_refines_registry [of ?ops "{''a'', ''b''}" demo_file_lib "new_file_idem ''d'' Map.empty"]
    by
      (simp_all add: file_io_ok_def good_io_def key_to_filename_def demo_file_lib_def
        registry_claim_or_check_def registry_complete_def registry_release_def)
qed

text \<open>The files of a key survive whatever the process does with keys of other file names.\<close>

lemma disk_entry_ops_frame:
  "file_sep ext j k \<Longrightarrow> disk_entry ext (snd (file_claim_or_check ext io j s)) k = disk_entry ext s k"
  "file_sep ext j k \<Longrightarrow> disk_entry ext (file_complete ext io j r s) k = disk_entry ext s k"
  "file_sep ext j k \<Longrightarrow> disk_entry ext (file_release ext io j s) k = disk_entry ext s k"
  by (auto simp: file_claim_or_check_def file_complete_def file_release_def Let_def file_sep_def
      disk_entry_save_frame disk_entry_def [of _ "fi_fs_update g t" for g t]
      disk_entry_def [of _ "fi_cache_update g t" for g t] fs_remove_def disk_entry_def [of _ s]
      split: option.splits persisted_state.splits)

lemma base_path_ops [simp]:
  "fi_base_path (snd (file_claim_or_check ext io j s)) = fi_base_path s"
  "fi_base_path (file_complete ext io j r s) = fi_base_path s"
  "fi_base_path (file_release ext io j s) = fi_base_path s"
  by (simp_all add: file_claim_or_check_def file_complete_def file_release_def Let_def
      split: option.split persisted_state.split)

lemma disk_entry_run_frame:
  assumes "\<And>io op. (io, op) \<in> set ops \<Longrightarrow> file_sep ext (op_key op) k"
  shows "let s' = snd (run_ops (file_claim_or_check ext) (file_complete ext) (file_release ext) ops s)
    in disk_entry ext s' k = disk_entry ext s k \<and> fi_base_path s' = fi_base_path s"
  using assms
proof (induction ops arbitrary: s)
  case (Cons x ops)
  obtain io op where x: "x = (io, op)" by (cases x)
  from Cons.prems x have sep: "file_sep ext (op_key op) k" by auto
  have IH: "let s' = snd (run_ops (file_claim_or_check ext) (file_complete ext) (file_release ext) ops t)
    in disk_entry ext s' k = disk_entry ext t k \<and> fi_base_path s' = fi_base_path t" for t
    using Cons.IH Cons.prems by auto
  show ?case
  proof (cases op)
    case (OpClaim j)
    with sep x IH [of "snd (file_claim_or_check ext io j s)"] show ?thesis
      by (simp add: Let_def split_def disk_entry_ops_frame)
  next
    case (OpComplete j r)
    with sep x IH [of "file_complete ext io j r s"] show ?thesis
      by (simp add: Let_def disk_entry_ops_frame)
  next
    case (OpRelease j)
    with sep x IH [of "file_release ext io j s"] show ?thesis
      by (simp add: Let_def disk_entry_ops_frame)
  qed
qed simp

lemma disk_entry_complete:
  assumes "io_write io = WriteOk" "io_rename_ok io"
    and "entry_to_string ext (new_completed (io_now io) k r) = Some c"
    and "entry_from_str ext c = Some (new_completed (io_now io) k r)"
  shows "disk_entry ext (file_complete ext io k r s) k = Some (new_completed (io_now io) k r)"
  using assms
  by (simp add: file_complete_def Let_def disk_entry_def save_entry_def write_atomic_target)

text \<open>
  A completed key stays completed across a crash. After \<open>complete\<close> wrote
  its entry, and any further calls for keys with other file names whatever their I/O does, a new
  process that opens the same directory with an empty cache and reads successfully answers a
  claim of that key with \<open>AlreadyClaimed\<close> and the recorded result, provided \<open>serde_json\<close> reads
  back the entry it wrote.
\<close>

theorem file_complete_durable:
  assumes "io_write io = WriteOk" "io_rename_ok io"
    and "entry_to_string ext (new_completed (io_now io) k r) = Some c"
    and "entry_from_str ext c = Some (new_completed (io_now io) k r)"
    and "\<forall>(io, op) \<in> set ops. file_sep ext (op_key op) k" and "io_read_ok io'"
    and "s' = snd (run_ops (file_claim_or_check ext) (file_complete ext) (file_release ext) ops
      (file_complete ext io k r s))"
  shows "fst (file_claim_or_check ext io' k (new_file_idem (fi_base_path s) (fi_fs s')))
    = (AlreadyClaimed, Some r)"
proof -
  have "disk_entry ext s' k = Some (new_completed (io_now io) k r)" "fi_base_path s' = fi_base_path s"
    using disk_entry_run_frame [of ops ext k "file_complete ext io k r s"]
      disk_entry_complete [OF assms(1-4)] assms(5,7) by (auto simp: Let_def)
  then have "disk_entry ext (new_file_idem (fi_base_path s) (fi_fs s')) k
      = Some (new_completed (io_now io) k r)"
    by (simp add: disk_entry_def new_file_idem_def)
  with assms(6) show ?thesis
    by (simp add: file_claim_or_check_def load_entry_ok new_file_idem_def to_result_def new_completed_def)
qed

definition exact_file_lib :: "file_idem_lib" where
  "exact_file_lib = demo_file_lib\<lparr>entry_from_str := (\<lambda>c.
     if c = ''+verified'' then Some (new_completed [] ''a'' Verified) else None)\<rparr>"

theorem file_complete_durable_witness:
  "fst (file_claim_or_check exact_file_lib good_io ''a'' (new_file_idem ''d'' (fi_fs (snd (run_ops
      (file_claim_or_check exact_file_lib) (file_complete exact_file_lib) (file_release exact_file_lib)
      [(good_io, OpClaim ''b'')]
      (file_complete exact_file_lib good_io ''a'' Verified (new_file_idem ''d'' Map.empty)))))))
    = (AlreadyClaimed, Some Verified)"
  using file_complete_durable [of good_io exact_file_lib "''a''" Verified "''+verified''"
      "[(good_io, OpClaim ''b'')]" good_io _ "new_file_idem ''d'' Map.empty"]
  by (simp add: good_io_def exact_file_lib_def demo_file_lib_def entry_name_def new_completed_def
      file_sep_def key_to_filename_def new_file_idem_def)

text \<open>
  File names are sixteen hexadecimal digits of the hash and the
  \<open>original_key\<close> of an entry is never compared, so two keys with the same sixteen digits are
  one key: after the first is completed and the process restarts, a claim of the second is
  answered with the first one's result.
\<close>

theorem file_key_collision:
  assumes "key_to_filename ext j = key_to_filename ext k"
    and "io_write io = WriteOk" "io_rename_ok io" "io_read_ok io'"
    and "entry_to_string ext (new_completed (io_now io) k r) = Some c"
    and "entry_from_str ext c = Some (new_completed (io_now io) k r)"
  shows "fst (file_claim_or_check ext io' j
      (new_file_idem (fi_base_path s) (fi_fs (file_complete ext io k r s)))) = (AlreadyClaimed, Some r)"
proof -
  have "disk_entry ext (new_file_idem (fi_base_path s) (fi_fs (file_complete ext io k r s))) j
      = disk_entry ext (file_complete ext io k r s) k"
    using assms(1) by (simp add: disk_entry_def new_file_idem_def entry_path_def)
  with disk_entry_complete [OF assms(2,3,5,6)] assms(4) show ?thesis
    by (simp add: file_claim_or_check_def load_entry_ok new_file_idem_def to_result_def new_completed_def)
qed

theorem file_key_collision_witness:
  "fst (file_claim_or_check (exact_file_lib\<lparr>sha256_hex_str := (\<lambda>_. ''00'')\<rparr>) good_io ''b''
      (new_file_idem ''d'' (fi_fs (file_complete (exact_file_lib\<lparr>sha256_hex_str := (\<lambda>_. ''00'')\<rparr>)
        good_io ''a'' Verified (new_file_idem ''d'' Map.empty))))) = (AlreadyClaimed, Some Verified)"
  using file_key_collision [of "exact_file_lib\<lparr>sha256_hex_str := (\<lambda>_. ''00'')\<rparr>" "''b''" "''a''"
      good_io good_io Verified "''+verified''" "new_file_idem ''d'' Map.empty"]
  by (simp add: good_io_def exact_file_lib_def demo_file_lib_def entry_name_def new_completed_def
      key_to_filename_def new_file_idem_def)

text \<open>
  The Redis store fails open. While no connection can be had, every one of
  any number of claims of any key is answered \<open>Claimed\<close>, so every caller believes it is the only
  one to run the action.
\<close>

theorem redis_fails_open:
  assumes "\<And>t. fst (pool_get lib t) = False"
  shows "wins k (fst (run_ops (redis_claim_or_check lib ttl) (redis_complete lib ttl)
      (\<lambda>_. redis_release lib) (replicate n (now, OpClaim k)) s)) = n"
proof (induction n arbitrary: s)
  case (Suc n)
  have "fst (fst (redis_claim_or_check lib ttl now k s)) = Claimed"
    using assms [of s] by (cases "pool_get lib s") (simp add: redis_claim_or_check_def)
  with Suc show ?case by (simp add: wins_claim del: run_ops.simps)
qed simp

theorem redis_fails_open_witness:
  "wins ''k'' (fst (run_ops (redis_claim_or_check down_redis 60) (redis_complete down_redis 60)
      (\<lambda>_. redis_release down_redis) (replicate 3 ([], OpClaim ''k'')) Map.empty)) = 3"
  by (rule redis_fails_open) (simp add: down_redis_def)

end
