(* ===== verification/Executor.thy ===== *)
theory Executor
  imports State_Machine Predicate_Engine Receipt_Store Idempotency
begin

text \<open>
  The verified executor (\<open>agentverify-runtime/src/executor.rs\<close>, \<open>action_executor.rs\<close>):
  configuration, backoff and retry decisions, precondition and postcondition checks, receipts,
  and the two pipelines \<open>execute\<close> and \<open>execute_with_executor\<close> with their retry loop.

  The trait objects an executor holds or is given (idempotency store, receipt store, observer,
  action executor) and the sources of time and identifiers are the fields of \<open>exec_env\<close>, over
  the states they act on: \<open>'s\<close> for the idempotency store, \<open>'r\<close> for the receipt store, \<open>'w\<close> for
  the rest of the outside world. While the executor waits for the outside (a dispatch, an
  observation, a sleep), other callers may use the same idempotency store; what they do is the
  field \<open>ee_others\<close>. Each step also records an event; the trace is not part of the program and
  nothing reads it but the statements about the order of steps.
\<close>

section \<open>Errors and outcomes\<close>

datatype executor_error =
    ContractNotFound string
  | PreconditionFailed string
  | ExecutionFailed string
  | VerificationFailed_err string
  | Timeout_err string
  | Unknown_err string
  | IdempotencyConflict
  | RetryExhausted u32
  | ActionExecutor_err string

fun show_executor_error :: "executor_error \<Rightarrow> string" where
  "show_executor_error (ContractNotFound s) = ''Contract not found for action: '' @ s"
| "show_executor_error (PreconditionFailed s) = ''Precondition failed: '' @ s"
| "show_executor_error (ExecutionFailed s) = ''Execution failed: '' @ s"
| "show_executor_error (VerificationFailed_err s) = ''Verification failed: '' @ s"
| "show_executor_error (Timeout_err s) = ''Timeout: '' @ s"
| "show_executor_error (Unknown_err s) = ''Unknown result: '' @ s"
| "show_executor_error IdempotencyConflict = ''Idempotency conflict: action already executed''"
| "show_executor_error (RetryExhausted n) = ''Retry exhausted after '' @ show_nat (unat n) @ '' attempts''"
| "show_executor_error (ActionExecutor_err s) = ''Action executor error: '' @ s"

datatype dispatch_error =
    ActionNotSupported string
  | TransportError_err string
  | TimeoutBeforeDispatch_err
  | TimeoutAfterDispatch_err
  | Rejected_err string
  | Ambiguous_err string

fun show_dispatch_error :: "dispatch_error \<Rightarrow> string" where
  "show_dispatch_error (ActionNotSupported s) = ''Action not supported: '' @ s"
| "show_dispatch_error (TransportError_err s) = ''Transport error: '' @ s"
| "show_dispatch_error TimeoutBeforeDispatch_err = ''Timeout before dispatch''"
| "show_dispatch_error TimeoutAfterDispatch_err = ''Timeout after dispatch''"
| "show_dispatch_error (Rejected_err s) = ''Action rejected: '' @ s"
| "show_dispatch_error (Ambiguous_err s) = ''Ambiguous result: '' @ s"

datatype dispatch_outcome =
    Accepted
  | Completed_out
  | TimeoutBeforeDispatch
  | TimeoutAfterDispatch
  | TransportError string
  | Ambiguous string

fun outcome_is_terminal :: "dispatch_outcome \<Rightarrow> bool" where
  "outcome_is_terminal Completed_out = True"
| "outcome_is_terminal (TransportError _) = True"
| "outcome_is_terminal (Ambiguous _) = True"
| "outcome_is_terminal _ = False"

definition outcome_is_timeout :: "dispatch_outcome \<Rightarrow> bool" where
  "outcome_is_timeout d = (d \<in> {TimeoutBeforeDispatch, TimeoutAfterDispatch})"

definition outcome_should_retry :: "dispatch_outcome \<Rightarrow> bool" where
  "outcome_should_retry d = (d \<in> {TimeoutBeforeDispatch, TimeoutAfterDispatch})"

text \<open>The simulated executor has no state.\<close>

type_synonym simulated_executor = unit

definition new_simulated_executor :: simulated_executor where
  "new_simulated_executor = ()"

definition simulated_execute :: "action \<Rightarrow> 'w \<Rightarrow> (dispatch_error + dispatch_outcome) \<times> 'w" where
  "simulated_execute a w = (Inr Completed_out, w)"

section \<open>Configuration, claims and retries\<close>

record executor_config =
  verification_timeout_ms :: u64
  max_retries :: u32
  verify_before_retry :: bool

definition default_executor_config :: executor_config where
  "default_executor_config =
     \<lparr>verification_timeout_ms = 5000, max_retries = 3, verify_before_retry = True\<rparr>"

datatype claim_policy = Release | ConsumeUnknown

fun claim_policy_for :: "dispatch_error \<Rightarrow> claim_policy" where
  "claim_policy_for (ActionNotSupported _) = Release"
| "claim_policy_for TimeoutBeforeDispatch_err = Release"
| "claim_policy_for (Rejected_err _) = Release"
| "claim_policy_for _ = ConsumeUnknown"

text \<open>
  Milliseconds of a \<open>chrono::Duration\<close> and \<open>f64::powi\<close> are arguments. Integer arithmetic wraps,
  as it does in a release build.
\<close>

record backoff_lib =
  num_milliseconds :: "duration \<Rightarrow> i64"
  f64_powi :: "f64 \<Rightarrow> i32 \<Rightarrow> f64"

definition exponential_delay :: "backoff_lib \<Rightarrow> u64 \<Rightarrow> f64 \<Rightarrow> u32 \<Rightarrow> u64" where
  "exponential_delay bl initial multiplier attempt =
     f64_as_u64 (f64_mul (f64_of_nat (unat initial)) (f64_powi bl multiplier (attempt - 1)))"

definition calculate_backoff ::
  "backoff_lib \<Rightarrow> u32 \<Rightarrow> recovery_config option \<Rightarrow> u64 \<Rightarrow> u64 \<Rightarrow> f64 \<Rightarrow> u64" where
  "calculate_backoff bl attempt rec default_initial default_max default_mult =
     (case Option.bind rec backoff of
        Some b \<Rightarrow>
          (let initial_ms = num_milliseconds bl (bc_initial b);
               max_ms = num_milliseconds bl (bc_max b);
               delay = (case backoff_type b of
                          Linear \<Rightarrow> initial_ms * ucast attempt
                        | Exponential \<Rightarrow> exponential_delay bl initial_ms (bc_multiplier b) attempt)
           in min delay max_ms)
      | None \<Rightarrow> min (exponential_delay bl default_initial default_mult attempt) default_max)"

definition should_retry :: "u32 \<Rightarrow> recovery_config option \<Rightarrow> u32 \<Rightarrow> bool" where
  "should_retry attempts rec default_max_retries =
     (case rec of
        Some config \<Rightarrow> if strategy config = NoAction then False else attempts < max_attempts config
      | None \<Rightarrow> attempts < default_max_retries)"

text \<open>The number of attempts that \<open>should_retry\<close> allows beyond the first.\<close>

definition retry_bound :: "recovery_config option \<Rightarrow> u32 \<Rightarrow> u32" where
  "retry_bound rec default_max_retries =
     (case rec of
        Some config \<Rightarrow> if strategy config = NoAction then 0 else max_attempts config
      | None \<Rightarrow> default_max_retries)"

section \<open>The environment of a run\<close>

type_synonym observe_result = "(executor_error + observation) option"

text \<open>\<open>None\<close> is an observation that the timeout cut off.\<close>

datatype event =
    EvClaim string claim_answer
  | EvPreObserve "executor_error + observation" | EvPreElapsed
  | EvCleared
  | EvDispatch "dispatch_error + dispatch_outcome"
  | EvObserve observe_result
  | EvFabricate
  | EvVerdict verification_result
  | EvSleep u64
  | EvComplete string verification_result
  | EvRelease string
  | EvPersist "receipt_store_error + unit"

record ('w, 's, 'r) exec_state =
  es_world :: 'w
  es_store :: 's
  es_receipts :: 'r
  es_trace :: "event list"

record ('re, 'w, 's, 'r) exec_env =
  ee_config :: executor_config
  ee_claim :: "string \<Rightarrow> 's \<Rightarrow> claim_answer \<times> 's"
  ee_complete :: "string \<Rightarrow> verification_result \<Rightarrow> 's \<Rightarrow> 's"
  ee_release :: "string \<Rightarrow> 's \<Rightarrow> 's"
  ee_others :: "'w \<Rightarrow> 's \<Rightarrow> 's"
  ee_receipt_store :: "(receipt \<Rightarrow> 'r \<Rightarrow> (receipt_store_error + unit) \<times> 'r) option"
  ee_observer :: "(u64 \<Rightarrow> action \<Rightarrow> contract \<Rightarrow> 'w \<Rightarrow> observe_result \<times> 'w) option"
  ee_dispatch :: "action \<Rightarrow> 'w \<Rightarrow> (dispatch_error + dispatch_outcome) \<times> 'w"
  ee_fresh :: "'w \<Rightarrow> (uuid \<times> datetime) \<times> 'w"
  ee_engine :: "'re engine_lib"
  ee_receipt_lib :: receipt_lib
  ee_backoff_lib :: backoff_lib

definition log_event :: "event \<Rightarrow> ('w, 's, 'r) exec_state \<Rightarrow> ('w, 's, 'r) exec_state" where
  "log_event e st = st\<lparr>es_trace := es_trace st @ [e]\<rparr>"

text \<open>Waiting for the outside: the world moves to \<open>w\<close> and the other callers do what they do.\<close>

definition suspend ::
  "('re, 'w, 's, 'r) exec_env \<Rightarrow> 'w \<Rightarrow> ('w, 's, 'r) exec_state \<Rightarrow> ('w, 's, 'r) exec_state" where
  "suspend env w st = st\<lparr>es_world := w, es_store := ee_others env w (es_store st)\<rparr>"

definition sleep ::
  "('re, 'w, 's, 'r) exec_env \<Rightarrow> u64 \<Rightarrow> ('w, 's, 'r) exec_state \<Rightarrow> ('w, 's, 'r) exec_state" where
  "sleep env ms st = log_event (EvSleep ms) (suspend env (es_world st) st)"

definition claim_or_check ::
  "('re, 'w, 's, 'r) exec_env \<Rightarrow> string \<Rightarrow> ('w, 's, 'r) exec_state
   \<Rightarrow> claim_answer \<times> ('w, 's, 'r) exec_state" where
  "claim_or_check env key st =
     (let (a, s) = ee_claim env key (es_store st) in (a, log_event (EvClaim key a) (st\<lparr>es_store := s\<rparr>)))"

definition complete_key ::
  "('re, 'w, 's, 'r) exec_env \<Rightarrow> string \<Rightarrow> verification_result \<Rightarrow> ('w, 's, 'r) exec_state
   \<Rightarrow> ('w, 's, 'r) exec_state" where
  "complete_key env key r st =
     log_event (EvComplete key r) (st\<lparr>es_store := ee_complete env key r (es_store st)\<rparr>)"

definition release_key ::
  "('re, 'w, 's, 'r) exec_env \<Rightarrow> string \<Rightarrow> ('w, 's, 'r) exec_state \<Rightarrow> ('w, 's, 'r) exec_state" where
  "release_key env key st = log_event (EvRelease key) (st\<lparr>es_store := ee_release env key (es_store st)\<rparr>)"

definition resolve_claim_on_error ::
  "('re, 'w, 's, 'r) exec_env \<Rightarrow> action \<Rightarrow> claim_policy \<Rightarrow> ('w, 's, 'r) exec_state
   \<Rightarrow> ('w, 's, 'r) exec_state" where
  "resolve_claim_on_error env act policy st =
     (case act_idempotency_key act of
        None \<Rightarrow> st
      | Some key \<Rightarrow>
          (case policy of
             ConsumeUnknown \<Rightarrow> complete_key env key Unknown st
           | Release \<Rightarrow> release_key env key st))"

definition store_receipt ::
  "('re, 'w, 's, 'r) exec_env \<Rightarrow> receipt \<Rightarrow> ('w, 's, 'r) exec_state \<Rightarrow> ('w, 's, 'r) exec_state" where
  "store_receipt env r st =
     (case ee_receipt_store env of
        None \<Rightarrow> st
      | Some store \<Rightarrow>
          (let (res, rs) = store r (es_receipts st)
           in log_event (EvPersist res) (st\<lparr>es_receipts := rs\<rparr>)))"

section \<open>Phases\<close>

text \<open>
  How a piece of the loop body ends: it returns from the pipeline with an error (the claim
  already resolved), it breaks out of the loop with a result, or it goes on.
\<close>

datatype 'a phase = Abort executor_error | Stop verification_result | Go 'a

definition bind_phase ::
  "('st \<Rightarrow> 'a phase \<times> 'st) \<Rightarrow> ('a \<Rightarrow> 'st \<Rightarrow> 'b phase \<times> 'st) \<Rightarrow> 'st \<Rightarrow> 'b phase \<times> 'st" where
  "bind_phase m k st =
     (case m st of
        (Abort e, st1) \<Rightarrow> (Abort e, st1)
      | (Stop r, st1) \<Rightarrow> (Stop r, st1)
      | (Go x, st1) \<Rightarrow> k x st1)"

definition abort_claimed_run ::
  "('re, 'w, 's, 'r) exec_env \<Rightarrow> action \<Rightarrow> claim_policy \<Rightarrow> executor_error \<Rightarrow> ('w, 's, 'r) exec_state
   \<Rightarrow> 'a phase \<times> ('w, 's, 'r) exec_state" where
  "abort_claimed_run env act policy e st = (Abort e, resolve_claim_on_error env act policy st)"

definition advance_or_abort ::
  "('re, 'w, 's, 'r) exec_env \<Rightarrow> action \<Rightarrow> claim_policy \<Rightarrow> (string \<Rightarrow> executor_error) \<Rightarrow> lifecycle
   \<Rightarrow> state_machine \<Rightarrow> ('w, 's, 'r) exec_state \<Rightarrow> state_machine phase \<times> ('w, 's, 'r) exec_state" where
  "advance_or_abort env act policy wrap next sm st =
     (case advance sm next of
        (Inr _, sm1) \<Rightarrow> (Go sm1, st)
      | (Inl e, sm1) \<Rightarrow> abort_claimed_run env act policy (wrap (show_state_error e)) st)"

section \<open>Checking conditions\<close>

definition missing_pre_state_message :: "receipt_lib \<Rightarrow> contract \<Rightarrow> string" where
  "missing_pre_state_message rl c =
     ''Contract '' @ CHR 0x27 # show_uuid rl (contract_id c) @ CHR 0x27 # '' declares '' @
     show_nat (length (preconditions c)) @
     '' precondition(s) but no pre-execution state was observed; '' @
     ''configure an observer so preconditions can be checked before dispatch''"

text \<open>The loop evaluates with a fresh engine for each condition, as \<open>PredicateEngine::default()\<close> does.\<close>

definition evaluate_fresh ::
  "'re engine_lib \<Rightarrow> predicate \<Rightarrow> json \<Rightarrow> json \<Rightarrow> engine_error + verification_result" where
  "evaluate_fresh eng p st args = fst (evaluate eng p st args new_engine)"

definition validate_preconditions ::
  "'re engine_lib \<Rightarrow> receipt_lib \<Rightarrow> action \<Rightarrow> contract \<Rightarrow> json option \<Rightarrow> string + unit" where
  "validate_preconditions eng rl act c pre_state =
     (if preconditions c = [] then Inr ()
      else case pre_state of
        None \<Rightarrow> Inl (missing_pre_state_message rl c)
      | Some st \<Rightarrow>
          for_each_res (\<lambda>pc.
            case evaluate_fresh eng (pre_predicate pc) st (arguments act) of
              Inl e \<Rightarrow> Inl (show_engine_error e)
            | Inr r \<Rightarrow> if r \<noteq> Verified then Inl (''Precondition failed: '' @ pre_description pc)
                      else Inr ()) (preconditions c))"

record postcondition_evaluation =
  pv_result :: verification_result
  pv_details :: "postcondition_result list"

definition postcondition_detail :: "postcondition \<Rightarrow> bool \<Rightarrow> string option \<Rightarrow> postcondition_result" where
  "postcondition_detail pc passed err =
     \<lparr>pcr_predicate = post_predicate pc, pcr_description = post_description pc,
      pcr_passed = passed, pcr_error = err\<rparr>"

fun verify_loop ::
  "'re engine_lib \<Rightarrow> action \<Rightarrow> observation \<Rightarrow> bool \<Rightarrow> bool \<Rightarrow> postcondition_result list
   \<Rightarrow> postcondition list \<Rightarrow> executor_error + postcondition_evaluation" where
  "verify_loop eng act obs all_passed mandatory_failed details [] =
     Inr \<lparr>pv_result = (if all_passed then Verified else if mandatory_failed then Failed else Partial),
          pv_details = details\<rparr>"
| "verify_loop eng act obs all_passed mandatory_failed details (pc # pcs) =
     (case evaluate_fresh eng (post_predicate pc) (obs_state obs) (arguments act) of
        Inl e \<Rightarrow> Inl (VerificationFailed_err (show_engine_error e))
      | Inr Verified \<Rightarrow>
          verify_loop eng act obs all_passed mandatory_failed
            (details @ [postcondition_detail pc True None]) pcs
      | Inr Failed \<Rightarrow>
          verify_loop eng act obs False (mandatory_failed \<or> mandatory pc)
            (details @ [postcondition_detail pc False None]) pcs
      | Inr other \<Rightarrow>
          Inr \<lparr>pv_result = other,
               pv_details = details @ [postcondition_detail pc False
                 (Some (''evaluation returned '' @ show_result other))]\<rparr>)"

definition verify_postconditions ::
  "'re engine_lib \<Rightarrow> action \<Rightarrow> contract \<Rightarrow> observation \<Rightarrow> executor_error + postcondition_evaluation" where
  "verify_postconditions eng act c obs = verify_loop eng act obs True False [] (postconditions c)"

text \<open>An observation under the verification timeout.\<close>

definition run_observer ::
  "('re, 'w, 's, 'r) exec_env \<Rightarrow> (u64 \<Rightarrow> action \<Rightarrow> contract \<Rightarrow> 'w \<Rightarrow> observe_result \<times> 'w)
   \<Rightarrow> action \<Rightarrow> contract \<Rightarrow> ('w, 's, 'r) exec_state \<Rightarrow> observe_result \<times> ('w, 's, 'r) exec_state" where
  "run_observer env obs act c st =
     (let (r, w) = obs (verification_timeout_ms (ee_config env)) act c (es_world st)
      in (r, suspend env w st))"

definition timeout_text :: "('re, 'w, 's, 'r) exec_env \<Rightarrow> string" where
  "timeout_text env = show_nat (unat (verification_timeout_ms (ee_config env))) @ ''ms''"

definition pre_error_text :: "executor_error \<Rightarrow> string" where
  "pre_error_text e =
     ''Precondition check failed: pre-execution observation error: '' @ show_executor_error e"

definition pre_timeout_text :: "('re, 'w, 's, 'r) exec_env \<Rightarrow> string" where
  "pre_timeout_text env =
     ''Precondition check failed: pre-execution observation timed out after '' @ timeout_text env"

definition observation_timeout_text :: "('re, 'w, 's, 'r) exec_env \<Rightarrow> string" where
  "observation_timeout_text env = ''Observation timed out after '' @ timeout_text env"

definition observe_pre_state ::
  "('re, 'w, 's, 'r) exec_env \<Rightarrow> action \<Rightarrow> contract \<Rightarrow> ('w, 's, 'r) exec_state
   \<Rightarrow> (string + observation) \<times> ('w, 's, 'r) exec_state" where
  "observe_pre_state env act c st =
     (case ee_observer env of
        None \<Rightarrow> (Inl (missing_pre_state_message (ee_receipt_lib env) c), st)
      | Some obs \<Rightarrow>
          (case run_observer env obs act c st of
             (Some (Inr o1), st1) \<Rightarrow> (Inr o1, log_event (EvPreObserve (Inr o1)) st1)
           | (Some (Inl e), st1) \<Rightarrow>
               (Inl (pre_error_text e), log_event (EvPreObserve (Inl e)) st1)
           | (None, st1) \<Rightarrow> (Inl (pre_timeout_text env), log_event EvPreElapsed st1)))"

section \<open>One attempt\<close>

text \<open>
  From the start of the loop body to \<open>State::Executing\<close>; the two pipelines share this text, and
  release the claim on every unexpected transition error in it. A rejection breaks with \<open>Failed\<close>.
\<close>

definition reject ::
  "('re, 'w, 's, 'r) exec_env \<Rightarrow> action \<Rightarrow> string \<Rightarrow> state_machine \<Rightarrow> ('w, 's, 'r) exec_state
   \<Rightarrow> 'a phase \<times> ('w, 's, 'r) exec_state" where
  "reject env act message sm =
     bind_phase (advance_or_abort env act Release (\<lambda>_. PreconditionFailed message) Rejected sm)
       (\<lambda>_ st. (Stop Failed, st))"

definition pre_state_phase ::
  "('re, 'w, 's, 'r) exec_env \<Rightarrow> action \<Rightarrow> contract \<Rightarrow> state_machine \<Rightarrow> ('w, 's, 'r) exec_state
   \<Rightarrow> json option phase \<times> ('w, 's, 'r) exec_state" where
  "pre_state_phase env act c sm st =
     (if preconditions c = [] then (Go None, st)
      else case observe_pre_state env act c st of
        (Inr o1, st1) \<Rightarrow> (Go (Some (obs_state o1)), st1)
      | (Inl message, st1) \<Rightarrow> reject env act message sm st1)"

definition precondition_phase ::
  "('re, 'w, 's, 'r) exec_env \<Rightarrow> action \<Rightarrow> contract \<Rightarrow> json option \<Rightarrow> state_machine
   \<Rightarrow> ('w, 's, 'r) exec_state \<Rightarrow> state_machine phase \<times> ('w, 's, 'r) exec_state" where
  "precondition_phase env act c pre_state sm st =
     (case validate_preconditions (ee_engine env) (ee_receipt_lib env) act c pre_state of
        Inl e \<Rightarrow> reject env act e sm st
      | Inr _ \<Rightarrow> (Go sm, log_event EvCleared st))"

definition prepare ::
  "('re, 'w, 's, 'r) exec_env \<Rightarrow> action \<Rightarrow> contract \<Rightarrow> ('w, 's, 'r) exec_state
   \<Rightarrow> state_machine phase \<times> ('w, 's, 'r) exec_state" where
  "prepare env act c =
     bind_phase (advance_or_abort env act Release PreconditionFailed Validating new_machine) (\<lambda>sm1.
     bind_phase (pre_state_phase env act c sm1) (\<lambda>pre_state.
     bind_phase (precondition_phase env act c pre_state sm1) (\<lambda>sm2.
     bind_phase (advance_or_abort env act Release ExecutionFailed Authorized sm2)
       (advance_or_abort env act Release ExecutionFailed Executing))))"

definition dispatch_phase ::
  "('re, 'w, 's, 'r) exec_env \<Rightarrow> action \<Rightarrow> state_machine \<Rightarrow> ('w, 's, 'r) exec_state
   \<Rightarrow> state_machine phase \<times> ('w, 's, 'r) exec_state" where
  "dispatch_phase env act sm st =
     (let (r, w) = ee_dispatch env act (es_world st);
          st1 = log_event (EvDispatch r) (suspend env w st)
      in case r of
           Inl e \<Rightarrow>
             abort_claimed_run env act (claim_policy_for e) (ActionExecutor_err (show_dispatch_error e)) st1
         | Inr Completed_out \<Rightarrow> advance_or_abort env act ConsumeUnknown ExecutionFailed Executed sm st1
         | Inr Accepted \<Rightarrow> advance_or_abort env act ConsumeUnknown ExecutionFailed Executed sm st1
         | Inr TimeoutBeforeDispatch \<Rightarrow>
             advance_or_abort env act ConsumeUnknown Timeout_err Unknown_st sm st1
         | Inr TimeoutAfterDispatch \<Rightarrow>
             advance_or_abort env act ConsumeUnknown Timeout_err Unknown_st sm st1
         | Inr (TransportError _) \<Rightarrow> (Stop Unknown, st1)
         | Inr (Ambiguous _) \<Rightarrow> (Stop Unknown, st1))"

definition fabricate_observation ::
  "('re, 'w, 's, 'r) exec_env \<Rightarrow> ('w, 's, 'r) exec_state \<Rightarrow> observation \<times> ('w, 's, 'r) exec_state" where
  "fabricate_observation env st =
     (let ((uid, now), w) = ee_fresh env (es_world st)
      in (new_observation now ''none'' (JObject []), log_event EvFabricate (st\<lparr>es_world := w\<rparr>)))"

text \<open>The observation after dispatch, in \<open>execute_with_executor\<close>.\<close>

definition observe_dispatched ::
  "('re, 'w, 's, 'r) exec_env \<Rightarrow> action \<Rightarrow> contract \<Rightarrow> ('w, 's, 'r) exec_state
   \<Rightarrow> observation phase \<times> ('w, 's, 'r) exec_state" where
  "observe_dispatched env act c st =
     (case ee_observer env of
        None \<Rightarrow> (let (o1, st1) = fabricate_observation env st in (Go o1, st1))
      | Some obs \<Rightarrow>
          (let (r, st0) = run_observer env obs act c st; st1 = log_event (EvObserve r) st0
           in case r of
                Some (Inr o1) \<Rightarrow> (Go o1, st1)
              | Some (Inl (Unknown_err _)) \<Rightarrow> (Stop Unknown, st1)
              | Some (Inl e) \<Rightarrow> abort_claimed_run env act ConsumeUnknown e st1
              | None \<Rightarrow> abort_claimed_run env act ConsumeUnknown
                  (Timeout_err (observation_timeout_text env)) st1))"

text \<open>The observation in \<open>execute\<close>, where nothing was dispatched.\<close>

definition observe_simulated ::
  "('re, 'w, 's, 'r) exec_env \<Rightarrow> action \<Rightarrow> contract \<Rightarrow> ('w, 's, 'r) exec_state
   \<Rightarrow> observation phase \<times> ('w, 's, 'r) exec_state" where
  "observe_simulated env act c st =
     (case ee_observer env of
        None \<Rightarrow> (let (o1, st1) = fabricate_observation env st in (Go o1, st1))
      | Some obs \<Rightarrow>
          (let (r, st0) = run_observer env obs act c st; st1 = log_event (EvObserve r) st0
           in case r of
                Some (Inr o1) \<Rightarrow> (Go o1, st1)
              | Some (Inl e) \<Rightarrow> abort_claimed_run env act Release e st1
              | None \<Rightarrow> abort_claimed_run env act Release
                  (Timeout_err (observation_timeout_text env)) st1))"

text \<open>What the end of the loop body decides: another attempt after a delay, or a final result
  with the observation that the receipt will carry.\<close>

datatype decision = Again u64 | Final verification_result "observation option"

definition decide ::
  "('re, 'w, 's, 'r) exec_env \<Rightarrow> action \<Rightarrow> contract \<Rightarrow> claim_policy \<Rightarrow> u32 \<Rightarrow> observation
   \<Rightarrow> verification_result \<Rightarrow> state_machine \<Rightarrow> ('w, 's, 'r) exec_state
   \<Rightarrow> decision phase \<times> ('w, 's, 'r) exec_state" where
  "decide env act c policy attempts obs result sm =
     (let cfg = ee_config env;
          backoff_ms = calculate_backoff (ee_backoff_lib env) attempts (recovery c) 100 5000
            default_multiplier;
          again = should_retry attempts (recovery c) (max_retries cfg)
      in case result of
           Verified \<Rightarrow>
             bind_phase (advance_or_abort env act policy VerificationFailed_err Verified_st sm) (\<lambda>sm1.
             bind_phase (advance_or_abort env act policy VerificationFailed_err Committed sm1) (\<lambda>_ st.
               (Go (Final Verified (Some obs)), st)))
         | Failed \<Rightarrow>
             if verify_before_retry cfg \<and> again then (\<lambda>st. (Go (Again backoff_ms), st))
             else bind_phase (advance_or_abort env act policy VerificationFailed_err VerificationFailed sm)
               (\<lambda>_ st. (Go (Final Failed None), st))
         | Unknown \<Rightarrow>
             if again then (\<lambda>st. (Go (Again backoff_ms), st)) else (\<lambda>st. (Go (Final Unknown None), st))
         | other \<Rightarrow> (\<lambda>st. (Go (Final other None), st)))"

definition verify_phase ::
  "('re, 'w, 's, 'r) exec_env \<Rightarrow> action \<Rightarrow> contract \<Rightarrow> claim_policy \<Rightarrow> u32 \<Rightarrow> observation
   \<Rightarrow> state_machine \<Rightarrow> ('w, 's, 'r) exec_state
   \<Rightarrow> (postcondition_result list \<times> decision) phase \<times> ('w, 's, 'r) exec_state" where
  "verify_phase env act c policy attempts obs sm =
     bind_phase (advance_or_abort env act policy VerificationFailed_err Verifying sm) (\<lambda>sm1 st.
       case verify_postconditions (ee_engine env) act c obs of
         Inl e \<Rightarrow> abort_claimed_run env act policy e st
       | Inr ev \<Rightarrow>
           bind_phase (decide env act c policy attempts obs (pv_result ev) sm1)
             (\<lambda>d st1. (Go (pv_details ev, d), st1)) (log_event (EvVerdict (pv_result ev)) st))"

text \<open>One pass through the loop body of each pipeline.\<close>

definition attempt_dispatched ::
  "('re, 'w, 's, 'r) exec_env \<Rightarrow> action \<Rightarrow> contract \<Rightarrow> u32 \<Rightarrow> ('w, 's, 'r) exec_state
   \<Rightarrow> (postcondition_result list \<times> decision) phase \<times> ('w, 's, 'r) exec_state" where
  "attempt_dispatched env act c attempts =
     bind_phase (prepare env act c) (\<lambda>sm1.
     bind_phase (dispatch_phase env act sm1) (\<lambda>sm2.
     bind_phase (advance_or_abort env act ConsumeUnknown Unknown_err Observing sm2) (\<lambda>sm3.
     bind_phase (observe_dispatched env act c) (\<lambda>obs.
       verify_phase env act c ConsumeUnknown attempts obs sm3))))"

text \<open>The verification of a simulated run: an error gives the key back.\<close>

definition verify_simulated ::
  "('re, 'w, 's, 'r) exec_env \<Rightarrow> action \<Rightarrow> contract \<Rightarrow> u32 \<Rightarrow> observation \<Rightarrow> state_machine
   \<Rightarrow> ('w, 's, 'r) exec_state \<Rightarrow> (postcondition_result list \<times> decision) phase \<times> ('w, 's, 'r) exec_state" where
  "verify_simulated env act c attempts obs sm = verify_phase env act c Release attempts obs sm"

declare verify_simulated_def [simp]

definition attempt_simulated ::
  "('re, 'w, 's, 'r) exec_env \<Rightarrow> action \<Rightarrow> contract \<Rightarrow> u32 \<Rightarrow> ('w, 's, 'r) exec_state
   \<Rightarrow> (postcondition_result list \<times> decision) phase \<times> ('w, 's, 'r) exec_state" where
  "attempt_simulated env act c attempts =
     bind_phase (prepare env act c) (\<lambda>sm1.
     bind_phase (advance_or_abort env act Release Unknown_err Unknown_st sm1) (\<lambda>sm2.
     bind_phase (advance_or_abort env act Release Unknown_err Observing sm2) (\<lambda>sm3.
     bind_phase (observe_simulated env act c) (\<lambda>obs.
       verify_simulated env act c attempts obs sm3))))"

section \<open>The pipelines\<close>

datatype mode = Simulated | Dispatching

definition attempt ::
  "('re, 'w, 's, 'r) exec_env \<Rightarrow> mode \<Rightarrow> action \<Rightarrow> contract \<Rightarrow> u32 \<Rightarrow> ('w, 's, 'r) exec_state
   \<Rightarrow> (postcondition_result list \<times> decision) phase \<times> ('w, 's, 'r) exec_state" where
  "attempt env m =
     (case m of Simulated \<Rightarrow> attempt_simulated env | Dispatching \<Rightarrow> attempt_dispatched env)"

lemma bind_phase_Go:
  "bind_phase m k st = (Go y, st2) \<longleftrightarrow> (\<exists>x st1. m st = (Go x, st1) \<and> k x st1 = (Go y, st2))"
  by (auto simp: bind_phase_def split: prod.splits phase.splits)

lemma decide_again:
  "decide env act c policy attempts obs r sm st = (Go (Again ms), st1) \<Longrightarrow>
   should_retry attempts (recovery c) (max_retries (ee_config env))"
  by (cases r) (auto simp: decide_def Let_def bind_phase_Go split: if_splits)

lemma verify_phase_again:
  "verify_phase env act c policy attempts obs sm st = (Go (details, Again ms), st1) \<Longrightarrow>
   should_retry attempts (recovery c) (max_retries (ee_config env))"
  by (cases "verify_postconditions (ee_engine env) act c obs")
    (auto simp: verify_phase_def bind_phase_Go abort_claimed_run_def dest: decide_again)

lemma attempt_again:
  "attempt env m act c attempts st = (Go (details, Again ms), st1) \<Longrightarrow>
   should_retry attempts (recovery c) (max_retries (ee_config env))"
  by (cases m) (auto simp: attempt_def attempt_dispatched_def attempt_simulated_def bind_phase_Go
      dest: verify_phase_again)

lemma should_retry_bound: "should_retry k rec n \<longleftrightarrow> k < retry_bound rec n"
  by (auto simp: should_retry_def retry_bound_def split: option.split)

text \<open>
  The retry loop: the number of attempts so far, the postcondition details of the last
  evaluation, and the state. It ends with an error, or with a result, the observation for the
  receipt, the number of attempts and the details. A retry needs \<open>attempts\<close> to be below a bound
  that does not change, so the counter cannot wrap and the loop ends.
\<close>

definition attempts_left :: "u32 \<Rightarrow> u32 \<Rightarrow> nat" where
  "attempts_left bound a = (if a + 1 < bound then unat bound - unat (a + 1) else 0)"

lemma attempts_left_decreases:
  assumes "a + 1 < bound"
  shows "attempts_left bound (a + 1) < attempts_left bound a"
proof -
  have less: "unat (a + 1) < unat bound" using assms by (simp add: word_less_nat_alt)
  then have "unat (a + 1) + 1 < 2 ^ 32"
    using unsigned_less [where ?'a = nat, of bound] by simp
  then have "unat (a + 1 + 1) = Suc (unat (a + 1))"
    using unat_add_lem [of "a + 1" 1] by simp
  moreover note less
  ultimately show ?thesis using assms
    by (simp add: attempts_left_def word_less_nat_alt) linarith
qed

function run_loop ::
  "('re, 'w, 's, 'r) exec_env \<Rightarrow> mode \<Rightarrow> action \<Rightarrow> contract \<Rightarrow> u32 \<Rightarrow> postcondition_result list
   \<Rightarrow> ('w, 's, 'r) exec_state
   \<Rightarrow> (executor_error + verification_result \<times> observation option \<times> u32 \<times> postcondition_result list)
      \<times> ('w, 's, 'r) exec_state" where
  "run_loop env m act c a details st =
     (case attempt env m act c (a + 1) st of
        (Abort e, st1) \<Rightarrow> (Inl e, st1)
      | (Stop r, st1) \<Rightarrow> (Inr (r, None, a + 1, details), st1)
      | (Go (details1, Final r obs), st1) \<Rightarrow> (Inr (r, obs, a + 1, details1), st1)
      | (Go (details1, Again ms), st1) \<Rightarrow> run_loop env m act c (a + 1) details1 (sleep env ms st1))"
  by pat_completeness auto
termination
proof (relation "measure (\<lambda>(env, m, act, c, a, details, st).
    attempts_left (retry_bound (recovery c) (max_retries (ee_config env))) a)", goal_cases)
  case (2 env m act c a details st x st1 p details1 d ms)
  then have "should_retry (a + 1) (recovery c) (max_retries (ee_config env))"
    by (metis attempt_again prod.collapse)
  then show ?case by (simp add: should_retry_bound attempts_left_decreases)
qed simp

declare run_loop.simps [simp del]

definition create_receipt ::
  "('re, 'w, 's, 'r) exec_env \<Rightarrow> action \<Rightarrow> contract \<Rightarrow> verification_result \<Rightarrow> u32
   \<Rightarrow> postcondition_result list \<Rightarrow> ('w, 's, 'r) exec_state \<Rightarrow> receipt \<times> ('w, 's, 'r) exec_state" where
  "create_receipt env act c result attempts details st =
     (let ((uid, now), w) = ee_fresh env (es_world st);
          r = with_contract_version_and_key (ee_receipt_lib env) uid now (act_id act) (contract_id c)
                (schema_version c) result attempts (act_idempotency_key act)
      in (fold (with_postcondition_result (ee_receipt_lib env)) details r, st\<lparr>es_world := w\<rparr>))"

definition create_receipt_with_observation ::
  "('re, 'w, 's, 'r) exec_env \<Rightarrow> action \<Rightarrow> contract \<Rightarrow> verification_result \<Rightarrow> u32 \<Rightarrow> observation
   \<Rightarrow> postcondition_result list \<Rightarrow> ('w, 's, 'r) exec_state \<Rightarrow> receipt \<times> ('w, 's, 'r) exec_state" where
  "create_receipt_with_observation env act c result attempts obs details st =
     (let ((uid, now), w) = ee_fresh env (es_world st);
          r = with_observation (ee_receipt_lib env) obs
                (with_contract_version_and_key (ee_receipt_lib env) uid now (act_id act)
                  (contract_id c) (schema_version c) result attempts (act_idempotency_key act))
      in (fold (with_postcondition_result (ee_receipt_lib env)) details r, st\<lparr>es_world := w\<rparr>))"

text \<open>After the loop: complete the key, make the receipt, persist it.\<close>

definition finish ::
  "('re, 'w, 's, 'r) exec_env \<Rightarrow> action \<Rightarrow> contract \<Rightarrow> verification_result \<Rightarrow> observation option \<Rightarrow> u32
   \<Rightarrow> postcondition_result list \<Rightarrow> ('w, 's, 'r) exec_state
   \<Rightarrow> (executor_error + verification_result \<times> receipt) \<times> ('w, 's, 'r) exec_state" where
  "finish env act c result final_obs attempts details st =
     (let st1 = (case act_idempotency_key act of
                   None \<Rightarrow> st | Some key \<Rightarrow> complete_key env key result st);
          (r, st2) = (case final_obs of
                        Some obs \<Rightarrow>
                          create_receipt_with_observation env act c result attempts obs details st1
                      | None \<Rightarrow> create_receipt env act c result attempts details st1)
      in (Inr (result, r), store_receipt env r st2))"

definition run_claimed ::
  "('re, 'w, 's, 'r) exec_env \<Rightarrow> mode \<Rightarrow> action \<Rightarrow> contract \<Rightarrow> ('w, 's, 'r) exec_state
   \<Rightarrow> (executor_error + verification_result \<times> receipt) \<times> ('w, 's, 'r) exec_state" where
  "run_claimed env m act c st =
     (case run_loop env m act c 0 [] st of
        (Inl e, st1) \<Rightarrow> (Inl e, st1)
      | (Inr (result, obs, attempts, details), st1) \<Rightarrow> finish env act c result obs attempts details st1)"

text \<open>The answer to a caller that did not win the key.\<close>

definition answer_without_run ::
  "('re, 'w, 's, 'r) exec_env \<Rightarrow> action \<Rightarrow> contract \<Rightarrow> verification_result \<Rightarrow> ('w, 's, 'r) exec_state
   \<Rightarrow> (executor_error + verification_result \<times> receipt) \<times> ('w, 's, 'r) exec_state" where
  "answer_without_run env act c result st =
     (let (r, st1) = create_receipt env act c result 0 [] st in (Inr (result, r), st1))"

definition execute ::
  "('re, 'w, 's, 'r) exec_env \<Rightarrow> action \<Rightarrow> contract \<Rightarrow> ('w, 's, 'r) exec_state
   \<Rightarrow> (executor_error + verification_result \<times> receipt) \<times> ('w, 's, 'r) exec_state" where
  "execute env act c st =
     (case act_idempotency_key act of
        None \<Rightarrow> run_claimed env Simulated act c st
      | Some key \<Rightarrow>
          (case claim_or_check env key st of
             ((Claimed, _), st1) \<Rightarrow> run_claimed env Simulated act c st1
           | ((AlreadyClaimed, Some cached), st1) \<Rightarrow> answer_without_run env act c cached st1
           | ((AlreadyClaimed, None), st1) \<Rightarrow> answer_without_run env act c Duplicate st1))"

definition execute_with_executor ::
  "('re, 'w, 's, 'r) exec_env \<Rightarrow> action \<Rightarrow> contract \<Rightarrow> ('w, 's, 'r) exec_state
   \<Rightarrow> (executor_error + verification_result \<times> receipt) \<times> ('w, 's, 'r) exec_state" where
  "execute_with_executor env act c st =
     (case act_idempotency_key act of
        None \<Rightarrow> run_claimed env Dispatching act c st
      | Some key \<Rightarrow>
          (case claim_or_check env key st of
             ((Claimed, _), st1) \<Rightarrow> run_claimed env Dispatching act c st1
           | ((AlreadyClaimed, Some cached), st1) \<Rightarrow> answer_without_run env act c cached st1
           | ((AlreadyClaimed, None), st1) \<Rightarrow>
               (case claim_or_check env key (sleep env 50 st1) of
                  ((_, Some cached), st2) \<Rightarrow> answer_without_run env act c cached st2
                | ((_, None), st2) \<Rightarrow> answer_without_run env act c Duplicate st2)))"

end
