(* ===== verification/Executor_Correct.thy ===== *)
theory Executor_Correct
  imports Executor
begin

text \<open>
  Correctness of the executor's pipelines: the phases with their dead branches gone, the events a
  run can produce as inductive predicates, the verify-before-retry discipline as an automaton
  over them, what a run leaves in the idempotency store (in the locale \<open>executor_on_store\<close>, for
  any store that keeps the contract of \<open>idempotency_store\<close>), its receipts, and the properties.
\<close>

section \<open>The pipelines without dead branches\<close>

text \<open>
  Every transition that the pipelines ask of their state machine is one the machine accepts, so
  \<open>advance_or_abort\<close> never aborts; these are the phases with those branches gone.
\<close>

lemma advance_or_abort_go [simp]:
  "\<not> is_terminal s \<Longrightarrow> next \<in> set (valid_transitions s) \<Longrightarrow>
   advance_or_abort env act policy wrap next \<lparr>sm_state = s\<rparr> st = (Go \<lparr>sm_state = next\<rparr>, st)"
  by (simp add: advance_or_abort_def advance_def)

lemma is_terminal_simps [simp]:
  "\<not> is_terminal Proposed" "\<not> is_terminal Validating" "\<not> is_terminal Authorized"
  "\<not> is_terminal Executing" "\<not> is_terminal Executed" "\<not> is_terminal Unknown_st"
  "\<not> is_terminal Observing" "\<not> is_terminal Verifying" "\<not> is_terminal Verified_st"
  by (simp_all add: is_terminal_def)

lemma bind_phase_simps [simp]:
  "m st = (Go x, st1) \<Longrightarrow> bind_phase m k st = k x st1"
  "m st = (Stop r, st1) \<Longrightarrow> bind_phase m k st = (Stop r, st1)"
  "m st = (Abort e, st1) \<Longrightarrow> bind_phase m k st = (Abort e, st1)"
  by (simp_all add: bind_phase_def)

lemma reject_eq [simp]: "reject env act message \<lparr>sm_state = Validating\<rparr> st = (Stop Failed, st)"
  by (simp add: reject_def)

text \<open>The pre-dispatch observation, when the contract has preconditions.\<close>

definition pre_observation ::
  "('re, 'w, 's, 'r) exec_env \<Rightarrow> action \<Rightarrow> contract \<Rightarrow> ('w, 's, 'r) exec_state
   \<Rightarrow> (string + json option) \<times> ('w, 's, 'r) exec_state" where
  "pre_observation env act c st =
     (if preconditions c = [] then (Inr None, st)
      else case observe_pre_state env act c st of
        (Inr o1, st1) \<Rightarrow> (Inr (Some (obs_state o1)), st1) | (Inl m, st1) \<Rightarrow> (Inl m, st1))"

lemma prepare_eq:
  "prepare env act c st =
     (case pre_observation env act c st of
        (Inl m, st1) \<Rightarrow> (Stop Failed, st1)
      | (Inr pre, st1) \<Rightarrow>
          (case validate_preconditions (ee_engine env) (ee_receipt_lib env) act c pre of
             Inl e \<Rightarrow> (Stop Failed, st1)
           | Inr _ \<Rightarrow> (Go \<lparr>sm_state = Executing\<rparr>, log_event EvCleared st1)))"
  by (simp add: prepare_def new_machine_def pre_observation_def pre_state_phase_def
      precondition_phase_def bind_phase_def split: prod.split sum.split)

text \<open>The decision at the end of an attempt, as a function of its verdict.\<close>

definition decision_of ::
  "('re, 'w, 's, 'r) exec_env \<Rightarrow> contract \<Rightarrow> u32 \<Rightarrow> observation \<Rightarrow> verification_result \<Rightarrow> decision" where
  "decision_of env c k obs r =
     (let ms = calculate_backoff (ee_backoff_lib env) k (recovery c) 100 5000 default_multiplier;
          again = should_retry k (recovery c) (max_retries (ee_config env))
      in case r of
           Verified \<Rightarrow> Final Verified (Some obs)
         | Failed \<Rightarrow> if verify_before_retry (ee_config env) \<and> again then Again ms else Final Failed None
         | Unknown \<Rightarrow> if again then Again ms else Final Unknown None
         | other \<Rightarrow> Final other None)"

lemma decide_eq [simp]:
  "decide env act c policy k obs r \<lparr>sm_state = Verifying\<rparr> st = (Go (decision_of env c k obs r), st)"
  by (cases r) (simp_all add: decide_def decision_of_def Let_def)

lemma verify_phase_eq:
  "verify_phase env act c policy k obs \<lparr>sm_state = Observing\<rparr> st =
     (case verify_postconditions (ee_engine env) act c obs of
        Inl e \<Rightarrow> (Abort e, resolve_claim_on_error env act policy st)
      | Inr ev \<Rightarrow> (Go (pv_details ev, decision_of env c k obs (pv_result ev)),
                   log_event (EvVerdict (pv_result ev)) st))"
  by (simp add: verify_phase_def abort_claimed_run_def split: sum.split)

lemma dispatch_phase_go:
  "dispatch_phase env act \<lparr>sm_state = Executing\<rparr> st = (Go sm, st1) \<Longrightarrow>
   sm = \<lparr>sm_state = Executed\<rparr> \<or> sm = \<lparr>sm_state = Unknown_st\<rparr>"
  by (auto simp: dispatch_phase_def abort_claimed_run_def Let_def
      split: prod.splits sum.splits dispatch_outcome.splits)

lemma observing_go:
  "dispatch_phase env act \<lparr>sm_state = Executing\<rparr> st = (Go sm, st1) \<Longrightarrow>
   advance_or_abort env act p w Observing sm st1 = (Go \<lparr>sm_state = Observing\<rparr>, st1)"
  by (auto dest: dispatch_phase_go)

lemma attempt_dispatched_eq:
  "attempt_dispatched env act c k =
     bind_phase (prepare env act c) (\<lambda>sm1.
     bind_phase (dispatch_phase env act sm1) (\<lambda>_.
     bind_phase (observe_dispatched env act c) (\<lambda>obs.
       verify_phase env act c ConsumeUnknown k obs \<lparr>sm_state = Observing\<rparr>)))"
  by (rule ext) (auto simp: attempt_dispatched_def bind_phase_def prepare_eq observing_go
        split: prod.split sum.split phase.split)

lemma attempt_simulated_eq:
  "attempt_simulated env act c k =
     bind_phase (prepare env act c) (\<lambda>_.
     bind_phase (observe_simulated env act c) (\<lambda>obs.
       verify_phase env act c Release k obs \<lparr>sm_state = Observing\<rparr>))"
  by (rule ext) (auto simp: attempt_simulated_def bind_phase_def prepare_eq
        split: prod.split sum.split phase.split)

section \<open>The events of a run\<close>

lemma log_event_sel [simp]:
  "es_trace (log_event e st) = es_trace st @ [e]" "es_store (log_event e st) = es_store st"
  "es_world (log_event e st) = es_world st" "es_receipts (log_event e st) = es_receipts st"
  by (simp_all add: log_event_def)

lemma suspend_sel [simp]:
  "es_trace (suspend env w st) = es_trace st" "es_receipts (suspend env w st) = es_receipts st"
  "es_store (suspend env w st) = ee_others env w (es_store st)" "es_world (suspend env w st) = w"
  by (simp_all add: suspend_def)

lemma run_observer_trace:
  "run_observer env obs act c st = (r, st1) \<Longrightarrow> es_trace st1 = es_trace st"
  by (auto simp: run_observer_def split: prod.splits)

text \<open>The events that resolve a claim, and those of an observation before the dispatch.\<close>

definition resolution :: "action \<Rightarrow> claim_policy \<Rightarrow> event list" where
  "resolution act policy =
     (case act_idempotency_key act of
        None \<Rightarrow> []
      | Some k \<Rightarrow> (case policy of ConsumeUnknown \<Rightarrow> [EvComplete k Unknown] | Release \<Rightarrow> [EvRelease k]))"

definition pre_events :: "event list \<Rightarrow> bool" where
  "pre_events evs \<longleftrightarrow> evs = [] \<or> evs = [EvPreElapsed] \<or> (\<exists>x. evs = [EvPreObserve x])"

text \<open>The state that is verified was observed, or made up when there is no observer.\<close>

definition sighting :: "('re, 'w, 's, 'r) exec_env \<Rightarrow> event \<Rightarrow> bool" where
  "sighting env e \<longleftrightarrow>
     (case ee_observer env of None \<Rightarrow> e = EvFabricate | Some _ \<Rightarrow> \<exists>o1. e = EvObserve (Some (Inr o1)))"

lemma resolve_trace:
  "es_trace (resolve_claim_on_error env act policy st) = es_trace st @ resolution act policy"
  by (simp add: resolve_claim_on_error_def resolution_def complete_key_def release_key_def
      split: option.split claim_policy.split)

text \<open>The ways in which one attempt of \<open>execute_with_executor\<close> can go.\<close>

inductive dispatched_events ::
  "('re, 'w, 's, 'r) exec_env \<Rightarrow> action \<Rightarrow> event list
   \<Rightarrow> (postcondition_result list \<times> decision) phase \<Rightarrow> bool" for env act where
  rejected: "pre_events pre \<Longrightarrow> dispatched_events env act pre (Stop Failed)"
| adapter_error: "pre_events pre \<Longrightarrow>
    dispatched_events env act
      (pre @ [EvCleared, EvDispatch (Inl e)] @ resolution act (claim_policy_for e))
      (Abort (ActionExecutor_err (show_dispatch_error e)))"
| ambiguous: "pre_events pre \<Longrightarrow>
    dispatched_events env act (pre @ [EvCleared, EvDispatch (Inr d)]) (Stop Unknown)"
| unknown: "pre_events pre \<Longrightarrow>
    dispatched_events env act
      (pre @ [EvCleared, EvDispatch (Inr d), EvObserve (Some (Inl x))]) (Stop Unknown)"
| unobserved: "pre_events pre \<Longrightarrow>
    dispatched_events env act
      (pre @ [EvCleared, EvDispatch (Inr d), EvObserve x] @ resolution act ConsumeUnknown) (Abort e)"
| unverifiable: "pre_events pre \<Longrightarrow> sighting env ev \<Longrightarrow>
    dispatched_events env act
      (pre @ [EvCleared, EvDispatch (Inr d), ev] @ resolution act ConsumeUnknown) (Abort e)"
| judged: "pre_events pre \<Longrightarrow> sighting env ev \<Longrightarrow> (\<exists>ms. a = Again ms) \<longrightarrow> r = Failed \<Longrightarrow>
    dispatched_events env act (pre @ [EvCleared, EvDispatch (Inr d), ev, EvVerdict r]) (Go (ds, a))"

lemma observe_pre_state_trace:
  assumes "observe_pre_state env act c st = (r, st1)"
  shows "\<exists>pre. pre_events pre \<and> es_trace st1 = es_trace st @ pre"
proof (cases "ee_observer env")
  case None
  with assms show ?thesis by (simp add: observe_pre_state_def pre_events_def)
next
  case (Some obs)
  obtain x s1 where x: "run_observer env obs act c st = (x, s1)" by (cases "run_observer env obs act c st")
  note trace = run_observer_trace [OF x]
  from assms Some x have st1: "es_trace st1 = es_trace s1 @ [case x of None \<Rightarrow> EvPreElapsed | Some y \<Rightarrow> EvPreObserve y]"
    by (clarsimp simp: observe_pre_state_def split: option.splits sum.splits)
  show ?thesis unfolding st1 trace pre_events_def by (simp split: option.split)
qed

lemma pre_observation_trace:
  assumes "pre_observation env act c st = (r, st1)"
  shows "\<exists>pre. pre_events pre \<and> es_trace st1 = es_trace st @ pre"
proof (cases "preconditions c = []")
  case True
  with assms show ?thesis by (simp add: pre_observation_def pre_events_def)
next
  case False
  obtain x s1 where x: "observe_pre_state env act c st = (x, s1)" by (cases "observe_pre_state env act c st")
  with assms False have "st1 = s1" by (cases x) (simp_all add: pre_observation_def)
  with observe_pre_state_trace [OF x] show ?thesis by simp
qed

lemma evaluate_fresh_ref: "evaluate_fresh eng p st args = eval_ref eng st args p"
  by (simp add: evaluate_fresh_def evaluate_eq_ref)

lemma evaluate_fresh_definite: "evaluate_fresh eng p st args = Inr r \<Longrightarrow> r = Verified \<or> r = Failed"
  using definite_eval_ref(1) [of eng st args p] by (auto simp: evaluate_fresh_ref definite_def)

lemma verify_loop_definite:
  "verify_loop eng act obs ap mf ds pcs = Inr ev \<Longrightarrow> pv_result ev \<in> {Verified, Failed, Partial}"
proof (induction pcs arbitrary: ap mf ds)
  case (Cons pc pcs)
  then show ?case
    by (cases "evaluate_fresh eng (post_predicate pc) (obs_state obs) (arguments act)")
      (auto dest!: evaluate_fresh_definite)
qed (auto split: if_splits)

lemma decision_of_terminal [simp]:
  "decision_of env c k obs Verified = Final Verified (Some obs)"
  "decision_of env c k obs Partial = Final Partial None"
  by (simp_all add: decision_of_def)

lemma prepare_events:
  assumes "prepare env act c st = (p, st1)"
  shows "(\<exists>pre. pre_events pre \<and> p = Stop Failed \<and> es_trace st1 = es_trace st @ pre) \<or>
    (\<exists>pre. pre_events pre \<and> p = Go \<lparr>sm_state = Executing\<rparr> \<and> es_trace st1 = es_trace st @ pre @ [EvCleared])"
  using assms
  by (fastforce simp: prepare_eq split: prod.splits sum.splits dest!: pre_observation_trace)

lemma dispatch_events:
  assumes "dispatch_phase env act \<lparr>sm_state = Executing\<rparr> st = (p, st1)"
  shows "(\<exists>e. p = Abort (ActionExecutor_err (show_dispatch_error e)) \<and>
      es_trace st1 = es_trace st @ [EvDispatch (Inl e)] @ resolution act (claim_policy_for e)) \<or>
    (\<exists>d. (p = Stop Unknown \<or> (\<exists>sm. p = Go sm)) \<and> es_trace st1 = es_trace st @ [EvDispatch (Inr d)])"
  using assms
  by (auto simp: dispatch_phase_def abort_claimed_run_def resolve_trace Let_def
      split: prod.splits sum.splits dispatch_outcome.splits)

lemma observe_events:
  assumes "observe_dispatched env act c st = (p, st1)"
  shows "(\<exists>x. p = Stop Unknown \<and> es_trace st1 = es_trace st @ [EvObserve (Some (Inl x))]) \<or>
    (\<exists>x e. p = Abort e \<and> es_trace st1 = es_trace st @ [EvObserve x] @ resolution act ConsumeUnknown) \<or>
    (\<exists>ev o1. sighting env ev \<and> p = Go o1 \<and> es_trace st1 = es_trace st @ [ev])"
  using assms
  by (auto simp: observe_dispatched_def fabricate_observation_def abort_claimed_run_def resolve_trace
      sighting_def Let_def split: prod.splits sum.splits option.splits executor_error.splits
      dest!: run_observer_trace)

lemma verify_events:
  assumes "verify_phase env act c policy k obs \<lparr>sm_state = Observing\<rparr> st = (p, st1)"
  shows "(\<exists>e. p = Abort e \<and> es_trace st1 = es_trace st @ resolution act policy) \<or>
    (\<exists>ds a r. p = Go (ds, a) \<and> ((\<exists>ms. a = Again ms) \<longrightarrow> r = Failed) \<and>
       es_trace st1 = es_trace st @ [EvVerdict r])"
  using assms verify_loop_definite [of "ee_engine env" act obs True False "[]" "postconditions c"]
  by (auto simp: verify_phase_eq verify_postconditions_def resolve_trace split: sum.splits)

lemma attempt_dispatched_events:
  assumes "attempt_dispatched env act c k st = (p, st1)"
  shows "\<exists>evs. es_trace st1 = es_trace st @ evs \<and> dispatched_events env act evs p"
proof -
  obtain p1 s1 where 1: "prepare env act c st = (p1, s1)" by (cases "prepare env act c st")
  from prepare_events [OF 1] consider
      (rej) pre where "pre_events pre" "p1 = Stop Failed" "es_trace s1 = es_trace st @ pre"
    | (clr) pre where "pre_events pre" "p1 = Go \<lparr>sm_state = Executing\<rparr>"
        "es_trace s1 = es_trace st @ pre @ [EvCleared]" by blast
  then show ?thesis
  proof cases
    case rej
    with assms 1 show ?thesis by (auto simp: attempt_dispatched_eq intro: dispatched_events.rejected)
  next
    case clr
    note pre = clr(1)
    obtain p2 s2 where 2: "dispatch_phase env act \<lparr>sm_state = Executing\<rparr> s1 = (p2, s2)"
      by (cases "dispatch_phase env act \<lparr>sm_state = Executing\<rparr> s1")
    from dispatch_events [OF 2] show ?thesis
    proof (elim disjE exE conjE)
      fix e
      assume "p2 = Abort (ActionExecutor_err (show_dispatch_error e))"
        "es_trace s2 = es_trace s1 @ [EvDispatch (Inl e)] @ resolution act (claim_policy_for e)"
      with assms 1 2 clr dispatched_events.adapter_error [OF pre, of env act e] show ?thesis
        by (auto simp: attempt_dispatched_eq)
    next
      fix d assume "p2 = Stop Unknown" "es_trace s2 = es_trace s1 @ [EvDispatch (Inr d)]"
      with assms 1 2 clr dispatched_events.ambiguous [OF pre, of env act d] show ?thesis
        by (auto simp: attempt_dispatched_eq)
    next
      fix d sm assume d: "p2 = Go sm" "es_trace s2 = es_trace s1 @ [EvDispatch (Inr d)]"
      obtain p3 s3 where 3: "observe_dispatched env act c s2 = (p3, s3)"
        by (cases "observe_dispatched env act c s2")
      note so_far = assms 1 2 3 clr d
      from observe_events [OF 3] show ?thesis
      proof (elim disjE exE conjE)
        fix x assume "p3 = Stop Unknown" "es_trace s3 = es_trace s2 @ [EvObserve (Some (Inl x))]"
        with so_far dispatched_events.unknown [OF pre, of env act d x] show ?thesis
          by (auto simp: attempt_dispatched_eq)
      next
        fix x e assume "p3 = Abort e" "es_trace s3 = es_trace s2 @ [EvObserve x] @ resolution act ConsumeUnknown"
        with so_far dispatched_events.unobserved [OF pre, of env act d x e] show ?thesis
          by (auto simp: attempt_dispatched_eq)
      next
        fix ev o1 assume ev: "sighting env ev" and o1: "p3 = Go o1" "es_trace s3 = es_trace s2 @ [ev]"
        have v: "verify_phase env act c ConsumeUnknown k o1 \<lparr>sm_state = Observing\<rparr> s3 = (p, st1)"
          using so_far o1 by (simp add: attempt_dispatched_eq)
        from verify_events [OF v] so_far o1 show ?thesis
          using dispatched_events.unverifiable [OF pre ev, of act d]
            dispatched_events.judged [OF pre ev, of _ _ act d]
          by auto
      qed
    qed
  qed
qed

text \<open>The events of the retry loop: attempts, with a sleep before each one but the first.\<close>

inductive loop_events ::
  "('re, 'w, 's, 'r) exec_env \<Rightarrow> action \<Rightarrow> u32 \<Rightarrow> u32 \<Rightarrow> event list
   \<Rightarrow> executor_error + verification_result \<Rightarrow> bool" for env act bound where
  aborted: "dispatched_events env act evs (Abort e) \<Longrightarrow> loop_events env act bound a evs (Inl e)"
| stopped: "dispatched_events env act evs (Stop r) \<Longrightarrow> loop_events env act bound a evs (Inr r)"
| final: "dispatched_events env act evs (Go (ds, Final r obs)) \<Longrightarrow> loop_events env act bound a evs (Inr r)"
| again: "dispatched_events env act evs (Go (ds, Again ms)) \<Longrightarrow> a + 1 < bound \<Longrightarrow>
    loop_events env act bound (a + 1) evs' res \<Longrightarrow>
    loop_events env act bound a (evs @ EvSleep ms # evs') res"

lemma sleep_trace [simp]: "es_trace (sleep env ms st) = es_trace st @ [EvSleep ms]"
  by (simp add: sleep_def)

lemma run_loop_events:
  "run_loop env Dispatching act c a ds st = (res, st1) \<Longrightarrow>
   \<exists>evs. es_trace st1 = es_trace st @ evs \<and>
     loop_events env act (retry_bound (recovery c) (max_retries (ee_config env))) a evs (map_sum id fst res)"
proof (induction env Dispatching act c a ds st arbitrary: res st1 rule: run_loop.induct)
  case (1 env act c a ds st)
  obtain p s1 where att: "attempt env Dispatching act c (a + 1) st = (p, s1)"
    by (cases "attempt env Dispatching act c (a + 1) st")
  then obtain evs where evs: "es_trace s1 = es_trace st @ evs" "dispatched_events env act evs p"
    using attempt_dispatched_events by (fastforce simp: attempt_def)
  show ?case
  proof (cases "\<exists>ds1 ms. p = Go (ds1, Again ms)")
    case True
    then obtain ds1 ms where p: "p = Go (ds1, Again ms)" by blast
    with "1.prems" att have "run_loop env Dispatching act c (a + 1) ds1 (sleep env ms s1) = (res, st1)"
      by (simp add: run_loop.simps [of env Dispatching act c a])
    from "1.hyps" [OF att [symmetric] p HOL.refl HOL.refl this] obtain evs' where
      "es_trace st1 = es_trace st @ evs @ EvSleep ms # evs'"
      "loop_events env act (retry_bound (recovery c) (max_retries (ee_config env))) (a + 1) evs'
        (map_sum id fst res)"
      using evs by auto
    moreover have "a + 1 < retry_bound (recovery c) (max_retries (ee_config env))"
      using attempt_again att p should_retry_bound by blast
    ultimately show ?thesis using evs(2) p by (auto intro: loop_events.again)
  next
    case False
    with "1.prems" att evs show ?thesis
      by (auto simp: run_loop.simps [of env Dispatching act c a] split: phase.splits prod.splits decision.splits
          intro: loop_events.intros)
  qed
qed

section \<open>Verify before retry\<close>

text \<open>
  The discipline of the executor as an automaton over events. A dispatch needs the
  preconditions to have been cleared since the last one; after a dispatch, only a successful
  observation followed by the verdict \<open>Failed\<close> on it makes the automaton ready for another.
\<close>

datatype discipline = Ready | Cleared | Sent | Seen | Closed | Broken

fun discipline_step :: "event \<Rightarrow> discipline \<Rightarrow> discipline" where
  "discipline_step EvCleared d = (if d = Ready then Cleared else Broken)"
| "discipline_step (EvDispatch _) d = (if d = Cleared then Sent else Broken)"
| "discipline_step (EvObserve (Some (Inr _))) d = (if d = Sent then Seen else d)"
| "discipline_step (EvVerdict r) d =
     (if d = Seen then (if r = Failed then Ready else Closed) else d)"
| "discipline_step _ d = d"

abbreviation disciplined :: "event list \<Rightarrow> bool" where
  "disciplined evs \<equiv> fold discipline_step evs Ready \<noteq> Broken"

lemma fold_resolution [simp]: "fold discipline_step (resolution act policy) d = d"
  by (simp add: resolution_def split: option.split claim_policy.split)

lemma fold_pre_events: "pre_events pre \<Longrightarrow> fold discipline_step pre d = d"
  by (auto simp: pre_events_def)

lemma sighting_step:
  "sighting env ev \<Longrightarrow> ee_observer env \<noteq> None \<Longrightarrow> discipline_step ev Sent = Seen"
  by (auto simp: sighting_def split: option.splits)

lemma observe_step: "discipline_step (EvObserve x) Sent \<in> {Sent, Seen}"
  by (cases x; cases "the x") simp_all

lemma dispatched_discipline:
  assumes "dispatched_events env act evs p" "ee_observer env \<noteq> None"
  shows "fold discipline_step evs Ready \<noteq> Broken \<and>
    ((\<exists>ds ms. p = Go (ds, Again ms)) \<longrightarrow> fold discipline_step evs Ready = Ready)"
  using assms
proof (cases rule: dispatched_events.cases)
  case (unobserved pre d x e)
  with observe_step [of x] show ?thesis by (auto simp: fold_pre_events)
qed (auto simp: fold_pre_events sighting_step)

lemma loop_discipline:
  assumes "loop_events env act bound a evs res" "ee_observer env \<noteq> None"
  shows "disciplined evs"
  using assms
proof (induction rule: loop_events.induct)
  case (again evs ds ms a evs' res)
  with dispatched_discipline [OF again.hyps(1)] show ?case by simp
qed (use dispatched_discipline in blast)+

text \<open>How often a run dispatches.\<close>

definition dispatches :: "event list \<Rightarrow> nat" where
  "dispatches evs = length (filter (\<lambda>e. \<exists>r. e = EvDispatch r) evs)"

lemma dispatches_simps [simp]:
  "dispatches [] = 0" "dispatches (xs @ ys) = dispatches xs + dispatches ys"
  "dispatches (e # evs) = (case e of EvDispatch _ \<Rightarrow> 1 | _ \<Rightarrow> 0) + dispatches evs"
  by (simp_all add: dispatches_def split: event.split)

lemma dispatches_resolution [simp]: "dispatches (resolution act policy) = 0"
  by (simp add: resolution_def split: option.split claim_policy.split)

lemma dispatches_pre: "pre_events pre \<Longrightarrow> dispatches pre = 0"
  by (auto simp: pre_events_def)

lemma dispatches_sighting: "sighting env ev \<Longrightarrow> dispatches [ev] = 0"
  by (auto simp: sighting_def split: option.splits)

lemma dispatched_once: "dispatched_events env act evs p \<Longrightarrow> dispatches evs \<le> 1"
  by (induction rule: dispatched_events.induct)
    (auto simp: dispatches_pre sighting_def split: option.splits)

lemma loop_dispatches:
  "loop_events env act bound a evs res \<Longrightarrow> dispatches evs \<le> attempts_left bound a + 1"
proof (induction rule: loop_events.induct)
  case (again evs ds ms a evs' res)
  with dispatched_once [OF again.hyps(1)] attempts_left_decreases [OF again.hyps(2)] show ?case
    by simp
qed (use dispatched_once in fastforce)+

section \<open>The whole pipeline\<close>

text \<open>Every attempt that ends in an error has resolved its claim as its last step.\<close>

lemma bind_phase_Abort:
  "bind_phase m k st = (Abort e, st2) \<longleftrightarrow>
   m st = (Abort e, st2) \<or> (\<exists>x st1. m st = (Go x, st1) \<and> k x st1 = (Abort e, st2))"
  by (auto simp: bind_phase_def split: prod.splits phase.splits)

lemma prepare_no_abort: "prepare env act c st \<noteq> (Abort e, st1)"
  by (simp add: prepare_eq split: prod.split sum.split)

lemma dispatch_abort:
  "dispatch_phase env act \<lparr>sm_state = Executing\<rparr> st = (Abort e, st1) \<Longrightarrow>
   \<exists>p s0. st1 = resolve_claim_on_error env act p s0"
  by (auto simp: dispatch_phase_def abort_claimed_run_def Let_def
      split: prod.splits sum.splits dispatch_outcome.splits)

lemma observe_abort:
  "observe_dispatched env act c st = (Abort e, st1) \<Longrightarrow> \<exists>p s0. st1 = resolve_claim_on_error env act p s0"
  "observe_simulated env act c st = (Abort e, st1) \<Longrightarrow> \<exists>p s0. st1 = resolve_claim_on_error env act p s0"
  by (auto simp: observe_dispatched_def observe_simulated_def abort_claimed_run_def Let_def
      split: prod.splits sum.splits option.splits executor_error.splits)

lemma verify_abort:
  "verify_phase env act c policy k obs \<lparr>sm_state = Observing\<rparr> st = (Abort e, st1) \<Longrightarrow>
   \<exists>p s0. st1 = resolve_claim_on_error env act p s0"
  by (auto simp: verify_phase_eq split: sum.splits)

lemma prepare_go: "prepare env act c st = (Go sm, st1) \<Longrightarrow> sm = \<lparr>sm_state = Executing\<rparr>"
  by (auto simp: prepare_eq split: prod.splits sum.splits)

lemma attempt_abort:
  assumes "attempt env m act c k st = (Abort e, st1)"
  shows "\<exists>p s0. st1 = resolve_claim_on_error env act p s0"
  using assms
  by (cases m) (auto simp: attempt_def attempt_dispatched_eq attempt_simulated_eq bind_phase_Abort
      prepare_no_abort dest!: prepare_go dest: dispatch_abort observe_abort verify_abort)

lemma run_loop_abort:
  "run_loop env m act c a ds st = (Inl e, st1) \<Longrightarrow> \<exists>p s0. st1 = resolve_claim_on_error env act p s0"
proof (induction env m act c a ds st rule: run_loop.induct)
  case (1 env m act c a ds st)
  obtain p s1 where att: "attempt env m act c (a + 1) st = (p, s1)"
    by (cases "attempt env m act c (a + 1) st")
  with "1.prems" consider "p = Abort e" "s1 = st1"
    | ds1 ms where "p = Go (ds1, Again ms)" "run_loop env m act c (a + 1) ds1 (sleep env ms s1) = (Inl e, st1)"
    by (auto simp: run_loop.simps [of env m act c a] split: phase.splits prod.splits decision.splits)
  then show ?case using att "1.IH" attempt_abort by cases (force, metis)
qed

text \<open>What a receipt of a run says.\<close>

definition receipt_for ::
  "receipt_lib \<Rightarrow> action \<Rightarrow> contract \<Rightarrow> verification_result \<Rightarrow> receipt \<Rightarrow> bool" where
  "receipt_for rl act c result x \<longleftrightarrow>
     verify_digest rl x \<and> rc_action_id x = act_id act \<and> rc_contract_id x = contract_id c \<and>
     rc_contract_version x = schema_version c \<and> rc_result x = result \<and>
     rc_idempotency_key x = act_idempotency_key act"

lemma receipt_for_fold:
  "receipt_for rl act c r x \<Longrightarrow> receipt_for rl act c r (fold (with_postcondition_result rl) ds x)"
  by (induction ds arbitrary: x) (simp_all add: receipt_for_def with_postcondition_result_def
      verify_digest_def Let_def)

lemma create_receipt_for:
  assumes "create_receipt env act c r k ds st = (x, st1)"
  shows "receipt_for (ee_receipt_lib env) act c r x" "es_trace st1 = es_trace st" "es_store st1 = es_store st"
  using assms
  by (auto simp: create_receipt_def intro!: receipt_for_fold split: prod.splits)
    (simp add: receipt_for_def with_contract_version_and_key_def, simp add: with_digest_def)

lemma create_receipt_with_observation_for:
  assumes "create_receipt_with_observation env act c r k obs ds st = (x, st1)"
  shows "receipt_for (ee_receipt_lib env) act c r x" "es_trace st1 = es_trace st" "es_store st1 = es_store st"
  using assms
  by (auto simp: create_receipt_with_observation_def intro!: receipt_for_fold split: prod.splits)
    (simp add: receipt_for_def with_contract_version_and_key_def with_digest_def,
      simp add: with_observation_def Let_def)

lemma store_receipt_sel:
  "es_store (store_receipt env r st) = es_store st"
  "\<exists>evs. es_trace (store_receipt env r st) = es_trace st @ evs \<and> (evs = [] \<or> (\<exists>x. evs = [EvPersist x]))"
  by (auto simp: store_receipt_def split: option.split prod.split)

text \<open>The events after the loop: at most the completion of the key and the persisting of the receipt.\<close>

definition closing :: "action \<Rightarrow> verification_result \<Rightarrow> event list \<Rightarrow> bool" where
  "closing act r evs \<longleftrightarrow> (\<exists>post. (post = [] \<or> (\<exists>x. post = [EvPersist x])) \<and>
     evs = (case act_idempotency_key act of None \<Rightarrow> [] | Some k \<Rightarrow> [EvComplete k r]) @ post)"

lemma finish_sel:
  assumes "finish env act c r obs k ds st = (res, st1)"
  shows "\<exists>x. res = Inr (r, x) \<and> receipt_for (ee_receipt_lib env) act c r x"
    and "es_store st1 =
      (case act_idempotency_key act of None \<Rightarrow> es_store st | Some key \<Rightarrow> ee_complete env key r (es_store st))"
    and "\<exists>evs. closing act r evs \<and> es_trace st1 = es_trace st @ evs"
proof -
  let ?st = "case act_idempotency_key act of None \<Rightarrow> st | Some key \<Rightarrow> complete_key env key r st"
  obtain x st2 where x: "(case obs of
      Some o1 \<Rightarrow> create_receipt_with_observation env act c r k o1 ds ?st
    | None \<Rightarrow> create_receipt env act c r k ds ?st) = (x, st2)"
    by (cases "case obs of Some o1 \<Rightarrow> create_receipt_with_observation env act c r k o1 ds ?st
    | None \<Rightarrow> create_receipt env act c r k ds ?st")
  then have c: "receipt_for (ee_receipt_lib env) act c r x" "es_trace st2 = es_trace ?st" "es_store st2 = es_store ?st"
    by (cases obs; auto dest: create_receipt_for create_receipt_with_observation_for)+
  have fin: "res = Inr (r, x)" "st1 = store_receipt env x st2"
    using assms x by (simp_all add: finish_def Let_def)
  then show "\<exists>x. res = Inr (r, x) \<and> receipt_for (ee_receipt_lib env) act c r x" using c by blast
  show "es_store st1 =
      (case act_idempotency_key act of None \<Rightarrow> es_store st | Some key \<Rightarrow> ee_complete env key r (es_store st))"
    using fin c by (simp add: store_receipt_sel complete_key_def split: option.split)
  show "\<exists>evs. closing act r evs \<and> es_trace st1 = es_trace st @ evs"
    using store_receipt_sel(2) [of env x st2] fin c
    by (auto simp: closing_def complete_key_def split: option.split)
qed

lemma run_claimed_events:
  assumes "run_claimed env Dispatching act c st = (res, st1)"
  shows "\<exists>evs tail. es_trace st1 = es_trace st @ evs @ tail \<and>
    loop_events env act (retry_bound (recovery c) (max_retries (ee_config env))) 0 evs (map_sum id fst res) \<and>
    (case res of Inl _ \<Rightarrow> tail = [] | Inr (r, x) \<Rightarrow> closing act r tail)"
proof -
  obtain lres s1 where l: "run_loop env Dispatching act c 0 [] st = (lres, s1)"
    by (cases "run_loop env Dispatching act c 0 [] st")
  from run_loop_events [OF l] obtain evs where evs: "es_trace s1 = es_trace st @ evs"
    "loop_events env act (retry_bound (recovery c) (max_retries (ee_config env))) 0 evs (map_sum id fst lres)"
    by blast
  show ?thesis
  proof (cases lres)
    case (Inl e)
    with assms l evs show ?thesis by (force simp: run_claimed_def)
  next
    case (Inr q)
    obtain r obs k ds where q: "q = (r, obs, k, ds)" by (cases q) auto
    with assms l Inr have f: "finish env act c r obs k ds s1 = (res, st1)" by (simp add: run_claimed_def)
    from finish_sel(1,3) [OF f] evs Inr q show ?thesis by force
  qed
qed

text \<open>What a run that holds the key leaves in the store.\<close>

lemma run_claimed_store:
  assumes "run_claimed env m act c st = (res, st1)" "act_idempotency_key act = Some key"
  shows "case res of
      Inl _ \<Rightarrow> \<exists>s0. es_store st1 = ee_complete env key Unknown s0 \<or> es_store st1 = ee_release env key s0
    | Inr (r, x) \<Rightarrow> receipt_for (ee_receipt_lib env) act c r x \<and> (\<exists>s0. es_store st1 = ee_complete env key r s0)"
proof (cases "run_loop env m act c 0 [] st")
  case (Pair lres s1)
  show ?thesis
  proof (cases lres)
    case (Inl e)
    with assms(1) Pair have "res = Inl e" "st1 = s1" by (simp_all add: run_claimed_def)
    moreover from run_loop_abort Pair Inl obtain p s0 where "s1 = resolve_claim_on_error env act p s0"
      by metis
    ultimately show ?thesis using assms(2)
      by (cases p) (auto simp: resolve_claim_on_error_def complete_key_def release_key_def)
  next
    case (Inr q)
    obtain r obs k ds where q: "q = (r, obs, k, ds)" by (cases q) auto
    with assms(1) Pair Inr have f: "finish env act c r obs k ds s1 = (res, st1)" by (simp add: run_claimed_def)
    from finish_sel(1,2) [OF f] assms(2) show ?thesis by auto
  qed
qed

lemma answer_without_run_sel:
  assumes "answer_without_run env act c r st = (res, st1)"
  shows "\<exists>x. res = Inr (r, x) \<and> receipt_for (ee_receipt_lib env) act c r x"
    and "es_store st1 = es_store st" "es_trace st1 = es_trace st"
  using assms by (auto simp: answer_without_run_def split: prod.splits dest: create_receipt_for)

section \<open>An executor on a store that keeps its contract\<close>

text \<open>
  The executor as a client of the idempotency store: \<open>env\<close> calls a store that satisfies the
  contract of \<open>idempotency_store\<close>. Its claims, its completions and its releases have their own
  fortunes with the system calls they make; a lemma that needs them to go well says so.
\<close>

locale executor_on_store = idempotency_store view ok sep claim complete release
  for view :: "'s \<Rightarrow> string \<Rightarrow> entry_state option" and ok :: "'io \<Rightarrow> bool"
    and sep :: "string \<Rightarrow> string \<Rightarrow> bool"
    and claim :: "'io \<Rightarrow> string \<Rightarrow> 's \<Rightarrow> claim_answer \<times> 's"
    and complete :: "'io \<Rightarrow> string \<Rightarrow> verification_result \<Rightarrow> 's \<Rightarrow> 's"
    and release :: "'io \<Rightarrow> string \<Rightarrow> 's \<Rightarrow> 's" +
  fixes env :: "('re, 'w, 's, 'r) exec_env" and cio fio rio :: 'io
  assumes env_claim: "ee_claim env = claim cio"
    and env_complete: "ee_complete env = complete fio"
    and env_release: "ee_release env = release rio"
begin

text \<open>A run that wins the key resolves it: completed with the verdict, or consumed or released.\<close>

lemma winner_resolves:
  assumes ok: "ok cio" "ok fio" "ok rio"
    and asm: "act_idempotency_key act = Some key" "view (es_store st) key = None"
      "execute_with_executor env act c st = (res, st1) \<or> execute env act c st = (res, st1)"
  shows "case res of
      Inl _ \<Rightarrow> view (es_store st1) key \<in> {None, Some (Completed Unknown)}
    | Inr (r, x) \<Rightarrow> view (es_store st1) key = Some (Completed r) \<and>
        receipt_for (ee_receipt_lib env) act c r x"
proof -
  have "fst (claim cio key (es_store st)) = (Claimed, None)"
    using claim_vacant [OF ok(1)] asm(2) by blast
  then obtain s where "claim cio key (es_store st) = ((Claimed, None), s)"
    by (cases "claim cio key (es_store st)") simp
  then obtain m st2 where "run_claimed env m act c st2 = (res, st1)"
    using asm(1,3)
    by (auto simp: execute_with_executor_def execute_def claim_or_check_def env_claim)
  from run_claimed_store [OF this asm(1)] show ?thesis
    using view_complete [OF ok(2)] view_release [OF ok(3)]
    by (auto simp: env_complete env_release split: sum.splits)
qed

text \<open>A run that finds the key taken dispatches nothing; when it is completed, it answers so.\<close>

lemma loser_does_nothing:
  assumes ok: "ok cio"
    and asm: "act_idempotency_key act = Some key" "view (es_store st) key \<noteq> None"
      "execute_with_executor env act c st = (res, st1)"
  shows "dispatches (es_trace st1) = dispatches (es_trace st)"
    and "\<And>r. view (es_store st) key = Some (Completed r) \<Longrightarrow>
      (\<exists>x. res = Inr (r, x) \<and> receipt_for (ee_receipt_lib env) act c r x) \<and>
      view (es_store st1) key = Some (Completed r)"
proof -
  obtain a s where cl: "claim cio key (es_store st) = ((AlreadyClaimed, a), s)"
    using claim_not_vacant [OF ok asm(2)] by (metis prod.collapse)
  show "dispatches (es_trace st1) = dispatches (es_trace st)"
  proof (cases a)
    case (Some r)
    with asm cl show ?thesis
      by (auto simp: execute_with_executor_def claim_or_check_def env_claim
          dest!: answer_without_run_sel(3))
  next
    case None
    then obtain b r' st2 where "claim_or_check env key (sleep env 50
        (log_event (EvClaim key (AlreadyClaimed, None)) (st\<lparr>es_store := s\<rparr>))) = (b, st2)"
      "answer_without_run env act c r' st2 = (res, st1)"
      using asm(1,3) cl
      by (auto simp: execute_with_executor_def claim_or_check_def env_claim split: prod.splits option.splits)
    then show ?thesis
      by (auto simp: claim_or_check_def env_claim split: prod.splits dest!: answer_without_run_sel(3))
  qed
  fix r assume r: "view (es_store st) key = Some (Completed r)"
  with claim_completed [OF ok r] cl have "a = Some r" "view s key = Some (Completed r)" by auto
  with asm(1,3) cl have "answer_without_run env act c r
      (log_event (EvClaim key (AlreadyClaimed, Some r)) (st\<lparr>es_store := s\<rparr>)) = (res, st1)"
    by (simp add: execute_with_executor_def claim_or_check_def env_claim)
  from answer_without_run_sel [OF this] \<open>view s key = Some (Completed r)\<close>
  show "(\<exists>x. res = Inr (r, x) \<and> receipt_for (ee_receipt_lib env) act c r x) \<and>
      view (es_store st1) key = Some (Completed r)" by simp
qed

end

text \<open>Executors on the in-memory registry and on the file store, whatever the rest of their environment.\<close>

definition on_registry :: "('re, 'w, registry, 'r) exec_env \<Rightarrow> ('re, 'w, registry, 'r) exec_env" where
  "on_registry env = env\<lparr>ee_claim := registry_claim_or_check, ee_complete := registry_complete,
     ee_release := registry_release\<rparr>"

definition on_file_store ::
  "file_idem_lib \<Rightarrow> idem_io \<Rightarrow> idem_io \<Rightarrow> idem_io \<Rightarrow> ('re, 'w, file_idem, 'r) exec_env
   \<Rightarrow> ('re, 'w, file_idem, 'r) exec_env" where
  "on_file_store ext cio fio rio env = env\<lparr>ee_claim := file_claim_or_check ext cio,
     ee_complete := file_complete ext fio, ee_release := file_release ext rio\<rparr>"

interpretation reg_exec: executor_on_store
  "\<lambda>s. s" "\<lambda>_ :: unit. True" "\<lambda>a b. a \<noteq> b"
  "\<lambda>_. registry_claim_or_check" "\<lambda>_. registry_complete" "\<lambda>_. registry_release"
  "on_registry env" "()" "()" "()" for env
  by unfold_locales (simp_all add: on_registry_def)

interpretation file_exec: executor_on_store
  "file_view ext" file_io_ok "file_sep ext"
  "file_claim_or_check ext" "file_complete ext" "file_release ext"
  "on_file_store ext cio fio rio env" cio fio rio for ext cio fio rio env
  by unfold_locales (simp_all add: on_file_store_def)

section \<open>A scripted environment\<close>

text \<open>
  For the witnesses: adapter and observer answer from a script, the store is the registry, and
  other callers act on it as \<open>others\<close> says. The contract asks that the path \<open>done\<close> exists.
\<close>

type_synonym script = "(dispatch_error + dispatch_outcome) list \<times> observe_result list"

definition script_env :: "(registry \<Rightarrow> registry) \<Rightarrow> (string, script, registry, unit) exec_env" where
  "script_env others =
     \<lparr>ee_config = default_executor_config, ee_claim = registry_claim_or_check,
      ee_complete = registry_complete, ee_release = registry_release, ee_others = (\<lambda>_. others),
      ee_receipt_store = None,
      ee_observer = Some (\<lambda>_ _ _ w. (hd (snd w), (fst w, tl (snd w)))),
      ee_dispatch = (\<lambda>_ w. (hd (fst w), (tl (fst w), snd w))), ee_fresh = (\<lambda>w. ((0, 0), w)),
      ee_engine = literal_ext, ee_receipt_lib = demo_ext,
      ee_backoff_lib = \<lparr>num_milliseconds = (\<lambda>d. of_int (d div 1000000)), f64_powi = (\<lambda>_ _. 0)\<rparr>\<rparr>"

definition script_action :: action where
  "script_action = with_idempotency 1 0 ''pay'' JNull ''k''"

definition script_contract :: contract where
  "script_contract = with_postcondition (Exists ''done'') ''done'' (new_contract 2 0 ''pay'')"

definition script_state :: "registry \<Rightarrow> script \<Rightarrow> (script, registry, unit) exec_state" where
  "script_state s w = \<lparr>es_world = w, es_store = s, es_receipts = (), es_trace = []\<rparr>"

definition nothing_seen :: observe_result where
  "nothing_seen = Some (Inr (new_observation 0 ''db'' (JObject [])))"

lemma nothing_seen_fails:
  "verify_postconditions literal_ext script_action script_contract (new_observation 0 src (JObject [])) =
     Inr \<lparr>pv_result = Failed, pv_details = [postcondition_detail
       \<lparr>post_predicate = Exists ''done'', post_description = ''done'', mandatory = True\<rparr> False None]\<rparr>"
  by (simp add: verify_postconditions_def script_contract_def with_postcondition_def new_contract_def
      evaluate_fresh_def eval_exists_def get_path_def new_observation_def)

lemma script_simps [simp]:
  "act_idempotency_key script_action = Some ''k''" "preconditions script_contract = []"
  "recovery script_contract = None"
  "ee_config (script_env f) = default_executor_config" "ee_engine (script_env f) = literal_ext"
  "ee_claim (script_env f) = registry_claim_or_check" "ee_complete (script_env f) = registry_complete"
  "ee_release (script_env f) = registry_release" "ee_others (script_env f) = (\<lambda>_. f)"
  "ee_receipt_store (script_env f) = None" "ee_fresh (script_env f) = (\<lambda>w. ((0, 0), w))"
  "ee_observer (script_env f) = Some (\<lambda>_ _ _ w. (hd (snd w), (fst w, tl (snd w))))"
  "ee_dispatch (script_env f) = (\<lambda>_ w. (hd (fst w), (tl (fst w), snd w)))"
  by (simp_all add: script_action_def with_idempotency_def script_contract_def with_postcondition_def
      new_contract_def script_env_def)

lemma script_prepare [simp]:
  "prepare (script_env f) script_action script_contract st = (Go \<lparr>sm_state = Executing\<rparr>, log_event EvCleared st)"
  by (simp add: prepare_eq pre_observation_def validate_preconditions_def)

lemma script_registry [simp]:
  "es_store (script_state s w) = s" "es_world (script_state s w) = w" "es_trace (script_state s w) = []"
  by (simp_all add: script_state_def)

text \<open>An attempt whose dispatch completes and whose observation shows nothing.\<close>

lemma script_attempt_fails:
  assumes "es_world st = (Inr Completed_out # ds, nothing_seen # os)"
  shows "attempt (script_env f) Dispatching script_action script_contract 1 st =
    (Go ([postcondition_detail
       \<lparr>post_predicate = Exists ''done'', post_description = ''done'', mandatory = True\<rparr> False None],
       Again (calculate_backoff (ee_backoff_lib (script_env f)) 1 None 100 5000 default_multiplier)),
     log_event (EvVerdict Failed) (log_event (EvObserve nothing_seen) (suspend (script_env f) (ds, os)
       (log_event (EvDispatch (Inr Completed_out)) (suspend (script_env f) (ds, nothing_seen # os)
         (log_event EvCleared st))))))"
  using assms
  by (simp add: attempt_def attempt_dispatched_eq bind_phase_def dispatch_phase_def Let_def
      observe_dispatched_def run_observer_def nothing_seen_def verify_phase_eq nothing_seen_fails
      decision_of_def should_retry_def default_executor_config_def)

text \<open>An attempt whose dispatch the target rejects.\<close>

lemma script_attempt_rejected:
  assumes "es_world st = (Inl (Rejected_err e) # ds, os)"
  shows "attempt (script_env f) Dispatching script_action script_contract k st =
    (Abort (ActionExecutor_err (show_dispatch_error (Rejected_err e))),
     release_key (script_env f) ''k'' (log_event (EvDispatch (Inl (Rejected_err e)))
       (suspend (script_env f) (ds, os) (log_event EvCleared st))))"
  using assms
  by (simp add: attempt_def attempt_dispatched_eq bind_phase_def dispatch_phase_def Let_def
      abort_claimed_run_def resolve_claim_on_error_def)

text \<open>The events of a whole call: the claim, then either an answer at once or the loop and its closing.\<close>

definition claim_events :: "event list \<Rightarrow> bool" where
  "claim_events evs = list_all (\<lambda>e. case e of EvClaim _ _ \<Rightarrow> True | EvSleep _ \<Rightarrow> True | _ \<Rightarrow> False) evs"

lemma claim_or_check_trace:
  "claim_or_check env key st = (a, st1) \<Longrightarrow> es_trace st1 = es_trace st @ [EvClaim key a]"
  by (auto simp: claim_or_check_def split: prod.splits)

lemma execute_with_executor_events:
  assumes "execute_with_executor env act c st = (res, st1)"
  shows "\<exists>pre body tail. es_trace st1 = es_trace st @ pre @ body @ tail \<and> claim_events pre \<and>
    (body = [] \<and> tail = [] \<or>
     loop_events env act (retry_bound (recovery c) (max_retries (ee_config env))) 0 body (map_sum id fst res) \<and>
     (case res of Inl _ \<Rightarrow> tail = [] | Inr (r, x) \<Rightarrow> closing act r tail))"
proof -
  have run: ?thesis if "run_claimed env Dispatching act c s = (res, st1)" "es_trace s = es_trace st @ pre"
    "claim_events pre" for s pre
    using run_claimed_events [OF that(1)] that(2,3) by fastforce
  have ans: ?thesis if "answer_without_run env act c r s = (res, st1)" "es_trace s = es_trace st @ pre"
    "claim_events pre" for r s pre
    using answer_without_run_sel(3) [OF that(1)] that(2,3) by force
  show ?thesis
  proof (cases "act_idempotency_key act")
    case None
    with assms run [of st "[]"] show ?thesis by (simp add: execute_with_executor_def claim_events_def)
  next
    case (Some key)
    obtain q a s where cl: "claim_or_check env key st = ((q, a), s)" by (metis prod.exhaust)
    obtain q' a' s' where cl': "claim_or_check env key (sleep env 50 s) = ((q', a'), s')"
      by (metis prod.exhaust)
    note tr = claim_or_check_trace [OF cl] claim_or_check_trace [OF cl', simplified]
    show ?thesis
    proof (cases q)
      case Claimed
      with assms Some cl run [of s "[EvClaim key (q, a)]"] tr show ?thesis
        by (simp add: execute_with_executor_def claim_events_def)
    next
      case AlreadyClaimed
      with assms Some cl cl' tr ans [of _ s "[EvClaim key (q, a)]"]
        ans [of _ s' "[EvClaim key (q, a), EvSleep 50, EvClaim key (q', a')]"] show ?thesis
        by (simp add: execute_with_executor_def claim_events_def split: option.splits)
    qed
  qed
qed

lemma claim_events_neutral: "claim_events evs \<Longrightarrow> fold discipline_step evs d = d \<and> dispatches evs = 0"
  by (induction evs arbitrary: d) (auto simp: claim_events_def split: event.splits)

lemma closing_neutral: "closing act r evs \<Longrightarrow> fold discipline_step evs d = d \<and> dispatches evs = 0"
  by (auto simp: closing_def split: option.splits)

lemma unat_ucast_u32: "unat (ucast (k :: u32) :: u64) = unat k"
  using unsigned_less [where ?'a = nat, of k] by (simp add: unsigned_ucast_eq take_bit_nat_eq_self)

lemma verify_loop_spec:
  assumes "\<forall>pc \<in> set pcs. \<forall>q \<in> set (pred_patterns (post_predicate pc)). is_ok (rx_new eng q)"
    and "holds = (\<lambda>pc. psem eng (obs_state obs) (arguments act) (post_predicate pc))"
  shows "verify_loop eng act obs ap mf ds pcs = Inr
    \<lparr>pv_result =
       (if ap \<and> list_all holds pcs then Verified
        else if mf \<or> list_ex (\<lambda>pc. mandatory pc \<and> \<not> holds pc) pcs then Failed else Partial),
     pv_details = ds @ map (\<lambda>pc. postcondition_detail pc (holds pc) None) pcs\<rparr>"
  using assms(1)
proof (induction pcs arbitrary: ap mf ds)
  case (Cons pc pcs)
  then have "evaluate_fresh eng (post_predicate pc) (obs_state obs) (arguments act) =
      Inr (verdict (holds pc))"
    by (simp add: evaluate_fresh_ref eval_ref_psem(1) assms(2))
  with Cons show ?case by (cases "holds pc") auto
qed simp

section \<open>Properties\<close>

text \<open>
  Property C2 (safety): verify before retry. With an observer configured, every run of
  \<open>execute_with_executor\<close>, whatever adapter, observer, stores and other callers do, follows the
  discipline: each dispatch comes after the preconditions were cleared in the same attempt, and
  between two dispatches there is a successful observation of the state after the first and a
  verdict on it that says \<open>Failed\<close>.
\<close>

theorem verify_before_retry_discipline:
  assumes "ee_observer env \<noteq> None"
  shows "\<exists>evs. es_trace (snd (execute_with_executor env act c st)) = es_trace st @ evs
    \<and> fold discipline_step evs Ready \<noteq> Broken"
proof (cases "execute_with_executor env act c st")
  case (Pair res st1)
  from execute_with_executor_events [OF Pair] obtain pre body tail where
    tr: "es_trace st1 = es_trace st @ pre @ body @ tail" and "claim_events pre"
    and b: "body = [] \<and> tail = [] \<or>
      loop_events env act (retry_bound (recovery c) (max_retries (ee_config env))) 0 body (map_sum id fst res) \<and>
      (case res of Inl _ \<Rightarrow> tail = [] | Inr (r, x) \<Rightarrow> closing act r tail)"
    by blast
  from b have "fold discipline_step tail d = d" for d
    by (auto dest: closing_neutral split: sum.splits)
  moreover from b have "disciplined body" using loop_discipline [OF _ assms] by auto
  ultimately have "disciplined (pre @ body @ tail)"
    using claim_events_neutral [OF \<open>claim_events pre\<close>] by simp
  with tr Pair show ?thesis by force
qed

theorem verify_before_retry_discipline_witness:
  "\<exists>evs. es_trace (snd (execute_with_executor (script_env id) script_action script_contract
      (script_state new_registry ([Inr Completed_out, Inr Accepted], [nothing_seen, None])))) = evs
    \<and> fold discipline_step evs Ready \<noteq> Broken"
  using verify_before_retry_discipline [of "script_env id" script_action script_contract
      "script_state new_registry ([Inr Completed_out, Inr Accepted], [nothing_seen, None])"]
  by simp

text \<open>
  Property C6 (bounds): a call of \<open>execute_with_executor\<close> dispatches at most as often as the
  recovery configuration allows attempts, and at most once when it allows none.
\<close>

theorem dispatch_bound:
  "\<exists>evs. es_trace (snd (execute_with_executor env act c st)) = es_trace st @ evs
    \<and> dispatches evs \<le> max 1 (unat (retry_bound (recovery c) (max_retries (ee_config env))))"
proof (cases "execute_with_executor env act c st")
  case (Pair res st1)
  let ?bound = "retry_bound (recovery c) (max_retries (ee_config env))"
  from execute_with_executor_events [OF Pair] obtain pre body tail where
    tr: "es_trace st1 = es_trace st @ pre @ body @ tail" and "claim_events pre"
    and b: "body = [] \<and> tail = [] \<or> loop_events env act ?bound 0 body (map_sum id fst res) \<and>
      (case res of Inl _ \<Rightarrow> tail = [] | Inr (r, x) \<Rightarrow> closing act r tail)"
    by blast
  from b have "dispatches tail = 0" by (auto dest: closing_neutral split: sum.splits)
  moreover have "attempts_left ?bound 0 + 1 \<le> max 1 (unat ?bound)"
    by (simp add: attempts_left_def word_less_nat_alt)
  then have "dispatches body \<le> max 1 (unat ?bound)"
    using b loop_dispatches by fastforce
  ultimately have "dispatches (pre @ body @ tail) \<le> max 1 (unat ?bound)"
    using claim_events_neutral [OF \<open>claim_events pre\<close>] by simp
  with tr Pair show ?thesis by force
qed

text \<open>
  Property C3 (invariant): no run leaves its key in flight. A run of either pipeline that finds
  the key vacant ends, whatever the adapter, the observer and other callers do meanwhile, with
  the key completed with the verdict it returns and a receipt that carries this verdict, the
  key, the action and the contract and passes its digest check; or, when it returns an error,
  with the key released or consumed as \<open>Unknown\<close>.
\<close>

theorem claim_always_resolved:
  assumes "act_idempotency_key act = Some key" "es_store st key = None"
    and "execute_with_executor (on_registry env) act c st = (res, st1)
      \<or> execute (on_registry env) act c st = (res, st1)"
  shows "case res of
      Inl _ \<Rightarrow> es_store st1 key \<in> {None, Some (Completed Unknown)}
    | Inr (r, x) \<Rightarrow> es_store st1 key = Some (Completed r) \<and>
        receipt_for (ee_receipt_lib (on_registry env)) act c r x"
  by (rule reg_exec.winner_resolves [OF TrueI TrueI TrueI assms])

theorem claim_always_resolved_witness:
  "let (res, st1) = execute_with_executor (on_registry (script_env id)) script_action script_contract
      (script_state new_registry ([Inl (Rejected_err ''no'')], []))
   in case res of
      Inl _ \<Rightarrow> es_store st1 ''k'' \<in> {None, Some (Completed Unknown)}
    | Inr (r, x) \<Rightarrow> es_store st1 ''k'' = Some (Completed r) \<and>
        receipt_for (ee_receipt_lib (on_registry (script_env id))) script_action script_contract r x"
proof (cases "execute_with_executor (on_registry (script_env id)) script_action script_contract
      (script_state new_registry ([Inl (Rejected_err ''no'')], []))")
  case (Pair res st1)
  with claim_always_resolved [of script_action "''k''", OF _ _ disjI1 [OF Pair]] show ?thesis
    by (simp add: new_registry_def Let_def)
qed

text \<open>
  A run that finds its key taken dispatches nothing; and when the key is
  completed, the run answers with the recorded verdict and a receipt for it and leaves the key
  as it is. So repeating a finished call never repeats its effect.
\<close>

theorem taken_key_never_dispatches:
  assumes "act_idempotency_key act = Some key" "es_store st key \<noteq> None"
    and "execute_with_executor (on_registry env) act c st = (res, st1)"
  shows "dispatches (es_trace st1) = dispatches (es_trace st)
    \<and> (\<forall>r. es_store st key = Some (Completed r) \<longrightarrow>
        (\<exists>x. res = Inr (r, x) \<and> receipt_for (ee_receipt_lib (on_registry env)) act c r x) \<and>
        es_store st1 key = Some (Completed r))"
  using reg_exec.loser_does_nothing [OF TrueI assms] by blast

theorem taken_key_never_dispatches_witness:
  "let (res, st1) = execute_with_executor (on_registry (script_env id)) script_action script_contract
      (script_state [''k'' \<mapsto> Completed Verified] ([], []))
   in dispatches (es_trace st1) = 0 \<and> (\<exists>x. res = Inr (Verified, x)) \<and>
      es_store st1 ''k'' = Some (Completed Verified)"
proof (cases "execute_with_executor (on_registry (script_env id)) script_action script_contract
      (script_state [''k'' \<mapsto> Completed Verified] ([], []))")
  case (Pair res st1)
  with taken_key_never_dispatches [of script_action "''k''", OF _ _ Pair] show ?thesis by auto
qed

text \<open>
  The release of a key does not show that nothing was dispatched. There is
  a run in which the adapter reports a completed dispatch, the observed state does not show its
  effect yet, the second dispatch is rejected, and the key ends released, so that the next
  caller dispatches the action again.
\<close>

theorem released_after_dispatch:
  "let st1 = snd (execute_with_executor (script_env id) script_action script_contract
      (script_state new_registry ([Inr Completed_out, Inl (Rejected_err ''busy'')], [nothing_seen])))
   in EvDispatch (Inr Completed_out) \<in> set (es_trace st1) \<and> es_store st1 ''k'' = None"
  by (simp add: execute_with_executor_def claim_or_check_def registry_claim_or_check_def
      new_registry_def run_claimed_def run_loop.simps script_attempt_fails script_attempt_rejected
      sleep_def release_key_def registry_release_def Let_def)

text \<open>
  The poll of a key in flight can take it and lose it. When the key is
  released by its holder during the 50 ms wait, the second \<open>claim_or_check\<close> of the waiting caller
  claims it, the answer \<open>Claimed\<close> is dropped, the caller returns \<open>Duplicate\<close> without dispatching,
  and the key stays in flight with nobody to complete it.
\<close>

theorem poll_leaks_claim:
  "let (res, st1) = execute_with_executor (script_env (\<lambda>s. s(''k'' := None))) script_action script_contract
      (script_state [''k'' \<mapsto> InFlight] ([], []))
   in (\<exists>x. res = Inr (Duplicate, x)) \<and> dispatches (es_trace st1) = 0 \<and>
      es_store st1 ''k'' = Some InFlight"
  by (simp add: execute_with_executor_def claim_or_check_def registry_claim_or_check_def sleep_def
      answer_without_run_def create_receipt_def Let_def split: prod.split)

text \<open>
  Without an observer the executor retries blindly. The state it verifies
  is then made up and empty, the verdict on it is \<open>Failed\<close>, and the action is dispatched again
  although nothing was observed: the discipline is broken.
\<close>

theorem blind_retry_without_observer:
  "let st1 = snd (execute_with_executor ((script_env id)\<lparr>ee_observer := None\<rparr>) script_action
      script_contract (script_state new_registry
        ([Inr Completed_out, Inl (Rejected_err ''busy'')], [])))
   in fold discipline_step (es_trace st1) Ready = Broken \<and> dispatches (es_trace st1) = 2"
proof -
  let ?env = "(script_env id)\<lparr>ee_observer := None\<rparr>"
  have prep: "prepare ?env script_action script_contract st = (Go \<lparr>sm_state = Executing\<rparr>, log_event EvCleared st)" for st
    by (simp add: prepare_eq pre_observation_def validate_preconditions_def)
  have fails: "\<exists>ds ms st1. attempt ?env Dispatching script_action script_contract 1 st = (Go (ds, Again ms), st1) \<and>
      es_world st1 = (tl (fst (es_world st)), snd (es_world st)) \<and>
      es_trace st1 = es_trace st @ [EvCleared, EvDispatch (Inr Completed_out), EvFabricate, EvVerdict Failed]"
    if "hd (fst (es_world st)) = Inr Completed_out" for st
    using that
    by (simp add: attempt_def attempt_dispatched_eq prep dispatch_phase_def Let_def bind_phase_def
        observe_dispatched_def fabricate_observation_def verify_phase_eq nothing_seen_fails
        decision_of_def should_retry_def default_executor_config_def)
  have rejected: "attempt ?env Dispatching script_action script_contract k st =
      (Abort (ActionExecutor_err (show_dispatch_error (Rejected_err e))),
       release_key ?env ''k'' (log_event (EvDispatch (Inl (Rejected_err e)))
        (suspend ?env (tl (fst (es_world st)), snd (es_world st)) (log_event EvCleared st))))"
    if "hd (fst (es_world st)) = Inl (Rejected_err e)" for k st e
    using that
    by (simp add: attempt_def attempt_dispatched_eq prep dispatch_phase_def Let_def
        abort_claimed_run_def resolve_claim_on_error_def)
  let ?st = "log_event (EvClaim ''k'' (Claimed, None)) ((script_state new_registry
        ([Inr Completed_out, Inl (Rejected_err ''busy'')], []))\<lparr>es_store := [''k'' \<mapsto> InFlight]\<rparr>)"
  have w: "es_world ?st = ([Inr Completed_out, Inl (Rejected_err ''busy'')], [])" by (simp add: script_state_def)
  then obtain ds ms st1 where one: "attempt ?env Dispatching script_action script_contract 1 ?st = (Go (ds, Again ms), st1)"
    and st1: "es_world st1 = ([Inl (Rejected_err ''busy'')], [])"
      "es_trace st1 = es_trace ?st @ [EvCleared, EvDispatch (Inr Completed_out), EvFabricate, EvVerdict Failed]"
    using fails [of ?st] by auto
  have two: "es_world (sleep ?env ms st1) = ([Inl (Rejected_err ''busy'')], [])"
    using st1 by (simp add: sleep_def)
  show ?thesis
    using one st1 two rejected [of "sleep ?env ms st1" "''busy''" 2]
    by (simp add: execute_with_executor_def claim_or_check_def registry_claim_or_check_def
        new_registry_def run_claimed_def run_loop.simps release_key_def script_state_def)
qed

text \<open>
  Property C16 (functional): when every regular expression in the postconditions compiles,
  \<open>verify_postconditions\<close> returns; its details list every postcondition in contract order with its
  truth value on the observed state; and its verdict is \<open>Verified\<close> when all hold, \<open>Failed\<close> when a
  mandatory one does not, and \<open>Partial\<close> otherwise.
\<close>

theorem verify_postconditions_spec:
  assumes "\<forall>pc \<in> set (postconditions c). \<forall>q \<in> set (pred_patterns (post_predicate pc)). is_ok (rx_new eng q)"
    and "holds = (\<lambda>pc. psem eng (obs_state obs) (arguments act) (post_predicate pc))"
  shows "verify_postconditions eng act c obs = Inr
    \<lparr>pv_result =
       (if list_all holds (postconditions c) then Verified
        else if list_ex (\<lambda>pc. mandatory pc \<and> \<not> holds pc) (postconditions c) then Failed
        else Partial),
     pv_details = map (\<lambda>pc. postcondition_detail pc (holds pc) None) (postconditions c)\<rparr>"
  using verify_loop_spec [OF assms] by (simp add: verify_postconditions_def)

theorem verify_postconditions_spec_witness:
  "verify_postconditions literal_ext script_action
     (script_contract\<lparr>postconditions := [\<lparr>post_predicate = Matches ''s'' ''ok'', post_description = [], mandatory = False\<rparr>]\<rparr>)
     (new_observation 0 ''db'' (JObject []))
   = Inr \<lparr>pv_result = Partial, pv_details = [postcondition_detail
       \<lparr>post_predicate = Matches ''s'' ''ok'', post_description = [], mandatory = False\<rparr> False None]\<rparr>"
  by (subst verify_postconditions_spec [OF _ HOL.refl])
    (simp_all add: literal_ext_def is_ok_def matches_ref_def new_observation_def get_path_def)

text \<open>
  The delay before a retry never exceeds the configured maximum (read as an
  unsigned number of milliseconds), or five seconds by default; and a linear backoff whose
  product fits in 64 bits is the start times the number of the attempt, cut at the maximum.
\<close>

theorem backoff_bounded:
  "calculate_backoff bl k rec i m x \<le>
     (case Option.bind rec backoff of Some b \<Rightarrow> num_milliseconds bl (bc_max b) | None \<Rightarrow> m)
   \<and> (\<forall>b. Option.bind rec backoff = Some b \<and> backoff_type b = Linear \<and>
        unat (num_milliseconds bl (bc_initial b)) * unat k < 2 ^ 64 \<longrightarrow>
        unat (calculate_backoff bl k rec i m x) =
          min (unat (num_milliseconds bl (bc_initial b)) * unat k) (unat (num_milliseconds bl (bc_max b))))"
proof -
  have u: "unat (a * ucast k) = unat a * unat k" if "unat a * unat k < 2 ^ 64" for a :: u64
    using that unat_mult_lem [of a "ucast k"] by (simp add: unat_ucast_u32)
  show ?thesis
    by (auto simp: calculate_backoff_def Let_def u min_def word_le_nat_alt split: option.split)
qed

theorem backoff_bounded_witness:
  "unat (calculate_backoff \<lparr>num_milliseconds = of_int, f64_powi = (\<lambda>_ _. 0)\<rparr> 3
     (Some \<lparr>strategy = Retry, max_attempts = 9, backoff = Some \<lparr>backoff_type = Linear, bc_initial = 100,
        bc_max = 250, bc_multiplier = 0\<rparr>, on_unknown = []\<rparr>) 100 5000 default_multiplier) = 250"
  using backoff_bounded [of "\<lparr>num_milliseconds = of_int, f64_powi = (\<lambda>_ _. 0)\<rparr>" 3
     "Some \<lparr>strategy = Retry, max_attempts = 9, backoff = Some \<lparr>backoff_type = Linear, bc_initial = 100,
        bc_max = 250, bc_multiplier = 0\<rparr>, on_unknown = []\<rparr>" 100 5000 default_multiplier]
  by simp

end
