(* ===== verification/Verdict.thy ===== *)
theory Verdict
  imports Executor_Correct
begin

text \<open>
  What a verdict of the executor is worth: a run that answers \<open>Verified\<close> by its own work observed
  a state in which every postcondition of the contract holds, and its receipt carries that
  observation and the evaluation of each postcondition.
\<close>

section \<open>Evaluation without assumptions on the patterns\<close>

text \<open>
  When evaluation returns at all, it returns the truth value: a pattern that does not compile is
  either an error or was not needed.
\<close>

lemma eval_ref_truth:
  "eval_ref ext st args p = Inr r \<Longrightarrow> r = verdict (psem ext st args p)"
  "all_ref ext st args ps = Inr r \<Longrightarrow> r = verdict (list_all (psem ext st args) ps)"
  "any_ref ext st args ps = Inr r \<Longrightarrow> r = verdict (list_ex (psem ext st args) ps)"
proof (induction ext st args p and ext st args ps and ext st args ps arbitrary: r and r and r
    rule: eval_ref_all_ref_any_ref.induct)
  case (6 ext st args path q)
  then show ?case
    by (auto simp: matches_ref_def verdict_def split: option.splits json.splits sum.splits if_splits)
next
  case (14 ext st args p)
  then show ?case by (cases "eval_ref ext st args p") (auto simp: verdict_def)
next
  case (15 ext st args a q)
  then show ?case by (cases "eval_ref ext st args a") (auto simp: verdict_def split: if_splits)
next
  case (17 ext st args p ps)
  then show ?case by (cases "eval_ref ext st args p") (auto simp: verdict_def split: if_splits)
next
  case (19 ext st args p ps)
  then show ?case using "19.IH"(2) [of Failed]
    by (cases "eval_ref ext st args p") (auto simp: verdict_def split: if_splits)
qed (auto simp: verdict_def intro: definite_Failed)

lemma verify_loop_verified:
  assumes "verify_loop eng act obs ap mf ds pcs = Inr ev" "pv_result ev = Verified"
  shows "ap \<and> list_all (\<lambda>pc. psem eng (obs_state obs) (arguments act) (post_predicate pc)) pcs
    \<and> pv_details ev = ds @ map (\<lambda>pc. postcondition_detail pc True None) pcs"
  using assms
proof (induction pcs arbitrary: ap mf ds)
  case (Cons pc pcs)
  then obtain r where r: "evaluate_fresh eng (post_predicate pc) (obs_state obs) (arguments act) = Inr r"
    by (cases "evaluate_fresh eng (post_predicate pc) (obs_state obs) (arguments act)") auto
  then have "r = verdict (psem eng (obs_state obs) (arguments act) (post_predicate pc))"
    unfolding evaluate_fresh_ref by (rule eval_ref_truth(1))
  with r Cons show ?case
    by (cases "psem eng (obs_state obs) (arguments act) (post_predicate pc)") force+
qed (auto split: if_splits)

section \<open>Where a verdict comes from\<close>

text \<open>The state behind a verdict: what the observer answered, or a made-up one without an observer.\<close>

definition observed :: "('re, 'w, 's, 'r) exec_env \<Rightarrow> action \<Rightarrow> contract \<Rightarrow> observation \<Rightarrow> event list \<Rightarrow> bool" where
  "observed env act c o1 evs \<longleftrightarrow>
     (case ee_observer env of
        None \<Rightarrow> EvFabricate \<in> set evs
      | Some f \<Rightarrow> EvObserve (Some (Inr o1)) \<in> set evs \<and>
          (\<exists>w. fst (f (verification_timeout_ms (ee_config env)) act c w) = Some (Inr o1)))"

definition earned ::
  "('re, 'w, 's, 'r) exec_env \<Rightarrow> action \<Rightarrow> contract \<Rightarrow> observation \<Rightarrow> postcondition_result list
   \<Rightarrow> event list \<Rightarrow> bool" where
  "earned env act c o1 ds evs \<longleftrightarrow> observed env act c o1 evs
     \<and> list_all (\<lambda>pc. psem (ee_engine env) (obs_state o1) (arguments act) (post_predicate pc)) (postconditions c)
     \<and> ds = map (\<lambda>pc. postcondition_detail pc True None) (postconditions c)"

lemma observed_mono: "observed env act c o1 evs \<Longrightarrow> set evs \<subseteq> set evs' \<Longrightarrow> observed env act c o1 evs'"
  by (auto simp: observed_def split: option.splits)

lemma earned_mono: "earned env act c o1 ds evs \<Longrightarrow> set evs \<subseteq> set evs' \<Longrightarrow> earned env act c o1 ds evs'"
  by (auto simp: earned_def intro: observed_mono)

lemma observe_go:
  assumes "observe_dispatched env act c st = (Go o1, st1) \<or> observe_simulated env act c st = (Go o1, st1)"
  shows "\<exists>evs. es_trace st1 = es_trace st @ evs \<and> observed env act c o1 evs"
proof (cases "ee_observer env")
  case None
  with assms show ?thesis
    by (auto simp: observe_dispatched_def observe_simulated_def fabricate_observation_def observed_def
        Let_def split: prod.splits)
next
  case (Some f)
  obtain r s where r: "run_observer env f act c st = (r, s)" by (cases "run_observer env f act c st")
  then have "r = fst (f (verification_timeout_ms (ee_config env)) act c (es_world st))"
    by (auto simp: run_observer_def split: prod.splits)
  moreover from assms Some r have "r = Some (Inr o1)" "st1 = log_event (EvObserve r) s"
    by (auto simp: observe_dispatched_def observe_simulated_def abort_claimed_run_def Let_def
        split: option.splits sum.splits executor_error.splits)
  ultimately show ?thesis using run_observer_trace [OF r] Some by (auto simp: observed_def intro: sym)
qed

lemma verify_phase_verified:
  assumes "verify_phase env act c policy k o1 \<lparr>sm_state = Observing\<rparr> st = (Go (ds, Final Verified ob), st1)"
  shows "ob = Some o1 \<and> es_trace st1 = es_trace st @ [EvVerdict Verified]
    \<and> list_all (\<lambda>pc. psem (ee_engine env) (obs_state o1) (arguments act) (post_predicate pc)) (postconditions c)
    \<and> ds = map (\<lambda>pc. postcondition_detail pc True None) (postconditions c)"
proof -
  from assms obtain ev where ev: "verify_postconditions (ee_engine env) act c o1 = Inr ev"
    and d: "ds = pv_details ev" "decision_of env c k o1 (pv_result ev) = Final Verified ob"
    and st1: "st1 = log_event (EvVerdict (pv_result ev)) st"
    by (auto simp: verify_phase_eq split: sum.splits)
  from d(2) have r: "pv_result ev = Verified" "ob = Some o1"
    by (auto simp: decision_of_def Let_def split: verification_result.splits if_splits)
  from verify_loop_verified [OF ev [unfolded verify_postconditions_def] r(1)] d st1 r show ?thesis by simp
qed

lemma attempt_verified:
  assumes "attempt env m act c k st = (Go (ds, Final Verified ob), st1)"
  shows "\<exists>evs o1. es_trace st1 = es_trace st @ evs \<and> ob = Some o1 \<and> earned env act c o1 ds evs"
proof -
  have "\<exists>s1 s2 o1 evs policy. es_trace s1 = es_trace st @ evs
    \<and> (observe_dispatched env act c s1 = (Go o1, s2) \<or> observe_simulated env act c s1 = (Go o1, s2))
    \<and> verify_phase env act c policy k o1 \<lparr>sm_state = Observing\<rparr> s2 = (Go (ds, Final Verified ob), st1)"
  proof (cases m)
    case Simulated
    with assms obtain sm s1 o1 s2 where "prepare env act c st = (Go sm, s1)"
      "observe_simulated env act c s1 = (Go o1, s2)"
      "verify_phase env act c Release k o1 \<lparr>sm_state = Observing\<rparr> s2 = (Go (ds, Final Verified ob), st1)"
      by (auto simp: attempt_def attempt_simulated_eq bind_phase_Go)
    then show ?thesis using prepare_events by (metis phase.distinct(1))
  next
    case Dispatching
    with assms obtain sm s0 sm1 s1 o1 s2 where 0: "prepare env act c st = (Go sm, s0)"
      "dispatch_phase env act sm s0 = (Go sm1, s1)" "observe_dispatched env act c s1 = (Go o1, s2)"
      "verify_phase env act c ConsumeUnknown k o1 \<lparr>sm_state = Observing\<rparr> s2 = (Go (ds, Final Verified ob), st1)"
      by (auto simp: attempt_def attempt_dispatched_eq bind_phase_Go)
    obtain evs where "es_trace s0 = es_trace st @ evs" using prepare_events [OF 0(1)] by blast
    moreover obtain d where "es_trace s1 = es_trace s0 @ d"
      using dispatch_events [of env act s0 "Go sm1" s1] 0 prepare_go [OF 0(1)] by auto
    ultimately show ?thesis using 0 by (metis append.assoc)
  qed
  then obtain s1 s2 o1 evs policy where s: "es_trace s1 = es_trace st @ evs"
    "observe_dispatched env act c s1 = (Go o1, s2) \<or> observe_simulated env act c s1 = (Go o1, s2)"
    "verify_phase env act c policy k o1 \<lparr>sm_state = Observing\<rparr> s2 = (Go (ds, Final Verified ob), st1)"
    by blast
  from observe_go [OF s(2)] obtain seen where "es_trace s2 = es_trace s1 @ seen" "observed env act c o1 seen"
    by blast
  then show ?thesis using s(1) verify_phase_verified [OF s(3)]
    by (intro exI [of _ "evs @ seen @ [EvVerdict Verified]"] exI [of _ o1])
      (auto simp: earned_def intro: observed_mono)
qed

lemma bind_phase_Stop:
  "bind_phase m k st = (Stop r, st2) \<Longrightarrow>
   m st = (Stop r, st2) \<or> (\<exists>x st1. m st = (Go x, st1) \<and> k x st1 = (Stop r, st2))"
  by (auto simp: bind_phase_def split: prod.splits phase.splits)

lemma attempt_stop: "attempt env m act c k st = (Stop r, st1) \<Longrightarrow> r = Failed \<or> r = Unknown"
  by (cases m) (auto simp: attempt_def attempt_dispatched_eq attempt_simulated_eq verify_phase_eq
      observe_simulated_def fabricate_observation_def abort_claimed_run_def Let_def
      dest!: bind_phase_Stop prepare_events prepare_go dispatch_events observe_events
      split: sum.splits option.splits prod.splits)

text \<open>Every step of a run only adds to the trace.\<close>

definition grows :: "(('w, 's, 'r) exec_state \<Rightarrow> 'a phase \<times> ('w, 's, 'r) exec_state) \<Rightarrow> bool" where
  "grows m \<longleftrightarrow> (\<forall>st p st1. m st = (p, st1) \<longrightarrow> (\<exists>evs. es_trace st1 = es_trace st @ evs))"

lemma growsD: "grows m \<Longrightarrow> m st = (p, st1) \<Longrightarrow> \<exists>evs. es_trace st1 = es_trace st @ evs"
  by (simp add: grows_def)

lemma grows_bind: "grows m \<Longrightarrow> (\<And>x. grows (k x)) \<Longrightarrow> grows (bind_phase m k)"
  unfolding grows_def
  by (force simp: bind_phase_def split: prod.splits phase.splits)

lemma grows_phases:
  "grows (prepare env act c)" "grows (observe_simulated env act c)"
  "grows (verify_phase env act c policy k obs \<lparr>sm_state = Observing\<rparr>)"
proof -
  show "grows (prepare env act c)" using prepare_events unfolding grows_def by blast
  show "grows (verify_phase env act c policy k obs \<lparr>sm_state = Observing\<rparr>)"
    using verify_events unfolding grows_def by blast
  show "grows (observe_simulated env act c)"
    unfolding grows_def
    by (auto simp: observe_simulated_def fabricate_observation_def abort_claimed_run_def resolve_trace Let_def
      split: prod.splits sum.splits option.splits dest!: run_observer_trace)
qed

lemma attempt_grows: "grows (attempt env m act c k)"
proof (cases m)
  case Simulated
  then show ?thesis by (simp add: attempt_def attempt_simulated_eq grows_bind grows_phases)
next
  case Dispatching
  then show ?thesis using attempt_dispatched_events unfolding grows_def attempt_def by fastforce
qed

lemma run_loop_verified:
  "run_loop env m act c a ds st = (Inr (Verified, ob, k, ds1), st1) \<Longrightarrow>
   \<exists>evs o1. es_trace st1 = es_trace st @ evs \<and> ob = Some o1 \<and> earned env act c o1 ds1 evs"
proof (induction env m act c a ds st rule: run_loop.induct)
  case (1 env m act c a ds st)
  obtain p s1 where att: "attempt env m act c (a + 1) st = (p, s1)"
    by (cases "attempt env m act c (a + 1) st")
  with "1.prems" attempt_stop [of env m act c "a + 1" st Verified s1]
  consider "p = Go (ds1, Final Verified ob)" "s1 = st1"
    | ds2 ms where "p = Go (ds2, Again ms)"
        "run_loop env m act c (a + 1) ds2 (sleep env ms s1) = (Inr (Verified, ob, k, ds1), st1)"
    by (auto simp: run_loop.simps [of env m act c a] split: phase.splits prod.splits decision.splits)
  then show ?case
  proof cases
    case 1
    with att attempt_verified show ?thesis by blast
  next
    case 2
    from "1.IH" [OF att [symmetric] 2(1) refl refl] 2(2) obtain evs o1 where
      rest: "es_trace st1 = es_trace (sleep env ms s1) @ evs" "ob = Some o1" "earned env act c o1 ds1 evs"
      by blast
    moreover from growsD [OF attempt_grows att] obtain evs0 where "es_trace s1 = es_trace st @ evs0" by blast
    ultimately show ?thesis
      by (intro exI [of _ "evs0 @ EvSleep ms # evs"] exI [of _ o1]) (auto intro: earned_mono)
  qed
qed

section \<open>The receipt\<close>

lemma with_results_sel:
  "rc_observations (fold (with_postcondition_result rl) ds x) = rc_observations x"
  "rc_postcondition_results (fold (with_postcondition_result rl) ds x) = rc_postcondition_results x @ ds"
  by (induction ds arbitrary: x) (simp_all add: with_postcondition_result_def Let_def)

lemma finish_receipt:
  assumes "finish env act c r (Some o1) k ds st = (Inr (r1, x), st1)"
  shows "rc_observations x = [o1] \<and> rc_postcondition_results x = ds"
  using assms
  by (auto simp: finish_def create_receipt_with_observation_def with_results_sel with_observation_def
      with_contract_version_and_key_def with_digest_def Let_def split: prod.splits)

lemma run_claimed_verified:
  assumes "run_claimed env m act c st = (Inr (Verified, x), st1)"
  shows "\<exists>evs o1. es_trace st1 = es_trace st @ evs \<and> rc_observations x = [o1]
    \<and> earned env act c o1 (rc_postcondition_results x) evs"
proof -
  from assms obtain ob k ds s1 where loop: "run_loop env m act c 0 [] st = (Inr (Verified, ob, k, ds), s1)"
    and fin: "finish env act c Verified ob k ds s1 = (Inr (Verified, x), st1)"
    using finish_sel(1)
    by (fastforce simp: run_claimed_def split: prod.splits sum.splits)
  from run_loop_verified [OF loop] obtain evs o1 where
    *: "es_trace s1 = es_trace st @ evs" "ob = Some o1" "earned env act c o1 ds evs" by blast
  from finish_sel(3) [OF fin] obtain tail where "es_trace st1 = es_trace s1 @ tail" by blast
  with * finish_receipt [OF fin [unfolded *(2)]] show ?thesis
    by (intro exI [of _ "evs @ tail"] exI [of _ o1]) (auto intro: earned_mono)
qed

text \<open>For the witness: the scripted observer shows what the contract asks for.\<close>

definition done_seen :: observe_result where
  "done_seen = Some (Inr (new_observation 0 ''db'' (JObject [(''done'', JBool True)])))"

lemma done_seen_verifies:
  "verify_postconditions literal_ext script_action script_contract
     (new_observation 0 ''db'' (JObject [(''done'', JBool True)]))
   = Inr \<lparr>pv_result = Verified, pv_details = [postcondition_detail
       \<lparr>post_predicate = Exists ''done'', post_description = ''done'', mandatory = True\<rparr> True None]\<rparr>"
  by (simp add: verify_postconditions_def script_contract_def with_postcondition_def new_contract_def
      evaluate_fresh_def eval_exists_def get_path_def new_observation_def)

lemma script_run_verifies:
  "\<exists>x st1. execute_with_executor (script_env id) script_action script_contract
     (script_state new_registry ([Inr Completed_out], [done_seen])) = (Inr (Verified, x), st1)"
proof -
  let ?st = "log_event (EvClaim ''k'' (Claimed, None))
    ((script_state new_registry ([Inr Completed_out], [done_seen]))\<lparr>es_store := [''k'' \<mapsto> InFlight]\<rparr>)"
  have "\<exists>o1 ds k s. run_loop (script_env id) Dispatching script_action script_contract 0 [] ?st =
      (Inr (Verified, Some o1, k, ds), s)"
    by (simp add: run_loop.simps attempt_def attempt_dispatched_eq bind_phase_def dispatch_phase_def Let_def
      observe_dispatched_def run_observer_def done_seen_def verify_phase_eq done_seen_verifies)
  then obtain o1 ds k s where loop: "run_loop (script_env id) Dispatching script_action script_contract 0 [] ?st =
      (Inr (Verified, Some o1, k, ds), s)" by blast
  obtain res st1 where fin: "finish (script_env id) script_action script_contract Verified (Some o1) k ds s = (res, st1)"
    by (cases "finish (script_env id) script_action script_contract Verified (Some o1) k ds s")
  have "claim_or_check (script_env id) ''k'' (script_state new_registry ([Inr Completed_out], [done_seen]))
      = ((Claimed, None), ?st)"
    by (simp add: claim_or_check_def registry_claim_or_check_def new_registry_def)
  with loop fin finish_sel(1) [OF fin] show ?thesis
    by (auto simp: execute_with_executor_def run_claimed_def)
qed

section \<open>Properties\<close>

text \<open>
  Property C1 (safety): a \<open>Verified\<close> answer is earned. When \<open>execute_with_executor\<close> runs with an
  observer and answers \<open>Verified\<close>, then either the idempotency store answered with a recorded
  verdict, or the run itself observed a state, answered by the observer in this run, in which
  every postcondition of the contract is true; and the receipt it returns carries exactly that
  observation and one passed entry for each postcondition, in contract order.
\<close>

theorem verified_is_earned:
  assumes "execute_with_executor env act c st = (Inr (Verified, x), st1)" "ee_observer env = Some f"
  shows "\<exists>evs. es_trace st1 = es_trace st @ evs \<and>
    ((\<exists>key a. EvClaim key (a, Some Verified) \<in> set evs) \<or>
     (\<exists>o1. EvObserve (Some (Inr o1)) \<in> set evs
       \<and> (\<exists>w. fst (f (verification_timeout_ms (ee_config env)) act c w) = Some (Inr o1))
       \<and> list_all (\<lambda>pc. psem (ee_engine env) (obs_state o1) (arguments act) (post_predicate pc))
           (postconditions c)
       \<and> rc_observations x = [o1]
       \<and> rc_postcondition_results x = map (\<lambda>pc. postcondition_detail pc True None) (postconditions c)))"
proof -
  have run: ?thesis if "run_claimed env Dispatching act c s = (Inr (Verified, x), st1)"
    "es_trace s = es_trace st @ pre" for s pre
    using run_claimed_verified [OF that(1)] that(2) assms(2)
    by (fastforce simp: earned_def observed_def)
  show ?thesis
  proof (cases "act_idempotency_key act")
    case None
    with assms run [of st "[]"] show ?thesis by (simp add: execute_with_executor_def)
  next
    case (Some key)
    obtain q a s where cl: "claim_or_check env key st = ((q, a), s)" by (metis prod.exhaust)
    obtain q' a' s' where cl': "claim_or_check env key (sleep env 50 s) = ((q', a'), s')"
      by (metis prod.exhaust)
    note tr = claim_or_check_trace [OF cl] claim_or_check_trace [OF cl', simplified]
    have ans: "es_trace st1 = es_trace t \<and> r = Verified"
      if "answer_without_run env act c r t = (Inr (Verified, x), st1)" for r t
      using answer_without_run_sel(1,3) [OF that] by simp
    show ?thesis
    proof (cases q)
      case Claimed
      with assms(1) Some cl run [of s "[EvClaim key (q, a)]"] tr show ?thesis
        by (simp add: execute_with_executor_def)
    next
      case AlreadyClaimed
      with assms(1) Some cl cl' show ?thesis using tr
        by (fastforce simp: execute_with_executor_def split: option.splits dest!: ans)
    qed
  qed
qed

theorem verified_is_earned_witness:
  "\<exists>x st1. execute_with_executor (script_env id) script_action script_contract
     (script_state new_registry ([Inr Completed_out], [done_seen])) = (Inr (Verified, x), st1)
   \<and> ((\<exists>key a. EvClaim key (a, Some Verified) \<in> set (es_trace st1))
      \<or> (\<exists>o1. EvObserve (Some (Inr o1)) \<in> set (es_trace st1) \<and> rc_observations x = [o1]))"
proof -
  obtain x st1 where run: "execute_with_executor (script_env id) script_action script_contract
     (script_state new_registry ([Inr Completed_out], [done_seen])) = (Inr (Verified, x), st1)"
    using script_run_verifies by blast
  from verified_is_earned [OF run] run show ?thesis by (auto simp: script_simps)
qed

end
