(* ===== verification/Contract_Parse.thy ===== *)
theory Contract_Parse
  imports Contract File_System
begin

text \<open>
  Contract files (\<open>agentverify-contract/src/contract.rs\<close>): source locations and contexts of
  errors, the error type with its messages and the two methods that fill in missing context,
  the validation of parsed contracts and their predicates, and parsing, loading and printing.
  The JSON and YAML readers and printers are the fields of \<open>contract_lib\<close>; an underlying error
  is its message.
\<close>

section \<open>Locations, contexts and errors\<close>

record source_location =
  loc_file :: string
  loc_line :: u32
  loc_column :: "u32 option"

definition show_location :: "source_location \<Rightarrow> string" where
  "show_location l =
     loc_file l @ '':'' @ show_nat (unat (loc_line l)) @
     (case loc_column l of None \<Rightarrow> [] | Some c \<Rightarrow> '':'' @ show_nat (unat c))"

definition new_location :: "string \<Rightarrow> u32 \<Rightarrow> source_location" where
  "new_location file line = \<lparr>loc_file = file, loc_line = line, loc_column = None\<rparr>"

definition with_column :: "string \<Rightarrow> u32 \<Rightarrow> u32 \<Rightarrow> source_location" where
  "with_column file line col = \<lparr>loc_file = file, loc_line = line, loc_column = Some col\<rparr>"

record contract_context =
  ctx_contract_id :: "contract_id option"
  ctx_action_name :: "string option"

definition with_action :: "string \<Rightarrow> contract_context" where
  "with_action a = \<lparr>ctx_contract_id = None, ctx_action_name = Some a\<rparr>"

definition with_contract_id :: "contract_id \<Rightarrow> contract_context" where
  "with_contract_id i = \<lparr>ctx_contract_id = Some i, ctx_action_name = None\<rparr>"

definition show_context :: "(uuid \<Rightarrow> string) \<Rightarrow> contract_context \<Rightarrow> string" where
  "show_context su c =
     (let ids = (case ctx_contract_id c of None \<Rightarrow> [] | Some i \<Rightarrow> ''contract_id='' @ su i);
          names = (case ctx_action_name c of None \<Rightarrow> [] | Some n \<Rightarrow> ''action_name='' @ n)
      in ids @ (if ctx_contract_id c \<noteq> None \<and> ctx_action_name c \<noteq> None then '', '' else []) @ names)"

datatype contract_error =
    JsonError string "source_location option" "contract_context option"
  | YamlError string "source_location option" "contract_context option"
  | IoError string "source_location option" "contract_context option"
  | InvalidContract string "source_location option" "contract_context option"
  | InvalidPredicate string string "contract_context option"
  | SchemaVersionMismatch string string "contract_context option"
  | UnknownFileExtension string "source_location option" "contract_context option"

definition show_context_part :: "(uuid \<Rightarrow> string) \<Rightarrow> contract_context option \<Rightarrow> string" where
  "show_context_part su c =
     (case c of
        None \<Rightarrow> []
      | Some ctx \<Rightarrow> let s = show_context su ctx in if s = [] then [] else '' ['' @ s @ '']'')"

definition fmt_ctx ::
  "(uuid \<Rightarrow> string) \<Rightarrow> source_location option \<Rightarrow> contract_context option \<Rightarrow> string" where
  "fmt_ctx su l c =
     (case l of None \<Rightarrow> [] | Some loc \<Rightarrow> '' ('' @ show_location loc @ '')'') @ show_context_part su c"

fun show_contract_error :: "(uuid \<Rightarrow> string) \<Rightarrow> contract_error \<Rightarrow> string" where
  "show_contract_error su (JsonError e l c) = ''Failed to parse JSON'' @ fmt_ctx su l c @ '': '' @ e"
| "show_contract_error su (YamlError e l c) = ''Failed to parse YAML'' @ fmt_ctx su l c @ '': '' @ e"
| "show_contract_error su (IoError e l c) = ''Failed to read file: '' @ e @ fmt_ctx su l c"
| "show_contract_error su (InvalidContract r l c) = ''Invalid contract'' @ fmt_ctx su l c @ '': '' @ r"
| "show_contract_error su (InvalidPredicate r p c) =
     ''Invalid predicate'' @ show_context_part su c @ '' at '' @ p @ '': '' @ r"
| "show_contract_error su (SchemaVersionMismatch e a c) =
     ''Schema version mismatch: expected '' @ e @ '', got '' @ a @ fmt_ctx su None c"
| "show_contract_error su (UnknownFileExtension x l c) =
     ''Unknown file extension: '' @ x @ fmt_ctx su l c"

record predicate_path =
  pp_path :: string

definition show_predicate_path :: "predicate_path \<Rightarrow> string" where
  "show_predicate_path p = ''at '' @ pp_path p"

text \<open>The underlying error, for the errors that wrap one.\<close>

fun error_source :: "contract_error \<Rightarrow> string option" where
  "error_source (JsonError e l c) = Some e"
| "error_source (YamlError e l c) = Some e"
| "error_source (IoError e l c) = Some e"
| "error_source _ = None"

fun with_location :: "source_location \<Rightarrow> contract_error \<Rightarrow> contract_error" where
  "with_location l (JsonError e None c) = JsonError e (Some l) c"
| "with_location l (YamlError e None c) = YamlError e (Some l) c"
| "with_location l (IoError e None c) = IoError e (Some l) c"
| "with_location l (InvalidContract r None c) = InvalidContract r (Some l) c"
| "with_location l (UnknownFileExtension x None c) = UnknownFileExtension x (Some l) c"
| "with_location l other = other"

fun with_context :: "contract_context \<Rightarrow> contract_error \<Rightarrow> contract_error" where
  "with_context x (JsonError e l None) = JsonError e l (Some x)"
| "with_context x (YamlError e l None) = YamlError e l (Some x)"
| "with_context x (IoError e l None) = IoError e l (Some x)"
| "with_context x (InvalidContract r l None) = InvalidContract r l (Some x)"
| "with_context x (SchemaVersionMismatch e a None) = SchemaVersionMismatch e a (Some x)"
| "with_context x (InvalidPredicate r p None) = InvalidPredicate r p (Some x)"
| "with_context x (UnknownFileExtension e l None) = UnknownFileExtension e l (Some x)"
| "with_context x other = other"

fun error_context :: "contract_error \<Rightarrow> contract_context option" where
  "error_context (JsonError e l c) = c"
| "error_context (YamlError e l c) = c"
| "error_context (IoError e l c) = c"
| "error_context (InvalidContract r l c) = c"
| "error_context (InvalidPredicate r p c) = c"
| "error_context (SchemaVersionMismatch e a c) = c"
| "error_context (UnknownFileExtension x l c) = c"

definition error_contract_id :: "contract_error \<Rightarrow> contract_id option" where
  "error_contract_id e = Option.bind (error_context e) ctx_contract_id"

definition error_action_name :: "contract_error \<Rightarrow> string option" where
  "error_action_name e = Option.bind (error_context e) ctx_action_name"

section \<open>Validation\<close>

definition indexed :: "string \<Rightarrow> nat \<Rightarrow> string" where
  "indexed path i = path @ ''['' @ show_nat i @ '']''"

fun validate_predicate ::
  "predicate \<Rightarrow> string \<Rightarrow> contract_context option \<Rightarrow> contract_error + unit"
and validate_predicates ::
  "predicate list \<Rightarrow> nat \<Rightarrow> string \<Rightarrow> contract_context option \<Rightarrow> contract_error + unit" where
  "validate_predicate (PAll ps) path ctx =
     (if ps = [] then Inl (InvalidPredicate ''All predicate must have at least one predicate'' path ctx)
      else validate_predicates ps 0 path ctx)"
| "validate_predicate (PAny ps) path ctx =
     (if ps = [] then Inl (InvalidPredicate ''Any predicate must have at least one predicate'' path ctx)
      else validate_predicates ps 0 path ctx)"
| "validate_predicate (PNot p) path ctx = validate_predicate p (path @ ''.not'') ctx"
| "validate_predicate (Implies a q) path ctx =
     and_then_res (validate_predicate a (path @ ''.antecedent'') ctx)
       (\<lambda>_. validate_predicate q (path @ ''.consequent'') ctx)"
| "validate_predicate _ path ctx = Inr ()"
| "validate_predicates [] i path ctx = Inr ()"
| "validate_predicates (p # ps) i path ctx =
     and_then_res (validate_predicate p (indexed path i) ctx)
       (\<lambda>_. validate_predicates ps (Suc i) path ctx)"

definition validate_contract :: "contract \<Rightarrow> contract_error + unit" where
  "validate_contract c =
     (let ctx = Some (with_action (action_name c))
      in if action_name c = [] then Inl (InvalidContract ''action_name cannot be empty'' None ctx)
         else if postconditions c = [] then
           Inl (InvalidContract ''Contract must have at least one postcondition'' None ctx)
         else and_then_res
           (validate_predicates (map post_predicate (postconditions c)) 0 ''postconditions'' ctx)
           (\<lambda>_. validate_predicates (map pre_predicate (preconditions c)) 0 ''preconditions'' ctx))"

section \<open>Parsing, loading and printing\<close>

record contract_lib =
  json_from_str :: "string \<Rightarrow> string + contract"
  yaml_from_str :: "string \<Rightarrow> string + contract"
  json_to_string :: "contract \<Rightarrow> string + string"
  yaml_to_string :: "contract \<Rightarrow> string + string"

definition parse_json :: "contract_lib \<Rightarrow> string \<Rightarrow> contract_error + contract" where
  "parse_json lib s =
     and_then_res (map_err (\<lambda>e. JsonError e None None) (json_from_str lib s))
       (\<lambda>c. and_then_res (validate_contract c) (\<lambda>_. Inr c))"

definition parse_yaml :: "contract_lib \<Rightarrow> string \<Rightarrow> contract_error + contract" where
  "parse_yaml lib s =
     and_then_res (map_err (\<lambda>e. YamlError e None None) (yaml_from_str lib s))
       (\<lambda>c. and_then_res (validate_contract c) (\<lambda>_. Inr c))"

text \<open>The outcome of reading the file is an argument: the content or the message of the error.\<close>

definition load_file :: "contract_lib \<Rightarrow> path \<Rightarrow> string + string \<Rightarrow> contract_error + contract" where
  "load_file lib p content =
     (let loc = new_location p 1
      in case content of
           Inl e \<Rightarrow> Inl (IoError e (Some loc) None)
         | Inr s \<Rightarrow>
             (case extension_of_path p of
                Some ext \<Rightarrow>
                  if ext = ''json'' then map_err (with_location loc) (parse_json lib s)
                  else if ext = ''yaml'' \<or> ext = ''yml'' then map_err (with_location loc) (parse_yaml lib s)
                  else Inl (UnknownFileExtension ext (Some loc) None)
              | None \<Rightarrow>
                  map_err (with_location loc)
                    (case parse_json lib s of Inr c \<Rightarrow> Inr c | Inl _ \<Rightarrow> parse_yaml lib s)))"

definition to_json :: "contract_lib \<Rightarrow> contract \<Rightarrow> contract_error + string" where
  "to_json lib c = map_err (\<lambda>e. JsonError e None None) (json_to_string lib c)"

definition to_yaml :: "contract_lib \<Rightarrow> contract \<Rightarrow> contract_error + string" where
  "to_yaml lib c = map_err (\<lambda>e. YamlError e None None) (yaml_to_string lib c)"

section \<open>Lemmas\<close>

text \<open>No \<open>All\<close> or \<open>Any\<close> without members, at any depth.\<close>

fun inhabited :: "predicate \<Rightarrow> bool" where
  "inhabited (PAll ps) = (ps \<noteq> [] \<and> list_all inhabited ps)"
| "inhabited (PAny ps) = (ps \<noteq> [] \<and> list_all inhabited ps)"
| "inhabited (PNot p) = inhabited p"
| "inhabited (Implies a q) = (inhabited a \<and> inhabited q)"
| "inhabited _ = True"

lemma validate_predicate_ok:
  "validate_predicate p path ctx = Inr () \<longleftrightarrow> inhabited p"
  "validate_predicates ps i path ctx = Inr () \<longleftrightarrow> list_all inhabited ps"
  by (induction p path ctx and ps i path ctx rule: validate_predicate_validate_predicates.induct)
    (auto simp: and_then_res_ok)

lemma validate_contract_ok:
  "validate_contract c = Inr () \<longleftrightarrow>
   action_name c \<noteq> [] \<and> postconditions c \<noteq> [] \<and>
   list_all (inhabited \<circ> post_predicate) (postconditions c) \<and>
   list_all (inhabited \<circ> pre_predicate) (preconditions c)"
  by (auto simp: validate_contract_def Let_def and_then_res_ok validate_predicate_ok list_all_iff)

lemma map_err_ok: "map_err f r = Inr x \<longleftrightarrow> r = Inr x"
  by (simp add: map_err_def split: sum.split)

lemma parse_ok:
  "parse_json lib s = Inr c \<longleftrightarrow> json_from_str lib s = Inr c \<and> validate_contract c = Inr ()"
  "parse_yaml lib s = Inr c \<longleftrightarrow> yaml_from_str lib s = Inr c \<and> validate_contract c = Inr ()"
  by (auto simp: parse_json_def parse_yaml_def and_then_res_ok map_err_ok)

lemma or_else_ok:
  "(case r of Inr x \<Rightarrow> Inr x | Inl _ \<Rightarrow> q) = Inr c \<longleftrightarrow> r = Inr c \<or> q = Inr c \<and> (\<nexists>d. r = Inr d)"
  by (auto split: sum.split)

section \<open>Properties\<close>

text \<open>
  A file loads to a contract exactly when it can be read and the reader
  that its extension selects yields that contract (JSON first and YAML after it when there is no
  extension), the contract names its action and has a postcondition, and none of its predicates
  contains an empty \<open>All\<close> or \<open>Any\<close>.
\<close>

theorem load_file_ok_iff:
  "load_file lib p content = Inr c \<longleftrightarrow>
   (\<exists>s. content = Inr s \<and>
      (case extension_of_path p of
         Some ext \<Rightarrow> ext = ''json'' \<and> json_from_str lib s = Inr c
           \<or> ext \<in> {''yaml'', ''yml''} \<and> yaml_from_str lib s = Inr c
       | None \<Rightarrow> json_from_str lib s = Inr c
           \<or> yaml_from_str lib s = Inr c \<and> (\<nexists>d. parse_json lib s = Inr d))) \<and>
   action_name c \<noteq> [] \<and> postconditions c \<noteq> [] \<and>
   list_all (inhabited \<circ> post_predicate) (postconditions c) \<and>
   list_all (inhabited \<circ> pre_predicate) (preconditions c)"
proof (cases content)
  case (Inr s)
  show ?thesis
    unfolding validate_contract_ok [symmetric] load_file_def Let_def Inr
    by (cases "extension_of_path p") (auto simp: map_err_ok or_else_ok parse_ok)
qed (simp add: load_file_def Let_def)

text \<open>
  A contract that validates and is printed as JSON parses back to
  itself, provided \<open>serde_json\<close> reads what it printed.
\<close>

theorem contract_json_roundtrip:
  assumes "to_json lib c = Inr s" "json_from_str lib s = Inr c" "validate_contract c = Inr ()"
  shows "parse_json lib s = Inr c \<and> load_file lib ''c.json'' (Inr s) = Inr c"
  using assms by (simp add: parse_ok load_file_def map_err_ok extension_of_path_def path_extension_def
      rsplit_dot_def Let_def)

end
