(* ===== verification/Rest_Observer.thy ===== *)
theory Rest_Observer
  imports Executor Str_Ops
begin

text \<open>
  The REST observers: \<open>RestObserver\<close> of \<open>agentverify-http/src/observer.rs\<close> and its WebAssembly
  counterpart in \<open>wasm_observer.rs\<close>, with the HTTP client of \<open>wasm_client.rs\<close>. The HTTP stack, the
  JSON reader and writer and the pointer of \<open>serde_json\<close> are parameters; a request takes and
  returns the state of the outside.
\<close>

section \<open>Errors and configuration\<close>

datatype rest_observer_error =
    HttpError string
  | InvalidUrl string
  | ParseError_rest string
  | Timeout_rest
  | RedactedPath string

fun show_rest_error :: "rest_observer_error \<Rightarrow> string" where
  "show_rest_error (HttpError s) = ''HTTP request failed: '' @ s"
| "show_rest_error (InvalidUrl s) = ''Invalid URL: '' @ s"
| "show_rest_error (ParseError_rest s) = ''Response parse error: '' @ s"
| "show_rest_error Timeout_rest = ''Request timeout''"
| "show_rest_error (RedactedPath s) = ''Redacted value detected in path: '' @ s"

record rest_config =
  rest_base_url :: string
  rest_timeout_ms :: u64
  max_evidence_size :: nat
  redact_paths :: "string list"
  rest_headers :: "(string \<times> string) list"

definition new_rest_config :: "string \<Rightarrow> rest_config" where
  "new_rest_config url = \<lparr>rest_base_url = url, rest_timeout_ms = 5000, max_evidence_size = 1024 * 1024,
     redact_paths = [], rest_headers = []\<rparr>"

definition rest_with_timeout :: "u64 \<Rightarrow> rest_config \<Rightarrow> rest_config" where
  "rest_with_timeout ms cfg = cfg\<lparr>rest_timeout_ms := ms\<rparr>"

definition with_redact_path :: "string \<Rightarrow> rest_config \<Rightarrow> rest_config" where
  "with_redact_path p cfg = cfg\<lparr>redact_paths := redact_paths cfg @ [p]\<rparr>"

definition with_header :: "string \<Rightarrow> string \<Rightarrow> rest_config \<Rightarrow> rest_config" where
  "with_header k v cfg = cfg\<lparr>rest_headers := rest_headers cfg @ [(k, v)]\<rparr>"

definition with_max_evidence_size :: "nat \<Rightarrow> rest_config \<Rightarrow> rest_config" where
  "with_max_evidence_size n cfg = cfg\<lparr>max_evidence_size := n\<rparr>"

definition default_rest_config :: rest_config where
  "default_rest_config = new_rest_config ''http://localhost:8080''"

section \<open>The observer\<close>

text \<open>
  \<open>http_get\<close> performs a request under a timeout with headers: an error, or the status and the
  body read as JSON. \<open>pointer_set\<close> replaces the value a pointer names, if it names one.
\<close>

record ('cl, 'w) rest_lib =
  http_client :: "u64 \<Rightarrow> string + 'cl"
  http_get :: "'cl \<Rightarrow> string \<Rightarrow> (string \<times> string) list \<Rightarrow> 'w \<Rightarrow> (string + nat \<times> (string + json)) \<times> 'w"
  show_status :: "nat \<Rightarrow> string"
  pointer_set :: "string \<Rightarrow> json \<Rightarrow> json \<Rightarrow> json option"
  rest_to_string :: "json \<Rightarrow> string option"
  rest_show_uuid :: "uuid \<Rightarrow> string"

record 'cl rest_observer =
  re_client :: 'cl
  re_config :: rest_config

definition new_rest_observer ::
  "('cl, 'w) rest_lib \<Rightarrow> rest_config \<Rightarrow> rest_observer_error + 'cl rest_observer" where
  "new_rest_observer lib cfg =
     (case http_client lib (rest_timeout_ms cfg) of
        Inl e \<Rightarrow> Inl (HttpError e) | Inr cl \<Rightarrow> Inr \<lparr>re_client = cl, re_config = cfg\<rparr>)"

text \<open>\<open>s.find(p)\<close>, as the rest of the string from the first occurrence on.\<close>

fun find_str :: "string \<Rightarrow> string \<Rightarrow> string option" where
  "find_str p [] = (if p = [] then Some [] else None)"
| "find_str p (x # xs) = (if starts_with p (x # xs) then Some (x # xs) else find_str p xs)"

definition observation_url :: "string \<Rightarrow> string \<Rightarrow> string \<Rightarrow> string" where
  "observation_url base name uid = trim_end_char CHR ''/'' base @ ''/'' @ name @ ''/'' @ uid"

text \<open>The part of a URL from the first slash after the host on, if there is one.\<close>

definition path_portion :: "string \<Rightarrow> string option" where
  "path_portion url =
     Option.bind (find_str ''://'' url) (\<lambda>rest. find_str ''/'' (drop 3 rest))"

definition build_url ::
  "('cl, 'w) rest_lib \<Rightarrow> rest_config \<Rightarrow> action \<Rightarrow> contract \<Rightarrow> rest_observer_error + string" where
  "build_url lib cfg act c =
     (let url = observation_url (rest_base_url cfg) (action_name c) (rest_show_uuid lib (act_id act))
      in if contains_str ''..'' url then Inl (InvalidUrl url)
         else case path_portion url of
           Some p \<Rightarrow> if contains_str ''//'' p then Inl (InvalidUrl url) else Inr url
         | None \<Rightarrow> Inr url)"

definition fetch_json ::
  "('cl, 'w) rest_lib \<Rightarrow> 'cl rest_observer \<Rightarrow> string \<Rightarrow> 'w \<Rightarrow> (rest_observer_error + json) \<times> 'w" where
  "fetch_json lib ob url w =
     (case http_get lib (re_client ob) url (rest_headers (re_config ob)) w of
        (Inl e, w1) \<Rightarrow> (Inl (HttpError e), w1)
      | (Inr (status, body), w1) \<Rightarrow>
          (if 200 \<le> status \<and> status < 300 then
             (map_err (\<lambda>e. ParseError_rest (''Failed to parse response: '' @ e)) body, w1)
           else (Inl (ParseError_rest (''HTTP error: '' @ show_status lib status)), w1)))"

definition redact :: "('cl, 'w) rest_lib \<Rightarrow> string list \<Rightarrow> json \<Rightarrow> json" where
  "redact lib paths v =
     fold (\<lambda>p v. case pointer_set lib p (JString ''[REDACTED]'') v of Some v1 \<Rightarrow> v1 | None \<Rightarrow> v) paths v"

definition truncated_text :: "nat \<Rightarrow> nat \<Rightarrow> string" where
  "truncated_text sz limit = ''[TRUNCATED: '' @ show_nat sz @ '' > '' @ show_nat limit @ '' bytes]''"

definition truncate_evidence :: "('cl, 'w) rest_lib \<Rightarrow> rest_config \<Rightarrow> json \<Rightarrow> json" where
  "truncate_evidence lib cfg v =
     (let sz = length (case rest_to_string lib v of Some s \<Rightarrow> s | None \<Rightarrow> [])
      in if sz > max_evidence_size cfg then JString (truncated_text sz (max_evidence_size cfg)) else v)"

text \<open>The first redaction path that occurs in the URL.\<close>

definition redacted_in_url :: "string list \<Rightarrow> string \<Rightarrow> string option" where
  "redacted_in_url paths url = find (\<lambda>p. contains_str p url) paths"

definition rest_observe ::
  "('cl, 'w) rest_lib \<Rightarrow> 'cl rest_observer \<Rightarrow> datetime \<Rightarrow> action \<Rightarrow> contract \<Rightarrow> 'w
   \<Rightarrow> (executor_error + observation) \<times> 'w" where
  "rest_observe lib ob now act c w =
     (let cfg = re_config ob
      in case build_url lib cfg act c of
           Inl e \<Rightarrow> (Inl (Unknown_err (''Failed to build URL: '' @ show_rest_error e)), w)
         | Inr url \<Rightarrow>
             (case redacted_in_url (redact_paths cfg) url of
                Some p \<Rightarrow> (Inl (Unknown_err (''Redacted path in URL: '' @ p)), w)
              | None \<Rightarrow>
                  (case fetch_json lib ob url w of
                     (Inl e, w1) \<Rightarrow> (Inl (Unknown_err (''Failed to fetch: '' @ show_rest_error e)), w1)
                   | (Inr state, w1) \<Rightarrow>
                       (Inr (new_observation now ''rest'' (truncate_evidence lib cfg (redact lib (redact_paths cfg) state))),
                        w1))))"

section \<open>WebAssembly\<close>

datatype wasm_http_error =
    RequestFailed string
  | InvalidResponse_wasm string
  | HttpError_wasm nat string

fun show_wasm_http_error :: "wasm_http_error \<Rightarrow> string" where
  "show_wasm_http_error (RequestFailed s) = ''Request failed: '' @ s"
| "show_wasm_http_error (InvalidResponse_wasm s) = ''Invalid response: '' @ s"
| "show_wasm_http_error (HttpError_wasm status s) = ''HTTP error: '' @ show_nat status @ '' - '' @ s"

record wasm_fetch_options =
  wf_headers :: "string \<Rightarrow> string option"
  wf_timeout_ms :: "u32 option"

record wasm_http_client =
  wc_base_url :: string
  wc_options :: wasm_fetch_options

definition new_wasm_client :: "string \<Rightarrow> wasm_http_client" where
  "new_wasm_client base = \<lparr>wc_base_url = trim_end_char CHR ''/'' base,
     wc_options = \<lparr>wf_headers = Map.empty, wf_timeout_ms = None\<rparr>\<rparr>"

definition wc_with_headers :: "(string \<Rightarrow> string option) \<Rightarrow> wasm_http_client \<Rightarrow> wasm_http_client" where
  "wc_with_headers hs cl = cl\<lparr>wc_options := (wc_options cl)\<lparr>wf_headers := hs\<rparr>\<rparr>"

definition wc_with_timeout :: "u32 \<Rightarrow> wasm_http_client \<Rightarrow> wasm_http_client" where
  "wc_with_timeout ms cl = cl\<lparr>wc_options := (wc_options cl)\<lparr>wf_timeout_ms := Some ms\<rparr>\<rparr>"

text \<open>
  The browser: building a request from method, URL and body, fetching it, and the text of the
  response, each of which can fail. Nothing else of the client reaches it.
\<close>

record 'w browser =
  br_fetch :: "string \<Rightarrow> string \<Rightarrow> string option \<Rightarrow> 'w \<Rightarrow> (string + nat \<times> (string + string)) \<times> 'w"
  br_from_str :: "string \<Rightarrow> string + json"
  br_to_string :: "json \<Rightarrow> string + string"
  br_show_uuid :: "uuid \<Rightarrow> string"

definition fetch_text ::
  "'w browser \<Rightarrow> wasm_http_client \<Rightarrow> string \<Rightarrow> string \<Rightarrow> string option \<Rightarrow> 'w
   \<Rightarrow> (wasm_http_error + string) \<times> 'w" where
  "fetch_text br cl method url body w =
     (case br_fetch br method url body w of
        (Inl e, w1) \<Rightarrow> (Inl (RequestFailed e), w1)
      | (Inr (status, Inl e), w1) \<Rightarrow> (Inl (RequestFailed e), w1)
      | (Inr (status, Inr text), w1) \<Rightarrow>
          (if status < 200 \<or> status \<ge> 300 then (Inl (HttpError_wasm status text), w1) else (Inr text, w1)))"

definition wasm_url :: "wasm_http_client \<Rightarrow> string \<Rightarrow> string" where
  "wasm_url cl path = wc_base_url cl @ ''/'' @ trim_start_char CHR ''/'' path"

definition get_json ::
  "'w browser \<Rightarrow> wasm_http_client \<Rightarrow> string \<Rightarrow> 'w \<Rightarrow> (wasm_http_error + json) \<times> 'w" where
  "get_json br cl path w =
     apfst (\<lambda>r. and_then_res r (\<lambda>text. map_err InvalidResponse_wasm (br_from_str br text)))
       (fetch_text br cl ''GET'' (wasm_url cl path) None w)"

definition post_json ::
  "'w browser \<Rightarrow> wasm_http_client \<Rightarrow> string \<Rightarrow> json \<Rightarrow> 'w \<Rightarrow> (wasm_http_error + json) \<times> 'w" where
  "post_json br cl path body w =
     (case br_to_string br body of
        Inl e \<Rightarrow> (Inl (InvalidResponse_wasm e), w)
      | Inr text \<Rightarrow>
          apfst (\<lambda>r. and_then_res r (\<lambda>text. map_err InvalidResponse_wasm (br_from_str br text)))
            (fetch_text br cl ''POST'' (wasm_url cl path) (Some text) w))"

record wasm_rest_config =
  wr_base_url :: string
  wr_timeout_ms :: u32
  wr_max_evidence_size :: nat
  wr_redact_paths :: "string list"
  wr_headers :: "string \<Rightarrow> string option"

definition new_wasm_rest_config :: "string \<Rightarrow> wasm_rest_config" where
  "new_wasm_rest_config url = \<lparr>wr_base_url = url, wr_timeout_ms = 5000, wr_max_evidence_size = 1024 * 1024,
     wr_redact_paths = [], wr_headers = Map.empty\<rparr>"

definition wr_with_timeout :: "u32 \<Rightarrow> wasm_rest_config \<Rightarrow> wasm_rest_config" where
  "wr_with_timeout ms cfg = cfg\<lparr>wr_timeout_ms := ms\<rparr>"

definition wr_with_max_evidence_size :: "nat \<Rightarrow> wasm_rest_config \<Rightarrow> wasm_rest_config" where
  "wr_with_max_evidence_size n cfg = cfg\<lparr>wr_max_evidence_size := n\<rparr>"

definition default_wasm_rest_config :: wasm_rest_config where
  "default_wasm_rest_config = new_wasm_rest_config ''http://localhost:8080''"

definition wr_with_redact_path :: "string \<Rightarrow> wasm_rest_config \<Rightarrow> wasm_rest_config" where
  "wr_with_redact_path p cfg = cfg\<lparr>wr_redact_paths := wr_redact_paths cfg @ [p]\<rparr>"

definition wr_with_header :: "string \<Rightarrow> string \<Rightarrow> wasm_rest_config \<Rightarrow> wasm_rest_config" where
  "wr_with_header k v cfg = cfg\<lparr>wr_headers := (wr_headers cfg)(k \<mapsto> v)\<rparr>"

record wasm_rest_observer =
  wo_client :: wasm_http_client
  wo_config :: wasm_rest_config

definition new_wasm_rest_observer :: "wasm_rest_config \<Rightarrow> wasm_rest_observer" where
  "new_wasm_rest_observer cfg =
     \<lparr>wo_client = wc_with_timeout (wr_timeout_ms cfg) (wc_with_headers (wr_headers cfg)
        (new_wasm_client (wr_base_url cfg))), wo_config = cfg\<rparr>"

definition wasm_build_url ::
  "'w browser \<Rightarrow> wasm_rest_config \<Rightarrow> action \<Rightarrow> contract \<Rightarrow> string + string" where
  "wasm_build_url br cfg act c =
     (let url = observation_url (wr_base_url cfg) (action_name c) (br_show_uuid br (act_id act))
      in if contains_str ''..'' url then Inl ''Invalid URL: path traversal detected'' else Inr url)"

definition wasm_fetch_json ::
  "'w browser \<Rightarrow> wasm_rest_observer \<Rightarrow> string \<Rightarrow> 'w \<Rightarrow> (string + json) \<times> 'w" where
  "wasm_fetch_json br ob url w =
     apfst (map_err (\<lambda>e. ''HTTP request failed: '' @ show_wasm_http_error e)) (get_json br (wo_client ob) url w)"

text \<open>The walk along a path; an object is updated at the entry that the key names.\<close>

fun update_entry :: "string \<Rightarrow> json \<Rightarrow> (string \<times> json) list \<Rightarrow> (string \<times> json) list" where
  "update_entry k v [] = []"
| "update_entry k v ((l, u) # es) = (if k = l then (l, v) # es else (l, u) # update_entry k v es)"

fun redact_recursive :: "string list \<Rightarrow> json \<Rightarrow> json" where
  "redact_recursive [] v = v"
| "redact_recursive (key # rest) v =
     (case v of
        JObject es \<Rightarrow>
          (case map_of es key of
             Some u \<Rightarrow> JObject (update_entry key (redact_recursive rest u) es) | None \<Rightarrow> v)
      | JArray vs \<Rightarrow>
          (case parse_uint usize_max key of
             Some i \<Rightarrow> if i < length vs then JArray (vs[i := redact_recursive rest (vs ! i)]) else v
           | None \<Rightarrow> v)
      | _ \<Rightarrow> v)"

definition wasm_redact :: "string list \<Rightarrow> json \<Rightarrow> json" where
  "wasm_redact paths v =
     fold (\<lambda>p. redact_recursive (split_on CHR ''.'' (trim_start_char CHR ''$'' p))) paths v"

definition wasm_truncate :: "'w browser \<Rightarrow> wasm_rest_config \<Rightarrow> json \<Rightarrow> json" where
  "wasm_truncate br cfg v =
     (let sz = (case br_to_string br v of Inr s \<Rightarrow> length s | Inl _ \<Rightarrow> 0)
      in if sz > wr_max_evidence_size cfg then
           json_object [(''error'', JString ''evidence_truncated''), (''size'', JNumber (PosInt (of_nat sz))),
             (''max'', JNumber (PosInt (of_nat (wr_max_evidence_size cfg))))]
         else v)"

definition wasm_observe ::
  "'w browser \<Rightarrow> wasm_rest_observer \<Rightarrow> datetime \<Rightarrow> action \<Rightarrow> contract \<Rightarrow> 'w \<Rightarrow> (string + observation) \<times> 'w" where
  "wasm_observe br ob now act c w =
     (let cfg = wo_config ob
      in case wasm_build_url br cfg act c of
           Inl e \<Rightarrow> (Inl (''Failed to build URL: '' @ e), w)
         | Inr url \<Rightarrow>
             (case redacted_in_url (wr_redact_paths cfg) url of
                Some p \<Rightarrow> (Inl (''Redacted path in URL: '' @ p), w)
              | None \<Rightarrow>
                  (case wasm_fetch_json br ob url w of
                     (Inl e, w1) \<Rightarrow> (Inl e, w1)
                   | (Inr state, w1) \<Rightarrow>
                       (Inr (new_observation now ''rest''
                          (wasm_truncate br cfg (wasm_redact (wr_redact_paths cfg) state))), w1))))"

section \<open>Lemmas\<close>

lemma verify_loop_all_hold:
  assumes "\<And>pc. pc \<in> set pcs \<Longrightarrow> evaluate_fresh eng (post_predicate pc) (obs_state obs) (arguments act) = Inr Verified"
  shows "\<exists>ds. verify_loop eng act obs True mf details pcs = Inr \<lparr>pv_result = Verified, pv_details = ds\<rparr>"
  using assms by (induction pcs arbitrary: details) auto

lemma update_entry_same: "map_of es k = Some v \<Longrightarrow> update_entry k v es = es"
  by (induction es) (auto split: if_splits)

lemma redact_recursive_id: "redact_recursive ps v = v"
proof (induction ps arbitrary: v)
  case (Cons p ps)
  then show ?case by (auto simp: update_entry_same split: json.split option.split)
qed simp

section \<open>Properties\<close>

text \<open>
  Evidence that is too large verifies absence. When the response is longer
  than \<open>max_evidence_size\<close>, the observed state is a string in which no path names anything; so a
  contract whose postconditions all demand that a path does not exist is \<open>Verified\<close>, whatever
  the response contains.
\<close>

theorem truncated_evidence_verifies_absence:
  assumes "build_url lib (re_config ob) act c = Inr url"
    and "redacted_in_url (redact_paths (re_config ob)) url = None"
    and "fetch_json lib ob url w = (Inr state, w1)"
    and "rest_to_string lib (redact lib (redact_paths (re_config ob)) state) = Some body"
    and "max_evidence_size (re_config ob) < length body"
    and "\<forall>pc \<in> set (postconditions c). \<exists>p. post_predicate pc = NotExists p"
  shows "\<exists>obs ds. rest_observe lib ob now act c w = (Inr obs, w1) \<and>
    verify_postconditions eng act c obs = Inr \<lparr>pv_result = Verified, pv_details = ds\<rparr>"
proof -
  let ?obs = "new_observation now ''rest'' (JString (truncated_text (length body) (max_evidence_size (re_config ob))))"
  have "rest_observe lib ob now act c w = (Inr ?obs, w1)"
    using assms(1-5) by (simp add: rest_observe_def truncate_evidence_def Let_def)
  moreover have "evaluate_fresh eng (post_predicate pc) (obs_state ?obs) (arguments act) = Inr Verified"
    if "pc \<in> set (postconditions c)" for pc
    using assms(6) that get_path_scalar
    by (force simp: evaluate_fresh_def eval_not_exists_def verdict_def new_observation_def)
  then have "\<exists>ds. verify_postconditions eng act c ?obs = Inr \<lparr>pv_result = Verified, pv_details = ds\<rparr>"
    unfolding verify_postconditions_def by (rule verify_loop_all_hold)
  ultimately show ?thesis by blast
qed

definition demo_rest_lib :: "(unit, unit) rest_lib" where
  "demo_rest_lib = \<lparr>http_client = (\<lambda>_. Inr ()),
     http_get = (\<lambda>_ _ _ w. (Inr (200, Inr (JObject [(''debt'', JBool True)])), w)), show_status = show_nat,
     pointer_set = (\<lambda>_ _ _. None), rest_to_string = (\<lambda>_. Some ''{debt:true}''), rest_show_uuid = (\<lambda>_. ''1'')\<rparr>"

definition demo_rest_observer :: "unit rest_observer" where
  "demo_rest_observer = \<lparr>re_client = (), re_config = with_max_evidence_size 10 (new_rest_config ''h'')\<rparr>"

theorem truncated_evidence_verifies_absence_witness:
  "\<exists>obs ds. rest_observe demo_rest_lib demo_rest_observer 0 (new_action 1 0 ''a'' JNull)
      (with_postcondition (NotExists ''debt'') ''no debt'' (new_contract 2 0 ''a'')) () = (Inr obs, ()) \<and>
    verify_postconditions literal_ext
      (new_action 1 0 ''a'' JNull) (with_postcondition (NotExists ''debt'') ''no debt'' (new_contract 2 0 ''a'')) obs
      = Inr \<lparr>pv_result = Verified, pv_details = ds\<rparr>"
  by (rule truncated_evidence_verifies_absence [where url = "''h/a/1''" and body = "''{debt:true}''"
        and state = "JObject [(''debt'', JBool True)]"])
    (simp_all add: demo_rest_lib_def demo_rest_observer_def build_url_def observation_url_def trim_end_char_def
      new_rest_config_def with_max_evidence_size_def with_postcondition_def new_contract_def path_portion_def
      starts_with_def redacted_in_url_def fetch_json_def redact_def map_err_def)

text \<open>
  The WebAssembly observer redacts nothing. Its walk along a path never
  stores a replacement, so redaction returns the state unchanged for every list of paths.
\<close>

theorem wasm_redaction_does_nothing: "wasm_redact paths v = v"
  unfolding wasm_redact_def by (induction paths arbitrary: v) (simp_all add: redact_recursive_id)

text \<open>
  The WebAssembly observer asks for the wrong URL. It passes the whole
  observation URL to a client that puts the base URL in front again, so what is fetched starts
  with the base URL twice and is never the observation URL.
\<close>

theorem wasm_observer_doubles_base_url:
  assumes "wasm_build_url br cfg act c = Inr url" "wr_base_url cfg = x # xs" "x \<noteq> CHR ''/''"
  shows "wasm_fetch_json br (new_wasm_rest_observer cfg) url w =
      apfst (map_err (\<lambda>e. ''HTTP request failed: '' @ show_wasm_http_error e))
        (apfst (\<lambda>r. and_then_res r (\<lambda>text. map_err InvalidResponse_wasm (br_from_str br text)))
          (fetch_text br (wo_client (new_wasm_rest_observer cfg)) ''GET''
             (trim_end_char CHR ''/'' (wr_base_url cfg) @ ''/'' @ url) None w))
    \<and> trim_end_char CHR ''/'' (wr_base_url cfg) @ ''/'' @ url \<noteq> url"
proof -
  obtain k where "wr_base_url cfg = trim_end_char CHR ''/'' (wr_base_url cfg) @ replicate k CHR ''/''"
    using trim_end_char_prefix by blast
  then have "trim_end_char CHR ''/'' (wr_base_url cfg) \<noteq> []
      \<and> hd (trim_end_char CHR ''/'' (wr_base_url cfg)) = x"
    using assms(2,3) by (metis append_Nil hd_append2 list.sel(1) hd_replicate replicate_empty list.distinct(1))
  then obtain ys where t: "trim_end_char CHR ''/'' (wr_base_url cfg) = x # ys"
    by (metis list.collapse)
  then have "trim_start_char CHR ''/'' url = url"
    using assms(1,3) by (auto simp: wasm_build_url_def Let_def observation_url_def trim_start_char_def split: if_splits)
  then show ?thesis
    by (simp add: wasm_fetch_json_def get_json_def wasm_url_def new_wasm_rest_observer_def wc_with_timeout_def
        wc_with_headers_def new_wasm_client_def t)
qed

theorem wasm_observer_doubles_base_url_witness:
  "trim_end_char CHR ''/'' ''http://h/'' @ ''/'' @ ''http://h/a/1'' \<noteq> ''http://h/a/1''"
proof -
  define br :: "unit browser" where "br = \<lparr>br_fetch = (\<lambda>_ _ _ w. (Inl [], w)), br_from_str = Inl,
    br_to_string = (\<lambda>_. Inl []), br_show_uuid = (\<lambda>_. ''1'')\<rparr>"
  have "wasm_build_url br (new_wasm_rest_config ''http://h/'') (new_action 1 0 ''a'' JNull) (new_contract 2 0 ''a'')
      = Inr ''http://h/a/1''"
    by (simp add: br_def wasm_build_url_def new_wasm_rest_config_def new_contract_def observation_url_def
        trim_end_char_def starts_with_def)
  from wasm_observer_doubles_base_url [OF this, of "CHR ''h''" "''ttp://h/''"] show ?thesis
    by (simp add: new_wasm_rest_config_def)
qed

end
