(* ===== verification/Cli.thy ===== *)
theory Cli
  imports Verdict Contract_Parse Rest_Observer
begin

text \<open>
  The command line of \<open>agentverify-cli/src/main.rs\<close>, with the constructors of the executor that
  it uses: loading and validating a contract file, running a verification against a REST
  observer, and the wait loop of the HTTP gateway. The environment, the files, the URL parser,
  the JSON reader and writer and the clock are parameters; what is printed is collected.
\<close>

section \<open>Executors\<close>

text \<open>
  The constructors set the configuration and the stores of an environment whose other parts (the
  adapter, the observer, the libraries) the call supplies.
\<close>

definition with_config_and_store ::
  "executor_config \<Rightarrow> (string \<Rightarrow> 's \<Rightarrow> claim_answer \<times> 's) \<Rightarrow> (string \<Rightarrow> verification_result \<Rightarrow> 's \<Rightarrow> 's)
   \<Rightarrow> (string \<Rightarrow> 's \<Rightarrow> 's) \<Rightarrow> ('re, 'w, 's, 'r) exec_env \<Rightarrow> ('re, 'w, 's, 'r) exec_env" where
  "with_config_and_store cfg cl co re env =
     env\<lparr>ee_config := cfg, ee_claim := cl, ee_complete := co, ee_release := re, ee_receipt_store := None\<rparr>"

definition with_config :: "executor_config \<Rightarrow> ('re, 'w, registry, 'r) exec_env \<Rightarrow> ('re, 'w, registry, 'r) exec_env" where
  "with_config cfg = with_config_and_store cfg registry_claim_or_check registry_complete registry_release"

definition with_receipt_store ::
  "executor_config \<Rightarrow> (string \<Rightarrow> 's \<Rightarrow> claim_answer \<times> 's) \<Rightarrow> (string \<Rightarrow> verification_result \<Rightarrow> 's \<Rightarrow> 's)
   \<Rightarrow> (string \<Rightarrow> 's \<Rightarrow> 's) \<Rightarrow> (receipt \<Rightarrow> 'r \<Rightarrow> (receipt_store_error + unit) \<times> 'r)
   \<Rightarrow> ('re, 'w, 's, 'r) exec_env \<Rightarrow> ('re, 'w, 's, 'r) exec_env" where
  "with_receipt_store cfg cl co re rs env =
     env\<lparr>ee_config := cfg, ee_claim := cl, ee_complete := co, ee_release := re, ee_receipt_store := Some rs\<rparr>"

definition new_executor :: "('re, 'w, registry, 'r) exec_env \<Rightarrow> ('re, 'w, registry, 'r) exec_env" where
  "new_executor = with_config default_executor_config"

definition get_receipt ::
  "(receipt_id \<Rightarrow> 'r \<Rightarrow> receipt option) option \<Rightarrow> receipt_id \<Rightarrow> 'r \<Rightarrow> receipt option" where
  "get_receipt store i rs = Option.bind store (\<lambda>get. get i rs)"

section \<open>Commands\<close>

datatype contract_command = Validate string bool

datatype command =
    Init "string option"
  | Contract_cmd contract_command
  | Verify string string string u32 bool
  | Serve "16 word"

record ('cl, 're, 'w) cli_lib =
  cli_env_var :: "string option"
  cli_url_scheme :: "string \<Rightarrow> string + string"
  cli_read_file :: "path \<Rightarrow> string + string"
  cli_json_from_str :: "string \<Rightarrow> string + json"
  cli_pretty :: "json \<Rightarrow> string + string"
  cli_debug :: "string option \<Rightarrow> string"
  cli_runtime :: "string option"
  cli_contracts :: contract_lib
  cli_rest :: "('cl, 'w) rest_lib"
  cli_elapsed :: "u64 \<Rightarrow> 'w \<Rightarrow> 'w \<Rightarrow> bool"
  cli_now :: "'w \<Rightarrow> datetime"
  cli_fresh :: "'w \<Rightarrow> (uuid \<times> datetime) \<times> 'w"
  cli_engine :: "'re engine_lib"
  cli_receipts :: receipt_lib
  cli_backoff :: backoff_lib
  cli_show_duration :: "duration \<Rightarrow> string"
  cli_show_f64 :: "f64 \<Rightarrow> string"

record 'w cli_state =
  cl_world :: 'w
  cl_stdout :: "string list"
  cl_stderr :: "string list"

definition println :: "string \<Rightarrow> 'w cli_state \<Rightarrow> 'w cli_state" where
  "println s st = st\<lparr>cl_stdout := cl_stdout st @ [s]\<rparr>"

definition eprintln :: "string \<Rightarrow> 'w cli_state \<Rightarrow> 'w cli_state" where
  "eprintln s st = st\<lparr>cl_stderr := cl_stderr st @ [s]\<rparr>"

definition print_all :: "string list \<Rightarrow> 'w cli_state \<Rightarrow> 'w cli_state" where
  "print_all ss st = fold println ss st"

text \<open>A command ends with an error message or an exit code.\<close>

type_synonym exit_code = nat

subsection \<open>Validation\<close>

record validate_output =
  vo_valid :: bool
  vo_errors :: "string list"
  vo_contract_id :: "string option"
  vo_action_name :: "string option"

definition validate_output_json :: "validate_output \<Rightarrow> json" where
  "validate_output_json o1 = JObject
     [(''valid'', JBool (vo_valid o1)), (''errors'', JArray (map JString (vo_errors o1))),
      (''contract_id'', json_opt_string (vo_contract_id o1)),
      (''action_name'', json_opt_string (vo_action_name o1))]"

definition tick_mark :: string where "tick_mark = [CHR 0xE2, CHR 0x9C, CHR 0x93]"
definition cross_mark :: string where "cross_mark = [CHR 0xE2, CHR 0x9C, CHR 0x97]"

definition print_invalid :: "string list \<Rightarrow> 'w cli_state \<Rightarrow> 'w cli_state" where
  "print_invalid errors =
     print_all ((cross_mark @ '' Contract is invalid:'') # map (\<lambda>e. ''  - '' @ e) errors)"

definition validate_contract_cmd ::
  "('cl, 're, 'w) cli_lib \<Rightarrow> string \<Rightarrow> bool \<Rightarrow> 'w cli_state \<Rightarrow> (string + exit_code) \<times> 'w cli_state" where
  "validate_contract_cmd lib file js st =
     (let su = show_uuid (cli_receipts lib)
      in case load_file (cli_contracts lib) file (cli_read_file lib file) of
           Inl err \<Rightarrow>
             (let output = \<lparr>vo_valid = False, vo_errors = [show_contract_error su err],
                    vo_contract_id = None, vo_action_name = None\<rparr>;
                  code = (case err of IoError _ _ _ \<Rightarrow> 1 | _ \<Rightarrow> 2)
              in if js then
                   (case cli_pretty lib (validate_output_json output) of
                      Inl e \<Rightarrow> (Inl e, st) | Inr s \<Rightarrow> (Inr code, println s st))
                 else (Inr code, print_invalid (vo_errors output) st))
         | Inr c \<Rightarrow>
             (let errors = (case validate c of
                     Inr _ \<Rightarrow> []
                   | Inl e \<Rightarrow> [show_validation_error (cli_show_duration lib) (cli_show_f64 lib) e]);
                  output = \<lparr>vo_valid = (errors = []), vo_errors = errors,
                    vo_contract_id = Some (su (contract_id c)), vo_action_name = Some (action_name c)\<rparr>;
                  code = (if vo_valid output then 0 else 2)
              in if js then
                   (case cli_pretty lib (validate_output_json output) of
                      Inl e \<Rightarrow> (Inl e, st) | Inr s \<Rightarrow> (Inr code, println s st))
                 else if vo_valid output then
                   (Inr code, print_all [tick_mark @ '' Contract is valid'', ''  ID: '' @ su (contract_id c),
                      ''  Action: '' @ action_name c] st)
                 else (Inr code, print_invalid errors st)))"

subsection \<open>Verification\<close>

text \<open>
  The executor of one process: an in-memory registry that nobody else uses, the simulated
  adapter, and the REST observer under the verification timeout.
\<close>

definition observe_within ::
  "('cl, 're, 'w) cli_lib \<Rightarrow> 'cl rest_observer \<Rightarrow> u64 \<Rightarrow> action \<Rightarrow> contract \<Rightarrow> 'w \<Rightarrow> observe_result \<times> 'w" where
  "observe_within lib ob ms act c w =
     (let (r, w1) = rest_observe (cli_rest lib) ob (cli_now lib w) act c w
      in if cli_elapsed lib ms w w1 then (None, w1) else (Some r, w1))"

definition cli_executor :: "('cl, 're, 'w) cli_lib \<Rightarrow> 'cl rest_observer \<Rightarrow> ('re, 'w, registry, unit) exec_env" where
  "cli_executor lib ob = new_executor
     \<lparr>ee_config = default_executor_config, ee_claim = registry_claim_or_check,
      ee_complete = registry_complete, ee_release = registry_release, ee_others = (\<lambda>_ s. s),
      ee_receipt_store = None, ee_observer = Some (observe_within lib ob),
      ee_dispatch = simulated_execute, ee_fresh = cli_fresh lib, ee_engine = cli_engine lib,
      ee_receipt_lib = cli_receipts lib, ee_backoff_lib = cli_backoff lib\<rparr>"

definition verify_output_json ::
  "('cl, 're, 'w) cli_lib \<Rightarrow> action \<Rightarrow> contract \<Rightarrow> verification_result \<Rightarrow> receipt \<Rightarrow> json" where
  "verify_output_json lib act c r x =
     (let su = show_uuid (cli_receipts lib) in JObject
       [(''verification_result'', JString (show_result r)), (''receipt_id'', JString (su (rc_id x))),
        (''attempts'', json_u32 (rc_attempts x)), (''contract_id'', JString (su (contract_id c))),
        (''action_id'', JString (su (act_id act)))])"

fun exit_code_of :: "verification_result \<Rightarrow> exit_code" where
  "exit_code_of Verified = 0"
| "exit_code_of Duplicate = 0"
| "exit_code_of Failed = 2"
| "exit_code_of Partial = 2"
| "exit_code_of Unknown = 3"

definition report_verification ::
  "('cl, 're, 'w) cli_lib \<Rightarrow> bool \<Rightarrow> action \<Rightarrow> contract \<Rightarrow> executor_error + verification_result \<times> receipt
   \<Rightarrow> 'w cli_state \<Rightarrow> (string + exit_code) \<times> 'w cli_state" where
  "report_verification lib js act c res st =
     (case res of
        Inr (r, x) \<Rightarrow>
          if js then
            (case cli_pretty lib (verify_output_json lib act c r x) of
               Inl e \<Rightarrow> (Inl e, st) | Inr s \<Rightarrow> (Inr (exit_code_of r), println s st))
          else (Inr (exit_code_of r), print_all
                 [''Verification result: '' @ show_result r,
                  ''Receipt ID: '' @ show_uuid (cli_receipts lib) (rc_id x),
                  ''Attempts: '' @ show_nat (unat (rc_attempts x))] st)
      | Inl e \<Rightarrow>
          if js then
            (case cli_pretty lib (JObject [(''error'', JString (show_executor_error e))]) of
               Inl e1 \<Rightarrow> (Inl e1, st) | Inr s \<Rightarrow> (Inr 1, eprintln s st))
          else (Inr 1, eprintln (''Verification error: '' @ show_executor_error e) st))"

text \<open>What the arguments resolve to before anything runs: the contract, the action and the observer.\<close>

definition resolve_verify ::
  "('cl, 're, 'w) cli_lib \<Rightarrow> string \<Rightarrow> string \<Rightarrow> string \<Rightarrow> 'w
   \<Rightarrow> (string + contract \<times> action \<times> 'cl rest_observer) \<times> 'w" where
  "resolve_verify lib contract_path args_json observer_url w =
     (let url = (case cli_env_var lib of Some u \<Rightarrow> u | None \<Rightarrow> observer_url); q = [CHR 0x27]
      in case cli_url_scheme lib url of
           Inl _ \<Rightarrow> (Inl (''Invalid observer URL '' @ q @ url @ q @ '': must be a valid HTTP/HTTPS URL''), w)
         | Inr scheme \<Rightarrow>
             if scheme \<noteq> ''http'' \<and> scheme \<noteq> ''https'' then
               (Inl (''Invalid observer URL scheme '' @ q @ scheme @ q @ '': must be http or https''), w)
             else case load_file (cli_contracts lib) contract_path (cli_read_file lib contract_path) of
               Inl _ \<Rightarrow> (Inl (''Failed to load contract from '' @ contract_path), w)
             | Inr c \<Rightarrow>
                 (case cli_json_from_str lib args_json of
                    Inl _ \<Rightarrow> (Inl (''Invalid JSON in args: '' @ args_json), w)
                  | Inr args \<Rightarrow>
                      (let key = show_uuid (cli_receipts lib) (contract_id c) @ ''-'' @ args_json;
                           ((uid, now), w1) = cli_fresh lib w;
                           act = with_idempotency uid now (action_name c) args key
                       in case new_rest_observer (cli_rest lib) (new_rest_config url) of
                            Inl e \<Rightarrow> (Inl (''Failed to create observer: '' @ show_rest_error e), w1)
                          | Inr ob \<Rightarrow> (Inr (c, act, ob), w1))))"

definition verify_contract_cmd ::
  "('cl, 're, 'w) cli_lib \<Rightarrow> string \<Rightarrow> string \<Rightarrow> string \<Rightarrow> u32 \<Rightarrow> bool \<Rightarrow> 'w cli_state
   \<Rightarrow> (string + exit_code) \<times> 'w cli_state" where
  "verify_contract_cmd lib contract_path args_json observer_url retries js st =
     (case resolve_verify lib contract_path args_json observer_url (cl_world st) of
        (Inl e, w) \<Rightarrow> (Inl e, st\<lparr>cl_world := w\<rparr>)
      | (Inr (c, act, ob), w) \<Rightarrow>
          (case cli_runtime lib of
             Some _ \<Rightarrow> (Inl ''Failed to create Tokio runtime'', st\<lparr>cl_world := w\<rparr>)
           | None \<Rightarrow>
               (let (res, ex) = execute_with_executor (cli_executor lib ob) act c
                      \<lparr>es_world = w, es_store = new_registry, es_receipts = (), es_trace = []\<rparr>
                in report_verification lib js act c res (st\<lparr>cl_world := es_world ex\<rparr>))))"

subsection \<open>The gateway\<close>

text \<open>
  \<open>serve\<close> binds its port, spawns the server and the signal handler, and waits for the server task.
  What happens while it waits is a list of events; a wait that the events do not end is \<open>None\<close>. The
  handlers answer with a status and a body.
\<close>

datatype serve_event =
    Request string | Signal
  | Server_done | Server_error string | Server_panicked string

type_synonym serve_state = bool

definition health :: "serve_state \<Rightarrow> (nat \<times> string) \<times> serve_state" where
  "health flag = ((200, ''OK''), flag)"

definition shutdown_endpoint :: "serve_state \<Rightarrow> (nat \<times> string) \<times> serve_state" where
  "shutdown_endpoint flag = ((200, ''Shutting down...''), True)"

definition route :: "string \<Rightarrow> serve_state \<Rightarrow> serve_state" where
  "route p flag = (if p = ''/health'' then snd (health flag)
     else if p = ''/shutdown'' then snd (shutdown_endpoint flag) else flag)"

fun serve_wait :: "serve_event list \<Rightarrow> serve_state \<Rightarrow> (string + exit_code) option" where
  "serve_wait [] flag = None"
| "serve_wait (Request p # evs) flag = serve_wait evs (route p flag)"
| "serve_wait (Signal # evs) flag = serve_wait evs True"
| "serve_wait (Server_done # evs) flag = Some (Inr 0)"
| "serve_wait (Server_error e # evs) flag = Some (Inl (''Server error: '' @ e))"
| "serve_wait (Server_panicked e # evs) flag = Some (Inl (''Server task failed: '' @ e))"

definition serve :: "bool \<Rightarrow> 16 word \<Rightarrow> serve_event list \<Rightarrow> (string + exit_code) option" where
  "serve bound port evs =
     (if bound then serve_wait evs False
      else Some (Inl (''Failed to bind to port '' @ show_nat (unat port))))"

subsection \<open>The program\<close>

definition run_cli ::
  "('cl, 're, 'w) cli_lib \<Rightarrow> bool \<Rightarrow> serve_event list \<Rightarrow> command \<Rightarrow> 'w cli_state
   \<Rightarrow> (string + exit_code) option \<times> 'w cli_state" where
  "run_cli lib bound evs cmd st =
     (case cmd of
        Init p \<Rightarrow> (Some (Inr 0), println (''Initializing AgentVerify at '' @ cli_debug lib p @ ''...'') st)
      | Contract_cmd (Validate file js) \<Rightarrow> apfst Some (validate_contract_cmd lib file js st)
      | Verify contract_path args observer_url retries js \<Rightarrow>
          apfst Some (verify_contract_cmd lib contract_path args observer_url retries js st)
      | Serve port \<Rightarrow>
          (case cli_runtime lib of
             Some _ \<Rightarrow> (Some (Inl ''Failed to create Tokio runtime''), st)
           | None \<Rightarrow> (serve bound port evs, st)))"

definition main ::
  "('cl, 're, 'w) cli_lib \<Rightarrow> bool \<Rightarrow> serve_event list \<Rightarrow> command \<Rightarrow> 'w cli_state
   \<Rightarrow> exit_code option \<times> 'w cli_state" where
  "main lib bound evs cmd st =
     (case run_cli lib bound evs cmd st of
        (None, st1) \<Rightarrow> (None, st1)
      | (Some (Inr code), st1) \<Rightarrow> (Some code, st1)
      | (Some (Inl e), st1) \<Rightarrow> (Some 1, eprintln (''Error: '' @ e) st1))"

section \<open>Verdicts of one process\<close>

text \<open>Loading answers \<open>IoError\<close> exactly when the file cannot be read.\<close>

fun is_io_error :: "contract_error \<Rightarrow> bool" where
  "is_io_error (IoError e l c) = True"
| "is_io_error _ = False"

lemma with_location_io [simp]: "is_io_error (with_location l e) = is_io_error e"
  by (cases "(l, e)" rule: with_location.cases) auto

lemma and_then_res_err:
  "and_then_res r f = Inl e \<longleftrightarrow> r = Inl e \<or> (\<exists>x. r = Inr x \<and> f x = Inl e)"
  by (cases r) simp_all

lemma map_err_err: "map_err f r = Inl e \<longleftrightarrow> (\<exists>d. r = Inl d \<and> e = f d)"
  by (auto simp: map_err_def split: sum.split)

lemma validate_predicate_no_io:
  "validate_predicate p path ctx = Inl e \<Longrightarrow> \<not> is_io_error e"
  "validate_predicates ps i path ctx = Inl e \<Longrightarrow> \<not> is_io_error e"
  by (induction p path ctx and ps i path ctx rule: validate_predicate_validate_predicates.induct)
    (auto simp: and_then_res_err split: if_splits)

lemma validate_contract_no_io: "validate_contract c = Inl e \<Longrightarrow> \<not> is_io_error e"
  by (auto simp: validate_contract_def Let_def and_then_res_err validate_predicate_no_io split: if_splits)

lemma parse_no_io:
  "parse_json lib s = Inl e \<Longrightarrow> \<not> is_io_error e" "parse_yaml lib s = Inl e \<Longrightarrow> \<not> is_io_error e"
  by (auto simp: parse_json_def parse_yaml_def and_then_res_err map_err_err dest: validate_contract_no_io)

lemma load_file_io_error:
  "load_file lib p content = Inl err \<Longrightarrow> is_io_error err \<longleftrightarrow> \<not> is_ok content"
  by (auto simp: load_file_def Let_def is_ok_def map_err_err parse_no_io
      split: sum.splits option.splits if_splits)

text \<open>A run of the loop never ends with \<open>Duplicate\<close>: evaluation does not answer it.\<close>

lemma attempt_final:
  assumes "attempt env m act c k st = (Go (ds, Final r ob), st1)"
  shows "r \<noteq> Duplicate"
proof -
  have "r \<noteq> Duplicate" if v: "verify_phase env act c policy k o1 \<lparr>sm_state = Observing\<rparr> s = (Go (ds, Final r ob), st1)"
    for policy o1 s
  proof -
    from v obtain ev where "verify_postconditions (ee_engine env) act c o1 = Inr ev"
      "decision_of env c k o1 (pv_result ev) = Final r ob"
      by (auto simp: verify_phase_eq split: sum.splits)
    with verify_loop_definite show ?thesis
      by (fastforce simp: verify_postconditions_def decision_of_def Let_def split: if_splits)
  qed
  with assms show ?thesis
    by (cases m) (auto simp: attempt_def attempt_dispatched_eq attempt_simulated_eq bind_phase_Go)
qed

lemma run_loop_not_duplicate:
  "run_loop env m act c a ds st = (Inr (r, q), st1) \<Longrightarrow> r \<noteq> Duplicate"
proof (induction env m act c a ds st rule: run_loop.induct)
  case (1 env m act c a ds st)
  obtain p s1 where att: "attempt env m act c (a + 1) st = (p, s1)"
    by (cases "attempt env m act c (a + 1) st")
  with "1.prems" consider "p = Stop r" | ds1 ob where "p = Go (ds1, Final r ob)"
    | ds2 ms where "p = Go (ds2, Again ms)"
        "run_loop env m act c (a + 1) ds2 (sleep env ms s1) = (Inr (r, q), st1)"
    by (auto simp: run_loop.simps [of env m act c a] split: phase.splits prod.splits decision.splits)
  then show ?case
  proof cases
    case 1
    with att attempt_stop [of env m act c "a + 1" st r s1] show ?thesis by auto
  next
    case (2 ds1 ob)
    with att attempt_final [of env m act c "a + 1" st ds1 r ob s1] show ?thesis by simp
  next
    case (3 ds2 ms)
    with "1.IH" [OF att [symmetric] 3(1) refl refl] show ?thesis by blast
  qed
qed

lemma run_claimed_not_duplicate:
  "run_claimed env m act c st = (Inr (r, x), st1) \<Longrightarrow> r \<noteq> Duplicate"
  using finish_sel(1) run_loop_not_duplicate
  by (fastforce simp: run_claimed_def split: prod.splits sum.splits)

lemma cli_executor_sel [simp]:
  "ee_claim (cli_executor lib ob) = registry_claim_or_check" "ee_engine (cli_executor lib ob) = cli_engine lib"
  "ee_observer (cli_executor lib ob) = Some (observe_within lib ob)"
  "ee_config (cli_executor lib ob) = default_executor_config"
  "ee_receipt_lib (cli_executor lib ob) = cli_receipts lib"
  by (simp_all add: cli_executor_def new_executor_def with_config_def with_config_and_store_def)

text \<open>The registry of a new process is empty, so the run always owns its key.\<close>

lemma cli_run_owns_key:
  assumes "act_idempotency_key act = Some key" "es_store st = new_registry"
  shows "\<exists>st1. execute_with_executor (cli_executor lib ob) act c st
    = run_claimed (cli_executor lib ob) Dispatching act c st1"
  using assms
  by (auto simp: execute_with_executor_def claim_or_check_def registry_claim_or_check_def new_registry_def)

lemma observe_within_seen:
  "fst (observe_within lib ob ms act c w) = Some (Inr o1) \<Longrightarrow>
   fst (rest_observe (cli_rest lib) ob (cli_now lib w) act c w) = Inr o1"
  by (auto simp: observe_within_def Let_def split: prod.splits if_splits)

lemma resolve_verify_key:
  "resolve_verify lib p args url w = (Inr (c, act, ob), w1) \<Longrightarrow>
   act_idempotency_key act = Some (show_uuid (cli_receipts lib) (contract_id c) @ ''-'' @ args)
   \<and> load_file (cli_contracts lib) p (cli_read_file lib p) = Inr c"
  by (auto simp: resolve_verify_def with_idempotency_def Let_def split: sum.splits prod.splits if_splits)

lemma exit_code_zero: "exit_code_of r = 0 \<longleftrightarrow> r = Verified \<or> r = Duplicate"
  by (cases r) simp_all

section \<open>Properties\<close>

text \<open>
  Property C21 (safety): a successful exit is earned. When \<open>agentverify verify\<close> exits with 0, the
  contract file loaded, the REST observer answered with a state in this run, and every
  postcondition of the contract is true in that state.
\<close>

theorem verify_success_is_earned:
  assumes "fst (verify_contract_cmd lib p args url n js st) = Inr 0"
  shows "\<exists>c act ob o1 w w0. load_file (cli_contracts lib) p (cli_read_file lib p) = Inr c
    \<and> fst (resolve_verify lib p args url w0) = Inr (c, act, ob)
    \<and> fst (rest_observe (cli_rest lib) ob (cli_now lib w) act c w) = Inr o1
    \<and> list_all (\<lambda>pc. psem (cli_engine lib) (obs_state o1) (arguments act) (post_predicate pc)) (postconditions c)"
proof -
  from assms obtain c act ob w where res: "resolve_verify lib p args url (cl_world st) = (Inr (c, act, ob), w)"
    by (auto simp: verify_contract_cmd_def split: prod.splits sum.splits option.splits)
  let ?ex = "\<lparr>es_world = w, es_store = new_registry, es_receipts = (), es_trace = []\<rparr>"
  obtain out st1 where out: "execute_with_executor (cli_executor lib ob) act c ?ex = (out, st1)"
    by (cases "execute_with_executor (cli_executor lib ob) act c ?ex")
  from assms res out obtain r x where rx: "out = Inr (r, x)" "r = Verified \<or> r = Duplicate"
    by (auto simp: verify_contract_cmd_def report_verification_def exit_code_zero
        split: option.splits sum.splits if_splits)
  from cli_run_owns_key [of act _ ?ex lib ob c] resolve_verify_key [OF res] out rx obtain s where
    run: "run_claimed (cli_executor lib ob) Dispatching act c s = (Inr (r, x), st1)" by auto
  with rx(2) run_claimed_not_duplicate [OF run] have "r = Verified" by simp
  with run_claimed_verified run obtain evs o1 where
    "earned (cli_executor lib ob) act c o1 (rc_postcondition_results x) evs" by blast
  then obtain w2 where "fst (observe_within lib ob (verification_timeout_ms default_executor_config) act c w2) = Some (Inr o1)"
    and "list_all (\<lambda>pc. psem (cli_engine lib) (obs_state o1) (arguments act) (post_predicate pc)) (postconditions c)"
    by (auto simp: earned_def observed_def)
  with observe_within_seen resolve_verify_key [OF res] res show ?thesis by (metis fst_conv)
qed

text \<open>An instance: a contract that asks for \<open>done\<close>, and an observer that shows it.\<close>

definition demo_cli_lib :: "(unit, string, unit) cli_lib" where
  "demo_cli_lib =
     \<lparr>cli_env_var = None, cli_url_scheme = (\<lambda>_. Inr ''http''), cli_read_file = (\<lambda>_. Inr ''c''),
      cli_json_from_str = (\<lambda>_. Inr JNull), cli_pretty = (\<lambda>_. Inr []), cli_debug = (\<lambda>_. []),
      cli_runtime = None,
      cli_contracts = \<lparr>json_from_str = (\<lambda>_. Inr script_contract), yaml_from_str = Inl,
        json_to_string = (\<lambda>_. Inl []), yaml_to_string = (\<lambda>_. Inl [])\<rparr>,
      cli_rest = \<lparr>http_client = (\<lambda>_. Inr ()),
        http_get = (\<lambda>_ _ _ w. (Inr (200, Inr (JObject [(''done'', JBool True)])), w)), show_status = show_nat,
        pointer_set = (\<lambda>_ _ _. None), rest_to_string = (\<lambda>_. Some ''x''), rest_show_uuid = (\<lambda>_. ''1'')\<rparr>,
      cli_elapsed = (\<lambda>_ _ _. False), cli_now = (\<lambda>_. 0), cli_fresh = (\<lambda>w. ((1, 0), w)),
      cli_engine = literal_ext, cli_receipts = demo_ext,
      cli_backoff = \<lparr>num_milliseconds = (\<lambda>d. of_int (d div 1000000)), f64_powi = (\<lambda>_ _. 0)\<rparr>,
      cli_show_duration = (\<lambda>_. []), cli_show_f64 = (\<lambda>_. [])\<rparr>"

definition demo_cli_action :: action where
  "demo_cli_action = with_idempotency 1 0 ''pay'' JNull
     (show_uuid demo_ext (contract_id script_contract) @ ''-{}'')"

definition demo_cli_observer :: "unit rest_observer" where
  "demo_cli_observer = \<lparr>re_client = (), re_config = new_rest_config ''http://h''\<rparr>"

lemma demo_cli_sel [simp]:
  "cli_env_var demo_cli_lib = None" "cli_url_scheme demo_cli_lib u = Inr ''http''"
  "cli_read_file demo_cli_lib f = Inr ''c''" "cli_json_from_str demo_cli_lib s = Inr JNull"
  "cli_runtime demo_cli_lib = None" "cli_receipts demo_cli_lib = demo_ext" "cli_fresh demo_cli_lib w = ((1, 0), w)"
  "http_client (cli_rest demo_cli_lib) ms = Inr ()" "cli_engine demo_cli_lib = literal_ext"
  "cli_elapsed demo_cli_lib ms w w1 = False" "cli_now demo_cli_lib w = 0"
  by (simp_all add: demo_cli_lib_def)

lemma demo_load: "load_file (cli_contracts demo_cli_lib) ''c.json'' (Inr s) = Inr script_contract"
proof -
  have "validate_contract script_contract = Inr ()"
    by (simp add: validate_contract_ok script_contract_def with_postcondition_def new_contract_def)
  then have "parse_json (cli_contracts demo_cli_lib) s = Inr script_contract"
    by (simp add: parse_ok demo_cli_lib_def)
  then show ?thesis
    by (simp add: load_file_def extension_of_path_def path_extension_def rsplit_dot_def map_err_ok Let_def)
qed

lemma demo_resolve:
  "resolve_verify demo_cli_lib ''c.json'' ''{}'' ''http://h'' w
     = (Inr (script_contract, demo_cli_action, demo_cli_observer), w)"
  by (simp add: resolve_verify_def Let_def new_rest_observer_def demo_load demo_cli_action_def
      demo_cli_observer_def new_rest_config_def script_contract_def with_postcondition_def new_contract_def)

lemma demo_observe:
  "observe_within demo_cli_lib demo_cli_observer ms act script_contract w =
     (Some (Inr (new_observation 0 ''rest'' (JObject [(''done'', JBool True)]))), w)"
  by (simp add: observe_within_def rest_observe_def build_url_def observation_url_def demo_cli_observer_def Let_def
      new_rest_config_def script_contract_def with_postcondition_def new_contract_def path_portion_def
      trim_end_char_def starts_with_def redacted_in_url_def fetch_json_def redact_def map_err_def
      truncate_evidence_def demo_cli_lib_def)

lemma demo_verifies:
  "verify_postconditions literal_ext demo_cli_action script_contract
     (new_observation 0 ''rest'' (JObject [(''done'', JBool True)]))
   = Inr \<lparr>pv_result = Verified, pv_details = [postcondition_detail
       \<lparr>post_predicate = Exists ''done'', post_description = ''done'', mandatory = True\<rparr> True None]\<rparr>"
  by (simp add: verify_postconditions_def script_contract_def with_postcondition_def new_contract_def
      evaluate_fresh_def eval_exists_def get_path_def new_observation_def)

lemma demo_cli_run: "\<exists>x s. run_claimed (cli_executor demo_cli_lib demo_cli_observer) Dispatching
    demo_cli_action script_contract st = (Inr (Verified, x), s)"
proof -
  let ?env = "cli_executor demo_cli_lib demo_cli_observer"
  have disp: "ee_dispatch ?env a w = (Inr Completed_out, w)" "ee_others ?env w s = s" for a w s
    by (simp_all add: cli_executor_def new_executor_def with_config_def with_config_and_store_def
        simulated_execute_def)
  have prep: "prepare ?env demo_cli_action script_contract st = (Go \<lparr>sm_state = Executing\<rparr>, log_event EvCleared st)"
    by (simp add: prepare_eq pre_observation_def validate_preconditions_def)
  have "\<exists>ds o1 s. attempt ?env Dispatching demo_cli_action script_contract 1 st = (Go (ds, Final Verified (Some o1)), s)"
    by (simp add: attempt_def attempt_dispatched_eq bind_phase_def prep dispatch_phase_def disp Let_def
        observe_dispatched_def run_observer_def demo_observe verify_phase_eq demo_verifies)
  then have "\<exists>o1 ds k s. run_loop ?env Dispatching demo_cli_action script_contract 0 [] st =
      (Inr (Verified, Some o1, k, ds), s)"
    by (subst run_loop.simps) auto
  then obtain o1 ds k s where loop: "run_loop ?env Dispatching demo_cli_action script_contract 0 [] st =
      (Inr (Verified, Some o1, k, ds), s)" by blast
  obtain res st1 where fin: "finish ?env demo_cli_action script_contract Verified (Some o1) k ds s = (res, st1)"
    by (cases "finish ?env demo_cli_action script_contract Verified (Some o1) k ds s")
  from finish_sel(1) [OF fin] loop fin show ?thesis by (auto simp: run_claimed_def)
qed

lemma demo_cli_exit:
  "fst (verify_contract_cmd demo_cli_lib ''c.json'' ''{}'' ''http://h'' 3 False st) = Inr 0"
proof -
  let ?ex = "\<lparr>es_world = cl_world st, es_store = new_registry, es_receipts = (), es_trace = []\<rparr>"
  have key: "\<exists>key. act_idempotency_key demo_cli_action = Some key"
    by (simp add: demo_cli_action_def with_idempotency_def)
  then obtain s where "execute_with_executor (cli_executor demo_cli_lib demo_cli_observer) demo_cli_action
      script_contract ?ex = run_claimed (cli_executor demo_cli_lib demo_cli_observer) Dispatching
        demo_cli_action script_contract s"
    using cli_run_owns_key [of demo_cli_action _ ?ex demo_cli_lib demo_cli_observer script_contract] by auto
  with demo_cli_run [of s] obtain x s1 where
    "execute_with_executor (cli_executor demo_cli_lib demo_cli_observer) demo_cli_action
      script_contract ?ex = (Inr (Verified, x), s1)" by metis
  then show ?thesis by (simp add: verify_contract_cmd_def demo_resolve report_verification_def)
qed

theorem verify_success_is_earned_witness:
  "\<exists>c act ob o1 w w0. load_file (cli_contracts demo_cli_lib) ''c.json'' (Inr ''c'') = Inr c
    \<and> fst (resolve_verify demo_cli_lib ''c.json'' ''{}'' ''http://h'' w0) = Inr (c, act, ob)
    \<and> fst (rest_observe (cli_rest demo_cli_lib) ob (cli_now demo_cli_lib w) act c w) = Inr o1
    \<and> list_all (\<lambda>pc. psem literal_ext (obs_state o1) (arguments act) (post_predicate pc)) (postconditions c)"
  using verify_success_is_earned [OF demo_cli_exit [of "\<lparr>cl_world = (), cl_stdout = [], cl_stderr = []\<rparr>"]]
  by simp

text \<open>
  Property C38 (error): the exit code of \<open>agentverify contract validate\<close> is 1 exactly when the
  file cannot be read, 0 exactly when it loads to a contract that validates, and 2 otherwise,
  unless the output cannot be written as JSON. In particular a file that can be read and does not
  parse gives 2. The documents of the repository say otherwise: the table of \<open>docs/CLI.md\<close> has 1 for
  a failed verification, and the qualification report of 2026-08-28 has 1 for a load or parse error.
\<close>

theorem validate_exit_codes:
  "(case fst (validate_contract_cmd lib file js st) of
      Inl e \<Rightarrow> js \<and> (\<exists>v. cli_pretty lib v = Inl e)
    | Inr code \<Rightarrow> code = (case load_file (cli_contracts lib) file (cli_read_file lib file) of
          Inl err \<Rightarrow> if is_ok (cli_read_file lib file) then 2 else 1
        | Inr c \<Rightarrow> if is_ok (validate c) then 0 else 2))"
proof -
  have code: "(case err of IoError _ _ _ \<Rightarrow> 1 | _ \<Rightarrow> 2) = (if is_io_error err then 1 else 2 :: nat)" for err
    by (cases err) simp_all
  show ?thesis
    using load_file_io_error [of "cli_contracts lib" "file" "cli_read_file lib file"]
    by (auto simp: validate_contract_cmd_def Let_def code is_ok_def split: sum.splits)
qed

text \<open>
  The gateway cannot be told to stop. Whatever requests arrive,
  \<open>/shutdown\<close> included, and whatever signals, \<open>serve\<close> goes on waiting until the server task itself
  ends.
\<close>

theorem serve_ignores_shutdown:
  assumes "\<forall>e \<in> set evs. e = Signal \<or> (\<exists>p. e = Request p)"
  shows "serve True port evs = None"
proof -
  have "serve_wait evs flag = None" for flag
    using assms by (induction evs arbitrary: flag) auto
  then show ?thesis by (simp add: serve_def)
qed

theorem serve_ignores_shutdown_witness:
  "serve True 8080 [Request ''/health'', Request ''/shutdown'', Signal, Signal] = None"
  by (rule serve_ignores_shutdown) simp

end
