(* ===== verification/Storage.thy ===== *)
theory Storage
  imports Receipt File_System "HOL-Library.AList"
begin

text \<open>
  The storage adapters (\<open>agentverify-storage/src/lib.rs\<close>): the \<open>Storage\<close> trait as the locale
  \<open>storage\<close>, which says that a backend refines a map from identifiers to receipts, and its two
  backends, \<open>FileStorage\<close> (a directory and a cache of the identifiers known to be in it) and
  \<open>MemStorage\<close>. Hash sets and hash maps are lists without repetition; the order of what they
  enumerate is that of insertion, and no statement here depends on it.
\<close>

section \<open>The interface\<close>

datatype storage_error =
  Io string | Serialization string | NotFound receipt_id | AlreadyExists receipt_id | InvalidPath string

locale storage =
  fixes wf :: "'s \<Rightarrow> bool"
    and ok :: "'io \<Rightarrow> 's \<Rightarrow> bool"
    and writable :: "'io \<Rightarrow> receipt \<Rightarrow> bool"
    and abs :: "'s \<Rightarrow> receipt_id \<Rightarrow> receipt option"
    and store :: "'io \<Rightarrow> receipt \<Rightarrow> 's \<Rightarrow> (storage_error + unit) \<times> 's"
    and load :: "'io \<Rightarrow> receipt_id \<Rightarrow> 's \<Rightarrow> storage_error + receipt option"
    and list_ids :: "'io \<Rightarrow> 's \<Rightarrow> (storage_error + receipt_id list) \<times> 's"
    and list_by_action :: "'io \<Rightarrow> action_id \<Rightarrow> 's \<Rightarrow> (storage_error + receipt list) \<times> 's"
    and delete :: "'io \<Rightarrow> receipt_id \<Rightarrow> 's \<Rightarrow> (storage_error + unit) \<times> 's"
    and exists :: "'io \<Rightarrow> receipt_id \<Rightarrow> 's \<Rightarrow> (storage_error + bool) \<times> 's"
  assumes store_new: "wf s \<Longrightarrow> ok io s \<Longrightarrow> writable io r \<Longrightarrow> abs s (rc_id r) = None \<Longrightarrow>
      fst (store io r s) = Inr () \<and> wf (snd (store io r s)) \<and>
      abs (snd (store io r s)) = (abs s)(rc_id r \<mapsto> r)"
    and load_abs: "wf s \<Longrightarrow> ok io s \<Longrightarrow> load io i s = Inr (abs s i)"
    and delete_abs: "wf s \<Longrightarrow> ok io s \<Longrightarrow>
      fst (delete io i s) = (if abs s i = None then Inl (NotFound i) else Inr ()) \<and>
      wf (snd (delete io i s)) \<and> abs (snd (delete io i s)) = (abs s)(i := None)"
    and exists_abs: "wf s \<Longrightarrow> ok io s \<Longrightarrow>
      fst (exists io i s) = Inr (abs s i \<noteq> None) \<and> wf (snd (exists io i s)) \<and>
      abs (snd (exists io i s)) = abs s"
    and list_ids_abs: "wf s \<Longrightarrow> ok io s \<Longrightarrow>
      \<exists>ids. fst (list_ids io s) = Inr ids \<and> distinct ids \<and> set ids = dom (abs s)"
    and list_by_action_abs: "wf s \<Longrightarrow> ok io s \<Longrightarrow>
      \<exists>rs. fst (list_by_action io a s) = Inr rs \<and> distinct rs \<and>
        set rs = {r. rc_action_id r = a \<and> (\<exists>i. abs s i = Some r)}"
begin

text \<open>What a client relies on: stored receipts are found, deleted ones are not.\<close>

lemma stored_is_found:
  assumes "wf s" "ok io s" "writable io r" "abs s (rc_id r) = None" "ok io' (snd (store io r s))"
  shows "load io' (rc_id r) (snd (store io r s)) = Inr (Some r)"
    and "fst (exists io' (rc_id r) (snd (store io r s))) = Inr True"
    and "\<exists>rs. fst (list_by_action io' (rc_action_id r) (snd (store io r s))) = Inr rs \<and> r \<in> set rs"
proof -
  note st = store_new [OF assms(1-4)]
  from st show "load io' (rc_id r) (snd (store io r s)) = Inr (Some r)"
    using load_abs [OF _ assms(5)] by simp
  from st show "fst (exists io' (rc_id r) (snd (store io r s))) = Inr True"
    using exists_abs [OF _ assms(5)] by simp
  from st list_by_action_abs [OF _ assms(5), of "rc_action_id r"]
  show "\<exists>rs. fst (list_by_action io' (rc_action_id r) (snd (store io r s))) = Inr rs \<and> r \<in> set rs"
    by force
qed

lemma deleted_is_gone:
  assumes "wf s" "ok io s" "ok io' (snd (delete io i s))"
  shows "load io' i (snd (delete io i s)) = Inr None \<and>
    fst (exists io' i (snd (delete io i s))) = Inr False \<and>
    fst (delete io' i (snd (delete io i s))) = Inl (NotFound i)"
  using delete_abs [OF assms(1,2), of i] load_abs [OF _ assms(3)] exists_abs [OF _ assms(3)]
    delete_abs [OF _ assms(3)]
  by simp

end

section \<open>File storage\<close>

text \<open>
  What the backend takes from libraries, and the fortunes of one call: the outcomes of its file
  operations, and what \<open>read_dir\<close> delivers (\<open>None\<close> when it cannot be opened, else the names
  before the enumeration ends, and whether it ends without an error).
\<close>

record storage_lib =
  sg_id_string :: "uuid \<Rightarrow> string"
  parse_uuid :: "string \<Rightarrow> uuid option"
  sg_to_string :: "receipt \<Rightarrow> string + string"
  sg_from_str :: "string \<Rightarrow> string + receipt"

record storage_io =
  so_write :: write_outcome
  so_rename_ok :: bool
  so_read_ok :: "receipt_id \<Rightarrow> bool"
  so_remove_ok :: bool
  so_read_dir :: "(string list \<times> bool) option"
  so_error :: string

record file_storage =
  sg_base :: path
  sg_cache :: "receipt_id list"
  sg_fs :: fs

definition new_file_storage :: "bool \<Rightarrow> bool \<Rightarrow> string \<Rightarrow> path \<Rightarrow> fs \<Rightarrow> storage_error + file_storage" where
  "new_file_storage utf8 mkdir_ok err base f =
     (if \<not> utf8 then Inl (InvalidPath ''Path must be a valid UTF-8 string'')
      else if \<not> mkdir_ok then Inl (Io err)
      else Inr \<lparr>sg_base = base, sg_cache = [], sg_fs = f\<rparr>)"

definition sg_receipt_path :: "storage_lib \<Rightarrow> path \<Rightarrow> receipt_id \<Rightarrow> path" where
  "sg_receipt_path ext base i = path_join base (sg_id_string ext i @ ''.json'')"

definition sg_tmp_path :: "storage_lib \<Rightarrow> path \<Rightarrow> receipt_id \<Rightarrow> path" where
  "sg_tmp_path ext base i = path_join base (sg_id_string ext i @ ''.tmp'')"

definition set_insert :: "'a \<Rightarrow> 'a list \<Rightarrow> 'a list" where
  "set_insert x xs = (if x \<in> set xs then xs else xs @ [x])"

definition cache_entry :: "storage_lib \<Rightarrow> string \<Rightarrow> receipt_id list \<Rightarrow> receipt_id list" where
  "cache_entry ext name cache =
     (if path_extension name = Some ''json'' then
        (case parse_uuid ext (file_stem name) of None \<Rightarrow> cache | Some u \<Rightarrow> set_insert u cache)
      else cache)"

definition refresh_cache ::
  "storage_lib \<Rightarrow> storage_io \<Rightarrow> file_storage \<Rightarrow> (storage_error + unit) \<times> file_storage" where
  "refresh_cache ext io s =
     (case so_read_dir io of
        None \<Rightarrow> (Inl (Io (so_error io)), s)
      | Some (names, ended) \<Rightarrow>
          (if ended then Inr () else Inl (Io (so_error io)),
           s\<lparr>sg_cache := fold (cache_entry ext) names (sg_cache s)\<rparr>))"

definition store_inner ::
  "storage_lib \<Rightarrow> storage_io \<Rightarrow> receipt \<Rightarrow> file_storage \<Rightarrow> (storage_error + unit) \<times> file_storage" where
  "store_inner ext io r s =
     (if sg_fs s (sg_receipt_path ext (sg_base s) (rc_id r)) \<noteq> None
      then (Inl (AlreadyExists (rc_id r)), s)
      else case sg_to_string ext r of
        Inl e \<Rightarrow> (Inl (Serialization e), s)
      | Inr content \<Rightarrow>
          (case write_atomic (so_write io) (so_rename_ok io) (sg_tmp_path ext (sg_base s) (rc_id r))
                  (sg_receipt_path ext (sg_base s) (rc_id r)) content (sg_fs s) of
             (False, f) \<Rightarrow> (Inl (Io (so_error io)), s\<lparr>sg_fs := f\<rparr>)
           | (True, f) \<Rightarrow>
               (Inr (), s\<lparr>sg_fs := f, sg_cache := set_insert (rc_id r) (sg_cache s)\<rparr>)))"

definition load_inner ::
  "storage_lib \<Rightarrow> storage_io \<Rightarrow> receipt_id \<Rightarrow> file_storage \<Rightarrow> storage_error + receipt option" where
  "load_inner ext io i s =
     (let p = sg_receipt_path ext (sg_base s) i
      in if sg_fs s p = None then Inr None
         else case fs_read (so_read_ok io i) p (sg_fs s) of
           None \<Rightarrow> Inl (Io (so_error io))
         | Some content \<Rightarrow>
             (case sg_from_str ext content of
                Inl e \<Rightarrow> Inl (Serialization e) | Inr r \<Rightarrow> Inr (Some r)))"

definition delete_inner ::
  "storage_lib \<Rightarrow> storage_io \<Rightarrow> receipt_id \<Rightarrow> file_storage \<Rightarrow> (storage_error + unit) \<times> file_storage" where
  "delete_inner ext io i s =
     (let p = sg_receipt_path ext (sg_base s) i
      in if sg_fs s p = None then (Inl (NotFound i), s)
         else if \<not> so_remove_ok io then (Inl (Io (so_error io)), s)
         else (Inr (), s\<lparr>sg_fs := fs_remove True p (sg_fs s), sg_cache := removeAll i (sg_cache s)\<rparr>))"

definition exists_inner ::
  "storage_lib \<Rightarrow> storage_io \<Rightarrow> receipt_id \<Rightarrow> file_storage \<Rightarrow> (storage_error + bool) \<times> file_storage" where
  "exists_inner ext io i s =
     (if i \<in> set (sg_cache s) then (Inr True, s)
      else case refresh_cache ext io s of
        (Inl e, s1) \<Rightarrow> (Inl e, s1)
      | (Inr _, s1) \<Rightarrow> (Inr (i \<in> set (sg_cache s1)), s1))"

definition sg_store ::
  "storage_lib \<Rightarrow> storage_io \<Rightarrow> receipt \<Rightarrow> file_storage \<Rightarrow> (storage_error + unit) \<times> file_storage" where
  "sg_store ext io r s = store_inner ext io r s"

definition sg_load ::
  "storage_lib \<Rightarrow> storage_io \<Rightarrow> receipt_id \<Rightarrow> file_storage \<Rightarrow> storage_error + receipt option" where
  "sg_load ext io i s = load_inner ext io i s"

definition sg_delete ::
  "storage_lib \<Rightarrow> storage_io \<Rightarrow> receipt_id \<Rightarrow> file_storage \<Rightarrow> (storage_error + unit) \<times> file_storage" where
  "sg_delete ext io i s = delete_inner ext io i s"

definition sg_exists ::
  "storage_lib \<Rightarrow> storage_io \<Rightarrow> receipt_id \<Rightarrow> file_storage \<Rightarrow> (storage_error + bool) \<times> file_storage" where
  "sg_exists ext io i s = exists_inner ext io i s"

definition sg_list_ids ::
  "storage_lib \<Rightarrow> storage_io \<Rightarrow> file_storage \<Rightarrow> (storage_error + receipt_id list) \<times> file_storage" where
  "sg_list_ids ext io s =
     (case refresh_cache ext io s of
        (Inl e, s1) \<Rightarrow> (Inl e, s1) | (Inr _, s1) \<Rightarrow> (Inr (sg_cache s1), s1))"

definition sg_list_by_action ::
  "storage_lib \<Rightarrow> storage_io \<Rightarrow> action_id \<Rightarrow> file_storage
   \<Rightarrow> (storage_error + receipt list) \<times> file_storage" where
  "sg_list_by_action ext io a s =
     (case sg_list_ids ext io s of
        (Inl e, s1) \<Rightarrow> (Inl e, s1)
      | (Inr ids, s1) \<Rightarrow>
          (Inr (List.map_filter (\<lambda>i. case load_inner ext io i s1 of
                  Inr (Some r) \<Rightarrow> if rc_action_id r = a then Some r else None
                | _ \<Rightarrow> None) ids), s1))"

section \<open>Memory storage\<close>

type_synonym mem_storage = "(receipt_id \<times> receipt) list"

definition new_mem_storage :: mem_storage where
  "new_mem_storage = []"

definition ms_store :: "receipt \<Rightarrow> mem_storage \<Rightarrow> (storage_error + unit) \<times> mem_storage" where
  "ms_store r s = (Inr (), AList.update (rc_id r) r s)"

definition ms_load :: "receipt_id \<Rightarrow> mem_storage \<Rightarrow> storage_error + receipt option" where
  "ms_load i s = Inr (map_of s i)"

definition ms_list_ids :: "mem_storage \<Rightarrow> storage_error + receipt_id list" where
  "ms_list_ids s = Inr (map fst s)"

definition ms_list_by_action :: "action_id \<Rightarrow> mem_storage \<Rightarrow> storage_error + receipt list" where
  "ms_list_by_action a s = Inr (filter (\<lambda>r. rc_action_id r = a) (map snd s))"

definition ms_delete :: "receipt_id \<Rightarrow> mem_storage \<Rightarrow> (storage_error + unit) \<times> mem_storage" where
  "ms_delete i s =
     (if map_of s i = None then (Inl (NotFound i), s) else (Inr (), AList.delete i s))"

definition ms_exists :: "receipt_id \<Rightarrow> mem_storage \<Rightarrow> storage_error + bool" where
  "ms_exists i s = Inr (map_of s i \<noteq> None)"

text \<open>Keys are unique, and every receipt is filed under its own identifier.\<close>

definition ms_wf :: "mem_storage \<Rightarrow> bool" where
  "ms_wf s \<longleftrightarrow> distinct (map fst s) \<and> (\<forall>(i, r) \<in> set s. rc_id r = i)"

lemma ms_wf_values: "ms_wf s \<Longrightarrow> distinct (map snd s)"
  by (induction s) (auto simp: ms_wf_def image_iff split: prod.splits)

lemma set_update_cases: "x \<in> set (AList.update k v s) \<Longrightarrow> x = (k, v) \<or> x \<in> set s"
  by (induction s) (auto split: if_splits)

lemma set_delete_subset: "x \<in> set (AList.delete k s) \<Longrightarrow> x \<in> set s"
  by (simp add: AList.delete_eq)

lemma ms_wf_update: "ms_wf s \<Longrightarrow> ms_wf (AList.update (rc_id r) r s)"
  by (auto simp: ms_wf_def distinct_update dest!: set_update_cases)

lemma ms_wf_delete: "ms_wf s \<Longrightarrow> ms_wf (AList.delete i s)"
  by (auto simp: ms_wf_def distinct_delete dest!: set_delete_subset)

interpretation mem_st: storage
  ms_wf "\<lambda>_ :: unit. \<lambda>_. True" "\<lambda>_ _. True" map_of
  "\<lambda>_. ms_store" "\<lambda>_. ms_load" "\<lambda>_ s. (ms_list_ids s, s)"
  "\<lambda>_ a s. (ms_list_by_action a s, s)" "\<lambda>_. ms_delete" "\<lambda>_ i s. (ms_exists i s, s)"
proof
  fix s :: mem_storage and r :: receipt and i a
  assume wf: "ms_wf s"
  show "fst (ms_store r s) = Inr () \<and> ms_wf (snd (ms_store r s)) \<and>
      map_of (snd (ms_store r s)) = (map_of s)(rc_id r \<mapsto> r)"
    using ms_wf_update [OF wf] by (simp add: ms_store_def update_conv')
  show "ms_load i s = Inr (map_of s i)" by (simp add: ms_load_def)
  show "fst (ms_delete i s) = (if map_of s i = None then Inl (NotFound i) else Inr ()) \<and>
      ms_wf (snd (ms_delete i s)) \<and> map_of (snd (ms_delete i s)) = (map_of s)(i := None)"
    using wf ms_wf_delete [OF wf] by (simp add: ms_delete_def delete_conv' fun_upd_idem)
  show "\<exists>ids. fst (ms_list_ids s, s) = Inr ids \<and> distinct ids \<and> set ids = dom (map_of s)"
    using wf by (simp add: ms_list_ids_def ms_wf_def dom_map_of_conv_image_fst)
  show "\<exists>rs. fst (ms_list_by_action a s, s) = Inr rs \<and> distinct rs \<and>
        set rs = {r. rc_action_id r = a \<and> (\<exists>i. map_of s i = Some r)}"
    using wf ms_wf_values [OF wf]
    by (force simp: ms_list_by_action_def ms_wf_def dest: map_of_SomeD intro: distinct_filter)
qed (simp_all add: ms_exists_def)

section \<open>File storage refines a map\<close>

text \<open>
  \<open>sg_wf\<close>: what the cache lists is in the directory, and every receipt file holds a receipt
  filed under its own identifier. \<open>sg_ok\<close>: identifiers print to distinct names, no file operation
  fails, and \<open>read_dir\<close> shows exactly the receipt files that are there.
\<close>

definition sg_wf :: "storage_lib \<Rightarrow> file_storage \<Rightarrow> bool" where
  "sg_wf ext s \<longleftrightarrow> distinct (sg_cache s) \<and>
     (\<forall>i \<in> set (sg_cache s). sg_fs s (sg_receipt_path ext (sg_base s) i) \<noteq> None) \<and>
     (\<forall>i c. sg_fs s (sg_receipt_path ext (sg_base s) i) = Some c \<longrightarrow>
        (\<exists>r. sg_from_str ext c = Inr r \<and> rc_id r = i))"

definition sg_ok :: "storage_lib \<Rightarrow> storage_io \<Rightarrow> file_storage \<Rightarrow> bool" where
  "sg_ok ext io s \<longleftrightarrow> inj (sg_id_string ext) \<and> so_write io = WriteOk \<and> so_rename_ok io \<and>
     so_remove_ok io \<and> (\<forall>i. so_read_ok io i) \<and>
     (\<exists>names. so_read_dir io = Some (names, True) \<and>
        (\<forall>i. (\<exists>n \<in> set names. path_extension n = Some ''json'' \<and> parse_uuid ext (file_stem n) = Some i)
             \<longleftrightarrow> sg_fs s (sg_receipt_path ext (sg_base s) i) \<noteq> None))"

definition sg_writable :: "storage_lib \<Rightarrow> receipt \<Rightarrow> bool" where
  "sg_writable ext r = (case sg_to_string ext r of Inl _ \<Rightarrow> False | Inr c \<Rightarrow> sg_from_str ext c = Inr r)"

definition sg_abs :: "storage_lib \<Rightarrow> file_storage \<Rightarrow> receipt_id \<Rightarrow> receipt option" where
  "sg_abs ext s i =
     (case sg_fs s (sg_receipt_path ext (sg_base s) i) of
        None \<Rightarrow> None
      | Some c \<Rightarrow> (case sg_from_str ext c of Inl _ \<Rightarrow> None | Inr r \<Rightarrow> Some r))"

lemma sg_path_inject:
  "inj (sg_id_string ext) \<Longrightarrow> sg_receipt_path ext b i = sg_receipt_path ext b j \<longleftrightarrow> i = j"
  by (auto simp: sg_receipt_path_def dest: injD)

lemma sg_paths_distinct [simp]: "sg_receipt_path ext b i \<noteq> sg_tmp_path ext b j"
proof -
  have "last (sg_id_string ext i @ ''.json'') \<noteq> last (sg_id_string ext j @ ''.tmp'')" by simp
  then have "sg_id_string ext i @ ''.json'' \<noteq> sg_id_string ext j @ ''.tmp''" by metis
  then show ?thesis by (simp add: sg_receipt_path_def sg_tmp_path_def)
qed

lemma set_insert_simps [simp]:
  "set (set_insert x xs) = insert x (set xs)" "distinct (set_insert x xs) = distinct xs"
  by (auto simp: set_insert_def)

lemma cache_entries:
  "set (fold (cache_entry ext) names cache) = set cache \<union>
     {i. \<exists>n \<in> set names. path_extension n = Some ''json'' \<and> parse_uuid ext (file_stem n) = Some i}"
  "distinct (fold (cache_entry ext) names cache) = distinct cache"
  by (induction names arbitrary: cache) (auto simp: cache_entry_def split: option.splits)

lemma sg_abs_None: "sg_wf ext s \<Longrightarrow>
    sg_abs ext s i = None \<longleftrightarrow> sg_fs s (sg_receipt_path ext (sg_base s) i) = None"
  by (fastforce simp: sg_abs_def sg_wf_def split: option.splits sum.splits)

lemma sg_abs_id: "sg_wf ext s \<Longrightarrow> sg_abs ext s i = Some r \<Longrightarrow> rc_id r = i"
  by (fastforce simp: sg_abs_def sg_wf_def split: option.splits sum.splits)

text \<open>A refresh of a coherent cache makes it the directory.\<close>

lemma refresh_cache_ok:
  assumes "sg_wf ext s" "sg_ok ext io s"
  obtains cache where "refresh_cache ext io s = (Inr (), s\<lparr>sg_cache := cache\<rparr>)"
    and "distinct cache" "set cache = dom (sg_abs ext s)"
    and "sg_wf ext (s\<lparr>sg_cache := cache\<rparr>)" "sg_abs ext (s\<lparr>sg_cache := cache\<rparr>) = sg_abs ext s"
proof -
  from assms(2) obtain names where names: "so_read_dir io = Some (names, True)"
    and dir: "\<And>i. (\<exists>n \<in> set names. path_extension n = Some ''json'' \<and> parse_uuid ext (file_stem n) = Some i)
             \<longleftrightarrow> sg_fs s (sg_receipt_path ext (sg_base s) i) \<noteq> None"
    by (auto simp: sg_ok_def)
  let ?cache = "fold (cache_entry ext) names (sg_cache s)"
  have set: "set ?cache = {i. sg_fs s (sg_receipt_path ext (sg_base s) i) \<noteq> None}"
    using assms(1) by (auto simp: cache_entries dir sg_wf_def)
  show ?thesis
  proof (rule that)
    show "refresh_cache ext io s = (Inr (), s\<lparr>sg_cache := ?cache\<rparr>)"
      by (simp add: refresh_cache_def names)
    show "distinct ?cache" using assms(1) by (simp add: cache_entries sg_wf_def)
    show "set ?cache = dom (sg_abs ext s)" using sg_abs_None [OF assms(1)] by (simp add: set dom_def)
    show "sg_wf ext (s\<lparr>sg_cache := ?cache\<rparr>)"
      using assms(1) set \<open>distinct ?cache\<close> by (simp add: sg_wf_def)
    show "sg_abs ext (s\<lparr>sg_cache := ?cache\<rparr>) = sg_abs ext s" by (simp add: sg_abs_def fun_eq_iff)
  qed
qed

lemma load_inner_abs:
  "sg_wf ext s \<Longrightarrow> sg_ok ext io s \<Longrightarrow> load_inner ext io i s = Inr (sg_abs ext s i)"
  by (fastforce simp: load_inner_def fs_read_def sg_abs_def sg_ok_def sg_wf_def Let_def
      split: option.splits sum.splits)

lemma sg_ok_cache [simp]: "sg_ok ext io (s\<lparr>sg_cache := c\<rparr>) = sg_ok ext io s"
  by (simp add: sg_ok_def)

lemma store_inner_new:
  assumes "sg_wf ext s" "sg_ok ext io s" "sg_writable ext r" "sg_abs ext s (rc_id r) = None"
  shows "fst (store_inner ext io r s) = Inr () \<and> sg_wf ext (snd (store_inner ext io r s)) \<and>
    sg_abs ext (snd (store_inner ext io r s)) = (sg_abs ext s)(rc_id r \<mapsto> r)"
proof -
  from assms(3) obtain c where c: "sg_to_string ext r = Inr c" "sg_from_str ext c = Inr r"
    by (auto simp: sg_writable_def split: sum.splits)
  let ?p = "sg_receipt_path ext (sg_base s)"
  let ?f = "((sg_fs s)(sg_tmp_path ext (sg_base s) (rc_id r) := None))(?p (rc_id r) \<mapsto> c)"
  have inj: "?p i = ?p j \<longleftrightarrow> i = j" for i j using assms(2) by (simp add: sg_ok_def sg_path_inject)
  have st: "store_inner ext io r s =
      (Inr (), s\<lparr>sg_fs := ?f, sg_cache := set_insert (rc_id r) (sg_cache s)\<rparr>)"
    using assms(2) assms(4) c sg_abs_None [OF assms(1)]
    by (simp add: store_inner_def sg_ok_def write_atomic_def fs_write_def fs_rename_def)
  have f: "?f (?p i) = (if i = rc_id r then Some c else sg_fs s (?p i))" for i
    by (simp add: inj)
  have "sg_wf ext (snd (store_inner ext io r s))"
    using assms(1) c(2) by (auto simp: st sg_wf_def f simp del: fun_upd_apply)
  moreover have "sg_abs ext (snd (store_inner ext io r s)) i = ((sg_abs ext s)(rc_id r \<mapsto> r)) i" for i
    using c(2) f [of i] by (simp add: st sg_abs_def del: fun_upd_apply) (simp add: sg_abs_def)
  ultimately show ?thesis by (auto simp: st)
qed

lemma delete_inner_abs:
  assumes "sg_wf ext s" "sg_ok ext io s"
  shows "fst (delete_inner ext io i s) = (if sg_abs ext s i = None then Inl (NotFound i) else Inr ()) \<and>
    sg_wf ext (snd (delete_inner ext io i s)) \<and>
    sg_abs ext (snd (delete_inner ext io i s)) = (sg_abs ext s)(i := None)"
proof (cases "sg_abs ext s i = None")
  case True
  with assms sg_abs_None [OF assms(1)] show ?thesis by (simp add: delete_inner_def fun_upd_idem)
next
  case False
  have inj: "sg_receipt_path ext (sg_base s) j = sg_receipt_path ext (sg_base s) k \<longleftrightarrow> j = k" for j k
    using assms(2) by (simp add: sg_ok_def sg_path_inject)
  from False assms sg_abs_None [OF assms(1)]
  have del: "delete_inner ext io i s = (Inr (),
      s\<lparr>sg_fs := (sg_fs s)(sg_receipt_path ext (sg_base s) i := None), sg_cache := removeAll i (sg_cache s)\<rparr>)"
    by (simp add: delete_inner_def Let_def fs_remove_def sg_ok_def)
  show ?thesis
    using assms(1) False by (auto simp: del sg_wf_def sg_abs_def inj fun_eq_iff distinct_removeAll)
qed

lemma map_filter_members:
  "set (List.map_filter f xs) = {y. \<exists>x \<in> set xs. f x = Some y}"
  by (force simp: List.map_filter_def)

lemma distinct_map_filter:
  "distinct xs \<Longrightarrow> (\<And>x y r. f x = Some r \<Longrightarrow> f y = Some r \<Longrightarrow> x = y) \<Longrightarrow> distinct (List.map_filter f xs)"
  by (induction xs) (auto simp: List.map_filter_simps map_filter_members split: option.split)

lemma sg_list_by_action_abs:
  assumes "sg_wf ext s" "sg_ok ext io s"
  shows "\<exists>rs. fst (sg_list_by_action ext io a s) = Inr rs \<and> distinct rs \<and>
    set rs = {r. rc_action_id r = a \<and> (\<exists>i. sg_abs ext s i = Some r)}"
proof (rule refresh_cache_ok [OF assms])
  fix cache
  assume rf: "refresh_cache ext io s = (Inr (), s\<lparr>sg_cache := cache\<rparr>)"
    and d: "distinct cache" "set cache = dom (sg_abs ext s)"
    and wf: "sg_wf ext (s\<lparr>sg_cache := cache\<rparr>)"
    and abs: "sg_abs ext (s\<lparr>sg_cache := cache\<rparr>) = sg_abs ext s"
  let ?pick = "\<lambda>i. case sg_abs ext s i of None \<Rightarrow> None | Some r \<Rightarrow> if rc_action_id r = a then Some r else None"
  have "load_inner ext io i (s\<lparr>sg_cache := cache\<rparr>) = Inr (sg_abs ext s i)" for i
    using load_inner_abs [OF wf] assms(2) abs by simp
  then have "fst (sg_list_by_action ext io a s) = Inr (List.map_filter ?pick cache)"
    by (simp add: sg_list_by_action_def sg_list_ids_def rf)
  moreover have "distinct (List.map_filter ?pick cache)"
    by (rule distinct_map_filter [OF d(1)])
      (auto dest: sg_abs_id [OF assms(1)] split: option.splits if_splits)
  moreover have "set (List.map_filter ?pick cache) =
      {r. rc_action_id r = a \<and> (\<exists>i. sg_abs ext s i = Some r)}"
    by (force simp: map_filter_members d(2) split: option.splits if_splits)
  ultimately show ?thesis by blast
qed

interpretation file_st: storage
  "sg_wf ext" "sg_ok ext" "\<lambda>_. sg_writable ext" "sg_abs ext" "store_inner ext" "load_inner ext"
  "sg_list_ids ext" "sg_list_by_action ext" "delete_inner ext" "exists_inner ext" for ext
proof
  fix s io i
  assume a: "sg_wf ext s" "sg_ok ext io s"
  show "fst (exists_inner ext io i s) = Inr (sg_abs ext s i \<noteq> None) \<and>
      sg_wf ext (snd (exists_inner ext io i s)) \<and> sg_abs ext (snd (exists_inner ext io i s)) = sg_abs ext s"
    using a sg_abs_None [OF a(1), of i]
    by (cases "i \<in> set (sg_cache s)", simp add: exists_inner_def sg_wf_def)
      (rule refresh_cache_ok [OF a], auto simp: exists_inner_def)
  show "\<exists>ids. fst (sg_list_ids ext io s) = Inr ids \<and> distinct ids \<and> set ids = dom (sg_abs ext s)"
    by (rule refresh_cache_ok [OF a]) (auto simp: sg_list_ids_def)
qed (simp_all add: store_inner_new load_inner_abs delete_inner_abs sg_list_by_action_abs)

section \<open>Properties\<close>

text \<open>An instance of the libraries for the witnesses: identifiers print in decimal.\<close>

definition plain_receipt :: "nat \<Rightarrow> receipt" where
  "plain_receipt n =
     \<lparr>rc_version = [], rc_id = of_nat n, rc_action_id = 1, rc_contract_id = 0,
      rc_contract_version = [], rc_result = Verified, rc_attempts = 1, rc_observations = [],
      rc_postcondition_results = [], rc_digest = [], rc_key_id = None, rc_idempotency_key = None,
      rc_signature = None, rc_timestamp = 0\<rparr>"

definition plain_lib :: storage_lib where
  "plain_lib =
     \<lparr>sg_id_string = (\<lambda>u. show_nat (unat u)), parse_uuid = (\<lambda>s. map_option of_nat (parse_digits 0 s)),
      sg_to_string = (\<lambda>r. Inr (show_nat (unat (rc_id r)))),
      sg_from_str = (\<lambda>s. case parse_digits 0 s of None \<Rightarrow> Inl [] | Some n \<Rightarrow> Inr (plain_receipt n))\<rparr>"

definition plain_io :: "string list \<Rightarrow> storage_io" where
  "plain_io names = \<lparr>so_write = WriteOk, so_rename_ok = True, so_read_ok = (\<lambda>_. True),
     so_remove_ok = True, so_read_dir = Some (names, True), so_error = []\<rparr>"

definition empty_storage :: file_storage where
  "empty_storage = \<lparr>sg_base = ''d'', sg_cache = [], sg_fs = Map.empty\<rparr>"

lemma plain_lib_inj: "inj (sg_id_string plain_lib)"
  by (auto simp: plain_lib_def inj_def dest!: show_nat_inject intro: unsigned_word_eqI)

lemma plain_digits [simp]: "show_nat 7 = ''7''" "digit_value CHR ''7'' = Some 7"
  by code_simp+

lemma empty_storage_ok: "sg_wf plain_lib empty_storage" "sg_ok plain_lib (plain_io []) empty_storage"
  by (simp_all add: sg_wf_def sg_ok_def empty_storage_def plain_io_def plain_lib_inj)

lemma plain_writable: "sg_writable plain_lib (plain_receipt 7)"
  by (simp add: sg_writable_def plain_lib_def plain_receipt_def)

text \<open>
  Property C27 (refinement): \<open>FileStorage\<close> refines a map from identifiers to receipts. From a
  coherent state and with no failing call, storing a receipt with a new identifier extends the
  map, a second store of it is refused with \<open>AlreadyExists\<close> and changes nothing, \<open>load\<close> reads the
  map, and \<open>delete\<close> removes from it or answers \<open>NotFound\<close>.
\<close>

theorem file_storage_refines_map:
  assumes "sg_wf ext s" "sg_ok ext io s" "sg_writable ext r" "sg_abs ext s (rc_id r) = None"
  shows "fst (store_inner ext io r s) = Inr ()
    \<and> sg_abs ext (snd (store_inner ext io r s)) = (sg_abs ext s)(rc_id r \<mapsto> r)
    \<and> sg_wf ext (snd (store_inner ext io r s))
    \<and> store_inner ext io' r (snd (store_inner ext io r s)) =
        (Inl (AlreadyExists (rc_id r)), snd (store_inner ext io r s))
    \<and> load_inner ext io i s = Inr (sg_abs ext s i)
    \<and> fst (delete_inner ext io i s) = (if sg_abs ext s i = None then Inl (NotFound i) else Inr ())
    \<and> sg_abs ext (snd (delete_inner ext io i s)) = (sg_abs ext s)(i := None)"
proof -
  note st = file_st.store_new [OF assms]
  have "sg_fs (snd (store_inner ext io r s))
      (sg_receipt_path ext (sg_base (snd (store_inner ext io r s))) (rc_id r)) \<noteq> None"
    using st sg_abs_None [of ext "snd (store_inner ext io r s)" "rc_id r"] by simp
  then have "store_inner ext io' r (snd (store_inner ext io r s)) =
        (Inl (AlreadyExists (rc_id r)), snd (store_inner ext io r s))"
    by (simp add: store_inner_def [of ext io' r])
  with st file_st.load_abs [OF assms(1,2)] file_st.delete_abs [OF assms(1,2)] show ?thesis
    by blast
qed

theorem file_storage_refines_map_witness:
  "sg_abs plain_lib (snd (store_inner plain_lib (plain_io []) (plain_receipt 7) empty_storage)) 7
    = Some (plain_receipt 7)"
  using file_storage_refines_map [OF empty_storage_ok plain_writable, of "plain_io []" 0]
  by (simp add: sg_abs_def empty_storage_def) (simp add: plain_receipt_def)

text \<open>
  The cache of \<open>FileStorage\<close> is not coherent across processes. When one
  handle stores a receipt and another handle on the same directory deletes it, the first still
  answers that it exists, whatever the directory shows, while its \<open>load\<close> finds nothing.
\<close>

theorem exists_is_stale:
  assumes "sg_wf ext s" "sg_ok ext io s" "sg_writable ext r" "sg_abs ext s (rc_id r) = None"
    and "mine = snd (store_inner ext io r s)"
    and "other = snd (delete_inner ext io (rc_id r) \<lparr>sg_base = sg_base mine, sg_cache = c, sg_fs = sg_fs mine\<rparr>)"
  shows "fst (exists_inner ext io' (rc_id r) (mine\<lparr>sg_fs := sg_fs other\<rparr>)) = Inr True
    \<and> load_inner ext io' (rc_id r) (mine\<lparr>sg_fs := sg_fs other\<rparr>) = Inr None"
proof -
  note st = file_st.store_new [OF assms(1-4), folded assms(5)]
  from assms(2) have io: "so_write io = WriteOk" "so_rename_ok io" "so_remove_ok io"
    by (auto simp: sg_ok_def)
  from sg_abs_None [OF assms(1)] assms(3,4) io have cached: "rc_id r \<in> set (sg_cache mine)"
    by (auto simp: assms(5) store_inner_def sg_writable_def write_atomic_def fs_write_def fs_rename_def
        split: sum.splits)
  have "sg_fs other (sg_receipt_path ext (sg_base mine) (rc_id r)) = None"
    using io by (simp add: assms(6) delete_inner_def fs_remove_def Let_def)
  with cached show ?thesis by (simp add: exists_inner_def load_inner_def)
qed

theorem exists_is_stale_witness:
  "let mine = snd (store_inner plain_lib (plain_io []) (plain_receipt 7) empty_storage);
       other = snd (delete_inner plain_lib (plain_io []) 7 \<lparr>sg_base = ''d'', sg_cache = [], sg_fs = sg_fs mine\<rparr>)
   in fst (exists_inner plain_lib (plain_io []) 7 (mine\<lparr>sg_fs := sg_fs other\<rparr>)) = Inr True
    \<and> load_inner plain_lib (plain_io []) 7 (mine\<lparr>sg_fs := sg_fs other\<rparr>) = Inr None"
proof -
  have "sg_base (snd (store_inner plain_lib (plain_io []) (plain_receipt 7) empty_storage)) = ''d''"
    by (simp add: store_inner_def empty_storage_def split: sum.split prod.split bool.split)
  moreover have "sg_abs plain_lib empty_storage (rc_id (plain_receipt 7)) = None"
    by (simp add: sg_abs_def empty_storage_def)
  moreover have "rc_id (plain_receipt 7) = 7" by (simp add: plain_receipt_def)
  ultimately show ?thesis
    using exists_is_stale [OF empty_storage_ok plain_writable, OF _ refl refl]
    by (simp add: Let_def)
qed

end
