(* ===== verification/Recovery.thy ===== *)
theory Recovery
  imports Core_Types
begin

text \<open>
  Recovery (\<open>agentverify-recovery/src/lib.rs\<close>): backoff delays, the retry, fallback, circuit
  breaker, timeout and composite strategies, the fallback chain, and the recovery executor.

  An operation is a function on the world that answers \<open>Ok\<close> or \<open>Err\<close>. Circuit breakers are
  shared (\<open>Arc\<close>), so they live in a store and strategies hold their addresses. A panic (chrono
  panics when a sum of durations overflows) is the answer \<open>None\<close>. The answers of the operation
  are also recorded in \<open>rs_log\<close>, which nothing in the program reads.
\<close>

section \<open>Errors and outcomes\<close>

datatype recovery_error =
    MaxAttemptsExceeded u32
  | CircuitBreakerOpen
  | Timeout_after duration
  | AllFallbacksExhausted
  | NotApplicable_for verification_result
  | UnderlyingError string

datatype recovery_outcome = Success verification_result | Failure recovery_error | NotApplicable

fun show_recovery_error :: "(duration \<Rightarrow> string) \<Rightarrow> recovery_error \<Rightarrow> string" where
  "show_recovery_error sd (MaxAttemptsExceeded n) =
     ''Maximum retry attempts ('' @ show_nat (unat n) @ '') exceeded''"
| "show_recovery_error sd CircuitBreakerOpen = ''Circuit breaker is open, retry not allowed''"
| "show_recovery_error sd (Timeout_after d) = ''Operation timed out after '' @ sd d"
| "show_recovery_error sd AllFallbacksExhausted = ''All fallback strategies exhausted''"
| "show_recovery_error sd (NotApplicable_for r) =
     ''Recovery not applicable for result: '' @ show_result r"
| "show_recovery_error sd (UnderlyingError c) = ''Recovery failed: '' @ c"

section \<open>Backoff\<close>

datatype backoff_kind = Fixed | Linear | Exponential

record backoff =
  bo_type :: backoff_kind
  bo_initial :: duration
  bo_max :: duration
  bo_multiplier :: f64

text \<open>
  What recovery takes from libraries: durations (chrono), \<open>f64::powi\<close>, the clock, sleeping, and
  running an operation under a timeout.
\<close>

type_synonym 'w operation = "'w \<Rightarrow> (recovery_error + verification_result) \<times> 'w"

record 'w recovery_lib =
  rl_num_milliseconds :: "duration \<Rightarrow> i64"
  rl_milliseconds :: "int \<Rightarrow> duration option"
  rl_add :: "duration \<Rightarrow> duration \<Rightarrow> duration option"
  rl_powi :: "f64 \<Rightarrow> i32 \<Rightarrow> f64"
  rl_now :: "'w \<Rightarrow> datetime \<times> 'w"
  rl_sleep :: "u64 \<Rightarrow> 'w \<Rightarrow> 'w"
  rl_timeout :: "u64 \<Rightarrow> 'w operation \<Rightarrow> 'w \<Rightarrow> (recovery_error + verification_result) option \<times> 'w"

definition new_backoff :: "backoff_kind \<Rightarrow> duration \<Rightarrow> duration \<Rightarrow> backoff" where
  "new_backoff t i m =
     \<lparr>bo_type = t, bo_initial = i, bo_max = m, bo_multiplier = 0x4000000000000000\<rparr>"

definition with_multiplier :: "f64 \<Rightarrow> backoff \<Rightarrow> backoff" where
  "with_multiplier m b = b\<lparr>bo_multiplier := m\<rparr>"

definition default_backoff :: backoff where
  "default_backoff =
     \<lparr>bo_type = Exponential, bo_initial = 100 * 10 ^ 6, bo_max = 30 * 10 ^ 9,
      bo_multiplier = 0x4000000000000000\<rparr>"

definition calculate_delay :: "'w recovery_lib \<Rightarrow> backoff \<Rightarrow> u32 \<Rightarrow> duration option" where
  "calculate_delay lib b attempt =
     (let millis = f64_of_int (sint (rl_num_milliseconds lib (bo_initial b)));
          delay = (case bo_type b of
              Fixed \<Rightarrow> Some (bo_initial b)
            | Linear \<Rightarrow>
                Option.bind (rl_milliseconds lib (f64_as_i64
                    (f64_mul (f64_mul millis (bo_multiplier b)) (f64_of_nat (unat attempt)))))
                  (rl_add lib (bo_initial b))
            | Exponential \<Rightarrow>
                rl_milliseconds lib
                  (f64_as_i64 (f64_mul millis (rl_powi lib (bo_multiplier b) attempt))))
      in map_option (\<lambda>d. if d > bo_max b then bo_max b else d) delay)"

section \<open>Circuit breakers\<close>

datatype circuit_state = Closed | Open | HalfOpen

record circuit_breaker_config =
  failure_threshold :: u32
  success_threshold :: u32
  recovery_timeout :: duration

definition default_circuit_breaker_config :: circuit_breaker_config where
  "default_circuit_breaker_config =
     \<lparr>failure_threshold = 5, success_threshold = 2, recovery_timeout = 30 * 10 ^ 9\<rparr>"

record circuit_breaker =
  cb_state :: circuit_state
  failure_count :: u32
  success_count :: u32
  last_failure :: "datetime option"
  cb_config :: circuit_breaker_config

definition new_circuit_breaker :: "circuit_breaker_config \<Rightarrow> circuit_breaker" where
  "new_circuit_breaker cfg =
     \<lparr>cb_state = Closed, failure_count = 0, success_count = 0, last_failure = None, cb_config = cfg\<rparr>"

definition record_failure :: "datetime \<Rightarrow> circuit_breaker \<Rightarrow> circuit_breaker" where
  "record_failure now cb =
     (let cb1 = cb\<lparr>last_failure := Some now\<rparr>
      in case cb_state cb of
           Closed \<Rightarrow>
             (let failures = failure_count cb + 1; cb2 = cb1\<lparr>failure_count := failures\<rparr>
              in if failures \<ge> failure_threshold (cb_config cb) then cb2\<lparr>cb_state := Open\<rparr> else cb2)
         | HalfOpen \<Rightarrow> cb1\<lparr>cb_state := Open, success_count := 0\<rparr>
         | Open \<Rightarrow> cb1)"

definition record_success :: "circuit_breaker \<Rightarrow> circuit_breaker" where
  "record_success cb =
     (case cb_state cb of
        Closed \<Rightarrow> cb\<lparr>failure_count := 0\<rparr>
      | HalfOpen \<Rightarrow>
          (let successes = success_count cb + 1
           in if successes \<ge> success_threshold (cb_config cb)
              then cb\<lparr>cb_state := Closed, failure_count := 0, success_count := 0\<rparr>
              else cb\<lparr>success_count := successes\<rparr>)
      | Open \<Rightarrow> cb)"

text \<open>\<open>is_allowed\<close> reads the clock only when the circuit is open and has failed.\<close>

definition is_allowed :: "datetime \<Rightarrow> circuit_breaker \<Rightarrow> bool \<times> circuit_breaker" where
  "is_allowed now cb =
     (if cb_state cb = Open then
        (case last_failure cb of
           Some t \<Rightarrow>
             if now - t \<ge> recovery_timeout (cb_config cb) then (True, cb\<lparr>cb_state := HalfOpen\<rparr>)
             else (False, cb)
         | None \<Rightarrow> (False, cb))
      else (True, cb))"

section \<open>Strategies\<close>

record 'w recovery_state =
  rs_world :: 'w
  rs_breakers :: "nat \<Rightarrow> circuit_breaker"
  rs_log :: "(recovery_error + verification_result) list"

definition run_operation ::
  "'w operation \<Rightarrow> 'w recovery_state \<Rightarrow> (recovery_error + verification_result) \<times> 'w recovery_state" where
  "run_operation op st =
     (let (r, w) = op (rs_world st) in (r, st\<lparr>rs_world := w, rs_log := rs_log st @ [r]\<rparr>))"

definition read_clock :: "'w recovery_lib \<Rightarrow> 'w recovery_state \<Rightarrow> datetime \<times> 'w recovery_state" where
  "read_clock lib st = (let (t, w) = rl_now lib (rs_world st) in (t, st\<lparr>rs_world := w\<rparr>))"

definition breaker_allows ::
  "'w recovery_lib \<Rightarrow> nat \<Rightarrow> 'w recovery_state \<Rightarrow> bool \<times> 'w recovery_state" where
  "breaker_allows lib i st =
     (let cb0 = rs_breakers st i;
          (now, st1) = (if cb_state cb0 = Open \<and> last_failure cb0 \<noteq> None then read_clock lib st
                        else (0, st));
          (ok, cb) = is_allowed now cb0
      in (ok, st1\<lparr>rs_breakers := (rs_breakers st1)(i := cb)\<rparr>))"

definition breaker_fails :: "'w recovery_lib \<Rightarrow> nat \<Rightarrow> 'w recovery_state \<Rightarrow> 'w recovery_state" where
  "breaker_fails lib i st =
     (let (now, st1) = read_clock lib st
      in st1\<lparr>rs_breakers := (rs_breakers st1)(i := record_failure now (rs_breakers st1 i))\<rparr>)"

definition breaker_succeeds :: "nat \<Rightarrow> 'w recovery_state \<Rightarrow> 'w recovery_state" where
  "breaker_succeeds i st =
     st\<lparr>rs_breakers := (rs_breakers st)(i := record_success (rs_breakers st i))\<rparr>"

definition breaker_execute ::
  "'w recovery_lib \<Rightarrow> nat \<Rightarrow> 'w operation \<Rightarrow> 'w recovery_state
   \<Rightarrow> (recovery_error + verification_result) \<times> 'w recovery_state" where
  "breaker_execute lib i op st =
     (case breaker_allows lib i st of
        (False, st1) \<Rightarrow> (Inl CircuitBreakerOpen, st1)
      | (True, st1) \<Rightarrow>
          (case run_operation op st1 of
             (Inr r, st2) \<Rightarrow>
               (Inr r, if is_success r then breaker_succeeds i st2 else breaker_fails lib i st2)
           | (Inl e, st2) \<Rightarrow> (Inl e, breaker_fails lib i st2)))"

record retry_strategy =
  rt_max_attempts :: u32
  rt_backoff :: backoff

definition with_default_backoff :: "u32 \<Rightarrow> retry_strategy" where
  "with_default_backoff n = \<lparr>rt_max_attempts = n, rt_backoff = default_backoff\<rparr>"

definition retry_pause ::
  "'w recovery_lib \<Rightarrow> backoff \<Rightarrow> u32 \<Rightarrow> 'w recovery_state \<Rightarrow> 'w recovery_state option" where
  "retry_pause lib b attempt st =
     (if attempt > 0 then
        map_option (\<lambda>d. st\<lparr>rs_world := rl_sleep lib (rl_num_milliseconds lib d) (rs_world st)\<rparr>)
          (calculate_delay lib b (attempt - 1))
      else Some st)"

definition retry_verdict :: "u32 \<Rightarrow> recovery_error option \<Rightarrow> bool \<Rightarrow> recovery_outcome" where
  "retry_verdict max_attempts last_error has_failure =
     (if has_failure then
        (case last_error of
           Some e \<Rightarrow> Failure e | None \<Rightarrow> Failure (MaxAttemptsExceeded max_attempts))
      else Failure (MaxAttemptsExceeded max_attempts))"

text \<open>The loop \<open>for attempt in 0..max_attempts\<close>, by the number of attempts that remain.\<close>

fun retry_loop ::
  "'w recovery_lib \<Rightarrow> retry_strategy \<Rightarrow> 'w operation \<Rightarrow> nat \<Rightarrow> u32 \<Rightarrow> recovery_error option \<Rightarrow> bool
   \<Rightarrow> 'w recovery_state \<Rightarrow> recovery_outcome option \<times> 'w recovery_state" where
  "retry_loop lib s op 0 attempt last_error has_failure st =
     (Some (retry_verdict (rt_max_attempts s) last_error has_failure), st)"
| "retry_loop lib s op (Suc n) attempt last_error has_failure st =
     (case retry_pause lib (rt_backoff s) attempt st of
        None \<Rightarrow> (None, st)
      | Some st1 \<Rightarrow>
          (case run_operation op st1 of
             (Inr r, st2) \<Rightarrow>
               if is_success r then (Some (Success r), st2)
               else retry_loop lib s op n (attempt + 1) (Some (NotApplicable_for r))
                      (has_failure \<or> is_failure r) st2
           | (Inl e, st2) \<Rightarrow>
               if e = CircuitBreakerOpen
               then (Some (retry_verdict (rt_max_attempts s) (Some e) has_failure), st2)
               else retry_loop lib s op n (attempt + 1) (Some e) has_failure st2))"

definition retry_execute ::
  "'w recovery_lib \<Rightarrow> retry_strategy \<Rightarrow> 'w operation \<Rightarrow> 'w recovery_state
   \<Rightarrow> recovery_outcome option \<times> 'w recovery_state" where
  "retry_execute lib s op st = retry_loop lib s op (unat (rt_max_attempts s)) 0 None False st"

record fallback =
  fb_name :: string
  fb_exhausted :: u32
  fb_max_uses :: u32

definition new_fallback :: "string \<Rightarrow> fallback" where
  "new_fallback name = \<lparr>fb_name = name, fb_exhausted = 0, fb_max_uses = 0\<rparr>"

definition with_max_uses :: "u32 \<Rightarrow> fallback \<Rightarrow> fallback" where
  "with_max_uses n f = f\<lparr>fb_max_uses := n\<rparr>"

definition is_exhausted :: "fallback \<Rightarrow> bool" where
  "is_exhausted f = (if fb_max_uses f = 0 then False else fb_exhausted f \<ge> fb_max_uses f)"

text \<open>\<open>execute_fallback_chain\<close>: the first success, in order.\<close>

fun execute_fallback_chain ::
  "(string \<times> 'w operation) list \<Rightarrow> 'w recovery_state
   \<Rightarrow> (recovery_error + verification_result) \<times> 'w recovery_state" where
  "execute_fallback_chain [] st = (Inl AllFallbacksExhausted, st)"
| "execute_fallback_chain ((name, op) # fs) st =
     (case run_operation op st of
        (Inr r, st1) \<Rightarrow> if is_success r then (Inr r, st1) else execute_fallback_chain fs st1
      | (Inl e, st1) \<Rightarrow> execute_fallback_chain fs st1)"

datatype strategy =
    Retry_s retry_strategy
  | Fallback_s "fallback list"
  | CircuitBreaker_s nat
  | Timeout_s duration
  | Composite_s "strategy list"

definition breaker_strategy_execute ::
  "'w recovery_lib \<Rightarrow> nat \<Rightarrow> 'w operation \<Rightarrow> 'w recovery_state
   \<Rightarrow> recovery_outcome option \<times> 'w recovery_state" where
  "breaker_strategy_execute lib i op st =
     (case breaker_allows lib i st of
        (False, st1) \<Rightarrow> (Some (Failure CircuitBreakerOpen), st1)
      | (True, st1) \<Rightarrow>
          (case breaker_execute lib i op st1 of
             (Inr r, st2) \<Rightarrow> (Some (Success r), st2) | (Inl e, st2) \<Rightarrow> (Some (Failure e), st2)))"

definition timeout_execute ::
  "'w recovery_lib \<Rightarrow> duration \<Rightarrow> 'w operation \<Rightarrow> 'w recovery_state
   \<Rightarrow> recovery_outcome option \<times> 'w recovery_state" where
  "timeout_execute lib t op st =
     (let (res, w) = rl_timeout lib (rl_num_milliseconds lib t) op (rs_world st)
      in case res of
           Some r \<Rightarrow>
             (Some (case r of Inr v \<Rightarrow> Success v | Inl e \<Rightarrow> Failure e),
              st\<lparr>rs_world := w, rs_log := rs_log st @ [r]\<rparr>)
         | None \<Rightarrow> (Some (Failure (Timeout_after t)), st\<lparr>rs_world := w\<rparr>))"

definition fallback_strategy_execute ::
  "fallback list \<Rightarrow> 'w operation \<Rightarrow> 'w recovery_state \<Rightarrow> recovery_outcome option \<times> 'w recovery_state" where
  "fallback_strategy_execute fs op st = (Some (Failure AllFallbacksExhausted), st)"

declare fallback_strategy_execute_def [simp]

text \<open>The chain of a composite strategy and of the executor's fallbacks: the first \<open>Success\<close>, else
  \<open>otherwise\<close>.\<close>

fun strategy_execute ::
  "'w recovery_lib \<Rightarrow> 'w operation \<Rightarrow> strategy \<Rightarrow> 'w recovery_state
   \<Rightarrow> recovery_outcome option \<times> 'w recovery_state"
and try_strategies ::
  "'w recovery_lib \<Rightarrow> 'w operation \<Rightarrow> recovery_outcome \<Rightarrow> strategy list \<Rightarrow> 'w recovery_state
   \<Rightarrow> recovery_outcome option \<times> 'w recovery_state" where
  "strategy_execute lib op (Retry_s s) st = retry_execute lib s op st"
| "strategy_execute lib op (Fallback_s fs) st = fallback_strategy_execute fs op st"
| "strategy_execute lib op (CircuitBreaker_s i) st = breaker_strategy_execute lib i op st"
| "strategy_execute lib op (Timeout_s t) st = timeout_execute lib t op st"
| "strategy_execute lib op (Composite_s ss) st =
     try_strategies lib op (Failure (MaxAttemptsExceeded 1)) ss st"
| "try_strategies lib op otherwise [] st = (Some otherwise, st)"
| "try_strategies lib op otherwise (s # ss) st =
     (case strategy_execute lib op s st of
        (None, st1) \<Rightarrow> (None, st1)
      | (Some (Success r), st1) \<Rightarrow> (Some (Success r), st1)
      | (Some _, st1) \<Rightarrow> try_strategies lib op otherwise ss st1)"

text \<open>Which results each strategy takes on; the enum hands the question to its strategy.\<close>

definition retry_is_applicable :: "retry_strategy \<Rightarrow> verification_result \<Rightarrow> bool" where
  "retry_is_applicable s r = (r \<in> {Unknown, Failed, Partial})"

definition fallback_is_applicable :: "fallback list \<Rightarrow> verification_result \<Rightarrow> bool" where
  "fallback_is_applicable fs r = (r \<in> {Failed, Partial, Unknown})"

definition breaker_is_applicable :: "nat \<Rightarrow> verification_result \<Rightarrow> bool" where
  "breaker_is_applicable i r = True"

definition timeout_is_applicable :: "duration \<Rightarrow> verification_result \<Rightarrow> bool" where
  "timeout_is_applicable t r = (r \<in> {Unknown, Partial})"

fun is_applicable :: "strategy \<Rightarrow> verification_result \<Rightarrow> bool"
and composite_is_applicable :: "strategy list \<Rightarrow> verification_result \<Rightarrow> bool" where
  "is_applicable (Retry_s s) r = retry_is_applicable s r"
| "is_applicable (Fallback_s fs) r = fallback_is_applicable fs r"
| "is_applicable (CircuitBreaker_s i) r = breaker_is_applicable i r"
| "is_applicable (Timeout_s t) r = timeout_is_applicable t r"
| "is_applicable (Composite_s ss) r = composite_is_applicable ss r"
| "composite_is_applicable [] r = False"
| "composite_is_applicable (s # ss) r = (is_applicable s r \<or> composite_is_applicable ss r)"

text \<open>No strategy but a circuit breaker, alone or in a composite, takes on a success.\<close>

fun has_breaker :: "strategy \<Rightarrow> bool" and any_breaker :: "strategy list \<Rightarrow> bool" where
  "has_breaker (CircuitBreaker_s i) = True"
| "has_breaker (Composite_s ss) = any_breaker ss"
| "has_breaker _ = False"
| "any_breaker [] = False"
| "any_breaker (s # ss) = (has_breaker s \<or> any_breaker ss)"

lemma success_needs_breaker:
  "is_applicable s Verified = has_breaker s" "composite_is_applicable ss Verified = any_breaker ss"
  by (induction s and ss rule: has_breaker_any_breaker.induct)
    (simp_all add: retry_is_applicable_def fallback_is_applicable_def breaker_is_applicable_def
      timeout_is_applicable_def)

text \<open>How fallback and composite strategies are put together.\<close>

definition new_retry_strategy :: "u32 \<Rightarrow> backoff \<Rightarrow> retry_strategy" where
  "new_retry_strategy n b = \<lparr>rt_max_attempts = n, rt_backoff = b\<rparr>"

definition max_attempts :: "retry_strategy \<Rightarrow> u32" where
  "max_attempts s = rt_max_attempts s"

definition retry_backoff :: "retry_strategy \<Rightarrow> backoff" where
  "retry_backoff s = rt_backoff s"

definition clone_fallback :: "fallback \<Rightarrow> fallback" where
  "clone_fallback f =
     \<lparr>fb_name = fb_name f, fb_exhausted = fb_exhausted f, fb_max_uses = fb_max_uses f\<rparr>"

definition fallback_name :: "fallback \<Rightarrow> string" where
  "fallback_name f = fb_name f"

definition new_timeout_strategy :: "duration \<Rightarrow> strategy" where
  "new_timeout_strategy t = Timeout_s t"

text \<open>A breaker strategy shares the breaker at an address; \<open>with_default_config\<close> makes a new one.\<close>

definition new_breaker_strategy :: "nat \<Rightarrow> strategy" where
  "new_breaker_strategy i = CircuitBreaker_s i"

definition new_fallback_strategy :: "fallback list" where "new_fallback_strategy = []"

definition add_fallback :: "fallback \<Rightarrow> fallback list \<Rightarrow> fallback list" where
  "add_fallback f fs = fs @ [f]"

definition with_named_fallback :: "string \<Rightarrow> fallback list \<Rightarrow> fallback list" where
  "with_named_fallback name fs = fs @ [new_fallback name]"

definition new_composite :: "strategy list" where "new_composite = []"

definition add_strategy :: "strategy \<Rightarrow> strategy list \<Rightarrow> strategy list" where
  "add_strategy s ss = ss @ [s]"

definition breaker_with_default_config :: circuit_breaker where
  "breaker_with_default_config = new_circuit_breaker default_circuit_breaker_config"

definition breaker_strategy_default :: "nat \<Rightarrow> 'w recovery_state \<Rightarrow> strategy \<times> 'w recovery_state" where
  "breaker_strategy_default i st =
     (CircuitBreaker_s i, st\<lparr>rs_breakers := (rs_breakers st)(i := breaker_with_default_config)\<rparr>)"

definition breaker_state :: "nat \<Rightarrow> 'w recovery_state \<Rightarrow> circuit_state" where
  "breaker_state i st = cb_state (rs_breakers st i)"

section \<open>The recovery executor\<close>

record recovery_executor =
  rx_primary :: strategy
  rx_fallbacks :: "strategy list"
  rx_circuit_breaker :: "nat option"

definition new_recovery_executor :: "strategy \<Rightarrow> recovery_executor" where
  "new_recovery_executor p = \<lparr>rx_primary = p, rx_fallbacks = [], rx_circuit_breaker = None\<rparr>"

definition with_fallback :: "strategy \<Rightarrow> recovery_executor \<Rightarrow> recovery_executor" where
  "with_fallback s x = x\<lparr>rx_fallbacks := rx_fallbacks x @ [s]\<rparr>"

definition with_circuit_breaker :: "nat \<Rightarrow> recovery_executor \<Rightarrow> recovery_executor" where
  "with_circuit_breaker i x = x\<lparr>rx_circuit_breaker := Some i\<rparr>"

definition recovery_execute ::
  "'w recovery_lib \<Rightarrow> recovery_executor \<Rightarrow> 'w operation \<Rightarrow> 'w recovery_state
   \<Rightarrow> recovery_outcome option \<times> 'w recovery_state" where
  "recovery_execute lib x op st =
     (case strategy_execute lib op (rx_primary x) st of
        (None, st1) \<Rightarrow> (None, st1)
      | (Some (Success r), st1) \<Rightarrow> (Some (Success r), st1)
      | (Some outcome, st1) \<Rightarrow>
          (case rx_circuit_breaker x of
             None \<Rightarrow> try_strategies lib op outcome (rx_fallbacks x) st1
           | Some i \<Rightarrow>
               (case breaker_allows lib i st1 of
                  (False, st2) \<Rightarrow> (Some (Failure CircuitBreakerOpen), st2)
                | (True, st2) \<Rightarrow> try_strategies lib op outcome (rx_fallbacks x) st2)))"

definition execute_and_return ::
  "'w recovery_lib \<Rightarrow> recovery_executor \<Rightarrow> 'w operation \<Rightarrow> 'w recovery_state
   \<Rightarrow> (recovery_error + verification_result) option \<times> 'w recovery_state" where
  "execute_and_return lib x op st =
     (let (outcome, st1) = recovery_execute lib x op st
      in (map_option (\<lambda>res. case res of
            Success r \<Rightarrow> Inr r | Failure e \<Rightarrow> Inl e | NotApplicable \<Rightarrow> Inl (NotApplicable_for Unknown))
          outcome, st1))"

section \<open>Circuit breakers: reachable states\<close>

inductive cb_reach :: "circuit_breaker_config \<Rightarrow> circuit_breaker \<Rightarrow> bool" for cfg where
  initial: "cb_reach cfg (new_circuit_breaker cfg)"
| failed: "cb_reach cfg cb \<Longrightarrow> cb_reach cfg (record_failure now cb)"
| succeeded: "cb_reach cfg cb \<Longrightarrow> cb_reach cfg (record_success cb)"
| asked: "cb_reach cfg cb \<Longrightarrow> cb_reach cfg (snd (is_allowed now cb))"

text \<open>The counters are below their thresholds, and zero where they are not in use.\<close>

definition cb_inv :: "circuit_breaker_config \<Rightarrow> circuit_breaker \<Rightarrow> bool" where
  "cb_inv cfg cb \<longleftrightarrow> cb_config cb = cfg \<and>
     (case cb_state cb of
        Closed \<Rightarrow> success_count cb = 0 \<and>
          (failure_count cb = 0 \<or> failure_count cb < failure_threshold cfg)
      | Open \<Rightarrow> success_count cb = 0 \<and> last_failure cb \<noteq> None
      | HalfOpen \<Rightarrow> last_failure cb \<noteq> None \<and>
          (success_count cb = 0 \<or> success_count cb < success_threshold cfg))"

lemma cb_inv_ops:
  assumes "cb_inv cfg cb"
  shows "cb_inv cfg (record_failure now cb)" "cb_inv cfg (record_success cb)"
    and "cb_inv cfg (snd (is_allowed now cb))"
  using assms
  by (auto simp: cb_inv_def record_failure_def record_success_def is_allowed_def Let_def not_le
      split: circuit_state.splits option.splits)

lemma cb_inv_new: "cb_inv cfg (new_circuit_breaker cfg)"
  by (simp add: cb_inv_def new_circuit_breaker_def)

lemma cb_reach_inv: "cb_reach cfg cb \<Longrightarrow> cb_inv cfg cb"
  by (induction rule: cb_reach.induct) (simp_all add: cb_inv_new cb_inv_ops)

lemma record_failure_closed:
  assumes "cb_inv cfg cb" "cb_state cb = Closed"
  shows "cb_state (record_failure t cb) =
      (if unat (failure_threshold cfg) \<le> unat (failure_count cb) + 1 then Open else Closed)"
    and "unat (failure_threshold cfg) > unat (failure_count cb) + 1 \<Longrightarrow>
      unat (failure_count (record_failure t cb)) = unat (failure_count cb) + 1"
    and "last_failure (record_failure t cb) = Some t"
proof -
  have "unat (failure_count cb) + 1 < 2 ^ 32"
    using assms unsigned_less [where ?'a = nat, of "failure_threshold cfg"]
    by (auto simp: cb_inv_def word_less_nat_alt)
  then have "unat (failure_count cb + 1) = unat (failure_count cb) + 1"
    using unat_add_lem [of "failure_count cb" 1] by simp
  moreover have "cb_config cb = cfg" using assms(1) by (simp add: cb_inv_def)
  ultimately show "cb_state (record_failure t cb) =
      (if unat (failure_threshold cfg) \<le> unat (failure_count cb) + 1 then Open else Closed)"
    "unat (failure_threshold cfg) > unat (failure_count cb) + 1 \<Longrightarrow>
      unat (failure_count (record_failure t cb)) = unat (failure_count cb) + 1"
    "last_failure (record_failure t cb) = Some t"
    using assms(2) by (simp_all add: record_failure_def Let_def word_le_nat_alt)
qed

lemma record_failure_open:
  "cb_state cb = Open \<Longrightarrow> cb_state (record_failure t cb) = Open \<and> last_failure (record_failure t cb) = Some t"
  by (simp add: record_failure_def)

lemma failures_open:
  "cb_inv cfg cb \<Longrightarrow> cb_state cb \<in> {Closed, Open} \<Longrightarrow> ts \<noteq> [] \<Longrightarrow>
   (cb_state cb = Closed \<Longrightarrow> unat (failure_threshold cfg) \<le> unat (failure_count cb) + length ts) \<Longrightarrow>
   cb_state (fold record_failure ts cb) = Open \<and>
   last_failure (fold record_failure ts cb) = Some (last ts) \<and>
   cb_config (fold record_failure ts cb) = cfg"
proof (induction ts arbitrary: cb)
  case (Cons t ts)
  let ?cb = "record_failure t cb"
  have inv: "cb_inv cfg ?cb" using Cons.prems(1) by (rule cb_inv_ops)
  have last: "last_failure ?cb = Some t"
    using Cons.prems record_failure_closed(3) record_failure_open by blast
  have st: "cb_state ?cb \<in> {Closed, Open}"
    using Cons.prems record_failure_closed(1) [of cfg cb t] record_failure_open [of cb t] by auto
  have cnt: "cb_state ?cb = Closed \<Longrightarrow>
      unat (failure_threshold cfg) \<le> unat (failure_count ?cb) + length ts"
    using Cons.prems record_failure_closed [of cfg cb t] record_failure_open [of cb t]
    by (auto split: if_splits)
  show ?case
  proof (cases "ts = []")
    case True
    with st cnt last inv show ?thesis
      using Cons.prems record_failure_closed(1) [of cfg cb t] record_failure_open [of cb t]
      by (auto simp: cb_inv_def)
  next
    case False
    with Cons.IH [OF inv st False cnt] show ?thesis by simp
  qed
qed simp

section \<open>Properties\<close>

text \<open>
  In every state a circuit breaker can be driven into by failures,
  successes and queries at any times, a closed circuit has counted fewer failures than its
  threshold, a half-open one fewer successes than its threshold, and an open or half-open one
  knows when it last failed, so it can always reopen for requests.
\<close>

theorem circuit_breaker_invariant:
  assumes "cb_reach cfg cb"
  shows "cb_config cb = cfg \<and>
     (case cb_state cb of
        Closed \<Rightarrow> success_count cb = 0 \<and>
          (failure_count cb = 0 \<or> failure_count cb < failure_threshold cfg)
      | Open \<Rightarrow> success_count cb = 0 \<and> last_failure cb \<noteq> None
      | HalfOpen \<Rightarrow> last_failure cb \<noteq> None \<and>
          (success_count cb = 0 \<or> success_count cb < success_threshold cfg))"
  using cb_reach_inv [OF assms] by (simp add: cb_inv_def)

theorem circuit_breaker_invariant_witness:
  "cb_config (record_failure 7 (new_circuit_breaker default_circuit_breaker_config))
     = default_circuit_breaker_config"
  using circuit_breaker_invariant [OF cb_reach.failed [OF cb_reach.initial]] by blast

text \<open>
  Property C29 (safety): a circuit that has failed as often in a row as its threshold says fails
  fast. As long as the recovery timeout has not passed since the last failure, \<open>execute\<close> answers
  \<open>CircuitBreakerOpen\<close> and does not run the operation.
\<close>

theorem open_circuit_fails_fast:
  assumes "cb_reach cfg cb" "cb_state cb = Closed" "ts \<noteq> []"
    and "unat (failure_threshold cfg) \<le> unat (failure_count cb) + length ts"
    and "rs_breakers st i = fold record_failure ts cb"
    and "fst (rl_now lib (rs_world st)) - last ts < recovery_timeout cfg"
  shows "fst (breaker_execute lib i op st) = Inl CircuitBreakerOpen
    \<and> rs_log (snd (breaker_execute lib i op st)) = rs_log st"
proof -
  have "cb_state (rs_breakers st i) = Open \<and> last_failure (rs_breakers st i) = Some (last ts) \<and>
      cb_config (rs_breakers st i) = cfg"
    using failures_open [OF cb_reach_inv [OF assms(1)], of ts] assms(2-5) by simp
  moreover obtain now w where "rl_now lib (rs_world st) = (now, w)"
    by (cases "rl_now lib (rs_world st)")
  ultimately show ?thesis using assms(6)
    by (simp add: breaker_execute_def breaker_allows_def read_clock_def is_allowed_def Let_def)
qed

text \<open>Instances for the witnesses: a world that is the current time, on which nothing acts.\<close>

definition clock_lib :: "int recovery_lib" where
  "clock_lib = \<lparr>rl_num_milliseconds = (\<lambda>d. of_int (d div 1000000)),
     rl_milliseconds = (\<lambda>n. Some (n * 1000000)), rl_add = (\<lambda>a b. Some (a + b)),
     rl_powi = (\<lambda>_ _. 0), rl_now = (\<lambda>w. (w, w)), rl_sleep = (\<lambda>_ w. w),
     rl_timeout = (\<lambda>_ op w. case op w of (r, w1) \<Rightarrow> (Some r, w1))\<rparr>"

definition clock_state :: "circuit_breaker \<Rightarrow> int recovery_state" where
  "clock_state cb = \<lparr>rs_world = 10, rs_breakers = (\<lambda>_. cb), rs_log = []\<rparr>"

theorem open_circuit_fails_fast_witness:
  "fst (breaker_execute clock_lib 0 (\<lambda>w. (Inr Verified, w))
     (clock_state (fold record_failure [1, 2, 3, 4, 5]
       (new_circuit_breaker default_circuit_breaker_config)))) = Inl CircuitBreakerOpen"
  by (rule conjunct1, rule open_circuit_fails_fast
        [OF cb_reach.initial [of default_circuit_breaker_config], of "[1, 2, 3, 4, 5]"])
    (simp_all add: new_circuit_breaker_def default_circuit_breaker_config_def clock_state_def
      clock_lib_def)

text \<open>The answers that are not a success.\<close>

definition no_success :: "(recovery_error + verification_result) list \<Rightarrow> bool" where
  "no_success rs = list_all (\<lambda>x. case x of Inr r \<Rightarrow> \<not> is_success r | Inl _ \<Rightarrow> True) rs"

lemma retry_pause_log: "retry_pause lib b k st = Some st1 \<Longrightarrow> rs_log st1 = rs_log st"
  by (auto simp: retry_pause_def split: if_splits)

lemma run_operation_log: "run_operation op st = (r, st1) \<Longrightarrow> rs_log st1 = rs_log st @ [r]"
  by (auto simp: run_operation_def split: prod.splits)

lemma retry_verdict_fails [simp]: "retry_verdict m e f \<noteq> Success r"
  by (simp add: retry_verdict_def split: option.split)

lemma retry_loop_log:
  "retry_loop lib s op n k le hf st = (out, st1) \<Longrightarrow>
   \<exists>rs. rs_log st1 = rs_log st @ rs \<and> length rs \<le> n \<and> no_success (butlast rs) \<and>
     (case out of
        Some (Success r) \<Rightarrow> rs \<noteq> [] \<and> last rs = Inr r \<and> is_success r | _ \<Rightarrow> no_success rs)"
proof (induction n arbitrary: k le hf st)
  case 0
  then show ?case by (auto simp: no_success_def split: option.split recovery_outcome.split)
next
  case (Suc n)
  show ?case
  proof (cases "retry_pause lib (rt_backoff s) k st")
    case None
    with Suc.prems show ?thesis by (auto simp: no_success_def)
  next
    case (Some s1)
    obtain r s2 where r: "run_operation op s1 = (r, s2)" by (cases "run_operation op s1")
    have log: "rs_log s2 = rs_log st @ [r]"
      using retry_pause_log [OF Some] run_operation_log [OF r] by simp
    have more: ?thesis if "retry_loop lib s op n k' le' hf' s2 = (out, st1)" "no_success [r]" for k' le' hf'
    proof -
      from Suc.IH [OF that(1)] obtain rs where "rs_log st1 = rs_log s2 @ rs" "length rs \<le> n"
        "no_success (butlast rs)" "case out of
        Some (Success r) \<Rightarrow> rs \<noteq> [] \<and> last rs = Inr r \<and> is_success r | _ \<Rightarrow> no_success rs" by blast
      with log that(2) show ?thesis
        by (intro exI [of _ "r # rs"])
          (auto simp: no_success_def split: option.splits recovery_outcome.splits)
    qed
    show ?thesis
    proof (cases r)
      case (Inl e)
      with Suc.prems Some r log more show ?thesis
        by (cases "e = CircuitBreakerOpen")
          (auto simp: no_success_def split: recovery_outcome.splits intro!: exI [of _ "[r]"])
    next
      case (Inr v)
      with Suc.prems Some r log more show ?thesis
        by (cases "is_success v") (auto simp: no_success_def intro!: exI [of _ "[r]"])
    qed
  qed
qed

text \<open>
  Property C32 (functional): \<open>RetryStrategy\<close> runs the operation at most \<open>max_attempts\<close> times, stops
  at the first success and returns it; in every other outcome none of its runs was a success.
\<close>

theorem retry_first_success:
  assumes "retry_execute lib s op st = (out, st1)"
  shows "\<exists>rs. rs_log st1 = rs_log st @ rs \<and> length rs \<le> unat (rt_max_attempts s)
    \<and> no_success (butlast rs)
    \<and> (case out of
         Some (Success r) \<Rightarrow> rs \<noteq> [] \<and> last rs = Inr r \<and> is_success r
       | _ \<Rightarrow> no_success rs)"
  using retry_loop_log assms unfolding retry_execute_def by blast

theorem retry_first_success_witness:
  "\<exists>rs. rs_log (snd (retry_execute clock_lib (with_default_backoff 1) (\<lambda>w. (Inr Failed, w))
      (clock_state (new_circuit_breaker default_circuit_breaker_config)))) = rs \<and> length rs \<le> 1"
  using retry_first_success [OF prod.collapse [symmetric], of clock_lib "with_default_backoff 1"
      "\<lambda>w. (Inr Failed, w)" "clock_state (new_circuit_breaker default_circuit_breaker_config)"]
  by (simp add: clock_state_def with_default_backoff_def)

text \<open>
  The circuit breaker and timeout strategies report a failed verification
  as a success of recovery: an executor with either as primary strategy returns
  \<open>Success(Failed)\<close> for an operation that answers \<open>Ok(Failed)\<close>, and tries none of its fallbacks.
\<close>

theorem failed_verdict_counts_as_success:
  assumes "op (rs_world st) = (Inr Failed, w)" "cb_state (rs_breakers st i) = Closed"
    and "rl_timeout lib (rl_num_milliseconds lib t) op (rs_world st) = (Some (Inr Failed), w)"
  shows "fst (recovery_execute lib \<lparr>rx_primary = CircuitBreaker_s i, rx_fallbacks = fs, rx_circuit_breaker = b\<rparr> op st)
      = Some (Success Failed)
    \<and> fst (recovery_execute lib \<lparr>rx_primary = Timeout_s t, rx_fallbacks = fs, rx_circuit_breaker = b\<rparr> op st)
      = Some (Success Failed)"
  using assms
  by (simp_all add: recovery_execute_def breaker_strategy_execute_def breaker_execute_def
      breaker_allows_def is_allowed_def run_operation_def timeout_execute_def Let_def)

theorem failed_verdict_counts_as_success_witness:
  "fst (recovery_execute clock_lib
      \<lparr>rx_primary = CircuitBreaker_s 0, rx_fallbacks = [Retry_s (with_default_backoff 3)], rx_circuit_breaker = None\<rparr>
      (\<lambda>w. (Inr Failed, w)) (clock_state (new_circuit_breaker default_circuit_breaker_config)))
    = Some (Success Failed)"
  by (rule conjunct1, rule failed_verdict_counts_as_success [of _ _ 10 0 _ 1])
    (simp_all add: clock_state_def clock_lib_def new_circuit_breaker_def)

end
