(* ===== verification/Policy.thy ===== *)
theory Policy
  imports Contract
begin

text \<open>
  Policies (\<open>agentverify-policy/src/policy.rs\<close>, \<open>engine.rs\<close>, \<open>error.rs\<close>): access levels with their
  derived order, action patterns, rate limit buckets and the two trackers, the policy with its
  builders and queries, and the engine's evaluation.

  A \<open>std::time::Duration\<close> and an \<open>Instant\<close> are numbers of nanoseconds. Every reading of the
  clock is an argument, collected in \<open>instants\<close>; nothing is assumed of them in the model.
  A panic is the answer \<open>None\<close>.
\<close>

section \<open>Access levels\<close>

datatype access_level = User | Operator | Admin | System

fun access_rank :: "access_level \<Rightarrow> nat" where
  "access_rank User = 0"
| "access_rank Operator = 1"
| "access_rank Admin = 2"
| "access_rank System = 3"

instantiation access_level :: linorder
begin

definition less_eq_access_level :: "access_level \<Rightarrow> access_level \<Rightarrow> bool" where
  "less_eq_access_level a b = (access_rank a \<le> access_rank b)"

definition less_access_level :: "access_level \<Rightarrow> access_level \<Rightarrow> bool" where
  "less_access_level a b = (access_rank a < access_rank b)"

instance
proof
  fix a b :: access_level
  show "a \<le> b \<Longrightarrow> b \<le> a \<Longrightarrow> a = b"
    by (cases a; cases b) (simp_all add: less_eq_access_level_def)
qed (auto simp: less_eq_access_level_def less_access_level_def)

end

fun show_access_level :: "access_level \<Rightarrow> string" where
  "show_access_level User = ''user''"
| "show_access_level Operator = ''operator''"
| "show_access_level Admin = ''admin''"
| "show_access_level System = ''system''"

text \<open>The derived \<open>Debug\<close> of a level, which violations print.\<close>

fun debug_access_level :: "access_level \<Rightarrow> string" where
  "debug_access_level User = ''User''"
| "debug_access_level Operator = ''Operator''"
| "debug_access_level Admin = ''Admin''"
| "debug_access_level System = ''System''"

section \<open>Patterns\<close>

text \<open>The \<open>regex\<close> crate, and the \<open>Display\<close> of durations and floats in contract errors.\<close>

record 're policy_lib =
  px_new :: "string \<Rightarrow> string + 're"
  px_is_match :: "'re \<Rightarrow> string \<Rightarrow> bool"
  px_show_duration :: "duration \<Rightarrow> string"
  px_show_f64 :: "f64 \<Rightarrow> string"

datatype 're action_pattern =
    Exact string
  | Prefix_pat string
  | Suffix_pat string
  | Regex string "'re option"

definition pattern_regex :: "'re policy_lib \<Rightarrow> string \<Rightarrow> string + 're action_pattern" where
  "pattern_regex lib p = (case px_new lib p of Inl e \<Rightarrow> Inl e | Inr r \<Rightarrow> Inr (Regex p (Some r)))"

definition pattern_exact :: "string \<Rightarrow> 're action_pattern" where
  "pattern_exact name = Exact name"

definition pattern_prefix :: "string \<Rightarrow> 're action_pattern" where
  "pattern_prefix p = Prefix_pat p"

definition pattern_suffix :: "string \<Rightarrow> 're action_pattern" where
  "pattern_suffix s = Suffix_pat s"

text \<open>
  The wire form of a pattern: serialising drops the compiled expression (\<open>serde(skip)\<close>), and
  deserialising compiles it again.
\<close>

datatype wire_pattern = WExact string | WPrefix string | WSuffix string | WRegex string

fun pattern_to_wire :: "'re action_pattern \<Rightarrow> wire_pattern" where
  "pattern_to_wire (Exact v) = WExact v"
| "pattern_to_wire (Prefix_pat v) = WPrefix v"
| "pattern_to_wire (Suffix_pat v) = WSuffix v"
| "pattern_to_wire (Regex p r) = WRegex p"

fun deserialize_pattern :: "'re policy_lib \<Rightarrow> wire_pattern \<Rightarrow> string + 're action_pattern" where
  "deserialize_pattern lib (WExact v) = Inr (Exact v)"
| "deserialize_pattern lib (WPrefix v) = Inr (Prefix_pat v)"
| "deserialize_pattern lib (WSuffix v) = Inr (Suffix_pat v)"
| "deserialize_pattern lib (WRegex p) =
     (case px_new lib p of Inl e \<Rightarrow> Inl e | Inr r \<Rightarrow> Inr (Regex p (Some r)))"

fun pattern_matches :: "'re policy_lib \<Rightarrow> 're action_pattern \<Rightarrow> string \<Rightarrow> bool" where
  "pattern_matches lib (Exact v) name = (name = v)"
| "pattern_matches lib (Prefix_pat v) name = starts_with v name"
| "pattern_matches lib (Suffix_pat v) name = ends_with v name"
| "pattern_matches lib (Regex p r) name =
     (case r of None \<Rightarrow> False | Some re \<Rightarrow> px_is_match lib re name)"

text \<open>The patterns that the constructors and the deserialiser make.\<close>

inductive made_pattern :: "'re policy_lib \<Rightarrow> 're action_pattern \<Rightarrow> bool" for lib where
  "made_pattern lib (pattern_exact v)"
| "made_pattern lib (pattern_prefix v)"
| "made_pattern lib (pattern_suffix v)"
| "pattern_regex lib v = Inr p \<Longrightarrow> made_pattern lib p"
| "deserialize_pattern lib w = Inr p \<Longrightarrow> made_pattern lib p"

lemma made_pattern_regex:
  "made_pattern lib p \<Longrightarrow> p = Regex v r \<Longrightarrow> \<exists>re. px_new lib v = Inr re \<and> r = Some re"
proof (induction rule: made_pattern.induct)
  case (5 w p)
  then show ?case by (cases w) (auto split: sum.splits)
qed (auto simp: pattern_exact_def pattern_prefix_def pattern_suffix_def pattern_regex_def split: sum.splits)

section \<open>Decisions\<close>

datatype policy_error =
    EvaluationFailed string
  | InvalidRateLimit string
  | InvalidPattern string
  | ContractValidation string

fun show_policy_error :: "policy_error \<Rightarrow> string" where
  "show_policy_error (EvaluationFailed e) = ''Policy evaluation failed: '' @ e"
| "show_policy_error (InvalidRateLimit e) = ''Invalid rate limit configuration: '' @ e"
| "show_policy_error (InvalidPattern e) = ''Invalid action pattern: '' @ e"
| "show_policy_error (ContractValidation e) = ''Contract validation failed: '' @ e"

datatype policy_violation =
    ActionNotAllowed string
  | ActionBlocked string
  | EmptyActionName
  | ContractRequired string
  | ContractInvalid string
  | RateLimitExceeded string u32 u32 u64
  | InsufficientAccessLevel access_level access_level

datatype policy_decision = Allowed | Denied policy_violation

fun decision_is_allowed :: "policy_decision \<Rightarrow> bool" where
  "decision_is_allowed Allowed = True"
| "decision_is_allowed (Denied _) = False"

fun decision_violation :: "policy_decision \<Rightarrow> policy_violation option" where
  "decision_violation Allowed = None"
| "decision_violation (Denied v) = Some v"

definition quoted :: "string \<Rightarrow> string" where
  "quoted s = CHR 0x27 # s @ [CHR 0x27]"

fun show_violation :: "policy_violation \<Rightarrow> string" where
  "show_violation (ActionNotAllowed n) = ''Action '' @ quoted n @ '' is not allowed''"
| "show_violation (ActionBlocked n) = ''Action '' @ quoted n @ '' is blocked''"
| "show_violation EmptyActionName = ''Action name cannot be empty''"
| "show_violation (ContractRequired a) = ''Contract required for action '' @ quoted a"
| "show_violation (ContractInvalid r) = ''Contract invalid: '' @ r"
| "show_violation (RateLimitExceeded n c l w) =
     ''Rate limit exceeded for '' @ quoted n @ '': '' @ show_nat (unat c) @ ''/'' @ show_nat (unat l)
       @ '' in '' @ show_nat (unat w) @ ''s window''"
| "show_violation (InsufficientAccessLevel r a) =
     ''Insufficient access level: required '' @ debug_access_level r @ '', got '' @ debug_access_level a"

fun show_decision :: "policy_decision \<Rightarrow> string" where
  "show_decision Allowed = ''Allowed''"
| "show_decision (Denied v) = ''Denied: '' @ show_violation v"

section \<open>Rate limits\<close>

type_synonym instant = nat

record rate_limit =
  max_count :: u32
  window :: nat

definition new_rate_limit :: "u32 \<Rightarrow> nat \<Rightarrow> rate_limit" where
  "new_rate_limit m w = \<lparr>max_count = m, window = w\<rparr>"

record policy_config =
  default_rate_limit_window :: nat
  max_buckets :: nat
  strict_contract_validation :: bool

definition default_policy_config :: policy_config where
  "default_policy_config =
     \<lparr>default_rate_limit_window = 60 * 10 ^ 9, max_buckets = 10000, strict_contract_validation = True\<rparr>"

text \<open>The defaults of fields that a serialised configuration leaves out.\<close>

definition default_window :: nat where
  "default_window = 60 * 10 ^ 9"

definition default_bucket_count :: nat where
  "default_bucket_count = 10000"

definition default_strictness :: bool where
  "default_strictness = True"

definition policy_config_from :: "nat option \<Rightarrow> nat option \<Rightarrow> bool option \<Rightarrow> policy_config" where
  "policy_config_from w b s =
     \<lparr>default_rate_limit_window = (case w of None \<Rightarrow> default_window | Some x \<Rightarrow> x),
      max_buckets = (case b of None \<Rightarrow> default_bucket_count | Some x \<Rightarrow> x),
      strict_contract_validation = (case s of None \<Rightarrow> default_strictness | Some x \<Rightarrow> x)\<rparr>"

lemma empty_config_is_default: "policy_config_from None None None = default_policy_config"
  by (simp add: policy_config_from_def default_policy_config_def default_window_def
      default_bucket_count_def default_strictness_def)

record rate_limit_bucket =
  bk_count :: u32
  window_start :: instant
  bk_limit :: rate_limit

text \<open>
  The readings of the clock in one evaluation: at the creation of a bucket, in \<open>elapsed\<close> and
  after it in \<open>reset_if_expired\<close> (for the action's bucket and for the key's), and the two of
  \<open>rate_limit_status\<close>.
\<close>

record instants =
  at_create :: instant
  at_elapsed :: instant
  at_reset :: instant
  at_key_create :: instant
  at_key_elapsed :: instant
  at_key_reset :: instant
  at_status :: instant
  at_status_again :: instant

definition reset_if_expired :: "instant \<Rightarrow> instant \<Rightarrow> rate_limit_bucket \<Rightarrow> rate_limit_bucket" where
  "reset_if_expired t1 t2 b =
     (if t1 - window_start b \<ge> window (bk_limit b) then b\<lparr>bk_count := 0, window_start := t2\<rparr> else b)"

definition check_and_increment ::
  "instant \<Rightarrow> instant \<Rightarrow> rate_limit_bucket \<Rightarrow> bool \<times> rate_limit_bucket" where
  "check_and_increment t1 t2 b =
     (let b1 = reset_if_expired t1 t2 b
      in if bk_count b1 < max_count (bk_limit b1) then (True, b1\<lparr>bk_count := bk_count b1 + 1\<rparr>)
         else (False, b1))"

type_synonym buckets = "string \<Rightarrow> rate_limit_bucket option"

definition new_tracker :: buckets where
  "new_tracker = Map.empty"

definition new_key_tracker :: buckets where
  "new_key_tracker = Map.empty"

definition get_bucket :: "string \<Rightarrow> buckets \<Rightarrow> rate_limit_bucket option" where
  "get_bucket name bs = bs name"

definition get_or_create_bucket :: "instant \<Rightarrow> string \<Rightarrow> rate_limit \<Rightarrow> buckets \<Rightarrow> rate_limit_bucket" where
  "get_or_create_bucket t0 name l bs =
     (case bs name of
        Some b \<Rightarrow> b | None \<Rightarrow> \<lparr>bk_count = 0, window_start = t0, bk_limit = l\<rparr>)"

definition tracker_check ::
  "instant \<Rightarrow> instant \<Rightarrow> instant \<Rightarrow> string \<Rightarrow> rate_limit \<Rightarrow> buckets \<Rightarrow> bool \<times> buckets" where
  "tracker_check t0 t1 t2 name l bs =
     (let (ok, b) = check_and_increment t1 t2 (get_or_create_bucket t0 name l bs)
      in (ok, bs(name \<mapsto> b)))"

definition effective_key :: "string \<Rightarrow> string \<Rightarrow> string" where
  "effective_key name key = name @ '':'' @ key"

definition key_tracker_check ::
  "instant \<Rightarrow> instant \<Rightarrow> instant \<Rightarrow> string \<Rightarrow> string \<Rightarrow> rate_limit \<Rightarrow> buckets \<Rightarrow> bool \<times> buckets" where
  "key_tracker_check t0 t1 t2 key name l bs = tracker_check t0 t1 t2 (effective_key name key) l bs"

text \<open>
  \<open>cleanup_expired\<close> keeps the buckets whose age is below twice their window; doubling a window
  beyond what a \<open>Duration\<close> can hold panics. \<open>names\<close> are the keys of the map.
\<close>

definition duration_max :: nat where
  "duration_max = (2 ^ 64 - 1) * 10 ^ 9 + 999999999"

definition cleanup_expired :: "instant \<Rightarrow> string list \<Rightarrow> buckets \<Rightarrow> buckets option" where
  "cleanup_expired now names bs =
     (if list_all (\<lambda>n. case bs n of None \<Rightarrow> True | Some b \<Rightarrow> window (bk_limit b) * 2 \<le> duration_max) names
      then Some (\<lambda>n. case bs n of
             None \<Rightarrow> None
           | Some b \<Rightarrow> if now - window_start b < window (bk_limit b) * 2 then Some b else None)
      else None)"

text \<open>The tracker by key has the same clean-up over its own buckets.\<close>

definition key_cleanup_expired :: "instant \<Rightarrow> string list \<Rightarrow> buckets \<Rightarrow> buckets option" where
  "key_cleanup_expired now keys bs = cleanup_expired now keys bs"

section \<open>Policies\<close>

record contract_requirement =
  cr_action_name :: string
  cr_required :: bool

record 're policy =
  pol_name :: string
  pol_description :: string
  allowed_actions :: "'re action_pattern list"
  blocked_actions :: "string list"
  rate_limits :: "string \<Rightarrow> rate_limit option"
  rate_limits_per_key :: "string \<Rightarrow> rate_limit option"
  contract_requirements :: "contract_requirement list"
  access_requirements :: "string \<Rightarrow> access_level option"
  enabled :: bool

definition new_policy :: "string \<Rightarrow> 're policy" where
  "new_policy n =
     \<lparr>pol_name = n, pol_description = [], allowed_actions = [], blocked_actions = [],
      rate_limits = Map.empty, rate_limits_per_key = Map.empty, contract_requirements = [],
      access_requirements = Map.empty, enabled = True\<rparr>"

definition allow_action_pattern :: "'re action_pattern \<Rightarrow> 're policy \<Rightarrow> 're policy" where
  "allow_action_pattern p pol = pol\<lparr>allowed_actions := allowed_actions pol @ [p]\<rparr>"

definition allow_action_name :: "string \<Rightarrow> 're policy \<Rightarrow> 're policy" where
  "allow_action_name n pol = pol\<lparr>allowed_actions := allowed_actions pol @ [Exact n]\<rparr>"

definition block_action_name :: "string \<Rightarrow> 're policy \<Rightarrow> 're policy" where
  "block_action_name n pol = pol\<lparr>blocked_actions := blocked_actions pol @ [n]\<rparr>"

definition with_rate_limit :: "string \<Rightarrow> u32 \<Rightarrow> nat \<Rightarrow> 're policy \<Rightarrow> 're policy" where
  "with_rate_limit n m w pol =
     pol\<lparr>rate_limits := (rate_limits pol)(n \<mapsto> \<lparr>max_count = m, window = w\<rparr>)\<rparr>"

definition with_rate_limit_per_key :: "string \<Rightarrow> u32 \<Rightarrow> nat \<Rightarrow> 're policy \<Rightarrow> 're policy" where
  "with_rate_limit_per_key n m w pol =
     pol\<lparr>rate_limits_per_key := (rate_limits_per_key pol)(n \<mapsto> \<lparr>max_count = m, window = w\<rparr>)\<rparr>"

definition require_contract_for_action :: "string \<Rightarrow> 're policy \<Rightarrow> 're policy" where
  "require_contract_for_action n pol =
     pol\<lparr>contract_requirements := contract_requirements pol @ [\<lparr>cr_action_name = n, cr_required = True\<rparr>]\<rparr>"

definition require_access_level :: "string \<Rightarrow> access_level \<Rightarrow> 're policy \<Rightarrow> 're policy" where
  "require_access_level n l pol = pol\<lparr>access_requirements := (access_requirements pol)(n \<mapsto> l)\<rparr>"

definition with_description :: "string \<Rightarrow> 're policy \<Rightarrow> 're policy" where
  "with_description d pol = pol\<lparr>pol_description := d\<rparr>"

definition is_enabled :: "'re policy \<Rightarrow> bool" where
  "is_enabled pol = enabled pol"

definition get_rate_limit :: "'re policy \<Rightarrow> string \<Rightarrow> rate_limit option" where
  "get_rate_limit pol name = rate_limits pol name"

definition get_rate_limit_per_key :: "'re policy \<Rightarrow> string \<Rightarrow> rate_limit option" where
  "get_rate_limit_per_key pol name = rate_limits_per_key pol name"

definition get_required_access_level :: "'re policy \<Rightarrow> string \<Rightarrow> access_level option" where
  "get_required_access_level pol name = access_requirements pol name"

definition is_action_allowed :: "'re policy_lib \<Rightarrow> 're policy \<Rightarrow> string \<Rightarrow> bool" where
  "is_action_allowed lib pol name =
     (if name = [] then False
      else if name \<in> set (blocked_actions pol) then False
      else if allowed_actions pol = [] then True
      else list_ex (\<lambda>p. pattern_matches lib p name) (allowed_actions pol))"

definition is_contract_required :: "'re policy \<Rightarrow> string \<Rightarrow> bool" where
  "is_contract_required pol name =
     list_ex (\<lambda>req. cr_action_name req = name \<and> cr_required req) (contract_requirements pol)"

section \<open>The engine\<close>

record policy_engine =
  pe_config :: policy_config
  rate_limit_tracker :: buckets
  idempotency_tracker :: buckets
  current_access_level :: access_level

definition new_policy_engine :: "policy_config \<Rightarrow> policy_engine" where
  "new_policy_engine cfg =
     \<lparr>pe_config = cfg, rate_limit_tracker = new_tracker, idempotency_tracker = new_key_tracker,
      current_access_level = User\<rparr>"

definition with_default_config :: policy_engine where
  "with_default_config = new_policy_engine default_policy_config"

definition with_access_level :: "access_level \<Rightarrow> policy_engine \<Rightarrow> policy_engine" where
  "with_access_level l eng = eng\<lparr>current_access_level := l\<rparr>"

record rate_limit_status =
  st_current :: u32
  st_limit :: u32
  st_remaining :: u32
  window_secs_remaining :: u64

definition as_secs :: "nat \<Rightarrow> u64" where
  "as_secs d = of_nat (d div 10 ^ 9)"

definition rate_limit_status_of ::
  "instants \<Rightarrow> string \<Rightarrow> rate_limit \<Rightarrow> policy_engine \<Rightarrow> rate_limit_status option" where
  "rate_limit_status_of ts name l eng =
     (case get_bucket name (rate_limit_tracker eng) of
        Some b \<Rightarrow>
          if at_status ts - window_start b < window l then
            (if at_status_again ts - window_start b \<le> window l then
               Some \<lparr>st_current = bk_count b, st_limit = max_count l,
                     st_remaining = saturating_sub (max_count l) (bk_count b),
                     window_secs_remaining = as_secs (window l - (at_status_again ts - window_start b))\<rparr>
             else None)
          else Some \<lparr>st_current = 0, st_limit = max_count l, st_remaining = max_count l,
                     window_secs_remaining = 0\<rparr>
      | None \<Rightarrow> Some \<lparr>st_current = 0, st_limit = max_count l, st_remaining = max_count l,
                     window_secs_remaining = 0\<rparr>)"

definition check_rate_limit ::
  "instants \<Rightarrow> string \<Rightarrow> rate_limit \<Rightarrow> policy_engine \<Rightarrow> bool \<times> policy_engine" where
  "check_rate_limit ts name l eng =
     (let (ok, bs) = tracker_check (at_create ts) (at_elapsed ts) (at_reset ts) name l
                       (rate_limit_tracker eng)
      in (ok, eng\<lparr>rate_limit_tracker := bs\<rparr>))"

definition check_idempotency_rate_limit ::
  "instants \<Rightarrow> string \<Rightarrow> string \<Rightarrow> rate_limit \<Rightarrow> policy_engine \<Rightarrow> bool \<times> policy_engine" where
  "check_idempotency_rate_limit ts key name l eng =
     (let (ok, bs) = key_tracker_check (at_key_create ts) (at_key_elapsed ts) (at_key_reset ts)
                       key name l (idempotency_tracker eng)
      in (ok, eng\<lparr>idempotency_tracker := bs\<rparr>))"

text \<open>The checks that do not touch the trackers, in order.\<close>

definition check_static ::
  "'re policy_lib \<Rightarrow> 're policy \<Rightarrow> action \<Rightarrow> contract option \<Rightarrow> access_level
   \<Rightarrow> policy_violation + unit" where
  "check_static lib pol act c level =
     (let name = act_name act
      in if \<not> is_enabled pol then Inl (ActionNotAllowed name)
         else if name = [] then Inl EmptyActionName
         else if name \<in> set (blocked_actions pol) then Inl (ActionBlocked name)
         else if \<not> is_action_allowed lib pol name then Inl (ActionNotAllowed name)
         else and_then_res
           (case get_required_access_level pol name of
              Some required \<Rightarrow>
                if level < required then Inl (InsufficientAccessLevel required level) else Inr ()
            | None \<Rightarrow> Inr ())
           (\<lambda>_. if is_contract_required pol name then
                  (case c of
                     None \<Rightarrow> Inl (ContractRequired name)
                   | Some ct \<Rightarrow>
                       map_err (\<lambda>e. ContractInvalid
                         (show_validation_error (px_show_duration lib) (px_show_f64 lib) e))
                         (validate ct))
                else Inr ()))"

text \<open>The per-key check, the last one.\<close>

definition check_key_limit ::
  "instants \<Rightarrow> 're policy \<Rightarrow> action \<Rightarrow> policy_engine \<Rightarrow> policy_decision \<times> policy_engine" where
  "check_key_limit ts pol act eng =
     (case (get_rate_limit_per_key pol (act_name act), act_idempotency_key act) of
        (Some l, Some key) \<Rightarrow>
          (let (ok, eng1) = check_idempotency_rate_limit ts key (act_name act) l eng
           in if ok then (Allowed, eng1)
              else (Denied (RateLimitExceeded (act_name act) 1 (max_count l) (as_secs (window l))), eng1))
      | _ \<Rightarrow> (Allowed, eng))"

definition evaluate_with_access ::
  "'re policy_lib \<Rightarrow> instants \<Rightarrow> 're policy \<Rightarrow> action \<Rightarrow> contract option \<Rightarrow> access_level \<Rightarrow> policy_engine
   \<Rightarrow> policy_decision option \<times> policy_engine" where
  "evaluate_with_access lib ts pol act c level eng =
     (case check_static lib pol act c level of
        Inl v \<Rightarrow> (Some (Denied v), eng)
      | Inr _ \<Rightarrow>
          (case get_rate_limit pol (act_name act) of
             None \<Rightarrow> (let (d, eng1) = check_key_limit ts pol act eng in (Some d, eng1))
           | Some l \<Rightarrow>
               (let (ok, eng1) = check_rate_limit ts (act_name act) l eng
                in if ok then (let (d, eng2) = check_key_limit ts pol act eng1 in (Some d, eng2))
                   else (map_option (\<lambda>st. Denied (RateLimitExceeded (act_name act) (st_current st)
                           (st_limit st) (max (window_secs_remaining st) (as_secs (window l)))))
                           (rate_limit_status_of ts (act_name act) l eng1), eng1))))"

definition evaluate_policy ::
  "'re policy_lib \<Rightarrow> instants \<Rightarrow> 're policy \<Rightarrow> action \<Rightarrow> contract option \<Rightarrow> policy_engine
   \<Rightarrow> policy_decision option \<times> policy_engine" where
  "evaluate_policy lib ts pol act c eng =
     evaluate_with_access lib ts pol act c (current_access_level eng) eng"

definition reset_rate_limits :: "policy_engine \<Rightarrow> policy_engine" where
  "reset_rate_limits eng = eng\<lparr>rate_limit_tracker := new_tracker, idempotency_tracker := new_key_tracker\<rparr>"

definition cleanup :: "instant \<Rightarrow> instant \<Rightarrow> string list \<Rightarrow> string list \<Rightarrow> policy_engine \<Rightarrow> policy_engine option" where
  "cleanup t1 t2 names keys eng =
     Option.bind (cleanup_expired t1 names (rate_limit_tracker eng)) (\<lambda>bs.
       map_option (\<lambda>ks. eng\<lparr>rate_limit_tracker := bs, idempotency_tracker := ks\<rparr>)
         (key_cleanup_expired t2 keys (idempotency_tracker eng)))"

section \<open>Lemmas\<close>

lemmas policy_queries [simp] = is_enabled_def get_rate_limit_def get_rate_limit_per_key_def
  get_required_access_level_def get_bucket_def check_rate_limit_def check_idempotency_rate_limit_def

text \<open>A run of checks of one bucket, each with its two readings of the clock.\<close>

fun bucket_run :: "(instant \<times> instant) list \<Rightarrow> rate_limit_bucket \<Rightarrow> bool list \<times> rate_limit_bucket" where
  "bucket_run [] b = ([], b)"
| "bucket_run ((t1, t2) # ts) b =
     (let (ok, b1) = check_and_increment t1 t2 b; (oks, b2) = bucket_run ts b1 in (ok # oks, b2))"

definition granted :: "bool list \<Rightarrow> nat" where
  "granted oks = length (filter (\<lambda>x. x) oks)"

lemma granted_simps [simp]:
  "granted [] = 0" "granted (True # oks) = Suc (granted oks)" "granted (False # oks) = granted oks"
  by (simp_all add: granted_def)

text \<open>The readings lie in a span that is shorter than the window, and do not go back.\<close>

definition within :: "instant \<Rightarrow> nat \<Rightarrow> (instant \<times> instant) list \<Rightarrow> bool" where
  "within a w ts \<longleftrightarrow> sorted (concat (map (\<lambda>(t1, t2). [t1, t2]) ts)) \<and>
     (\<forall>(t1, t2) \<in> set ts. a \<le> t1 \<and> t1 < a + w \<and> t2 < a + w)"

lemma within_Cons:
  assumes "within a w ((t1, t2) # ts)"
  shows "within a w ts" "\<forall>(u1, u2) \<in> set ts. t2 \<le> u1" "a \<le> t1" "t1 \<le> t2" "t2 < a + w"
proof -
  have mem: "\<exists>x \<in> set ts. u \<in> set (case x of (t1, t2) \<Rightarrow> [t1, t2])" if "(u, v) \<in> set ts" for u v
    using that by force
  show "\<forall>(u1, u2) \<in> set ts. t2 \<le> u1" using assms mem by (force simp: within_def)
qed (use assms in \<open>auto simp: within_def\<close>)

lemma check_keeps_limit [simp]:
  "bk_limit (snd (check_and_increment t1 t2 b)) = bk_limit b"
  by (simp add: check_and_increment_def reset_if_expired_def Let_def)

lemma count_step:
  assumes "(c :: u32) < m"
  shows "Suc (unat m - unat (c + 1)) = unat m - unat c"
proof -
  have "unat c < unat m" using assms by (simp add: word_less_nat_alt)
  then have "unat c + 1 < 2 ^ 32" using unsigned_less [where ?'a = nat, of m] by simp
  then have "unat (c + 1) = unat c + 1" using unat_add_lem [of c 1] by simp
  with \<open>unat c < unat m\<close> show ?thesis by simp
qed

text \<open>While the window lasts, the grants are bounded by what is left of the budget.\<close>

lemma granted_in_window:
  assumes "\<forall>(t1, t2) \<in> set ts. t1 - window_start b < window (bk_limit b)"
  shows "granted (fst (bucket_run ts b)) \<le> unat (max_count (bk_limit b)) - unat (bk_count b)"
  using assms
proof (induction ts arbitrary: b)
  case (Cons x ts)
  obtain t1 t2 where x: "x = (t1, t2)" by (cases x)
  with Cons.prems have r: "reset_if_expired t1 t2 b = b" by (auto simp: reset_if_expired_def)
  show ?case
  proof (cases "bk_count b < max_count (bk_limit b)")
    case True
    with r x Cons.IH [of "b\<lparr>bk_count := bk_count b + 1\<rparr>"] Cons.prems count_step [OF True]
    show ?thesis by (auto simp: check_and_increment_def split: prod.split)
  next
    case False
    with r x Cons.IH [of b] Cons.prems show ?thesis
      by (auto simp: check_and_increment_def split: prod.split)
  qed
qed simp

lemma granted_two_windows:
  assumes "within a (window (bk_limit b)) ts"
  shows "granted (fst (bucket_run ts b)) \<le>
    unat (max_count (bk_limit b)) - unat (bk_count b) + unat (max_count (bk_limit b))"
  using assms
proof (induction ts arbitrary: b)
  case (Cons x ts)
  obtain t1 t2 where x: "x = (t1, t2)" by (cases x)
  note w = within_Cons [OF Cons.prems [unfolded x]]
  let ?b = "snd (check_and_increment t1 t2 b)"
  have IH: "granted (fst (bucket_run ts b')) \<le>
      unat (max_count (bk_limit b')) - unat (bk_count b') + unat (max_count (bk_limit b'))"
    if "bk_limit b' = bk_limit b" for b'
    using Cons.IH [of b'] w(1) that by simp
  show ?case
  proof (cases "t1 - window_start b \<ge> window (bk_limit b)")
    case True
    let ?b0 = "b\<lparr>bk_count := 0, window_start := t2\<rparr>"
    have "bucket_run (x # ts) b = bucket_run ((t2, t2) # ts) ?b0"
    proof -
      have "window (bk_limit b) > 0" using w(3-5) by simp
      with True have "check_and_increment t1 t2 b = check_and_increment t2 t2 ?b0"
        by (simp add: check_and_increment_def reset_if_expired_def)
      then show ?thesis by (simp add: x)
    qed
    moreover have "\<forall>(u1, u2) \<in> set ((t2, t2) # ts). u1 - window_start ?b0 < window (bk_limit ?b0)"
      using w Cons.prems by (auto simp: within_def)
    ultimately show ?thesis using granted_in_window [of "(t2, t2) # ts" ?b0] by simp
  next
    case False
    then have r: "reset_if_expired t1 t2 b = b" by (simp add: reset_if_expired_def)
    show ?thesis
    proof (cases "bk_count b < max_count (bk_limit b)")
      case True
      with r x IH [of "b\<lparr>bk_count := bk_count b + 1\<rparr>"] count_step [OF True] show ?thesis
        by (auto simp: check_and_increment_def split: prod.split)
    next
      case False
      with r x IH [of b] show ?thesis by (auto simp: check_and_increment_def split: prod.split)
    qed
  qed
qed simp

lemma check_static_ok:
  "check_static lib pol act c level = Inr () \<longleftrightarrow>
   enabled pol \<and> is_action_allowed lib pol (act_name act) \<and>
   (case access_requirements pol (act_name act) of None \<Rightarrow> True | Some required \<Rightarrow> required \<le> level) \<and>
   (is_contract_required pol (act_name act) \<longrightarrow> (\<exists>ct. c = Some ct \<and> validate ct = Inr ()))"
  by (auto simp: check_static_def is_action_allowed_def Let_def map_err_def not_less
      split: option.splits sum.splits)

section \<open>Properties\<close>

text \<open>
  The rate limiter. However often a bucket is asked within a span of time
  shorter than its window, from whatever state it is in, it grants at most twice its
  \<open>max_count\<close>; and at most \<open>max_count\<close> when the whole span lies in the bucket's current window.
\<close>

theorem rate_limit_bound:
  assumes "within a (window (bk_limit b)) ts"
  shows "granted (fst (bucket_run ts b)) \<le> 2 * unat (max_count (bk_limit b))
    \<and> (window_start b \<le> a \<and> (\<forall>(t1, t2) \<in> set ts. t1 < window_start b + window (bk_limit b)) \<longrightarrow>
        granted (fst (bucket_run ts b)) \<le> unat (max_count (bk_limit b)))"
proof (intro conjI impI)
  show "granted (fst (bucket_run ts b)) \<le> 2 * unat (max_count (bk_limit b))"
    using granted_two_windows [OF assms] by simp
  assume s: "window_start b \<le> a \<and> (\<forall>(t1, t2) \<in> set ts. t1 < window_start b + window (bk_limit b))"
  have "\<forall>(t1, t2) \<in> set ts. t1 - window_start b < window (bk_limit b)"
    using s assms by (fastforce simp: within_def)
  from granted_in_window [OF this] show "granted (fst (bucket_run ts b)) \<le> unat (max_count (bk_limit b))"
    by simp
qed

theorem rate_limit_bound_witness:
  "granted (fst (bucket_run [(5, 5), (6, 6), (7, 7)]
     \<lparr>bk_count = 0, window_start = 0, bk_limit = \<lparr>max_count = 1, window = 4\<rparr>\<rparr>)) \<le> 2"
  using rate_limit_bound [of 5
      "\<lparr>bk_count = 0, window_start = 0, bk_limit = \<lparr>max_count = 1, window = 4\<rparr>\<rparr>"
      "[(5, 5), (6, 6), (7, 7)]"]
  by (simp add: within_def)

text \<open>
  Property C33 (functional): an action is allowed exactly when the policy is enabled and allows
  its name (not empty, not blocked, and matching a pattern unless there are none), the caller's
  access level is at least the required one, a required contract is present and valid, and
  the action's and then the key's rate limit have budget left.
\<close>

theorem policy_allows_iff:
  "fst (evaluate_with_access lib ts pol act c level eng) = Some Allowed \<longleftrightarrow>
   enabled pol \<and> is_action_allowed lib pol (act_name act) \<and>
   (case access_requirements pol (act_name act) of None \<Rightarrow> True | Some required \<Rightarrow> required \<le> level) \<and>
   (if is_contract_required pol (act_name act) then \<exists>ct. c = Some ct \<and> validate ct = Inr () else True) \<and>
   (case rate_limits pol (act_name act) of
      None \<Rightarrow> True
    | Some l \<Rightarrow> fst (tracker_check (at_create ts) (at_elapsed ts) (at_reset ts) (act_name act) l
        (rate_limit_tracker eng))) \<and>
   (case (rate_limits_per_key pol (act_name act), act_idempotency_key act) of
      (Some l, Some key) \<Rightarrow>
        fst (key_tracker_check (at_key_create ts) (at_key_elapsed ts) (at_key_reset ts) key
          (act_name act) l (idempotency_tracker eng))
    | _ \<Rightarrow> True)"
proof (cases "check_static lib pol act c level")
  case (Inl v)
  then have "check_static lib pol act c level \<noteq> Inr ()" by simp
  with Inl show ?thesis unfolding check_static_ok by (auto simp: evaluate_with_access_def)
next
  case (Inr u)
  then have static: "check_static lib pol act c level = Inr ()" by simp
  from static [unfolded check_static_ok] static show ?thesis
    by (auto simp: evaluate_with_access_def check_key_limit_def Let_def split_def
        split: option.splits)
qed

text \<open>
  A request that is denied for any other reason than a rate limit leaves
  the engine as it was, so it uses up no budget.
\<close>

theorem static_denial_keeps_budget:
  assumes "fst (evaluate_with_access lib ts pol act c level eng) = Some (Denied v)"
    and "\<nexists>n k m s. v = RateLimitExceeded n k m s"
  shows "snd (evaluate_with_access lib ts pol act c level eng) = eng"
  using assms
  by (auto simp: evaluate_with_access_def check_key_limit_def Let_def split_def
      split: sum.splits option.splits if_splits)

theorem static_denial_keeps_budget_witness:
  "snd (evaluate_with_access \<lparr>px_new = Inr, px_is_match = (=), px_show_duration = (\<lambda>_. []), px_show_f64 = (\<lambda>_. [])\<rparr>
     \<lparr>at_create = 0, at_elapsed = 0, at_reset = 0, at_key_create = 0, at_key_elapsed = 0, at_key_reset = 0,
      at_status = 0, at_status_again = 0\<rparr>
     (block_action_name ''rm'' (with_rate_limit ''rm'' 5 60 (new_policy ''p'')))
     (new_action 1 0 ''rm'' JNull) None Admin with_default_config) = with_default_config"
  by (rule static_denial_keeps_budget [where v = "ActionBlocked ''rm''"])
    (simp_all add: evaluate_with_access_def check_static_def block_action_name_def with_rate_limit_def
      new_policy_def new_action_def)

section \<open>Sequences of requests\<close>

text \<open>A run of evaluations on one engine: for each request the readings of the clock, the action,
  its contract and the caller's access level.\<close>

fun evaluate_all ::
  "'re policy_lib \<Rightarrow> 're policy \<Rightarrow> (instants \<times> action \<times> contract option \<times> access_level) list
   \<Rightarrow> policy_engine \<Rightarrow> policy_decision option list \<times> policy_engine" where
  "evaluate_all lib pol [] eng = ([], eng)"
| "evaluate_all lib pol ((ts, act, c, level) # rs) eng =
     (let (d, eng1) = evaluate_with_access lib ts pol act c level eng;
          (ds, eng2) = evaluate_all lib pol rs eng1
      in (d # ds, eng2))"

definition readings :: "(instants \<times> action \<times> contract option \<times> access_level) list \<Rightarrow> (instant \<times> instant) list" where
  "readings rs = map (\<lambda>r. (at_elapsed (fst r), at_reset (fst r))) rs"

lemma within_thin:
  assumes "within a w ((t1, t2) # rs)" "within a w ts" "set ts \<subseteq> set rs"
  shows "within a w ((t1, t2) # ts)"
proof -
  let ?f = "\<lambda>(t1, t2). [t1, t2]"
  have "set (concat (map ?f ts)) \<subseteq> set (concat (map ?f rs))" using assms(3) by auto
  moreover have "\<forall>x \<in> set (concat (map ?f rs)). t1 \<le> x \<and> t2 \<le> x" using assms(1) by (simp add: within_def)
  ultimately have "\<forall>x \<in> set (concat (map ?f ts)). t1 \<le> x \<and> t2 \<le> x" by blast
  then show ?thesis using assms(2) within_Cons(3-5) [OF assms(1)] by (simp add: within_def)
qed

lemma key_limit_keeps_tracker [simp]:
  "rate_limit_tracker (snd (check_key_limit ts pol act eng)) = rate_limit_tracker eng"
  by (simp add: check_key_limit_def Let_def split_def split: option.split)

text \<open>One evaluation asks the action's bucket at most once, and allows nothing the bucket refused.\<close>

lemma evaluate_step:
  fixes lib :: "'re policy_lib" and ts c level eng
  assumes "rate_limits pol (act_name act) = Some l"
  defines "res \<equiv> evaluate_with_access lib ts pol act c level eng"
    and "b \<equiv> get_or_create_bucket (at_create ts) (act_name act) l (rate_limit_tracker eng)"
  shows "snd res = eng \<and> fst res \<noteq> Some Allowed \<or>
    rate_limit_tracker (snd res) (act_name act) = Some (snd (check_and_increment (at_elapsed ts) (at_reset ts) b)) \<and>
    (fst res = Some Allowed \<longrightarrow> fst (check_and_increment (at_elapsed ts) (at_reset ts) b))"
  using assms(1)
  by (auto simp: res_def b_def evaluate_with_access_def tracker_check_def Let_def split_def
      split: sum.split option.splits)

lemma evaluate_all_granted:
  assumes "rate_limits pol n = Some l" and "\<And>r. r \<in> set rs \<Longrightarrow> act_name (fst (snd r)) = n"
    and "\<And>b. rate_limit_tracker eng n = Some b \<Longrightarrow> bk_limit b = m"
    and "rate_limit_tracker eng n = None \<Longrightarrow> m = l"
  shows "\<exists>b ts. bk_limit b = m \<and> rate_limit_tracker eng n \<in> {None, Some b} \<and>
    set ts \<subseteq> set (readings rs) \<and>
    (\<forall>a w. within a w (readings rs) \<longrightarrow> within a w ts) \<and>
    count_list (fst (evaluate_all lib pol rs eng)) (Some Allowed) \<le> granted (fst (bucket_run ts b))"
  using assms(2-4)
proof (induction rs arbitrary: eng)
  case Nil
  show ?case
  proof (cases "rate_limit_tracker eng n")
    case None
    then show ?thesis
      by (intro exI [of _ "\<lparr>bk_count = 0, window_start = 0, bk_limit = m\<rparr>"] exI [of _ "[]"])
        (simp add: readings_def)
  next
    case (Some b)
    then show ?thesis using Nil by (intro exI [of _ b] exI [of _ "[]"]) (simp add: readings_def)
  qed
next
  case (Cons r rs)
  obtain ts act c level where r: "r = (ts, act, c, level)" by (cases r) auto
  then have name: "act_name act = n" using Cons.prems(1) [of r] by simp
  let ?res = "evaluate_with_access lib ts pol act c level eng"
  let ?b = "get_or_create_bucket (at_create ts) n l (rate_limit_tracker eng)"
  let ?chk = "check_and_increment (at_elapsed ts) (at_reset ts) ?b"
  have run: "count_list (fst (evaluate_all lib pol (r # rs) eng)) (Some Allowed) =
      (if fst ?res = Some Allowed then 1 else 0) + count_list (fst (evaluate_all lib pol rs (snd ?res))) (Some Allowed)"
    by (simp add: r Let_def split_def)
  have R: "readings (r # rs) = (at_elapsed ts, at_reset ts) # readings rs" by (simp add: readings_def r)
  have IH: "\<exists>b ts. bk_limit b = m \<and> rate_limit_tracker eng' n \<in> {None, Some b} \<and>
      set ts \<subseteq> set (readings rs) \<and> (\<forall>a w. within a w (readings rs) \<longrightarrow> within a w ts) \<and>
      count_list (fst (evaluate_all lib pol rs eng')) (Some Allowed) \<le> granted (fst (bucket_run ts b))"
    if "\<And>b. rate_limit_tracker eng' n = Some b \<Longrightarrow> bk_limit b = m"
      "rate_limit_tracker eng' n = None \<Longrightarrow> m = l" for eng'
    by (rule Cons.IH) (use Cons.prems(1) that in auto)
  have bl: "bk_limit ?b = m" "rate_limit_tracker eng n \<in> {None, Some ?b}"
    using Cons.prems(2,3) by (auto simp: get_or_create_bucket_def split: option.splits)
  from evaluate_step [of pol act l lib ts c level eng] assms(1) name
  consider "snd ?res = eng" "fst ?res \<noteq> Some Allowed" |
    "rate_limit_tracker (snd ?res) n = Some (snd ?chk)" "fst ?res = Some Allowed \<longrightarrow> fst ?chk" by auto
  then show ?case
  proof cases
    case 1
    obtain b ts' where "bk_limit b = m" "rate_limit_tracker eng n \<in> {None, Some b}" "set ts' \<subseteq> set (readings rs)"
      "\<forall>a w. within a w (readings rs) \<longrightarrow> within a w ts'"
      "count_list (fst (evaluate_all lib pol rs eng)) (Some Allowed) \<le> granted (fst (bucket_run ts' b))"
      using IH [of eng] Cons.prems(2,3) by blast
    then show ?thesis using 1 unfolding run R
      by (intro exI [of _ b] exI [of _ ts']) (auto dest: within_Cons(1))
  next
    case 2
    obtain ts' where ts': "set ts' \<subseteq> set (readings rs)" "\<forall>a w. within a w (readings rs) \<longrightarrow> within a w ts'"
      "count_list (fst (evaluate_all lib pol rs (snd ?res))) (Some Allowed) \<le> granted (fst (bucket_run ts' (snd ?chk)))"
      using IH [of "snd ?res"] 2(1) bl(1) by auto
    have "within a w ((at_elapsed ts, at_reset ts) # ts')"
      if "within a w ((at_elapsed ts, at_reset ts) # readings rs)" for a w
      using within_thin [OF that] ts'(1,2) within_Cons(1) [OF that] by blast
    moreover have "granted (fst (bucket_run ((at_elapsed ts, at_reset ts) # ts') ?b)) =
        (if fst ?chk then 1 else 0) + granted (fst (bucket_run ts' (snd ?chk)))"
      by (simp add: Let_def split_def granted_def)
    ultimately show ?thesis using bl ts' 2(2) unfolding run R
      by (intro exI [of _ ?b] exI [of _ "(at_elapsed ts, at_reset ts) # ts'"]) auto
  qed
qed

text \<open>
  The limit that an action is held to: the one its bucket was made with, and for want of a bucket the
  policy's own. \<open>get_or_create_bucket\<close> keeps the limit of a bucket it finds, so an engine that is
  asked about one name under several policies holds them all to the limit of the first.
\<close>

definition limit_in_force :: "policy_engine \<Rightarrow> string \<Rightarrow> rate_limit \<Rightarrow> rate_limit" where
  "limit_in_force eng n l = (case rate_limit_tracker eng n of None \<Rightarrow> l | Some b \<Rightarrow> bk_limit b)"

theorem first_limit_sticks:
  assumes "rate_limit_tracker eng n = Some b"
  shows "check_rate_limit ts n l eng = check_rate_limit ts n l2 eng"
    and "rate_limit_tracker (snd (check_rate_limit ts n l eng)) n \<noteq> None \<and>
      limit_in_force (snd (check_rate_limit ts n l eng)) n l = bk_limit b"
  using assms by (auto simp: tracker_check_def get_or_create_bucket_def limit_in_force_def Let_def split_def)

text \<open>
  Property C34 (bounds): the policy engine enforces its rate limits. Of any number of requests for one
  action that the engine is asked within a span of time shorter than the window of the limit in
  force, with whatever contracts, idempotency keys and access levels, it allows at most twice that
  limit's \<open>max_count\<close>. The limit in force is the policy's own when the engine has no bucket for the
  action, and otherwise the limit that the bucket was made with, which may be another policy's and
  larger: \<open>first_limit_sticks\<close>.
\<close>

theorem engine_rate_bound:
  assumes "rate_limits pol n = Some l" and "\<forall>r \<in> set rs. act_name (fst (snd r)) = n"
    and "within a (window (limit_in_force eng n l)) (readings rs)"
  shows "count_list (fst (evaluate_all lib pol rs eng)) (Some Allowed) \<le> 2 * unat (max_count (limit_in_force eng n l))"
proof -
  have force: "rate_limit_tracker eng n = Some b \<Longrightarrow> bk_limit b = limit_in_force eng n l"
    "rate_limit_tracker eng n = None \<Longrightarrow> limit_in_force eng n l = l" for b
    by (simp_all add: limit_in_force_def)
  obtain b ts where b: "bk_limit b = limit_in_force eng n l" "within a (window (limit_in_force eng n l)) ts"
    "count_list (fst (evaluate_all lib pol rs eng)) (Some Allowed) \<le> granted (fst (bucket_run ts b))"
    using evaluate_all_granted [OF assms(1), of rs eng "limit_in_force eng n l" lib, OF _ force] assms(2,3) by blast
  then show ?thesis using granted_two_windows [of a b ts] by simp
qed

definition bare_policy_lib :: "string policy_lib" where
  "bare_policy_lib = \<lparr>px_new = Inr, px_is_match = (=), px_show_duration = (\<lambda>_. []), px_show_f64 = (\<lambda>_. [])\<rparr>"

definition instants_at :: "instant \<Rightarrow> instants" where
  "instants_at t = \<lparr>at_create = t, at_elapsed = t, at_reset = t, at_key_create = t, at_key_elapsed = t,
     at_key_reset = t, at_status = t, at_status_again = t\<rparr>"

theorem engine_rate_bound_witness:
  "count_list (fst (evaluate_all bare_policy_lib (with_rate_limit ''deploy'' 1 10 (new_policy ''p''))
      (map (\<lambda>t. (instants_at t, new_action 1 0 ''deploy'' JNull, None, Admin)) [3, 5, 9])
      with_default_config)) (Some Allowed) \<le> 2"
  using engine_rate_bound [of "with_rate_limit ''deploy'' 1 10 (new_policy ''p'')" "''deploy''"
      "new_rate_limit 1 10" "map (\<lambda>t. (instants_at t, new_action 1 0 ''deploy'' JNull, None, Admin)) [3, 5, 9]"
      3 with_default_config bare_policy_lib]
  by (simp add: with_rate_limit_def new_rate_limit_def new_policy_def with_default_config_def
      new_policy_engine_def new_tracker_def new_action_def readings_def instants_at_def within_def
      limit_in_force_def)

text \<open>
  A pattern that the constructors or the deserialiser made survives
  serialisation, although its compiled expression is not written: reading the wire form back gives the same
  pattern, so it keeps matching the same names.
\<close>

theorem pattern_wire_roundtrip:
  assumes "made_pattern lib p"
  shows "deserialize_pattern lib (pattern_to_wire p) = Inr p"
  using made_pattern_regex [OF assms] by (cases p) auto

theorem pattern_wire_roundtrip_witness:
  "deserialize_pattern bare_policy_lib (pattern_to_wire (Regex ''a+'' (Some ''a+''))) =
     Inr (Regex ''a+'' (Some ''a+''))"
proof (rule pattern_wire_roundtrip)
  show "made_pattern bare_policy_lib (Regex ''a+'' (Some ''a+''))"
    by (rule made_pattern.intros(4) [of _ "''a+''"]) (simp add: pattern_regex_def bare_policy_lib_def)
qed

end
