(* ===== verification/Mcp_Protocol.thy ===== *)
theory Mcp_Protocol
  imports Json
begin

text \<open>
  The message types of \<open>agentverify-mcp/src/protocol.rs\<close>: the JSON-RPC envelope (requests,
  responses, errors, notifications), the error codes, the capabilities, and the payloads of the
  protocol's methods. Their encoding as JSON is derived by \<open>serde\<close> and is a parameter of the
  client that sends and reads them.
\<close>

section \<open>The envelope\<close>

record json_rpc_request =
  rq_jsonrpc :: string
  rq_id :: json
  rq_method :: string
  rq_params :: "json option"

definition new_request :: "u64 \<Rightarrow> string \<Rightarrow> json option \<Rightarrow> json_rpc_request" where
  "new_request i m params =
     \<lparr>rq_jsonrpc = ''2.0'', rq_id = JNumber (PosInt i), rq_method = m, rq_params = params\<rparr>"

definition request_with_string_id :: "string \<Rightarrow> string \<Rightarrow> json option \<Rightarrow> json_rpc_request" where
  "request_with_string_id i m params =
     \<lparr>rq_jsonrpc = ''2.0'', rq_id = JString i, rq_method = m, rq_params = params\<rparr>"

record json_rpc_error =
  er_code :: i32
  er_message :: string
  er_data :: "json option"

text \<open>\<open>to_string\<close> of a signed integer.\<close>

definition show_int :: "int \<Rightarrow> string" where
  "show_int i = (if i < 0 then CHR ''-'' # show_nat (nat (- i)) else show_nat (nat i))"

definition show_rpc_error :: "json_rpc_error \<Rightarrow> string" where
  "show_rpc_error e = ''JSON-RPC error '' @ show_int (sint (er_code e)) @ '': '' @ er_message e"

definition new_rpc_error :: "i32 \<Rightarrow> string \<Rightarrow> json_rpc_error" where
  "new_rpc_error code message = \<lparr>er_code = code, er_message = message, er_data = None\<rparr>"

definition rpc_error_with_data :: "i32 \<Rightarrow> string \<Rightarrow> json \<Rightarrow> json_rpc_error" where
  "rpc_error_with_data code message data = \<lparr>er_code = code, er_message = message, er_data = Some data\<rparr>"

text \<open>A response carries the protocol version, the identifier it answers, and a result or an error.\<close>

datatype json_rpc_response =
    RSuccess string json json
  | RError string json json_rpc_error

record json_rpc_notification =
  nf_jsonrpc :: string
  nf_method :: string
  nf_params :: "json option"

definition new_notification :: "string \<Rightarrow> json option \<Rightarrow> json_rpc_notification" where
  "new_notification m params = \<lparr>nf_jsonrpc = ''2.0'', nf_method = m, nf_params = params\<rparr>"

datatype json_rpc_message =
    Request json_rpc_request
  | Response json_rpc_response
  | Notification json_rpc_notification

section \<open>Error codes and version\<close>

definition LEGACY_RANGE_START :: i32 where "LEGACY_RANGE_START = - 32000"
definition LEGACY_RANGE_END :: i32 where "LEGACY_RANGE_END = - 32019"
definition MCP_ERROR_BASE :: i32 where "MCP_ERROR_BASE = - 32020"
definition HEADER_MISMATCH :: i32 where "HEADER_MISMATCH = - 32020"
definition MISSING_REQUIRED_CLIENT_CAPABILITY :: i32 where
  "MISSING_REQUIRED_CLIENT_CAPABILITY = - 32021"
definition UNSUPPORTED_PROTOCOL_VERSION :: i32 where "UNSUPPORTED_PROTOCOL_VERSION = - 32022"
definition PARSE_ERROR :: i32 where "PARSE_ERROR = - 32700"
definition INVALID_REQUEST :: i32 where "INVALID_REQUEST = - 32600"
definition METHOD_NOT_FOUND :: i32 where "METHOD_NOT_FOUND = - 32601"
definition INVALID_PARAMS :: i32 where "INVALID_PARAMS = - 32602"
definition INTERNAL_ERROR :: i32 where "INTERNAL_ERROR = - 32603"

definition MCP_PROTOCOL_VERSION :: string where
  "MCP_PROTOCOL_VERSION = ''2026-07-28''"

section \<open>Capabilities\<close>

record client_capabilities =
  cc_sampling :: "json option"
  cc_elicitation :: "json option"
  cc_roots :: "json option"

definition default_client_capabilities :: client_capabilities where
  "default_client_capabilities = \<lparr>cc_sampling = None, cc_elicitation = None, cc_roots = None\<rparr>"

record resources_capability =
  rc_subscribe :: "bool option"
  rc_list :: "bool option"

datatype tools_capability = ToolsCapability

record prompts_capability =
  pc_list :: "bool option"

record server_capabilities =
  sc_resources :: "resources_capability option"
  sc_tools :: "tools_capability option"
  sc_prompts :: "prompts_capability option"

section \<open>Payloads\<close>

record implementation =
  im_name :: string
  im_version :: string

record initialize_params =
  ip_protocol_version :: string
  ip_capabilities :: client_capabilities
  ip_client_info :: implementation

record initialize_result =
  ir_protocol_version :: string
  ir_capabilities :: server_capabilities
  ir_server_info :: implementation
  ir_instructions :: "string option"

record tool_annotations =
  ta_read_only_hint :: "bool option"
  ta_destructive_hint :: "bool option"
  ta_idempotent_hint :: "bool option"
  ta_annotation :: "string option"

record tool =
  tl_name :: string
  tl_description :: string
  tl_input_schema :: json
  tl_annotations :: "tool_annotations option"

record resource =
  rs_uri :: string
  rs_name :: string
  rs_description :: "string option"
  rs_mime_type :: "string option"

record prompt_argument =
  pa_name :: string
  pa_description :: "string option"
  pa_required :: bool

record prompt =
  pr_name :: string
  pr_description :: "string option"
  pr_arguments :: "prompt_argument list option"

record call_tool_params =
  ct_name :: string
  ct_arguments :: json
  ct_meta :: "json option"

record resource_contents =
  rcs_uri :: string
  rcs_mime_type :: "string option"
  rcs_text :: "string option"
  rcs_blob :: "string option"

datatype content_block =
    Text string
  | Image string string
  | Resource resource_contents

record call_tool_result =
  cr_content :: "content_block list"
  cr_is_error :: "bool option"

section \<open>Lemmas\<close>

lemma rq_id_new_request [simp]: "rq_id (new_request i m ps) = JNumber (PosInt i)"
  by (simp add: new_request_def)

lemma json_eq_PosInt [simp]: "json_eq v (JNumber (PosInt i)) \<longleftrightarrow> v = JNumber (PosInt i)"
proof (cases v)
  case (JNumber n)
  then show ?thesis by (cases n) auto
qed auto

end
