(* ===== verification/Mcp_Client.thy ===== *)
theory Mcp_Client
  imports Mcp_Protocol
begin

text \<open>
  The transports and the client of \<open>agentverify-mcp\<close> (\<open>transport.rs\<close>, \<open>client.rs\<close>).

  An asynchronous call is modelled by its polls. The poll of a receive answers \<open>None\<close> while the
  call waits, and \<open>started\<close> says whether it is past its check of the \<open>connected\<close> flag, which is
  read once. The poll of a send answers \<open>Pending\<close> with the point at which it waits: for a place in
  the queue or for the writer's lock, with bytes of the line or of the newline still to be written,
  or in the flush; it may wait at any of them without limit. A caller runs against a schedule: at
  each of its turns the other callers and the peer first do what they do to the shared client, and
  then one branch of its \<open>select!\<close> is polled or its deadline passes. An empty schedule leaves the
  call waiting. A future that its caller or a timeout drops releases the writer's lock it holds and
  does nothing more.

  The streams of a child process and \<open>serde\<close> are parameters. A read that is dropped half way
  through a line loses the bytes it took; this is not modelled: \<open>sd_read_line\<close> gives whole lines.
\<close>

section \<open>Transports\<close>

datatype transport_error =
    Io_terr string
  | Json_terr string
  | Channel_terr string
  | ProcessExited i32
  | NotConnected

fun show_transport_error :: "transport_error \<Rightarrow> string" where
  "show_transport_error (Io_terr e) = ''IO error: '' @ e"
| "show_transport_error (Json_terr e) = ''JSON error: '' @ e"
| "show_transport_error (Channel_terr e) = ''Channel error: '' @ e"
| "show_transport_error (ProcessExited n) = ''Process exited: '' @ show_int (sint n)"
| "show_transport_error NotConnected = ''Not connected''"

text \<open>\<open>line.trim().is_empty()\<close> on the bytes of a line: nothing but Unicode white space.\<close>

fun blank_bytes :: "nat list \<Rightarrow> bool" where
  "blank_bytes [] = True"
| "blank_bytes [a] = (a \<in> {9..13} \<or> a = 32)"
| "blank_bytes [a, b] =
     ((a \<in> {9..13} \<or> a = 32) \<and> blank_bytes [b] \<or> a = 0xC2 \<and> (b = 0x85 \<or> b = 0xA0))"
| "blank_bytes (a # b # c # r) =
     ((a \<in> {9..13} \<or> a = 32) \<and> blank_bytes (b # c # r) \<or>
      a = 0xC2 \<and> (b = 0x85 \<or> b = 0xA0) \<and> blank_bytes (c # r) \<or>
      ((a = 0xE1 \<and> b = 0x9A \<and> c = 0x80) \<or>
       (a = 0xE2 \<and> b = 0x80 \<and> (c \<in> {0x80..0x8A} \<or> c \<in> {0xA8, 0xA9, 0xAF})) \<or>
       (a = 0xE2 \<and> b = 0x81 \<and> c = 0x9F) \<or>
       (a = 0xE3 \<and> b = 0x80 \<and> c = 0x80)) \<and> blank_bytes r)"

definition is_blank :: "string \<Rightarrow> bool" where
  "is_blank s = blank_bytes (map of_char s)"

record 'w mcp_lib =
  sd_spawn :: "string \<Rightarrow> string list \<Rightarrow> 'w \<Rightarrow> (string + bool \<times> bool) \<times> 'w"
  sd_poll_write :: "string \<Rightarrow> 'w \<Rightarrow> (string + nat) option \<times> 'w"
  sd_poll_flush :: "'w \<Rightarrow> (string + unit) option \<times> 'w"
  sd_read_line :: "'w \<Rightarrow> (string + string) option \<times> 'w"
  js_msg_to_string :: "json_rpc_message \<Rightarrow> string + string"
  js_msg_from_str :: "string \<Rightarrow> string + json_rpc_message"

text \<open>\<open>st_locked\<close> says that a send holds the lock of the writer.\<close>

record 'w stdio_transport =
  st_connected :: bool
  st_locked :: bool
  st_world :: 'w

definition stdio_connect ::
  "'w mcp_lib \<Rightarrow> string \<Rightarrow> string list \<Rightarrow> 'w \<Rightarrow> (transport_error + 'w stdio_transport) \<times> 'w" where
  "stdio_connect lib command args w =
     (case sd_spawn lib command args w of
        (Inl e, w1) \<Rightarrow> (Inl (Io_terr e), w1)
      | (Inr (stdin_piped, stdout_piped), w1) \<Rightarrow>
          if \<not> stdin_piped then (Inl (Channel_terr ''child stdin was not piped''), w1)
          else if \<not> stdout_piped then (Inl (Channel_terr ''child stdout was not piped''), w1)
          else (Inr \<lparr>st_connected = True, st_locked = False, st_world = w1\<rparr>, w1))"

text \<open>
  Where a send waits: it has not been polled, it queues for a place or for the lock, or it holds the
  lock with bytes of the line or of the newline left, or in the flush.
\<close>

datatype sending = Unsent | Queued | InLine string | InNewline string | InFlush

datatype 'a poll = Ready 'a | Pending sending

fun map_poll :: "('a \<Rightarrow> 'b) \<Rightarrow> 'a poll \<Rightarrow> 'b poll" where
  "map_poll f (Ready r) = Ready (f r)"
| "map_poll f (Pending s) = Pending s"

text \<open>
  A poll of \<open>AsyncWriteExt::write_all\<close>, with the bytes that are left: it offers them to the pipe
  until all are taken, the pipe is full, or a write fails or takes nothing.
\<close>

function write_all ::
  "'w mcp_lib \<Rightarrow> string \<Rightarrow> 'w \<Rightarrow> (string + unit) option \<times> string \<times> 'w" where
  "write_all lib [] w = (Some (Inr ()), [], w)"
| "write_all lib (b # bs) w =
     (case sd_poll_write lib (b # bs) w of
        (None, w1) \<Rightarrow> (None, b # bs, w1)
      | (Some (Inl e), w1) \<Rightarrow> (Some (Inl e), b # bs, w1)
      | (Some (Inr n), w1) \<Rightarrow>
          if n = 0 then (Some (Inl ''write zero''), b # bs, w1) else write_all lib (drop n (b # bs)) w1)"
  by pat_completeness auto

termination
  by (relation "measure (\<lambda>(lib, bs, w). length bs)") auto

text \<open>The three awaits under the lock, each polled until it waits.\<close>

definition stdio_flush :: "'w mcp_lib \<Rightarrow> 'w \<Rightarrow> (transport_error + unit) poll \<times> 'w" where
  "stdio_flush lib w =
     (case sd_poll_flush lib w of
        (None, w1) \<Rightarrow> (Pending InFlush, w1)
      | (Some r, w1) \<Rightarrow> (Ready (map_err Io_terr r), w1))"

definition stdio_newline :: "'w mcp_lib \<Rightarrow> string \<Rightarrow> 'w \<Rightarrow> (transport_error + unit) poll \<times> 'w" where
  "stdio_newline lib bytes w =
     (case write_all lib bytes w of
        (None, left, w1) \<Rightarrow> (Pending (InNewline left), w1)
      | (Some (Inl e), _, w1) \<Rightarrow> (Ready (Inl (Io_terr e)), w1)
      | (Some (Inr _), _, w1) \<Rightarrow> stdio_flush lib w1)"

definition stdio_line :: "'w mcp_lib \<Rightarrow> string \<Rightarrow> 'w \<Rightarrow> (transport_error + unit) poll \<times> 'w" where
  "stdio_line lib bytes w =
     (case write_all lib bytes w of
        (None, left, w1) \<Rightarrow> (Pending (InLine left), w1)
      | (Some (Inl e), _, w1) \<Rightarrow> (Ready (Inl (Io_terr e)), w1)
      | (Some (Inr _), _, w1) \<Rightarrow> stdio_newline lib [CHR 0x0A] w1)"

text \<open>The lock is held while the rest of the send waits, and released when it returns.\<close>

fun holding_writer ::
  "(transport_error + unit) poll \<times> 'w \<Rightarrow> 'w stdio_transport
   \<Rightarrow> (transport_error + unit) poll \<times> 'w stdio_transport" where
  "holding_writer (Ready r, w) t = (Ready r, t\<lparr>st_locked := False, st_world := w\<rparr>)"
| "holding_writer (Pending s, w) t = (Pending s, t\<lparr>st_locked := True, st_world := w\<rparr>)"

definition stdio_send ::
  "'w mcp_lib \<Rightarrow> sending \<Rightarrow> json_rpc_message \<Rightarrow> 'w stdio_transport
   \<Rightarrow> (transport_error + unit) poll \<times> 'w stdio_transport" where
  "stdio_send lib s msg t =
     (case s of
        InLine bytes \<Rightarrow> holding_writer (stdio_line lib bytes (st_world t)) t
      | InNewline bytes \<Rightarrow> holding_writer (stdio_newline lib bytes (st_world t)) t
      | InFlush \<Rightarrow> holding_writer (stdio_flush lib (st_world t)) t
      | _ \<Rightarrow>
          if s = Unsent \<and> \<not> st_connected t then (Ready (Inl NotConnected), t)
          else case js_msg_to_string lib msg of
            Inl e \<Rightarrow> (Ready (Inl (Json_terr e)), t)
          | Inr line \<Rightarrow>
              if st_locked t then (Pending Queued, t)
              else holding_writer (stdio_line lib line (st_world t)) t)"

text \<open>A send that is dropped while it holds the lock releases it, whatever it has written.\<close>

fun holds_writer :: "sending \<Rightarrow> bool" where
  "holds_writer (InLine _) = True"
| "holds_writer (InNewline _) = True"
| "holds_writer InFlush = True"
| "holds_writer _ = False"

definition stdio_recv ::
  "'w mcp_lib \<Rightarrow> bool \<Rightarrow> 'w stdio_transport \<Rightarrow> (transport_error + json_rpc_message) option \<times> 'w stdio_transport" where
  "stdio_recv lib started t =
     (if \<not> started \<and> \<not> st_connected t then (Some (Inl NotConnected), t)
      else case sd_read_line lib (st_world t) of
        (None, w) \<Rightarrow> (None, t\<lparr>st_world := w\<rparr>)
      | (Some (Inl e), w) \<Rightarrow> (Some (Inl (Io_terr e)), t\<lparr>st_world := w\<rparr>)
      | (Some (Inr line), w) \<Rightarrow>
          (if is_blank line then (Some (Inl NotConnected), t\<lparr>st_world := w\<rparr>)
           else (Some (map_err Json_terr (js_msg_from_str lib line)), t\<lparr>st_world := w\<rparr>)))"

text \<open>
  The pair of channel transports: two bounded queues, one shared flag, and whether each half is
  still there. The client holds the first half; \<open>ch_to_peer\<close> is the queue it sends into.
\<close>

record channel_pair =
  ch_connected :: bool
  ch_to_peer :: "json_rpc_message list"
  ch_to_client :: "json_rpc_message list"
  ch_client_alive :: bool
  ch_peer_alive :: bool

definition CHANNEL_CAPACITY :: nat where
  "CHANNEL_CAPACITY = 100"

definition channel :: channel_pair where
  "channel = \<lparr>ch_connected = True, ch_to_peer = [], ch_to_client = [], ch_client_alive = True,
     ch_peer_alive = True\<rparr>"

definition channel_send ::
  "bool \<Rightarrow> json_rpc_message \<Rightarrow> channel_pair \<Rightarrow> (transport_error + unit) option \<times> channel_pair" where
  "channel_send started msg t =
     (if \<not> started \<and> \<not> ch_connected t then (Some (Inl NotConnected), t)
      else if \<not> ch_peer_alive t then (Some (Inl (Channel_terr ''Receiver dropped'')), t)
      else if length (ch_to_peer t) \<ge> CHANNEL_CAPACITY then (None, t)
      else (Some (Inr ()), t\<lparr>ch_to_peer := ch_to_peer t @ [msg]\<rparr>))"

definition channel_recv ::
  "bool \<Rightarrow> channel_pair \<Rightarrow> (transport_error + json_rpc_message) option \<times> channel_pair" where
  "channel_recv started t =
     (if \<not> started \<and> \<not> ch_connected t then (Some (Inl NotConnected), t)
      else case ch_to_client t of
        m # ms \<Rightarrow> (Some (Inr m), t\<lparr>ch_to_client := ms\<rparr>)
      | [] \<Rightarrow> if ch_peer_alive t then (None, t) else (Some (Inl (Channel_terr ''Sender dropped'')), t))"

text \<open>The same calls made on the other half, by the peer.\<close>

definition flip_channel :: "channel_pair \<Rightarrow> channel_pair" where
  "flip_channel t = \<lparr>ch_connected = ch_connected t, ch_to_peer = ch_to_client t,
     ch_to_client = ch_to_peer t, ch_client_alive = ch_peer_alive t, ch_peer_alive = ch_client_alive t\<rparr>"

definition peer_send ::
  "bool \<Rightarrow> json_rpc_message \<Rightarrow> channel_pair \<Rightarrow> (transport_error + unit) option \<times> channel_pair" where
  "peer_send started msg t = apsnd flip_channel (channel_send started msg (flip_channel t))"

definition peer_recv ::
  "bool \<Rightarrow> channel_pair \<Rightarrow> (transport_error + json_rpc_message) option \<times> channel_pair" where
  "peer_recv started t = apsnd flip_channel (channel_recv started (flip_channel t))"

datatype 'w mcp_transport = Stdio "'w stdio_transport" | Channel channel_pair

fun transport_connected :: "'w mcp_transport \<Rightarrow> bool" where
  "transport_connected (Stdio t) = st_connected t"
| "transport_connected (Channel t) = ch_connected t"

fun set_connected :: "bool \<Rightarrow> 'w mcp_transport \<Rightarrow> 'w mcp_transport" where
  "set_connected b (Stdio t) = Stdio (t\<lparr>st_connected := b\<rparr>)"
| "set_connected b (Channel t) = Channel (t\<lparr>ch_connected := b\<rparr>)"

fun transport_send ::
  "'w mcp_lib \<Rightarrow> sending \<Rightarrow> json_rpc_message \<Rightarrow> 'w mcp_transport
   \<Rightarrow> (transport_error + unit) poll \<times> 'w mcp_transport" where
  "transport_send lib s msg (Stdio t) = (case stdio_send lib s msg t of (r, t1) \<Rightarrow> (r, Stdio t1))"
| "transport_send lib s msg (Channel t) =
     (case channel_send (s \<noteq> Unsent) msg t of
        (None, t1) \<Rightarrow> (Pending Queued, Channel t1)
      | (Some r, t1) \<Rightarrow> (Ready r, Channel t1))"

fun transport_drop_send :: "sending \<Rightarrow> 'w mcp_transport \<Rightarrow> 'w mcp_transport" where
  "transport_drop_send s (Stdio t) = Stdio (if holds_writer s then t\<lparr>st_locked := False\<rparr> else t)"
| "transport_drop_send s (Channel t) = Channel t"

fun transport_recv ::
  "'w mcp_lib \<Rightarrow> bool \<Rightarrow> 'w mcp_transport
   \<Rightarrow> (transport_error + json_rpc_message) option \<times> 'w mcp_transport" where
  "transport_recv lib started (Stdio t) = (case stdio_recv lib started t of (r, t1) \<Rightarrow> (r, Stdio t1))"
| "transport_recv lib started (Channel t) = (case channel_recv started t of (r, t1) \<Rightarrow> (r, Channel t1))"

section \<open>The client\<close>

definition NOTIFICATION_QUEUE_CAPACITY :: nat where
  "NOTIFICATION_QUEUE_CAPACITY = 64"

datatype mcp_client_error =
    Transport transport_error
  | JsonRpc json_rpc_error
  | Timeout_mcp
  | NotInitialized
  | ServerError i32 string
  | InvalidResponse string string
  | CapabilityNotSupported string
  | Channel_mcp string

fun show_mcp_error :: "mcp_client_error \<Rightarrow> string" where
  "show_mcp_error (Transport e) = ''Transport error: '' @ show_transport_error e"
| "show_mcp_error (JsonRpc e) = ''JSON-RPC error: '' @ show_rpc_error e"
| "show_mcp_error Timeout_mcp = ''Request timeout''"
| "show_mcp_error NotInitialized = ''Not initialized''"
| "show_mcp_error (ServerError code message) =
     ''Server returned error: '' @ show_int (sint code) @ '' '' @ message"
| "show_mcp_error (InvalidResponse expected got) =
     ''Invalid response: expected '' @ expected @ '', got '' @ got"
| "show_mcp_error (CapabilityNotSupported c) = ''Capability not supported: '' @ c"
| "show_mcp_error (Channel_mcp e) = ''Channel error: '' @ e"

record mcp_client_config =
  timeout_secs :: u64
  mcp_command :: string
  mcp_args :: "string list"
  client_info :: implementation
  capabilities :: client_capabilities

definition default_mcp_client_config :: "string \<Rightarrow> mcp_client_config" where
  "default_mcp_client_config pkg_version =
     \<lparr>timeout_secs = 30, mcp_command = [], mcp_args = [],
      client_info = \<lparr>im_name = ''agentverify-mcp'', im_version = pkg_version\<rparr>,
      capabilities = default_client_capabilities\<rparr>"

text \<open>
  A oneshot channel holds nothing, the response sent into it, or is closed because its sender was
  dropped. The map of pending requests holds the senders, by number of the channel.
\<close>

datatype slot = Empty | Full json_rpc_response | Closed

record 'w mcp_client =
  mc_transport :: "'w mcp_transport"
  mc_config :: mcp_client_config
  mc_server_capabilities :: "server_capabilities option"
  mc_next_request_id :: u64
  mc_pending :: "u64 \<Rightarrow> nat option"
  mc_notifications :: "json_rpc_notification list"
  mc_slots :: "slot list"

definition with_transport :: "mcp_client_config \<Rightarrow> 'w mcp_transport \<Rightarrow> 'w mcp_client" where
  "with_transport config t =
     \<lparr>mc_transport = t, mc_config = config, mc_server_capabilities = None, mc_next_request_id = 1,
      mc_pending = Map.empty, mc_notifications = [], mc_slots = []\<rparr>"

definition mcp_connect ::
  "'w mcp_lib \<Rightarrow> mcp_client_config \<Rightarrow> 'w \<Rightarrow> (mcp_client_error + 'w mcp_client) \<times> 'w" where
  "mcp_connect lib config w =
     (case stdio_connect lib (mcp_command config) (mcp_args config) w of
        (Inl e, w1) \<Rightarrow> (Inl (Transport e), w1)
      | (Inr t, w1) \<Rightarrow> (Inr (with_transport config (Stdio t)), w1))"

definition with_channel_peer :: "mcp_client_config \<Rightarrow> mcp_client_error + 'w mcp_client" where
  "with_channel_peer config = Inr (with_transport config (Channel channel))"

text \<open>The peer half is dropped when the constructor returns.\<close>

definition with_channel_transport :: "mcp_client_config \<Rightarrow> mcp_client_error + 'w mcp_client" where
  "with_channel_transport config =
     map_sum id (\<lambda>c. c\<lparr>mc_transport := Channel (channel\<lparr>ch_peer_alive := False\<rparr>)\<rparr>)
       (with_channel_peer config)"

definition send_message ::
  "'w mcp_lib \<Rightarrow> sending \<Rightarrow> json_rpc_message \<Rightarrow> 'w mcp_client
   \<Rightarrow> (mcp_client_error + unit) poll \<times> 'w mcp_client" where
  "send_message lib s msg c =
     (case transport_send lib s msg (mc_transport c) of
        (r, t) \<Rightarrow> (map_poll (map_err Transport) r, c\<lparr>mc_transport := t\<rparr>))"

definition drop_send :: "sending \<Rightarrow> 'w mcp_client \<Rightarrow> 'w mcp_client" where
  "drop_send s c = c\<lparr>mc_transport := transport_drop_send s (mc_transport c)\<rparr>"

definition recv_message ::
  "'w mcp_lib \<Rightarrow> bool \<Rightarrow> 'w mcp_client
   \<Rightarrow> (mcp_client_error + json_rpc_message) option \<times> 'w mcp_client" where
  "recv_message lib started c =
     (case transport_recv lib started (mc_transport c) of
        (r, t) \<Rightarrow> (map_option (map_err Transport) r, c\<lparr>mc_transport := t\<rparr>))"

fun response_id :: "json_rpc_response \<Rightarrow> json" where
  "response_id (RSuccess _ i _) = i"
| "response_id (RError _ i _) = i"

fun as_u64 :: "json \<Rightarrow> u64 option" where
  "as_u64 (JNumber (PosInt n)) = Some n"
| "as_u64 _ = None"

text \<open>Dropping the sender of a channel that holds nothing closes it.\<close>

definition drop_sender :: "nat option \<Rightarrow> 'w mcp_client \<Rightarrow> 'w mcp_client" where
  "drop_sender s c =
     (case s of
        None \<Rightarrow> c
      | Some n \<Rightarrow> if mc_slots c ! n = Empty then c\<lparr>mc_slots := (mc_slots c)[n := Closed]\<rparr> else c)"

definition take_pending :: "u64 \<Rightarrow> 'w mcp_client \<Rightarrow> nat option \<times> 'w mcp_client" where
  "take_pending i c = (mc_pending c i, c\<lparr>mc_pending := (mc_pending c)(i := None)\<rparr>)"

definition reject_request :: "json \<Rightarrow> json_rpc_message" where
  "reject_request i = Response (RError ''2.0'' i (new_rpc_error METHOD_NOT_FOUND
     ''client does not support server-initiated requests''))"

text \<open>
  \<open>dispatch\<close> answers the awaited response if the message is it, and the rejection that remains
  to be sent if the message is a request of the server.
\<close>

definition dispatch ::
  "json_rpc_message \<Rightarrow> json \<Rightarrow> 'w mcp_client
   \<Rightarrow> (json_rpc_response option \<times> json_rpc_message option) \<times> 'w mcp_client" where
  "dispatch message expected_id c =
     (case message of
        Response response \<Rightarrow>
          if json_eq (response_id response) expected_id then ((Some response, None), c)
          else (case as_u64 (response_id response) of
                  None \<Rightarrow> ((None, None), c)
                | Some owner_id \<Rightarrow>
                    (case take_pending owner_id c of
                       (None, c1) \<Rightarrow> ((None, None), c1)
                     | (Some n, c1) \<Rightarrow>
                         ((None, None), c1\<lparr>mc_slots := (mc_slots c1)[n := Full response]\<rparr>)))
      | Notification notification \<Rightarrow>
          ((None, None),
           if length (mc_notifications c) < NOTIFICATION_QUEUE_CAPACITY
           then c\<lparr>mc_notifications := mc_notifications c @ [notification]\<rparr> else c)
      | Request incoming \<Rightarrow> ((None, Some (reject_request (rq_id incoming))), c))"

section \<open>One request\<close>

text \<open>What a caller is polled for at its turn.\<close>

datatype choice = PollSlot | PollTransport | Elapsed

text \<open>
  A wait is receiving (past the check of the flag), or sending a rejection. When it is dropped, by its
  deadline or with the request, so is the rejection.
\<close>

record wait =
  wt_receiving :: bool
  wt_reject :: "(json_rpc_message \<times> sending) option"

definition idle_wait :: wait where
  "idle_wait = \<lparr>wt_receiving = False, wt_reject = None\<rparr>"

definition drop_wait :: "wait \<Rightarrow> 'w mcp_client \<Rightarrow> 'w mcp_client" where
  "drop_wait w c = (case wt_reject w of None \<Rightarrow> c | Some (_, s) \<Rightarrow> drop_send s c)"

datatype 'a progress = Done "mcp_client_error + json_rpc_response" | Continue 'a

definition await_step ::
  "'w mcp_lib \<Rightarrow> choice \<Rightarrow> json \<Rightarrow> nat \<Rightarrow> wait \<Rightarrow> 'w mcp_client \<Rightarrow> wait progress \<times> 'w mcp_client" where
  "await_step lib choice expected_id n w c =
     (case (choice, wt_reject w) of
        (Elapsed, _) \<Rightarrow> (Done (Inl Timeout_mcp), drop_wait w c)
      | (_, Some (msg, s)) \<Rightarrow>
          (case send_message lib s msg c of
             (Pending s1, c1) \<Rightarrow> (Continue (w\<lparr>wt_reject := Some (msg, s1)\<rparr>), c1)
           | (Ready _, c1) \<Rightarrow> (Continue idle_wait, c1))
      | (PollSlot, None) \<Rightarrow>
          (case mc_slots c ! n of
             Full response \<Rightarrow> (Done (Inr response), c)
           | Closed \<Rightarrow> (Done (Inl (Channel_mcp ''response channel closed'')), c)
           | Empty \<Rightarrow> (Continue w, c))
      | (PollTransport, None) \<Rightarrow>
          (case recv_message lib (wt_receiving w) c of
             (None, c1) \<Rightarrow> (Continue (w\<lparr>wt_receiving := True\<rparr>), c1)
           | (Some (Inl e), c1) \<Rightarrow> (Done (Inl e), c1)
           | (Some (Inr message), c1) \<Rightarrow>
               (case dispatch message expected_id c1 of
                  ((Some response, _), c2) \<Rightarrow> (Done (Inr response), c2)
                | ((None, Some reply), c2) \<Rightarrow>
                    (Continue \<lparr>wt_receiving = False, wt_reject = Some (reply, Unsent)\<rparr>, c2)
                | ((None, None), c2) \<Rightarrow> (Continue idle_wait, c2))))"

type_synonym 'w schedule = "(('w mcp_client \<Rightarrow> 'w mcp_client) \<times> choice) list"

fun await_response ::
  "'w mcp_lib \<Rightarrow> 'w schedule \<Rightarrow> json \<Rightarrow> nat \<Rightarrow> wait \<Rightarrow> 'w mcp_client
   \<Rightarrow> (mcp_client_error + json_rpc_response) option \<times> 'w schedule \<times> 'w mcp_client" where
  "await_response lib [] expected_id n w c = (None, [], c)"
| "await_response lib ((others, choice) # sch) expected_id n w c =
     (case await_step lib choice expected_id n w (others c) of
        (Done r, c1) \<Rightarrow> (Some r, sch, c1)
      | (Continue w1, c1) \<Rightarrow> await_response lib sch expected_id n w1 c1)"

text \<open>The send of the request comes before the wait and is under no deadline.\<close>

fun await_send ::
  "'w mcp_lib \<Rightarrow> 'w schedule \<Rightarrow> sending \<Rightarrow> json_rpc_message \<Rightarrow> 'w mcp_client
   \<Rightarrow> (mcp_client_error + unit) option \<times> 'w schedule \<times> 'w mcp_client" where
  "await_send lib [] s msg c = (None, [], c)"
| "await_send lib ((others, choice) # sch) s msg c =
     (case send_message lib s msg (others c) of
        (Ready r, c1) \<Rightarrow> (Some r, sch, c1)
      | (Pending s1, c1) \<Rightarrow> await_send lib sch s1 msg c1)"

definition alloc_request_id :: "'w mcp_client \<Rightarrow> u64 \<times> 'w mcp_client" where
  "alloc_request_id c =
     (mc_next_request_id c, c\<lparr>mc_next_request_id := mc_next_request_id c + 1\<rparr>)"

text \<open>A new oneshot channel; inserting its sender drops the one that was under the identifier.\<close>

definition register_pending :: "u64 \<Rightarrow> 'w mcp_client \<Rightarrow> nat \<times> 'w mcp_client" where
  "register_pending i c =
     (let n = length (mc_slots c);
          c1 = drop_sender (mc_pending c i) (c\<lparr>mc_slots := mc_slots c @ [Empty]\<rparr>)
      in (n, c1\<lparr>mc_pending := (mc_pending c1)(i \<mapsto> n)\<rparr>))"

definition end_request :: "u64 \<Rightarrow> 'w mcp_client \<Rightarrow> 'w mcp_client" where
  "end_request i c = (case take_pending i c of (s, c1) \<Rightarrow> drop_sender s c1)"

fun outcome_of :: "mcp_client_error + json_rpc_response \<Rightarrow> mcp_client_error + json" where
  "outcome_of (Inl e) = Inl e"
| "outcome_of (Inr (RSuccess _ _ result)) = Inr result"
| "outcome_of (Inr (RError _ _ e)) = Inl (JsonRpc e)"

definition request ::
  "'w mcp_lib \<Rightarrow> 'w schedule \<Rightarrow> string \<Rightarrow> json option \<Rightarrow> 'w mcp_client
   \<Rightarrow> (mcp_client_error + json) option \<times> 'w schedule \<times> 'w mcp_client" where
  "request lib sch method params c =
     (let (i, c1) = alloc_request_id c;
          (n, c2) = register_pending i c1
      in case await_send lib sch Unsent (Request (new_request i method params)) c2 of
           (None, sch1, c3) \<Rightarrow> (None, sch1, c3)
         | (Some (Inl e), sch1, c3) \<Rightarrow> (Some (Inl e), sch1, end_request i c3)
         | (Some (Inr _), sch1, c3) \<Rightarrow>
             (case await_response lib sch1 (JNumber (PosInt i)) n idle_wait c3 of
                (None, sch2, c4) \<Rightarrow> (None, sch2, c4)
              | (Some r, sch2, c4) \<Rightarrow> (Some (outcome_of r), sch2, end_request i c4)))"

section \<open>The methods of the protocol\<close>

record tools_list_response =
  tlr_tools :: "tool list"

record resources_list_response =
  rlr_resources :: "resource list"

record prompts_list_response =
  plr_prompts :: "prompt list"

record get_prompt_params =
  gp_name :: string
  gp_arguments :: "(string \<times> string) list option"

record prompt_message =
  pm_role :: string
  pm_content :: content_block

record get_prompt_result =
  gpr_messages :: "prompt_message list"

record payload_lib =
  init_params_to_value :: "initialize_params \<Rightarrow> string + json"
  call_params_to_value :: "call_tool_params \<Rightarrow> string + json"
  prompt_params_to_value :: "get_prompt_params \<Rightarrow> string + json"
  init_result_from_value :: "json \<Rightarrow> string + initialize_result"
  tools_from_value :: "json \<Rightarrow> string + tools_list_response"
  call_result_from_value :: "json \<Rightarrow> string + call_tool_result"
  resources_from_value :: "json \<Rightarrow> string + resources_list_response"
  prompts_from_value :: "json \<Rightarrow> string + prompts_list_response"
  prompt_result_from_value :: "json \<Rightarrow> string + get_prompt_result"

text \<open>A request whose result is decoded; \<open>expected\<close> names the type for the error.\<close>

definition request_as ::
  "'w mcp_lib \<Rightarrow> 'w schedule \<Rightarrow> string \<Rightarrow> json option \<Rightarrow> string \<Rightarrow> (json \<Rightarrow> string + 'a) \<Rightarrow> 'w mcp_client
   \<Rightarrow> (mcp_client_error + 'a) option \<times> 'w schedule \<times> 'w mcp_client" where
  "request_as lib sch method params expected decode c =
     (case request lib sch method params c of
        (r, rest) \<Rightarrow>
          (map_option (\<lambda>x. and_then_res x (\<lambda>v. map_err (InvalidResponse expected) (decode v))) r, rest))"

text \<open>Parameters that do not serialise fail the call before anything is sent.\<close>

definition request_with ::
  "'w mcp_lib \<Rightarrow> 'w schedule \<Rightarrow> string \<Rightarrow> string + json \<Rightarrow> string \<Rightarrow> (json \<Rightarrow> string + 'a) \<Rightarrow> 'w mcp_client
   \<Rightarrow> (mcp_client_error + 'a) option \<times> 'w schedule \<times> 'w mcp_client" where
  "request_with lib sch method params expected decode c =
     (case params of
        Inl e \<Rightarrow> (Some (Inl (Transport (Json_terr e))), sch, c)
      | Inr v \<Rightarrow> request_as lib sch method (Some v) expected decode c)"

definition initialize ::
  "'w mcp_lib \<Rightarrow> payload_lib \<Rightarrow> 'w schedule \<Rightarrow> 'w mcp_client
   \<Rightarrow> (mcp_client_error + initialize_result) option \<times> 'w schedule \<times> 'w mcp_client" where
  "initialize lib pl sch c =
     (let params = \<lparr>ip_protocol_version = MCP_PROTOCOL_VERSION,
        ip_capabilities = capabilities (mc_config c), ip_client_info = client_info (mc_config c)\<rparr>
      in case request_with lib sch ''initialize'' (init_params_to_value pl params)
                ''InitializeResult'' (init_result_from_value pl) c of
           (Some (Inr response), sch1, c1) \<Rightarrow>
             (case await_send lib sch1 Unsent (Notification (new_notification ''initialized'' None))
                     (c1\<lparr>mc_server_capabilities := Some (ir_capabilities response)\<rparr>) of
                (r, rest) \<Rightarrow> (map_option (map_sum id (\<lambda>_. response)) r, rest))
         | (r, rest) \<Rightarrow> (r, rest))"

definition list_tools ::
  "'w mcp_lib \<Rightarrow> payload_lib \<Rightarrow> 'w schedule \<Rightarrow> 'w mcp_client
   \<Rightarrow> (mcp_client_error + tool list) option \<times> 'w schedule \<times> 'w mcp_client" where
  "list_tools lib pl sch =
     request_as lib sch ''tools/list'' None ''ToolsListResponse'' (map_sum id tlr_tools \<circ> tools_from_value pl)"

definition call_tool ::
  "'w mcp_lib \<Rightarrow> payload_lib \<Rightarrow> 'w schedule \<Rightarrow> string \<Rightarrow> json \<Rightarrow> 'w mcp_client
   \<Rightarrow> (mcp_client_error + call_tool_result) option \<times> 'w schedule \<times> 'w mcp_client" where
  "call_tool lib pl sch name arguments =
     request_with lib sch ''tools/call''
       (call_params_to_value pl \<lparr>ct_name = name, ct_arguments = arguments, ct_meta = None\<rparr>)
       ''CallToolResult'' (call_result_from_value pl)"

definition list_resources ::
  "'w mcp_lib \<Rightarrow> payload_lib \<Rightarrow> 'w schedule \<Rightarrow> 'w mcp_client
   \<Rightarrow> (mcp_client_error + resource list) option \<times> 'w schedule \<times> 'w mcp_client" where
  "list_resources lib pl sch =
     request_as lib sch ''resources/list'' None ''ResourcesListResponse''
       (map_sum id rlr_resources \<circ> resources_from_value pl)"

definition list_prompts ::
  "'w mcp_lib \<Rightarrow> payload_lib \<Rightarrow> 'w schedule \<Rightarrow> 'w mcp_client
   \<Rightarrow> (mcp_client_error + prompt list) option \<times> 'w schedule \<times> 'w mcp_client" where
  "list_prompts lib pl sch =
     request_as lib sch ''prompts/list'' None ''PromptsListResponse''
       (map_sum id plr_prompts \<circ> prompts_from_value pl)"

definition get_prompt ::
  "'w mcp_lib \<Rightarrow> payload_lib \<Rightarrow> 'w schedule \<Rightarrow> string \<Rightarrow> (string \<times> string) list option \<Rightarrow> 'w mcp_client
   \<Rightarrow> (mcp_client_error + get_prompt_result) option \<times> 'w schedule \<times> 'w mcp_client" where
  "get_prompt lib pl sch name arguments =
     request_with lib sch ''prompts/get''
       (prompt_params_to_value pl \<lparr>gp_name = name, gp_arguments = arguments\<rparr>)
       ''GetPromptResult'' (prompt_result_from_value pl)"

definition is_connected :: "'w mcp_client \<Rightarrow> bool" where
  "is_connected c = transport_connected (mc_transport c)"

definition shutdown :: "'w mcp_client \<Rightarrow> 'w mcp_client" where
  "shutdown c = c\<lparr>mc_transport := set_connected False (mc_transport c)\<rparr>"

definition next_notification ::
  "'w mcp_client \<Rightarrow> json_rpc_notification option \<times> 'w mcp_client" where
  "next_notification c =
     (case mc_notifications c of
        [] \<Rightarrow> (None, c)
      | n # ns \<Rightarrow> (Some n, c\<lparr>mc_notifications := ns\<rparr>))"

definition get_server_capabilities :: "'w mcp_client \<Rightarrow> server_capabilities option" where
  "get_server_capabilities c = mc_server_capabilities c"

section \<open>Concurrent requests\<close>

text \<open>
  Any number of callers share the client. Each is at one point of \<open>request\<close>: it has its
  identifier, it is sending, it waits, it has its outcome, or its future was dropped by whoever
  polled it, with the number of its channel if it had registered. A step of the system is a step of
  one of them between two suspension points, the dropping of one, a call that does not suspend, or a
  change that the peer makes to the transport. A dropped request has no guard that would take its
  sender out of the map; the receiver is gone, so nobody reads what is sent into its channel.
\<close>

datatype task =
    Allocated u64 json_rpc_message
  | Sending u64 nat sending json_rpc_message
  | Waiting u64 nat wait
  | Finished u64 "mcp_client_error + json_rpc_response"
  | Dropped u64 "nat option"

record 'w mcp_system =
  sy_client :: "'w mcp_client"
  sy_tasks :: "task list"

inductive mcp_step :: "'w mcp_lib \<Rightarrow> 'w mcp_system \<Rightarrow> 'w mcp_system \<Rightarrow> bool" for lib where
  start: "alloc_request_id c = (i, c1) \<Longrightarrow>
    mcp_step lib \<lparr>sy_client = c, sy_tasks = ts\<rparr>
      \<lparr>sy_client = c1, sy_tasks = ts @ [Allocated i (Request (new_request i m ps))]\<rparr>"
| enter: "\<lbrakk>t < length ts; ts ! t = Allocated i msg; register_pending i c = (n, c1)\<rbrakk> \<Longrightarrow>
    mcp_step lib \<lparr>sy_client = c, sy_tasks = ts\<rparr>
      \<lparr>sy_client = c1, sy_tasks = ts[t := Sending i n Unsent msg]\<rparr>"
| send_waits: "\<lbrakk>t < length ts; ts ! t = Sending i n b msg; send_message lib b msg c = (Pending b1, c1)\<rbrakk> \<Longrightarrow>
    mcp_step lib \<lparr>sy_client = c, sy_tasks = ts\<rparr>
      \<lparr>sy_client = c1, sy_tasks = ts[t := Sending i n b1 msg]\<rparr>"
| send_fails: "\<lbrakk>t < length ts; ts ! t = Sending i n b msg; send_message lib b msg c = (Ready (Inl e), c1)\<rbrakk> \<Longrightarrow>
    mcp_step lib \<lparr>sy_client = c, sy_tasks = ts\<rparr>
      \<lparr>sy_client = end_request i c1, sy_tasks = ts[t := Finished i (Inl e)]\<rparr>"
| sent: "\<lbrakk>t < length ts; ts ! t = Sending i n b msg; send_message lib b msg c = (Ready (Inr u), c1)\<rbrakk> \<Longrightarrow>
    mcp_step lib \<lparr>sy_client = c, sy_tasks = ts\<rparr>
      \<lparr>sy_client = c1, sy_tasks = ts[t := Waiting i n idle_wait]\<rparr>"
| wait_goes_on: "\<lbrakk>t < length ts; ts ! t = Waiting i n w;
      await_step lib choice (JNumber (PosInt i)) n w c = (Continue w1, c1)\<rbrakk> \<Longrightarrow>
    mcp_step lib \<lparr>sy_client = c, sy_tasks = ts\<rparr> \<lparr>sy_client = c1, sy_tasks = ts[t := Waiting i n w1]\<rparr>"
| wait_ends: "\<lbrakk>t < length ts; ts ! t = Waiting i n w;
      await_step lib choice (JNumber (PosInt i)) n w c = (Done r, c1)\<rbrakk> \<Longrightarrow>
    mcp_step lib \<lparr>sy_client = c, sy_tasks = ts\<rparr>
      \<lparr>sy_client = end_request i c1, sy_tasks = ts[t := Finished i r]\<rparr>"
| drop_allocated: "\<lbrakk>t < length ts; ts ! t = Allocated i msg\<rbrakk> \<Longrightarrow>
    mcp_step lib \<lparr>sy_client = c, sy_tasks = ts\<rparr> \<lparr>sy_client = c, sy_tasks = ts[t := Dropped i None]\<rparr>"
| drop_sending: "\<lbrakk>t < length ts; ts ! t = Sending i n b msg\<rbrakk> \<Longrightarrow>
    mcp_step lib \<lparr>sy_client = c, sy_tasks = ts\<rparr>
      \<lparr>sy_client = drop_send b c, sy_tasks = ts[t := Dropped i (Some n)]\<rparr>"
| drop_waiting: "\<lbrakk>t < length ts; ts ! t = Waiting i n w\<rbrakk> \<Longrightarrow>
    mcp_step lib \<lparr>sy_client = c, sy_tasks = ts\<rparr>
      \<lparr>sy_client = drop_wait w c, sy_tasks = ts[t := Dropped i (Some n)]\<rparr>"
| notified: "next_notification c = (x, c1) \<Longrightarrow>
    mcp_step lib \<lparr>sy_client = c, sy_tasks = ts\<rparr> \<lparr>sy_client = c1, sy_tasks = ts\<rparr>"
| initialized: "mcp_step lib \<lparr>sy_client = c, sy_tasks = ts\<rparr>
      \<lparr>sy_client = c\<lparr>mc_server_capabilities := Some caps\<rparr>, sy_tasks = ts\<rparr>"
| closed: "mcp_step lib \<lparr>sy_client = c, sy_tasks = ts\<rparr> \<lparr>sy_client = shutdown c, sy_tasks = ts\<rparr>"
| peer: "mcp_step lib \<lparr>sy_client = c, sy_tasks = ts\<rparr>
      \<lparr>sy_client = c\<lparr>mc_transport := tr\<rparr>, sy_tasks = ts\<rparr>"

inductive mcp_reach :: "'w mcp_lib \<Rightarrow> 'w mcp_system \<Rightarrow> bool" for lib where
  init: "mcp_reach lib \<lparr>sy_client = with_transport config tr, sy_tasks = []\<rparr>"
| step: "mcp_reach lib s \<Longrightarrow> mcp_step lib s s1 \<Longrightarrow> mcp_reach lib s1"

end
