(* ===== verification/Mcp_Correct.thy ===== *)
theory Mcp_Correct
  imports Mcp_Client
begin

text \<open>
  Correctness of the MCP client under concurrent requests: every answer belongs to the request it
  is given to, registered requests are live, the notification queue is bounded, and a waiting
  caller's response channel stays open. The proofs are inductions over the steps of
  \<open>mcp_system\<close>, through the invariants \<open>sys_inv\<close> and \<open>sys_open\<close>.
\<close>

section \<open>The invariant\<close>

text \<open>
  The identifiers and channels of the callers that have registered and not ended their request: they
  send, they wait, or they were dropped at that.
\<close>

fun live :: "task \<Rightarrow> (u64 \<times> nat) list" where
  "live (Sending i n _ _) = [(i, n)]"
| "live (Waiting i n _) = [(i, n)]"
| "live (Dropped i (Some n)) = [(i, n)]"
| "live _ = []"

definition live_set :: "task list \<Rightarrow> (u64 \<times> nat) set" where
  "live_set ts = (\<Union>u < length ts. set (live (ts ! u)))"

text \<open>
  Every registered sender belongs to a live caller and has sent nothing; what a live caller's
  channel holds answers its identifier; and no channel belongs to two identifiers.
\<close>

definition slots_ok :: "'w mcp_client \<Rightarrow> (u64 \<times> nat) set \<Rightarrow> bool" where
  "slots_ok c L \<longleftrightarrow>
     (\<forall>i n. mc_pending c i = Some n \<longrightarrow> (i, n) \<in> L \<and> mc_slots c ! n = Empty) \<and>
     (\<forall>(i, n) \<in> L. n < length (mc_slots c) \<and>
        (\<forall>r. mc_slots c ! n = Full r \<longrightarrow> response_id r = JNumber (PosInt i))) \<and>
     (\<forall>i j n. (i, n) \<in> L \<and> (j, n) \<in> L \<longrightarrow> i = j)"

text \<open>No live caller's channel is closed.\<close>

definition none_closed :: "'w mcp_client \<Rightarrow> (u64 \<times> nat) set \<Rightarrow> bool" where
  "none_closed c L \<longleftrightarrow> (\<forall>(i, n) \<in> L. mc_slots c ! n \<noteq> Closed)"

lemma send_message_frame:
  assumes "send_message lib b msg c = (r, c1)"
  shows "mc_pending c1 = mc_pending c" "mc_slots c1 = mc_slots c"
    "mc_notifications c1 = mc_notifications c" "mc_next_request_id c1 = mc_next_request_id c"
  using assms by (auto simp: send_message_def split: prod.splits)

lemma recv_message_frame:
  assumes "recv_message lib b c = (r, c1)"
  shows "mc_pending c1 = mc_pending c" "mc_slots c1 = mc_slots c"
    "mc_notifications c1 = mc_notifications c" "mc_next_request_id c1 = mc_next_request_id c"
  using assms by (auto simp: recv_message_def split: prod.splits)

lemma drop_frame [simp]:
  "mc_pending (drop_send s c) = mc_pending c" "mc_slots (drop_send s c) = mc_slots c"
  "mc_notifications (drop_send s c) = mc_notifications c"
  "mc_next_request_id (drop_send s c) = mc_next_request_id c"
  "mc_pending (drop_wait w c) = mc_pending c" "mc_slots (drop_wait w c) = mc_slots c"
  "mc_notifications (drop_wait w c) = mc_notifications c"
  "mc_next_request_id (drop_wait w c) = mc_next_request_id c"
  by (auto simp: drop_wait_def drop_send_def split: option.split)

lemma slots_frame:
  assumes "mc_pending c1 = mc_pending c" "mc_slots c1 = mc_slots c"
  shows "slots_ok c1 L = slots_ok c L" "none_closed c1 L = none_closed c L"
  using assms by (simp_all add: slots_ok_def none_closed_def)

lemma slots_okI:
  assumes "\<And>i n. mc_pending c i = Some n \<Longrightarrow> (i, n) \<in> L \<and> mc_slots c ! n = Empty"
    and "\<And>i n. (i, n) \<in> L \<Longrightarrow> n < length (mc_slots c)"
    and "\<And>i n r. (i, n) \<in> L \<Longrightarrow> mc_slots c ! n = Full r \<Longrightarrow> response_id r = JNumber (PosInt i)"
    and "\<And>i j n. (i, n) \<in> L \<Longrightarrow> (j, n) \<in> L \<Longrightarrow> i = j"
  shows "slots_ok c L"
  unfolding slots_ok_def using assms by blast

lemma slots_okD:
  assumes "slots_ok c L"
  shows "mc_pending c i = Some n \<Longrightarrow> (i, n) \<in> L"
    and "mc_pending c i = Some n \<Longrightarrow> mc_slots c ! n = Empty"
    and "(i, n) \<in> L \<Longrightarrow> n < length (mc_slots c)"
    and "(i, n) \<in> L \<Longrightarrow> mc_slots c ! n = Full r \<Longrightarrow> response_id r = JNumber (PosInt i)"
    and "(i, n) \<in> L \<Longrightarrow> (j, n) \<in> L \<Longrightarrow> i = j"
  using assms unfolding slots_ok_def by blast+

text \<open>Taking a sender out of the map and filling or closing its channel.\<close>

lemma slots_ok_resolve:
  assumes "slots_ok c L" "mc_pending c i = Some n"
    and "\<And>r. x = Full r \<Longrightarrow> response_id r = JNumber (PosInt i)"
  shows "slots_ok (c\<lparr>mc_pending := (mc_pending c)(i := None), mc_slots := (mc_slots c)[n := x]\<rparr>) L"
proof (rule slots_okI)
  note ok = slots_okD [OF assms(1)]
  fix j m
  { assume "mc_pending (c\<lparr>mc_pending := (mc_pending c)(i := None), mc_slots := (mc_slots c)[n := x]\<rparr>) j = Some m"
    then have p: "j \<noteq> i" "mc_pending c j = Some m" by (auto split: if_splits)
    have "m \<noteq> n" using ok(1) [OF p(2)] ok(1) [OF assms(2)] ok(5) p(1) by blast
    with ok(1,2) [OF p(2)]
    show "(j, m) \<in> L \<and> mc_slots (c\<lparr>mc_pending := (mc_pending c)(i := None), mc_slots := (mc_slots c)[n := x]\<rparr>) ! m = Empty"
      by simp }
  assume l: "(j, m) \<in> L"
  then show "m < length (mc_slots (c\<lparr>mc_pending := (mc_pending c)(i := None), mc_slots := (mc_slots c)[n := x]\<rparr>))"
    using ok(3) by simp
  { fix k assume "(k, m) \<in> L" with l show "j = k" by (rule ok(5)) }
  fix r
  assume f: "mc_slots (c\<lparr>mc_pending := (mc_pending c)(i := None), mc_slots := (mc_slots c)[n := x]\<rparr>) ! m = Full r"
  show "response_id r = JNumber (PosInt j)"
  proof (cases "m = n")
    case True
    then have "i = j" using ok(1) [OF assms(2)] l ok(5) by blast
    then show ?thesis using f True ok(3) [OF l] assms(3) by simp
  next
    case False
    then show ?thesis using f ok(4) [OF l] by simp
  qed
qed

lemma slots_ok_shrink:
  assumes "slots_ok c L" "L1 \<subseteq> L" "\<And>j m. mc_pending c j = Some m \<Longrightarrow> (j, m) \<in> L1"
  shows "slots_ok c L1"
  using assms(2,3) by (intro slots_okI) (blast intro: slots_okD [OF assms(1)])+

lemma slots_ok_extend:
  assumes "slots_ok c L" "mc_pending c i = None"
  shows "slots_ok (c\<lparr>mc_slots := mc_slots c @ [Empty], mc_pending := (mc_pending c)(i \<mapsto> length (mc_slots c))\<rparr>)
    (insert (i, length (mc_slots c)) L)"
proof (rule slots_okI)
  note ok = slots_okD [OF assms(1)]
  fix j m
  { assume p: "mc_pending (c\<lparr>mc_slots := mc_slots c @ [Empty], mc_pending := (mc_pending c)(i \<mapsto> length (mc_slots c))\<rparr>) j = Some m"
    show "(j, m) \<in> insert (i, length (mc_slots c)) L \<and>
      mc_slots (c\<lparr>mc_slots := mc_slots c @ [Empty], mc_pending := (mc_pending c)(i \<mapsto> length (mc_slots c))\<rparr>) ! m = Empty"
    proof (cases "j = i")
      case False
      with p have q: "mc_pending c j = Some m" by simp
      then show ?thesis using ok(1,2) [OF q] ok(3) [OF ok(1) [OF q]] by (simp add: nth_append)
    qed (use p in auto) }
  assume l: "(j, m) \<in> insert (i, length (mc_slots c)) L"
  then show "m < length (mc_slots (c\<lparr>mc_slots := mc_slots c @ [Empty], mc_pending := (mc_pending c)(i \<mapsto> length (mc_slots c))\<rparr>))"
    using ok(3) by (auto intro: less_SucI)
  { fix k assume "(k, m) \<in> insert (i, length (mc_slots c)) L" with l show "j = k" using ok(3,5) by blast }
  fix r
  assume f: "mc_slots (c\<lparr>mc_slots := mc_slots c @ [Empty], mc_pending := (mc_pending c)(i \<mapsto> length (mc_slots c))\<rparr>) ! m = Full r"
  from l f ok(3) have "(j, m) \<in> L" by auto
  with f ok(3) [OF this] show "response_id r = JNumber (PosInt j)" using ok(4) by (simp add: nth_append)
qed

lemma register_pending_ok:
  assumes "slots_ok c L" "register_pending i c = (n, c1)"
  shows "slots_ok c1 (insert (i, n) L)"
proof (cases "mc_pending c i")
  case None
  then have "c1 = c\<lparr>mc_slots := mc_slots c @ [Empty], mc_pending := (mc_pending c)(i \<mapsto> n)\<rparr>"
    "n = length (mc_slots c)"
    using assms(2) by (auto simp: register_pending_def drop_sender_def Let_def)
  then show ?thesis using slots_ok_extend [OF assms(1) None] by simp
next
  case (Some m)
  note ok = slots_okD [OF assms(1)]
  have e: "mc_slots c ! m = Empty" "m < length (mc_slots c)"
    using ok(2) [OF Some] ok(3) [OF ok(1) [OF Some]] by simp_all
  define c0 where "c0 = c\<lparr>mc_pending := (mc_pending c)(i := None), mc_slots := (mc_slots c)[m := Closed]\<rparr>"
  have "slots_ok c0 L" unfolding c0_def by (rule slots_ok_resolve [OF assms(1) Some]) simp
  from slots_ok_extend [OF this, of i] have "slots_ok (c0\<lparr>mc_slots := mc_slots c0 @ [Empty],
      mc_pending := (mc_pending c0)(i \<mapsto> length (mc_slots c0))\<rparr>) (insert (i, length (mc_slots c0)) L)"
    by (simp add: c0_def)
  moreover have "c1 = c0\<lparr>mc_slots := mc_slots c0 @ [Empty], mc_pending := (mc_pending c0)(i \<mapsto> length (mc_slots c0))\<rparr>"
    "n = length (mc_slots c0)"
    using assms(2) Some e
    by (auto simp: register_pending_def drop_sender_def Let_def c0_def nth_append list_update_append)
  ultimately show ?thesis by simp
qed

lemma register_pending_none_closed:
  assumes "slots_ok c L" "register_pending i c = (n, c1)" "none_closed c L" "\<And>m. (i, m) \<notin> L"
  shows "none_closed c1 (insert (i, n) L)"
proof -
  have "mc_pending c i = None"
    using slots_okD(1) [OF assms(1)] assms(4) by (cases "mc_pending c i") auto
  then show ?thesis
    using assms slots_okD(3) [OF assms(1)]
    by (fastforce simp: register_pending_def drop_sender_def Let_def none_closed_def nth_append)
qed

lemma end_request_None: "mc_pending c i = None \<Longrightarrow> end_request i c = c\<lparr>mc_pending := (mc_pending c)(i := None)\<rparr>"
  by (simp add: end_request_def take_pending_def drop_sender_def)

lemma end_request_Some:
  "slots_ok c L \<Longrightarrow> mc_pending c i = Some n \<Longrightarrow>
   end_request i c = c\<lparr>mc_pending := (mc_pending c)(i := None), mc_slots := (mc_slots c)[n := Closed]\<rparr>"
  by (simp add: end_request_def take_pending_def drop_sender_def slots_okD(2))

lemma end_request_ok:
  assumes "slots_ok c L" "L1 \<subseteq> L" "\<And>j m. (j, m) \<in> L \<Longrightarrow> j \<noteq> i \<Longrightarrow> (j, m) \<in> L1"
  shows "slots_ok (end_request i c) L1"
proof -
  have "slots_ok (end_request i c) L"
  proof (cases "mc_pending c i")
    case None
    then have "mc_pending (end_request i c) = mc_pending c" "mc_slots (end_request i c) = mc_slots c"
      by (simp_all add: end_request_None fun_upd_idem)
    then show ?thesis using assms(1) slots_frame(1) by blast
  next
    case (Some n)
    then show ?thesis using slots_ok_resolve [OF assms(1) Some, of Closed]
      by (simp add: end_request_Some [OF assms(1)])
  qed
  then show ?thesis
  proof (rule slots_ok_shrink [OF _ assms(2)])
    fix j m assume p: "mc_pending (end_request i c) j = Some m"
    have "j \<noteq> i \<and> mc_pending c j = Some m"
      using p by (cases "mc_pending c i") (auto simp: end_request_None end_request_Some [OF assms(1)] split: if_splits)
    then show "(j, m) \<in> L1" using assms(3) slots_okD(1) [OF assms(1)] by blast
  qed
qed

lemma end_request_none_closed:
  assumes "slots_ok c L" "none_closed c L" "L1 \<subseteq> L" "\<And>m. (i, m) \<notin> L1"
  shows "none_closed (end_request i c) L1"
proof (cases "mc_pending c i")
  case None
  then show ?thesis using assms(2,3) by (auto simp: end_request_None none_closed_def)
next
  case (Some n)
  have "m \<noteq> n" if "(j, m) \<in> L1" for j m
    using that assms(3,4) slots_okD(1) [OF assms(1) Some] slots_okD(5) [OF assms(1)] by blast
  then show ?thesis using assms(2,3)
    by (fastforce simp: end_request_Some [OF assms(1) Some] none_closed_def)
qed

lemma end_request_frame [simp]:
  "mc_notifications (end_request i c) = mc_notifications c"
  "mc_next_request_id (end_request i c) = mc_next_request_id c"
  by (simp_all add: end_request_def take_pending_def drop_sender_def split: option.split)

lemma register_pending_frame:
  assumes "register_pending i c = (n, c1)"
  shows "mc_notifications c1 = mc_notifications c" "mc_next_request_id c1 = mc_next_request_id c"
  using assms by (auto simp: register_pending_def drop_sender_def Let_def split: option.split)

lemma nth_update_other: "xs ! m \<noteq> z \<Longrightarrow> x \<noteq> z \<Longrightarrow> xs[n := x] ! m \<noteq> z"
  by (cases "n < length xs"; cases "m = n") (simp_all add: list_update_beyond)

text \<open>Dispatching a message keeps the invariant and recognises only the awaited response.\<close>

lemma dispatch_frame:
  assumes "dispatch m x c = (r, c1)"
  shows "mc_next_request_id c1 = mc_next_request_id c"
    and "length (mc_notifications c) \<le> NOTIFICATION_QUEUE_CAPACITY \<Longrightarrow>
      length (mc_notifications c1) \<le> NOTIFICATION_QUEUE_CAPACITY"
  using assms
  by (cases m; force simp: dispatch_def take_pending_def split: if_splits option.splits)+

lemma as_u64_Some: "as_u64 v = Some n \<longleftrightarrow> v = JNumber (PosInt n)"
  by (cases v rule: as_u64.cases) auto

lemma dispatch_ok:
  assumes "slots_ok c L" "dispatch m x c = (r, c1)"
  shows "slots_ok c1 L" and "none_closed c L \<Longrightarrow> none_closed c1 L"
    and "fst r = Some response \<Longrightarrow> m = Response response \<and> json_eq (response_id response) x"
proof -
  show "fst r = Some response \<Longrightarrow> m = Response response \<and> json_eq (response_id response) x"
    using assms(2)
    by (cases m) (auto simp: dispatch_def take_pending_def split: if_splits option.splits)
  have cases: "mc_pending c1 = mc_pending c \<and> mc_slots c1 = mc_slots c \<or>
    (\<exists>i n response. mc_pending c i = Some n \<and> response_id response = JNumber (PosInt i) \<and>
      c1 = c\<lparr>mc_pending := (mc_pending c)(i := None), mc_slots := (mc_slots c)[n := Full response]\<rparr>)"
    using assms(2)
    by (cases m) (auto simp: dispatch_def take_pending_def as_u64_Some fun_upd_idem
      split: if_splits option.splits)
  then show "slots_ok c1 L"
    using assms(1) slots_frame(1) slots_ok_resolve [OF assms(1)] by (metis slot.inject)
  show "none_closed c1 L" if "none_closed c L"
    using cases that nth_update_other [of "mc_slots c" _ Closed]
    by (fastforce simp: none_closed_def)
qed

lemma map_err_Inl: "map_err f r = Inl e \<longleftrightarrow> (\<exists>x. r = Inl x \<and> e = f x)"
  by (cases r) (auto simp: map_err_def)

lemma map_poll_Ready: "map_poll f p = Ready r \<longleftrightarrow> (\<exists>x. p = Ready x \<and> r = f x)"
  by (cases p) auto

lemma send_message_error: "send_message lib b msg c = (Ready (Inl e), c1) \<Longrightarrow> \<exists>t. e = Transport t"
  by (auto simp: send_message_def map_poll_Ready map_err_Inl split: prod.splits) (metis map_err_Inl)

lemma recv_message_error: "recv_message lib b c = (Some (Inl e), c1) \<Longrightarrow> \<exists>t. e = Transport t"
  by (auto simp: recv_message_def map_err_Inl split: prod.splits)

text \<open>The ways a turn of a waiting caller can go.\<close>

lemma await_step_cases [consumes 1, case_names elapsed rejecting slot received dispatched]:
  assumes "await_step lib choice x n w c = (p, c1)"
  obtains "p = Done (Inl Timeout_mcp)" "c1 = drop_wait w c"
  | b msg r w1 where "send_message lib b msg c = (r, c1)" "p = Continue w1"
  | w1 where "c1 = c" "p = (case mc_slots c ! n of Full r \<Rightarrow> Done (Inr r)
      | Closed \<Rightarrow> Done (Inl (Channel_mcp ''response channel closed'')) | Empty \<Rightarrow> Continue w1)"
  | b r w1 e where "recv_message lib b c = (r, c1)" "p = Continue w1 \<or> r = Some (Inl e) \<and> p = Done (Inl e)"
  | b m r c0 w1 where "recv_message lib b c = (Some (Inr m), c0)" "dispatch m x c0 = (r, c1)"
      "p = (case fst r of Some response \<Rightarrow> Done (Inr response) | None \<Rightarrow> Continue w1)"
proof (cases "choice = Elapsed")
  case True
  then show ?thesis using assms that(1) by (simp add: await_step_def)
next
  case False
  show ?thesis
  proof (cases "wt_reject w")
    case (Some x)
    then show ?thesis using assms False that(2)
      by (cases x; cases choice) (auto simp: await_step_def split: prod.splits poll.splits)
  next
    case None
    show ?thesis
    proof (cases choice)
      case PollSlot
      then show ?thesis using assms None that(3) [of w] by (auto simp: await_step_def split: slot.splits)
    next
      case PollTransport
      obtain r c0 where r: "recv_message lib (wt_receiving w) c = (r, c0)" by fastforce
      show ?thesis
      proof (cases "\<exists>m. r = Some (Inr m)")
        case True
        then obtain m where m: "r = Some (Inr m)" by blast
        obtain a b c2 where d: "dispatch m x c0 = ((a, b), c2)" by (metis surj_pair)
        have "c1 = c2 \<and> p = (case a of Some response \<Rightarrow> Done (Inr response) | None \<Rightarrow> Continue
            (case b of Some reply \<Rightarrow> \<lparr>wt_receiving = False, wt_reject = Some (reply, Unsent)\<rparr> | None \<Rightarrow> idle_wait))"
          using assms PollTransport None r m d by (auto simp: await_step_def split: option.splits)
        then show ?thesis using that(5) [OF r [unfolded m]] d by (metis fst_conv)
      next
        case False
        have "c1 = c0 \<and> (\<exists>w1 e. p = Continue w1 \<or> r = Some (Inl e) \<and> p = Done (Inl e))"
          using assms PollTransport None r False by (auto simp: await_step_def split: option.splits sum.splits)
        then show ?thesis using that(4) r by blast
      qed
    qed (use False in simp)
  qed
qed

lemma await_step_ok:
  assumes "slots_ok c L" "(i, n) \<in> L"
    and "await_step lib choice (JNumber (PosInt i)) n w c = (p, c1)"
  shows "slots_ok c1 L \<and> (none_closed c L \<longrightarrow> none_closed c1 L)
    \<and> (\<forall>r. p = Done (Inr r) \<longrightarrow> response_id r = JNumber (PosInt i))
    \<and> (none_closed c L \<longrightarrow> (\<forall>e. p \<noteq> Done (Inl (Channel_mcp e))))
    \<and> mc_next_request_id c1 = mc_next_request_id c
    \<and> (length (mc_notifications c) \<le> NOTIFICATION_QUEUE_CAPACITY \<longrightarrow>
      length (mc_notifications c1) \<le> NOTIFICATION_QUEUE_CAPACITY)"
  using assms(3)
proof (cases rule: await_step_cases)
  case elapsed
  then show ?thesis using assms(1) slots_frame [of c1 c L] by simp
next
  case (rejecting b msg r w1)
  note f = send_message_frame [OF rejecting(1)]
  show ?thesis using assms(1) slots_frame [OF f(1,2), of L] f(3,4) rejecting(2) by simp
next
  case (slot w1)
  then show ?thesis using assms(1,2) slots_okD(4) [OF assms(1,2)]
    by (auto simp: none_closed_def split: slot.splits)
next
  case (received b r w1 e)
  note f = recv_message_frame [OF received(1)]
  have "p \<noteq> Done (Inl (Channel_mcp e1))" for e1
    using received recv_message_error by fastforce
  then show ?thesis using assms(1) slots_frame [OF f(1,2), of L] f(3,4) received(2) by auto
next
  case (dispatched b m r c0 w1)
  note f = recv_message_frame [OF dispatched(1)]
  have ok: "slots_ok c0 L" using assms(1) slots_frame [OF f(1,2), of L] by simp
  show ?thesis
    using dispatch_ok [OF ok dispatched(2)] dispatch_frame [OF dispatched(2)] f(3,4)
      slots_frame(2) [OF f(1,2), of L] dispatched(3)
    by (auto split: option.splits)
qed

subsection \<open>The system\<close>

lemma live_set_iff: "p \<in> live_set ts \<longleftrightarrow> (\<exists>u < length ts. p \<in> set (live (ts ! u)))"
  by (auto simp: live_set_def)

lemma live_set_mem: "t < length ts \<Longrightarrow> p \<in> set (live (ts ! t)) \<Longrightarrow> p \<in> live_set ts"
  by (auto simp: live_set_iff)

lemma live_set_update:
  "t < length ts \<Longrightarrow> p \<in> live_set (ts[t := x]) \<longleftrightarrow>
   p \<in> set (live x) \<or> (\<exists>u < length ts. u \<noteq> t \<and> p \<in> set (live (ts ! u)))"
  by (auto simp: live_set_iff nth_list_update split: if_splits)

lemma live_set_same: "t < length ts \<Longrightarrow> live x = live (ts ! t) \<Longrightarrow> live_set (ts[t := x]) = live_set ts"
  by (rule set_eqI) (metis live_set_iff live_set_update)

lemma live_set_enter:
  "t < length ts \<Longrightarrow> live (ts ! t) = [] \<Longrightarrow> live_set (ts[t := x]) = set (live x) \<union> live_set ts"
  by (rule set_eqI) (metis Un_iff empty_iff empty_set live_set_iff live_set_update)

lemma live_set_leave:
  assumes "t < length ts" "live (ts ! t) = [(i, n)]" "live x = []"
  shows "live_set (ts[t := x]) \<subseteq> live_set ts"
    and "(j, m) \<in> live_set ts \<Longrightarrow> j \<noteq> i \<Longrightarrow> (j, m) \<in> live_set (ts[t := x])"
proof -
  show "live_set (ts[t := x]) \<subseteq> live_set ts"
    using assms(1,3) live_set_mem by (auto simp: live_set_update)
  assume "(j, m) \<in> live_set ts" "j \<noteq> i"
  then obtain u where "u < length ts" "(j, m) \<in> set (live (ts ! u))" "j \<noteq> i"
    unfolding live_set_iff by blast
  moreover from this have "u \<noteq> t" using assms(2) by auto
  ultimately show "(j, m) \<in> live_set (ts[t := x])" using assms(1) by (auto simp: live_set_update)
qed

lemma live_set_append: "live_set (ts @ [x]) = live_set ts \<union> set (live x)"
  by (auto simp: live_set_def nth_append less_Suc_eq split: if_splits)

fun task_id :: "task \<Rightarrow> u64" where
  "task_id (Allocated i _) = i"
| "task_id (Sending i _ _ _) = i"
| "task_id (Waiting i _ _) = i"
| "task_id (Finished i _) = i"
| "task_id (Dropped i _) = i"

lemma live_id: "(i, n) \<in> set (live x) \<Longrightarrow> i = task_id x"
  by (cases x rule: live.cases) auto

text \<open>What an outcome may be: a response to the identifier, and no closed channel.\<close>

fun answered :: "task \<Rightarrow> bool" where
  "answered (Finished i (Inr r)) = (response_id r = JNumber (PosInt i))"
| "answered _ = True"

fun not_cut_off :: "task \<Rightarrow> bool" where
  "not_cut_off (Finished i (Inl (Channel_mcp e))) = False"
| "not_cut_off _ = True"

definition sys_inv :: "'w mcp_system \<Rightarrow> bool" where
  "sys_inv s \<longleftrightarrow> slots_ok (sy_client s) (live_set (sy_tasks s)) \<and>
     (\<forall>x \<in> set (sy_tasks s). answered x) \<and>
     length (mc_notifications (sy_client s)) \<le> NOTIFICATION_QUEUE_CAPACITY \<and>
     mc_next_request_id (sy_client s) = of_nat (length (sy_tasks s)) + 1 \<and>
     (\<forall>t < length (sy_tasks s). task_id (sy_tasks s ! t) = of_nat t + 1)"

lemma sys_inv_update:
  assumes "sys_inv \<lparr>sy_client = c, sy_tasks = ts\<rparr>" "t < length ts"
    and "task_id x = task_id (ts ! t)" "answered x" "slots_ok c1 (live_set (ts[t := x]))"
    and "length (mc_notifications c1) \<le> NOTIFICATION_QUEUE_CAPACITY"
    and "mc_next_request_id c1 = mc_next_request_id c"
  shows "sys_inv \<lparr>sy_client = c1, sy_tasks = ts[t := x]\<rparr>"
proof -
  have "\<forall>y \<in> set (ts[t := x]). answered y"
    using assms(1,4) set_update_subset_insert by (force simp: sys_inv_def)
  moreover have "\<forall>u < length ts. task_id (ts[t := x] ! u) = of_nat u + 1"
    using assms(1-3) by (simp add: sys_inv_def nth_list_update)
  ultimately show ?thesis using assms by (simp add: sys_inv_def)
qed

lemma sys_inv_client:
  assumes "sys_inv \<lparr>sy_client = c, sy_tasks = ts\<rparr>"
    and "mc_pending c1 = mc_pending c" "mc_slots c1 = mc_slots c"
    and "length (mc_notifications c1) \<le> length (mc_notifications c)"
    and "mc_next_request_id c1 = mc_next_request_id c"
  shows "sys_inv \<lparr>sy_client = c1, sy_tasks = ts\<rparr>"
  using assms slots_frame(1) [OF assms(2,3)] by (simp add: sys_inv_def)

lemma sys_invD:
  assumes "sys_inv \<lparr>sy_client = c, sy_tasks = ts\<rparr>"
  shows "slots_ok c (live_set ts)" "length (mc_notifications c) \<le> NOTIFICATION_QUEUE_CAPACITY"
  using assms by (simp_all add: sys_inv_def)

text \<open>A caller that leaves with an outcome.\<close>

lemma sys_inv_finish:
  assumes "sys_inv \<lparr>sy_client = c, sy_tasks = ts\<rparr>" "t < length ts" "live (ts ! t) = [(i, n)]"
    and "slots_ok c1 (live_set ts)" "answered (Finished i r)"
    and "length (mc_notifications c1) \<le> NOTIFICATION_QUEUE_CAPACITY"
    and "mc_next_request_id c1 = mc_next_request_id c"
  shows "sys_inv \<lparr>sy_client = end_request i c1, sy_tasks = ts[t := Finished i r]\<rparr>"
proof (rule sys_inv_update [OF assms(1,2)])
  show "task_id (Finished i r) = task_id (ts ! t)" using assms(3) live_id [of i n "ts ! t"] by simp
  show "slots_ok (end_request i c1) (live_set (ts[t := Finished i r]))"
    using live_set_leave [OF assms(2,3)] by (intro end_request_ok [OF assms(4)]) auto
qed (use assms in simp_all)

lemma mcp_step_inv:
  assumes "mcp_step lib s s1" "sys_inv s"
  shows "sys_inv s1"
  using assms
proof (cases rule: mcp_step.cases)
  case (start c i c1 ts m ps)
  then show ?thesis using assms(2)
    by (auto simp: sys_inv_def alloc_request_id_def live_set_append nth_append slots_ok_def less_Suc_eq)
next
  case (enter t ts i msg c n c1)
  note inv = assms(2) [unfolded enter(1)]
  show ?thesis unfolding enter(2)
    using live_set_enter [OF enter(3)] enter(4) register_pending_ok [OF sys_invD(1) [OF inv] enter(5)]
      register_pending_frame [OF enter(5)] sys_invD(2) [OF inv]
    by (intro sys_inv_update [OF inv enter(3)]) simp_all
next
  case (send_waits t ts i n b msg c b1 c1)
  note inv = assms(2) [unfolded send_waits(1)] and f = send_message_frame [OF send_waits(5)]
  show ?thesis unfolding send_waits(2)
    using live_set_same [OF send_waits(3)] send_waits(4) sys_invD [OF inv] f(3,4) slots_frame(1) [OF f(1,2)]
    by (intro sys_inv_update [OF inv send_waits(3)]) simp_all
next
  case (send_fails t ts i n b msg c e c1)
  note inv = assms(2) [unfolded send_fails(1)] and f = send_message_frame [OF send_fails(5)]
  show ?thesis unfolding send_fails(2)
    using send_fails(4) sys_invD [OF inv] f(3,4) slots_frame(1) [OF f(1,2)]
    by (intro sys_inv_finish [OF inv send_fails(3), where n = n]) simp_all
next
  case (sent t ts i n b msg c u c1)
  note inv = assms(2) [unfolded sent(1)] and f = send_message_frame [OF sent(5)]
  show ?thesis unfolding sent(2)
    using live_set_same [OF sent(3)] sent(4) sys_invD [OF inv] f(3,4) slots_frame(1) [OF f(1,2)]
    by (intro sys_inv_update [OF inv sent(3)]) simp_all
next
  case (wait_goes_on t ts i n w choice c w1 c1)
  note inv = assms(2) [unfolded wait_goes_on(1)]
  have l: "(i, n) \<in> live_set ts" using live_set_mem [OF wait_goes_on(3)] wait_goes_on(4) by simp
  show ?thesis unfolding wait_goes_on(2)
    using live_set_same [OF wait_goes_on(3)] wait_goes_on(4) sys_invD(2) [OF inv]
      await_step_ok [OF sys_invD(1) [OF inv] l wait_goes_on(5)]
    by (intro sys_inv_update [OF inv wait_goes_on(3)]) simp_all
next
  case (wait_ends t ts i n w choice c r c1)
  note inv = assms(2) [unfolded wait_ends(1)]
  have l: "(i, n) \<in> live_set ts" using live_set_mem [OF wait_ends(3)] wait_ends(4) by simp
  note st = await_step_ok [OF sys_invD(1) [OF inv] l wait_ends(5)]
  have "answered (Finished i r)" using st by (cases r) auto
  then show ?thesis unfolding wait_ends(2)
    using st wait_ends(4) sys_invD(2) [OF inv]
    by (intro sys_inv_finish [OF inv wait_ends(3), where n = n]) simp_all
next
  case (drop_allocated t ts i msg c)
  note inv = assms(2) [unfolded drop_allocated(1)]
  show ?thesis unfolding drop_allocated(2)
    using live_set_same [OF drop_allocated(3)] drop_allocated(4) sys_invD [OF inv]
    by (intro sys_inv_update [OF inv drop_allocated(3)]) simp_all
next
  case (drop_sending t ts i n b msg c)
  note inv = assms(2) [unfolded drop_sending(1)]
  show ?thesis unfolding drop_sending(2)
    using live_set_same [OF drop_sending(3)] drop_sending(4) sys_invD [OF inv] slots_frame(1) [of "drop_send b c" c]
    by (intro sys_inv_update [OF inv drop_sending(3)]) simp_all
next
  case (drop_waiting t ts i n w c)
  note inv = assms(2) [unfolded drop_waiting(1)]
  show ?thesis unfolding drop_waiting(2)
    using live_set_same [OF drop_waiting(3)] drop_waiting(4) sys_invD [OF inv] slots_frame(1) [of "drop_wait w c" c]
    by (intro sys_inv_update [OF inv drop_waiting(3)]) simp_all
next
  case (notified c x c1 ts)
  then show ?thesis using assms(2)
    by (auto simp: next_notification_def split: list.splits elim!: sys_inv_client)
next
  case (initialized c ts caps)
  then show ?thesis using assms(2) by (auto elim!: sys_inv_client)
next
  case (closed c ts)
  then show ?thesis using assms(2) by (auto simp: shutdown_def elim!: sys_inv_client)
next
  case (peer c ts tr)
  then show ?thesis using assms(2) by (auto elim!: sys_inv_client)
qed

lemma mcp_reach_inv: "mcp_reach lib s \<Longrightarrow> sys_inv s"
proof (induction rule: mcp_reach.induct)
  case (init config tr)
  show ?case by (auto simp: sys_inv_def slots_ok_def with_transport_def live_set_def)
qed (rule mcp_step_inv)

subsection \<open>Channels stay open\<close>

text \<open>As long as the counter has not wrapped, no two callers have the same identifier.\<close>

lemma task_ids_unique:
  assumes "sys_inv \<lparr>sy_client = c, sy_tasks = ts\<rparr>" "length ts \<le> 2 ^ 64"
    and "t < length ts" "u < length ts" "task_id (ts ! t) = task_id (ts ! u)"
  shows "t = u"
proof -
  have "unat (of_nat v :: u64) = v" if "v < length ts" for v
    using that assms(2) by (simp add: unsigned_of_nat take_bit_nat_eq_self)
  moreover have "(of_nat t :: u64) = of_nat u" using assms by (simp add: sys_inv_def)
  ultimately show ?thesis using assms(3,4) by metis
qed

lemma live_set_leave_id:
  assumes "sys_inv \<lparr>sy_client = c, sy_tasks = ts\<rparr>" "length ts \<le> 2 ^ 64"
    and "t < length ts" "live x = []"
  shows "(task_id (ts ! t), m) \<notin> live_set (ts[t := x])"
  using assms task_ids_unique [OF assms(1,2,3)] live_id by (fastforce simp: live_set_update)

definition sys_open :: "'w mcp_system \<Rightarrow> bool" where
  "sys_open s \<longleftrightarrow> (length (sy_tasks s) \<le> 2 ^ 64 \<longrightarrow>
     none_closed (sy_client s) (live_set (sy_tasks s)) \<and> (\<forall>x \<in> set (sy_tasks s). not_cut_off x))"

lemma sys_open_update:
  assumes "sys_open \<lparr>sy_client = c, sy_tasks = ts\<rparr>"
    and "length ts \<le> 2 ^ 64 \<Longrightarrow> none_closed c1 (live_set (ts[t := x])) \<and> not_cut_off x"
  shows "sys_open \<lparr>sy_client = c1, sy_tasks = ts[t := x]\<rparr>"
  using assms set_update_subset_insert by (fastforce simp: sys_open_def)

lemma sys_open_finish:
  assumes "sys_inv \<lparr>sy_client = c, sy_tasks = ts\<rparr>" "sys_open \<lparr>sy_client = c, sy_tasks = ts\<rparr>"
    and "t < length ts" "live (ts ! t) = [(i, n)]" "slots_ok c1 (live_set ts)"
    and "none_closed c (live_set ts) \<Longrightarrow> none_closed c1 (live_set ts) \<and> not_cut_off (Finished i r)"
  shows "sys_open \<lparr>sy_client = end_request i c1, sy_tasks = ts[t := Finished i r]\<rparr>"
proof (rule sys_open_update [OF assms(2)])
  assume len: "length ts \<le> 2 ^ 64"
  have c1: "none_closed c1 (live_set ts)" "not_cut_off (Finished i r)"
    using assms(2,6) len by (simp_all add: sys_open_def)
  have i: "i = task_id (ts ! t)" using assms(4) live_id [of i n "ts ! t"] by simp
  have "none_closed (end_request i c1) (live_set (ts[t := Finished i r]))"
    using live_set_leave(1) [OF assms(3,4)] live_set_leave_id [OF assms(1) len assms(3)] i
    by (intro end_request_none_closed [OF assms(5) c1(1)]) simp_all
  then show "none_closed (end_request i c1) (live_set (ts[t := Finished i r])) \<and> not_cut_off (Finished i r)"
    using c1(2) by simp
qed

lemma mcp_step_open:
  assumes "mcp_step lib s s1" "sys_inv s" "sys_open s"
  shows "sys_open s1"
  using assms(1)
proof (cases rule: mcp_step.cases)
  case (start c i c1 ts m ps)
  then show ?thesis using assms(3)
    by (auto simp: sys_open_def alloc_request_id_def live_set_append none_closed_def)
next
  case (enter t ts i msg c n c1)
  note inv = assms(2) [unfolded enter(1)] and op = assms(3) [unfolded enter(1)]
  have "(i, m) \<notin> live_set ts" if "length ts \<le> 2 ^ 64" for m
    using live_set_leave_id [OF inv that enter(3), of "ts ! t" m] enter(4) list_update_id [of ts t] by simp
  then show ?thesis unfolding enter(2)
    using live_set_enter [OF enter(3)] enter(4) op
      register_pending_none_closed [OF sys_invD(1) [OF inv] enter(5)]
    by (intro sys_open_update [OF op]) (simp add: sys_open_def)
next
  case (send_waits t ts i n b msg c b1 c1)
  note op = assms(3) [unfolded send_waits(1)] and f = send_message_frame [OF send_waits(5)]
  show ?thesis unfolding send_waits(2)
    using live_set_same [OF send_waits(3)] send_waits(4) op slots_frame(2) [OF f(1,2)]
    by (intro sys_open_update [OF op]) (simp add: sys_open_def)
next
  case (send_fails t ts i n b msg c e c1)
  note inv = assms(2) [unfolded send_fails(1)] and op = assms(3) [unfolded send_fails(1)]
    and f = send_message_frame [OF send_fails(5)]
  have "not_cut_off (Finished i (Inl e))" using send_message_error [OF send_fails(5)] by auto
  then show ?thesis unfolding send_fails(2)
    using send_fails(4) sys_invD(1) [OF inv] slots_frame [OF f(1,2)]
    by (intro sys_open_finish [OF inv op send_fails(3), where n = n]) simp_all
next
  case (sent t ts i n b msg c u c1)
  note op = assms(3) [unfolded sent(1)] and f = send_message_frame [OF sent(5)]
  show ?thesis unfolding sent(2)
    using live_set_same [OF sent(3)] sent(4) op slots_frame(2) [OF f(1,2)]
    by (intro sys_open_update [OF op]) (simp add: sys_open_def)
next
  case (wait_goes_on t ts i n w choice c w1 c1)
  note inv = assms(2) [unfolded wait_goes_on(1)] and op = assms(3) [unfolded wait_goes_on(1)]
  have l: "(i, n) \<in> live_set ts" using live_set_mem [OF wait_goes_on(3)] wait_goes_on(4) by simp
  show ?thesis unfolding wait_goes_on(2)
    using live_set_same [OF wait_goes_on(3)] wait_goes_on(4) op
      await_step_ok [OF sys_invD(1) [OF inv] l wait_goes_on(5)]
    by (intro sys_open_update [OF op]) (simp add: sys_open_def)
next
  case (wait_ends t ts i n w choice c r c1)
  note inv = assms(2) [unfolded wait_ends(1)] and op = assms(3) [unfolded wait_ends(1)]
  have l: "(i, n) \<in> live_set ts" using live_set_mem [OF wait_ends(3)] wait_ends(4) by simp
  note st = await_step_ok [OF sys_invD(1) [OF inv] l wait_ends(5)]
  have "not_cut_off (Finished i r)" if "none_closed c (live_set ts)"
    using st that by (cases "Finished i r" rule: not_cut_off.cases) auto
  then show ?thesis unfolding wait_ends(2)
    using st wait_ends(4) by (intro sys_open_finish [OF inv op wait_ends(3), where n = n]) simp_all
next
  case (drop_allocated t ts i msg c)
  note op = assms(3) [unfolded drop_allocated(1)]
  show ?thesis unfolding drop_allocated(2)
    using live_set_same [OF drop_allocated(3)] drop_allocated(4) op
    by (intro sys_open_update [OF op]) (simp add: sys_open_def)
next
  case (drop_sending t ts i n b msg c)
  note op = assms(3) [unfolded drop_sending(1)]
  show ?thesis unfolding drop_sending(2)
    using live_set_same [OF drop_sending(3)] drop_sending(4) op slots_frame(2) [of "drop_send b c" c]
    by (intro sys_open_update [OF op]) (simp add: sys_open_def)
next
  case (drop_waiting t ts i n w c)
  note op = assms(3) [unfolded drop_waiting(1)]
  show ?thesis unfolding drop_waiting(2)
    using live_set_same [OF drop_waiting(3)] drop_waiting(4) op slots_frame(2) [of "drop_wait w c" c]
    by (intro sys_open_update [OF op]) (simp add: sys_open_def)
next
  case (notified c x c1 ts)
  then show ?thesis using assms(3)
    by (auto simp: sys_open_def next_notification_def none_closed_def split: list.splits)
qed (use assms(3) in \<open>auto simp: sys_open_def none_closed_def shutdown_def\<close>)

lemma mcp_reach_open: "mcp_reach lib s \<Longrightarrow> sys_open s"
proof (induction rule: mcp_reach.induct)
  case (init config tr)
  show ?case by (simp add: sys_open_def none_closed_def live_set_def)
qed (use mcp_reach_inv mcp_step_open in blast)

section \<open>Properties\<close>

text \<open>
  Property C17 (safety): responses are never mixed up. In every state that concurrent callers, the
  server and the transport can drive the client into, a caller that was given a response was given
  one that carries the identifier of its own request, whether it read it itself or another
  caller did.
\<close>

theorem response_correlated:
  assumes "mcp_reach lib s" "Finished i (Inr r) \<in> set (sy_tasks s)"
  shows "response_id r = JNumber (PosInt i)"
proof -
  have "answered (Finished i (Inr r))" using mcp_reach_inv [OF assms(1)] assms(2) unfolding sys_inv_def by blast
  then show ?thesis by simp
qed

text \<open>A run of the system: one request on a channel transport, answered by the peer.\<close>

definition demo_mcp_lib :: "unit mcp_lib" where
  "demo_mcp_lib = \<lparr>sd_spawn = (\<lambda>_ _ w. (Inr (True, True), w)), 
     sd_poll_write = (\<lambda>bytes w. (Some (Inr (length bytes)), w)), sd_poll_flush = (\<lambda>w. (Some (Inr ()), w)), sd_read_line = (\<lambda>w. (None, w)),
     js_msg_to_string = (\<lambda>_. Inr []), js_msg_from_str = (\<lambda>_. Inl [])\<rparr>"

definition demo_mcp_client :: "unit mcp_client" where
  "demo_mcp_client = with_transport (default_mcp_client_config ''1'') (Channel channel)"

definition demo_response :: json_rpc_response where
  "demo_response = RSuccess ''2.0'' (JNumber (PosInt 1)) JNull"

lemma demo_waiting:
  "mcp_reach demo_mcp_lib \<lparr>sy_client = demo_mcp_client\<lparr>mc_next_request_id := 2, mc_pending := [1 \<mapsto> 0],
     mc_slots := [Empty], mc_transport := Channel (channel\<lparr>ch_to_peer := [Request (new_request 1 ''ping'' None)]\<rparr>)\<rparr>,
     sy_tasks = [Waiting 1 0 idle_wait]\<rparr>"
proof -
  let ?msg = "Request (new_request 1 ''ping'' None)"
  have "mcp_reach demo_mcp_lib \<lparr>sy_client = demo_mcp_client, sy_tasks = []\<rparr>"
    unfolding demo_mcp_client_def by (rule mcp_reach.init)
  from mcp_reach.step [OF this mcp_step.start [where i = 1 and m = "''ping''" and ps = None]]
  have "mcp_reach demo_mcp_lib \<lparr>sy_client = demo_mcp_client\<lparr>mc_next_request_id := 2\<rparr>, sy_tasks = [Allocated 1 ?msg]\<rparr>"
    by (simp add: alloc_request_id_def demo_mcp_client_def with_transport_def)
  from mcp_reach.step [OF this mcp_step.enter [of 0 _ 1 ?msg _ 0]]
  have "mcp_reach demo_mcp_lib \<lparr>sy_client = demo_mcp_client\<lparr>mc_next_request_id := 2, mc_pending := [1 \<mapsto> 0],
     mc_slots := [Empty]\<rparr>, sy_tasks = [Sending 1 0 Unsent ?msg]\<rparr>"
    by (simp add: register_pending_def drop_sender_def Let_def demo_mcp_client_def with_transport_def)
  from mcp_reach.step [OF this mcp_step.sent [of 0 _ 1 0 Unsent ?msg _ _ "()"]]
  show ?thesis
    by (simp add: send_message_def channel_send_def demo_mcp_client_def with_transport_def channel_def
        CHANNEL_CAPACITY_def map_err_def)
qed

lemma demo_answered:
  "mcp_reach demo_mcp_lib \<lparr>sy_client = demo_mcp_client\<lparr>mc_next_request_id := 2,
     mc_slots := [Closed]\<rparr>, sy_tasks = [Finished 1 (Inr demo_response)]\<rparr>"
proof -
  from mcp_reach.step [OF demo_waiting mcp_step.peer [where tr = "Channel (channel\<lparr>ch_to_client := [Response demo_response]\<rparr>)"]]
  have "mcp_reach demo_mcp_lib \<lparr>sy_client = demo_mcp_client\<lparr>mc_next_request_id := 2, mc_pending := [1 \<mapsto> 0],
     mc_slots := [Empty], mc_transport := Channel (channel\<lparr>ch_to_client := [Response demo_response]\<rparr>)\<rparr>,
     sy_tasks = [Waiting 1 0 idle_wait]\<rparr>" by simp
  from mcp_reach.step [OF this mcp_step.wait_ends [of 0 _ 1 0 idle_wait demo_mcp_lib PollTransport]]
  show ?thesis
    by (simp add: await_step_def idle_wait_def recv_message_def channel_recv_def channel_def dispatch_def
        demo_response_def map_err_def end_request_def take_pending_def drop_sender_def
        demo_mcp_client_def with_transport_def)
qed

theorem response_correlated_witness: "response_id demo_response = JNumber (PosInt 1)"
  by (rule response_correlated [OF demo_answered]) simp

text \<open>
  Property C19 (safety): the channel on which a caller awaits its response is never closed under it,
  as the comment in \<open>await_response\<close> claims: until the 64-bit request counter has wrapped, no
  request fails with \<open>response channel closed\<close>.
\<close>

theorem response_channel_stays_open:
  assumes "mcp_reach lib s" "length (sy_tasks s) \<le> 2 ^ 64"
  shows "Finished i (Inl (Channel_mcp e)) \<notin> set (sy_tasks s)"
  using mcp_reach_open [OF assms(1)] assms(2) by (auto simp: sys_open_def)

theorem response_channel_stays_open_witness:
  "Finished 1 (Inl (Channel_mcp ''response channel closed'')) \<notin> {Finished 1 (Inr demo_response)}"
  using response_channel_stays_open [OF demo_answered, of 1 "''response channel closed''"] by simp

text \<open>
  Property C18 (invariant): nothing leaks but what is dropped. Every identifier in the map of pending
  requests belongs to a request that is being sent or awaited, or to one whose caller dropped it
  while it was sent or awaited, so the map is empty when all requests have had their outcome and none
  was dropped; and at most 64 notifications are ever queued. The entry of a dropped request can stay for ever:
  \<open>request\<close> has no guard that would remove it, as \<open>dropped_request_leaks\<close> shows.
\<close>

theorem pending_requests_are_live:
  assumes "mcp_reach lib s"
  shows "(case mc_pending (sy_client s) i of
      None \<Rightarrow> True | Some n \<Rightarrow> \<exists>x \<in> set (sy_tasks s). (i, n) \<in> set (live x))
    \<and> length (mc_notifications (sy_client s)) \<le> 64"
proof -
  have inv: "sys_inv s" by (rule mcp_reach_inv [OF assms])
  then have "length (mc_notifications (sy_client s)) \<le> 64"
    by (simp add: sys_inv_def NOTIFICATION_QUEUE_CAPACITY_def)
  moreover have "\<exists>x \<in> set (sy_tasks s). (i, n) \<in> set (live x)" if "mc_pending (sy_client s) i = Some n" for n
  proof -
    have "(i, n) \<in> live_set (sy_tasks s)" using inv that slots_okD(1) by (auto simp: sys_inv_def)
    then show ?thesis unfolding live_set_iff using nth_mem by blast
  qed
  ultimately show ?thesis by (simp split: option.split)
qed

theorem pending_requests_are_live_witness:
  "\<exists>x \<in> {Waiting 1 0 idle_wait}. (1, 0) \<in> set (live x)"
  using pending_requests_are_live [OF demo_waiting, of 1] by simp

text \<open>
  Dropped requests leak. The future of a waiting request may be dropped by its caller, and then its
  entry is in the map with no caller left: the invariant above counts such entries.
\<close>

theorem dropped_request_leaks:
  "\<exists>s :: unit mcp_system. mcp_reach demo_mcp_lib s \<and> sy_tasks s = [Dropped 1 (Some 0)]
     \<and> mc_pending (sy_client s) 1 = Some 0"
proof -
  let ?s = "\<lparr>sy_client = demo_mcp_client\<lparr>mc_next_request_id := 2, mc_pending := [1 \<mapsto> 0],
     mc_slots := [Empty], mc_transport := Channel (channel\<lparr>ch_to_peer := [Request (new_request 1 ''ping'' None)]\<rparr>)\<rparr>,
     sy_tasks = [Dropped 1 (Some 0)]\<rparr>"
  from mcp_reach.step [OF demo_waiting mcp_step.drop_waiting [of 0 _ 1 0 idle_wait]]
  have "mcp_reach demo_mcp_lib ?s" by (simp add: drop_wait_def idle_wait_def)
  moreover have "sy_tasks ?s = [Dropped 1 (Some 0)]" by simp
  moreover have "mc_pending (sy_client ?s) 1 = Some 0" by simp
  ultimately show ?thesis by blast
qed

text \<open>
  A deadline can tear a rejection. When it passes while a rejection is half written, the rest of the
  line is never written and the lock is released, so the next message continues the torn line.
\<close>

theorem timeout_tears_rejection:
  assumes "mc_transport c = Stdio t" "wt_reject w = Some (msg, InLine rest)"
    and "js_msg_to_string lib msg2 = Inr line" "st_connected t"
  shows "await_step lib Elapsed x n w c = (Done (Inl Timeout_mcp), c\<lparr>mc_transport := Stdio (t\<lparr>st_locked := False\<rparr>)\<rparr>)"
    and "stdio_send lib Unsent msg2 (t\<lparr>st_locked := False\<rparr>) = holding_writer (stdio_line lib line (st_world t)) t"
proof -
  show "await_step lib Elapsed x n w c = (Done (Inl Timeout_mcp), c\<lparr>mc_transport := Stdio (t\<lparr>st_locked := False\<rparr>)\<rparr>)"
    using assms by (simp add: await_step_def drop_wait_def drop_send_def)
  have "holding_writer p (t\<lparr>st_locked := False\<rparr>) = holding_writer p t" for p
    by (cases p; cases "fst p") auto
  then show "stdio_send lib Unsent msg2 (t\<lparr>st_locked := False\<rparr>) = holding_writer (stdio_line lib line (st_world t)) t"
    using assms by (simp add: stdio_send_def)
qed

text \<open>
  A transport that takes nothing: the queue to the peer is full, another caller keeps the writer's
  lock, or the pipe is full.
\<close>

fun stalled :: "'w mcp_lib \<Rightarrow> json_rpc_message \<Rightarrow> 'w mcp_transport \<Rightarrow> bool" where
  "stalled lib msg (Channel t) \<longleftrightarrow> ch_connected t \<and> ch_peer_alive t \<and> CHANNEL_CAPACITY \<le> length (ch_to_peer t)"
| "stalled lib msg (Stdio t) \<longleftrightarrow> st_connected t \<and>
     (case js_msg_to_string lib msg of
        Inl e \<Rightarrow> False
      | Inr line \<Rightarrow> st_locked t \<or> line \<noteq> [] \<and> sd_poll_write lib line (st_world t) = (None, st_world t))"

text \<open>Where a send stands that has met nothing but a stalled transport.\<close>

definition stuck :: "'w mcp_lib \<Rightarrow> json_rpc_message \<Rightarrow> sending \<Rightarrow> 'w mcp_transport \<Rightarrow> bool" where
  "stuck lib msg s t \<longleftrightarrow>
     s \<in> {Unsent, Queued} \<and> stalled lib msg t \<or>
     (\<exists>t1 line. t = Stdio t1 \<and> s = InLine line \<and> line \<noteq> [] \<and>
        sd_poll_write lib line (st_world t1) = (None, st_world t1))"

lemma write_all_full:
  "line \<noteq> [] \<Longrightarrow> sd_poll_write lib line w = (None, w) \<Longrightarrow> write_all lib line w = (None, line, w)"
  by (cases line) auto

lemma stuck_send:
  assumes "stuck lib msg s (mc_transport c)"
  shows "\<exists>s1 c1. send_message lib s msg c = (Pending s1, c1) \<and> stuck lib msg s1 (mc_transport c1)"
proof (cases "mc_transport c")
  case (Channel t)
  then show ?thesis using assms
    by (auto simp: stuck_def send_message_def channel_send_def CHANNEL_CAPACITY_def)
next
  case (Stdio t)
  then show ?thesis using assms
    by (auto simp: stuck_def send_message_def stdio_send_def stdio_line_def write_all_full
        split: sum.splits)
qed

lemma await_send_stuck:
  "stuck lib msg s (mc_transport c) \<Longrightarrow> \<forall>(others, choice) \<in> set sch. others = (\<lambda>c. c) \<Longrightarrow>
   fst (await_send lib sch s msg c) = None"
proof (induction lib sch s msg c rule: await_send.induct)
  case (2 lib others choice sch s msg c)
  then obtain s1 c1 where "send_message lib s msg (others c) = (Pending s1, c1)" "stuck lib msg s1 (mc_transport c1)"
    using stuck_send [of lib msg s "others c"] by auto
  with 2 show ?case by simp
qed simp

text \<open>The client as the request's first poll finds it: with its identifier taken and registered.\<close>

definition registered :: "'w mcp_client \<Rightarrow> 'w mcp_client" where
  "registered c = snd (register_pending (mc_next_request_id c) (snd (alloc_request_id c)))"

lemma registered_transport: "mc_transport (registered c) = mc_transport c"
  by (simp add: registered_def alloc_request_id_def register_pending_def drop_sender_def Let_def
      split: option.split)

text \<open>
  The timeout of a request does not cover its send. While the transport takes nothing, a request
  never returns, however often its turn comes and whether or not its deadline has passed.
\<close>

theorem request_send_has_no_deadline:
  assumes "stalled lib (Request (new_request (mc_next_request_id c) m ps)) (mc_transport c)"
    and "\<forall>(others, choice) \<in> set sch. others = (\<lambda>c. c)"
  shows "fst (request lib sch m ps c) = None"
proof -
  have "stuck lib (Request (new_request (mc_next_request_id c) m ps)) Unsent (mc_transport (registered c))"
    using assms(1) by (simp add: stuck_def registered_transport)
  from await_send_stuck [OF this assms(2)] show ?thesis
    by (auto simp: request_def registered_def alloc_request_id_def split_def Let_def split: option.split)
qed

theorem request_send_has_no_deadline_witness:
  "fst (request demo_mcp_lib [((\<lambda>c. c), PollTransport), ((\<lambda>c. c), Elapsed)] ''ping'' None
     (demo_mcp_client\<lparr>mc_transport := Channel (channel\<lparr>ch_to_peer := replicate 100 (Response demo_response)\<rparr>)\<rparr>)) = None"
  by (rule request_send_has_no_deadline) (auto simp: channel_def CHANNEL_CAPACITY_def)

lemma request_send_fails:
  assumes "\<And>c2. mc_transport c2 = mc_transport c \<Longrightarrow>
      send_message lib Unsent (Request (new_request (mc_next_request_id c) m ps)) c2 = (Ready (Inl e), c2)"
  shows "fst (request lib (((\<lambda>c. c), choice) # sch) m ps c) = Some (Inl e)
    \<and> mc_pending (snd (snd (request lib (((\<lambda>c. c), choice) # sch) m ps c))) (mc_next_request_id c) = None"
proof -
  obtain n c2 where r: "register_pending (mc_next_request_id c)
      (c\<lparr>mc_next_request_id := mc_next_request_id c + 1\<rparr>) = (n, c2)" by fastforce
  have "mc_transport c2 = mc_transport c"
    using r by (auto simp: register_pending_def drop_sender_def Let_def split: option.splits)
  then show ?thesis
    using r assms
    by (simp add: request_def alloc_request_id_def end_request_def take_pending_def drop_sender_def
        split: option.split)
qed

text \<open>
  Requests on a closed client. After \<open>shutdown\<close> every request fails with
  \<open>Transport(NotConnected)\<close>; on a client made by \<open>with_channel_transport\<close>, whose peer is gone, it
  fails with \<open>Transport(Channel(..))\<close>, not with \<open>Channel\<close> as the documentation of that
  constructor says. Neither leaves its entry in the map of pending requests.
\<close>

theorem request_on_closed_client:
  "fst (request lib (((\<lambda>c. c), choice) # sch) m ps (shutdown c)) = Some (Inl (Transport NotConnected))
   \<and> mc_pending (snd (snd (request lib (((\<lambda>c. c), choice) # sch) m ps (shutdown c)))) (mc_next_request_id c) = None
   \<and> (\<exists>c1. with_channel_transport config = Inr c1
        \<and> fst (request lib (((\<lambda>c. c), choice) # sch) m ps c1)
            = Some (Inl (Transport (Channel_terr ''Receiver dropped'')))
        \<and> mc_pending (snd (snd (request lib (((\<lambda>c. c), choice) # sch) m ps c1))) 1 = None)"
proof -
  have "send_message lib Unsent msg c2 = (Ready (Inl (Transport NotConnected)), c2)"
    if "mc_transport c2 = mc_transport (shutdown c)" for c2 :: "'a mcp_client" and msg
    using that by (cases "mc_transport c")
      (simp_all add: shutdown_def send_message_def stdio_send_def channel_send_def map_err_def)
  then have closed: "fst (request lib (((\<lambda>c. c), choice) # sch) m ps (shutdown c)) = Some (Inl (Transport NotConnected))
    \<and> mc_pending (snd (snd (request lib (((\<lambda>c. c), choice) # sch) m ps (shutdown c))))
        (mc_next_request_id (shutdown c)) = None"
    by (intro request_send_fails) blast
  define c1 :: "'a mcp_client" where
    "c1 = (with_transport config (Channel channel))\<lparr>mc_transport := Channel (channel\<lparr>ch_peer_alive := False\<rparr>)\<rparr>"
  have "send_message lib Unsent msg c2 = (Ready (Inl (Transport (Channel_terr ''Receiver dropped''))), c2)"
    if "mc_transport c2 = mc_transport c1" for c2 :: "'a mcp_client" and msg
    using that by (simp add: c1_def send_message_def channel_send_def map_err_def channel_def)
  then have dropped: "fst (request lib (((\<lambda>c. c), choice) # sch) m ps c1)
      = Some (Inl (Transport (Channel_terr ''Receiver dropped'')))
    \<and> mc_pending (snd (snd (request lib (((\<lambda>c. c), choice) # sch) m ps c1))) (mc_next_request_id c1) = None"
    by (intro request_send_fails) blast
  have "with_channel_transport config = Inr c1" "mc_next_request_id c1 = 1"
    by (simp_all add: c1_def with_channel_transport_def with_channel_peer_def with_transport_def)
  then show ?thesis using closed dropped by (auto simp: shutdown_def)
qed

lemma await_response_returns:
  "Elapsed \<in> snd ` set sch \<Longrightarrow> \<exists>r. fst (await_response lib sch x n w c) = Some r"
proof (induction lib sch x n w c rule: await_response.induct)
  case (2 lib others choice sch x n w c)
  then show ?case
    by (cases "choice = Elapsed") (auto simp: await_step_def split: progress.split prod.split)
qed simp

text \<open>
  What a pipe does, as \<open>AsyncWrite\<close> documents it: with room left, a write of some bytes does not
  wait, takes at most these bytes, and uses up no more room than it took; a flush does not wait.
\<close>

definition pipe_law :: "'w mcp_lib \<Rightarrow> ('w \<Rightarrow> nat) \<Rightarrow> bool" where
  "pipe_law lib room \<longleftrightarrow>
     (\<forall>bytes w. bytes \<noteq> [] \<and> 0 < room w \<longrightarrow>
        (\<exists>r w1. sd_poll_write lib bytes w = (Some r, w1) \<and>
           (\<forall>n. r = Inr n \<longrightarrow> n \<le> length bytes \<and> room w \<le> room w1 + n)))
     \<and> (\<forall>w. fst (sd_poll_flush lib w) \<noteq> None)"

lemma write_all_takes:
  assumes "pipe_law lib room"
  shows "length bytes \<le> room w \<Longrightarrow> \<exists>r left w1. write_all lib bytes w = (Some r, left, w1) \<and>
     (r = Inr () \<longrightarrow> room w \<le> room w1 + length bytes)"
  using assms
proof (induction lib bytes w rule: write_all.induct)
  case (2 lib b bs w)
  then have "b # bs \<noteq> [] \<and> 0 < room w" by auto
  then obtain r w1 where r: "sd_poll_write lib (b # bs) w = (Some r, w1)"
    "\<And>n. r = Inr n \<Longrightarrow> n \<le> length (b # bs) \<and> room w \<le> room w1 + n"
    using 2(3) unfolding pipe_law_def by blast
  show ?case
  proof (cases "\<exists>n. r = Inr n \<and> n \<noteq> 0")
    case True
    then obtain n where n: "r = Inr n" "n \<noteq> 0" by blast
    have "length (drop n (b # bs)) \<le> room w1" using r(2) [OF n(1)] 2(2) by (auto simp: le_diff_conv)
    from 2(1) [OF r(1) [symmetric, unfolded n(1)] refl refl n(2) this 2(3)]
    obtain q left w2 where "write_all lib (drop n (b # bs)) w1 = (Some q, left, w2)"
      "q = Inr () \<longrightarrow> room w1 \<le> room w2 + length (drop n (b # bs))" by blast
    moreover from this r(2) [OF n(1)]
    have "q = Inr () \<longrightarrow> room w \<le> room w2 + length (b # bs)" by auto
    ultimately show ?thesis using r(1) n by simp
  next
    case False
    then show ?thesis using r(1) by (cases r) auto
  qed
qed simp

text \<open>
  A transport takes a message when the queue has a place, or when the writer's lock is free and the
  pipe has room for the line and its newline.
\<close>

fun takes_message :: "'w mcp_lib \<Rightarrow> ('w \<Rightarrow> nat) \<Rightarrow> json_rpc_message \<Rightarrow> 'w mcp_transport \<Rightarrow> bool" where
  "takes_message lib room msg (Channel t) \<longleftrightarrow> length (ch_to_peer t) < CHANNEL_CAPACITY"
| "takes_message lib room msg (Stdio t) \<longleftrightarrow> \<not> st_locked t \<and>
     (case js_msg_to_string lib msg of Inl e \<Rightarrow> True | Inr line \<Rightarrow> length line < room (st_world t))"

lemma stdio_line_takes:
  assumes "pipe_law lib room" "length line < room w"
  shows "\<exists>r w1. stdio_line lib line w = (Ready r, w1)"
proof -
  obtain r left w1 where 1: "write_all lib line w = (Some r, left, w1)"
    "r = Inr () \<longrightarrow> room w \<le> room w1 + length line"
    using write_all_takes [OF assms(1), of line w] assms(2) by auto
  show ?thesis
  proof (cases r)
    case (Inr u)
    with 1(2) assms(2) have "length [CHR 0x0A] \<le> room w1" by simp
    then obtain q left2 w2 where 2: "write_all lib [CHR 0x0A] w1 = (Some q, left2, w2)"
      using write_all_takes [OF assms(1)] by blast
    obtain f w3 where 3: "sd_poll_flush lib w2 = (Some f, w3)"
      using assms(1) unfolding pipe_law_def by (metis not_None_eq prod.collapse)
    show ?thesis using 1 2 3 Inr
      by (cases q) (simp_all add: stdio_line_def stdio_newline_def stdio_flush_def)
  qed (use 1 in \<open>simp add: stdio_line_def\<close>)
qed

lemma send_completes:
  assumes "pipe_law lib room" "takes_message lib room msg (mc_transport c)"
  shows "\<exists>r c1. send_message lib Unsent msg c = (Ready r, c1)"
proof (cases "mc_transport c")
  case (Channel t)
  then show ?thesis using assms(2)
    by (auto simp: send_message_def channel_send_def split: prod.split option.split)
next
  case (Stdio t)
  show ?thesis
  proof (cases "js_msg_to_string lib msg")
    case (Inr line)
    with Stdio assms(2) have "\<not> st_locked t" "length line < room (st_world t)" by simp_all
    then obtain r w1 where "stdio_line lib line (st_world t) = (Ready r, w1)"
      using stdio_line_takes [OF assms(1)] by blast
    with Stdio Inr \<open>\<not> st_locked t\<close> show ?thesis by (simp add: send_message_def stdio_send_def)
  qed (use Stdio in \<open>simp add: send_message_def stdio_send_def\<close>)
qed

text \<open>
  Property C20 (liveness): requests return. When the transport takes the message as the request is
  first polled (the queue to the peer has a place, or nobody holds the writer's lock and the pipe has
  room for the line) and the deadline passes at some later turn, the request returns, with the
  response, an error or the timeout, whatever the other callers and the server do in between, and
  its entry is gone from the map of pending requests. The state of the transport is the one in which
  the first poll finds it, after the request has registered and the others have had their turn; the
  pipe behaves as \<open>AsyncWrite\<close> documents. Without such room there is no deadline and the
  request may wait for ever, as \<open>request_send_has_no_deadline\<close> shows.
\<close>

theorem request_returns:
  assumes "pipe_law lib room"
    and "takes_message lib room (Request (new_request (mc_next_request_id c) m ps))
           (mc_transport (others (registered c)))"
    and "Elapsed \<in> snd ` set sch"
  shows "\<exists>r sch' c'. request lib ((others, choice) # sch) m ps c = (Some r, sch', c') \<and>
    mc_pending c' (mc_next_request_id c) = None"
proof -
  obtain n c2 where r: "register_pending (mc_next_request_id c)
      (c\<lparr>mc_next_request_id := mc_next_request_id c + 1\<rparr>) = (n, c2)" by fastforce
  then have c2: "registered c = c2" by (simp add: registered_def alloc_request_id_def)
  let ?msg = "Request (new_request (mc_next_request_id c) m ps)"
  obtain q c3 where s: "send_message lib Unsent ?msg (others c2) = (Ready q, c3)"
    using send_completes [OF assms(1,2)] unfolding c2 by blast
  obtain a sch1 c4 where w: "await_response lib sch (JNumber (PosInt (mc_next_request_id c))) n idle_wait c3 = (Some a, sch1, c4)"
    using await_response_returns [OF assms(3)] by (metis fst_conv surj_pair)
  show ?thesis
    using r s w by (cases q) (auto simp: request_def alloc_request_id_def end_request_def take_pending_def
      drop_sender_def split: option.split)
qed

text \<open>A pipe of bounded size: its world is the room it has left.\<close>

definition pipe_lib :: "nat mcp_lib" where
  "pipe_lib = \<lparr>sd_spawn = (\<lambda>_ _ w. (Inr (True, True), w)),
     sd_poll_write = (\<lambda>bytes w. if w = 0 then (None, w)
       else (Some (Inr (min w (length bytes))), w - min w (length bytes))),
     sd_poll_flush = (\<lambda>w. (Some (Inr ()), w)), sd_read_line = (\<lambda>w. (None, w)),
     js_msg_to_string = (\<lambda>_. Inr ''{}''), js_msg_from_str = (\<lambda>_. Inl [])\<rparr>"

lemma pipe_lib_law: "pipe_law pipe_lib id"
  by (auto simp: pipe_law_def pipe_lib_def)

theorem request_returns_witness:
  "\<exists>r sch' c'. request pipe_lib [(id, PollTransport), (id, PollTransport), (id, Elapsed)] ''ping'' None
     (with_transport (default_mcp_client_config ''1'') (Stdio \<lparr>st_connected = True, st_locked = False, st_world = 3\<rparr>))
       = (Some r, sch', c') \<and> mc_pending c' 1 = None"
  using request_returns [OF pipe_lib_law, of "with_transport (default_mcp_client_config ''1'')
      (Stdio \<lparr>st_connected = True, st_locked = False, st_world = 3\<rparr>)" "''ping''" None id
      "[(id, PollTransport), (id, Elapsed)]" PollTransport]
  by (simp add: registered_transport pipe_lib_def with_transport_def)

end
