(* ===== verification/Postgres_Observer.thy ===== *)
theory Postgres_Observer
  imports Executor Str_Ops
begin

text \<open>
  The PostgreSQL observer (\<open>agentverify-observe/src/postgres.rs\<close>): the connection URI and its
  parser, the configuration and its builders, the query built from a contract, the conversion of
  rows to JSON, and \<open>observe\<close>. The percent coder, the connection pool with its server, and the JSON
  serialiser are parameters.
\<close>

type_synonym u16 = "16 word"

section \<open>Errors\<close>

datatype postgres_observer_error =
    Config_pg string
  | PoolCreation string
  | QueryError string
  | QueryBuildError string
  | ParseError_pg string
  | Timeout_pg
  | NoPostconditions

fun show_postgres_error :: "postgres_observer_error \<Rightarrow> string" where
  "show_postgres_error (Config_pg s) = ''Configuration error: '' @ s"
| "show_postgres_error (PoolCreation s) = ''Pool creation failed: '' @ s"
| "show_postgres_error (QueryError s) = ''Query execution failed: '' @ s"
| "show_postgres_error (QueryBuildError s) = ''Query building failed: '' @ s"
| "show_postgres_error (ParseError_pg s) = ''Result parsing failed: '' @ s"
| "show_postgres_error Timeout_pg = ''Connection timeout''"
| "show_postgres_error NoPostconditions = ''No postconditions defined in contract''"

section \<open>The connection URI\<close>

text \<open>The percent coder: \<open>url_decode\<close> fails when the decoded bytes are not UTF-8.\<close>

record url_lib =
  url_encode :: "string \<Rightarrow> string"
  url_decode :: "string \<Rightarrow> string option"

record parsed_uri =
  pu_user :: string
  pu_password :: "string option"
  pu_host :: string
  pu_port :: u16
  pu_database :: string

definition decode_component :: "url_lib \<Rightarrow> string \<Rightarrow> string \<Rightarrow> postgres_observer_error + string" where
  "decode_component ul raw component =
     (case url_decode ul raw of
        Some s \<Rightarrow> Inr s
      | None \<Rightarrow> Inl (Config_pg (''Invalid '' @ component @ '' encoding'')))"

definition backquoted :: "string \<Rightarrow> string" where
  "backquoted s = CHR 0x60 # s @ [CHR 0x60]"

definition strip_scheme :: "string \<Rightarrow> postgres_observer_error + string" where
  "strip_scheme uri =
     (case strip_prefix_str ''postgres://'' uri of
        Some rest \<Rightarrow> Inr rest
      | None \<Rightarrow>
          (case strip_prefix_str ''postgresql://'' uri of
             Some rest \<Rightarrow> Inr rest
           | None \<Rightarrow> Inl (Config_pg (''Invalid URI scheme: expected '' @ backquoted ''postgres://'' @
               '' or '' @ backquoted ''postgresql://'' @ '', got '' @ backquoted uri))))"

definition parse_userinfo ::
  "url_lib \<Rightarrow> string \<Rightarrow> postgres_observer_error + string \<times> string option" where
  "parse_userinfo ul userinfo =
     (case split_once CHR '':'' userinfo of
        Some (user, password) \<Rightarrow>
          if CHR '':'' \<in> set password then
            Inl (Config_pg (''Invalid user:password format: percent-encode '' @ CHR 0x27 # '':'' @
              CHR 0x27 # '' in the password''))
          else and_then_res (decode_component ul password ''password'') (\<lambda>p. Inr (user, Some p))
      | None \<Rightarrow> Inr (userinfo, None))"

definition parse_port :: "string \<Rightarrow> postgres_observer_error + string \<times> u16" where
  "parse_port host_port =
     (case rsplit_once CHR '':'' host_port of
        Some (host, port) \<Rightarrow>
          (case parse_uint (2 ^ 16 - 1) port of
             Some p \<Rightarrow> Inr (host, of_nat p)
           | None \<Rightarrow> Inl (Config_pg (''Invalid port: '' @ backquoted port)))
      | None \<Rightarrow> Inr (host_port, 5432))"

definition cut_params :: "string \<Rightarrow> string" where
  "cut_params s = (case split_once CHR ''?'' s of Some (database, _) \<Rightarrow> database | None \<Rightarrow> s)"

definition parse_uri :: "url_lib \<Rightarrow> string \<Rightarrow> postgres_observer_error + parsed_uri" where
  "parse_uri ul uri =
     and_then_res (strip_scheme uri) (\<lambda>rest.
       case rsplit_once CHR ''@'' rest of
         None \<Rightarrow> Inl (Config_pg (''Invalid URI format: missing '' @ backquoted ''user@host'' @ '' userinfo''))
       | Some (userinfo, authority) \<Rightarrow>
           and_then_res (parse_userinfo ul userinfo) (\<lambda>(user_raw, password).
           and_then_res (decode_component ul user_raw ''user'') (\<lambda>user.
             case split_once CHR ''/'' authority of
               None \<Rightarrow> Inl (Config_pg (''Invalid host:port/database format: missing '' @ backquoted ''/database''))
             | Some (host_port, database_raw) \<Rightarrow>
                 and_then_res (decode_component ul (cut_params database_raw) ''database name'') (\<lambda>database.
                 and_then_res (parse_port host_port) (\<lambda>(host, port).
                   Inr \<lparr>pu_user = user, pu_password = password, pu_host = host, pu_port = port,
                        pu_database = database\<rparr>)))))"

section \<open>Configuration\<close>

record postgres_config =
  pg_host :: string
  pg_port :: u16
  pg_user :: string
  pg_password :: string
  pg_database :: string
  pg_ssl_mode :: string
  pg_application_name :: string
  pg_connect_timeout_secs :: u64
  pg_pool_max_size :: u64
  pg_query_timeout_ms :: u64

definition default_postgres_config :: postgres_config where
  "default_postgres_config =
     \<lparr>pg_host = ''localhost'', pg_port = 5432, pg_user = ''postgres'', pg_password = [],
      pg_database = ''postgres'', pg_ssl_mode = ''disable'', pg_application_name = ''agentverify'',
      pg_connect_timeout_secs = 5, pg_pool_max_size = 16, pg_query_timeout_ms = 5000\<rparr>"

definition with_host :: "string \<Rightarrow> postgres_config \<Rightarrow> postgres_config" where
  "with_host h cfg = cfg\<lparr>pg_host := h\<rparr>"
definition with_port :: "u16 \<Rightarrow> postgres_config \<Rightarrow> postgres_config" where
  "with_port p cfg = cfg\<lparr>pg_port := p\<rparr>"
definition with_user :: "string \<Rightarrow> postgres_config \<Rightarrow> postgres_config" where
  "with_user u cfg = cfg\<lparr>pg_user := u\<rparr>"
definition with_password :: "string \<Rightarrow> postgres_config \<Rightarrow> postgres_config" where
  "with_password p cfg = cfg\<lparr>pg_password := p\<rparr>"
definition with_database :: "string \<Rightarrow> postgres_config \<Rightarrow> postgres_config" where
  "with_database d cfg = cfg\<lparr>pg_database := d\<rparr>"
definition with_ssl_mode :: "string \<Rightarrow> postgres_config \<Rightarrow> postgres_config" where
  "with_ssl_mode m cfg = cfg\<lparr>pg_ssl_mode := m\<rparr>"
definition with_application_name :: "string \<Rightarrow> postgres_config \<Rightarrow> postgres_config" where
  "with_application_name n cfg = cfg\<lparr>pg_application_name := n\<rparr>"
definition with_connect_timeout_secs :: "u64 \<Rightarrow> postgres_config \<Rightarrow> postgres_config" where
  "with_connect_timeout_secs s cfg = cfg\<lparr>pg_connect_timeout_secs := s\<rparr>"
definition with_pool_max_size :: "u64 \<Rightarrow> postgres_config \<Rightarrow> postgres_config" where
  "with_pool_max_size s cfg = cfg\<lparr>pg_pool_max_size := s\<rparr>"
definition with_query_timeout_ms :: "u64 \<Rightarrow> postgres_config \<Rightarrow> postgres_config" where
  "with_query_timeout_ms ms cfg = cfg\<lparr>pg_query_timeout_ms := ms\<rparr>"

definition build_uri :: "url_lib \<Rightarrow> postgres_config \<Rightarrow> string" where
  "build_uri ul cfg =
     ''postgres://'' @ url_encode ul (pg_user cfg) @ '':'' @ url_encode ul (pg_password cfg) @ ''@'' @
     pg_host cfg @ '':'' @ show_nat (unat (pg_port cfg)) @ ''/'' @ url_encode ul (pg_database cfg) @
     ''?sslmode='' @ pg_ssl_mode cfg @ ''&application_name='' @ url_encode ul (pg_application_name cfg)"

text \<open>The settings handed to the connection pool.\<close>

record deadpool_config =
  dp_host :: "string option"
  dp_port :: "u16 option"
  dp_user :: "string option"
  dp_password :: "string option"
  dp_dbname :: "string option"
  dp_connect_timeout_secs :: "u64 option"

definition create_deadpool_config :: "postgres_config \<Rightarrow> deadpool_config" where
  "create_deadpool_config cfg =
     \<lparr>dp_host = Some (pg_host cfg), dp_port = Some (pg_port cfg), dp_user = Some (pg_user cfg),
      dp_password = Some (pg_password cfg), dp_dbname = Some (pg_database cfg),
      dp_connect_timeout_secs = Some (pg_connect_timeout_secs cfg)\<rparr>"

section \<open>The observer\<close>

text \<open>
  What a cell of a row yields when it is read as each of the types that the converter tries, and
  the calls of the pool: each one takes and returns the state of the database.
\<close>

record pg_cell =
  cell_string :: "string option"
  cell_i64 :: "i64 option"
  cell_i32 :: "i32 option"
  cell_f64 :: "f64 option"
  cell_bool :: "bool option"

type_synonym pg_row = "(string \<times> pg_cell) list"

record ('p, 'w) postgres_lib =
  pg_create_pool :: "deadpool_config \<Rightarrow> string + 'p"
  pg_pool_get :: "'p \<Rightarrow> 'w \<Rightarrow> (string + unit) \<times> 'w"
  pg_query :: "string \<Rightarrow> string list \<Rightarrow> 'w \<Rightarrow> (string + pg_row list) \<times> 'w"
  pg_query_one :: "string \<Rightarrow> 'w \<Rightarrow> (string + unit) \<times> 'w"
  pg_to_string :: "json \<Rightarrow> string option"
  pg_from_str :: "string \<Rightarrow> json option"
  pg_show_uuid :: "uuid \<Rightarrow> string"

record 'p postgres_observer =
  po_pool :: 'p
  po_config :: postgres_config

definition pg_from_config ::
  "('p, 'w) postgres_lib \<Rightarrow> postgres_config \<Rightarrow> postgres_observer_error + 'p postgres_observer" where
  "pg_from_config lib cfg =
     (case pg_create_pool lib (create_deadpool_config cfg) of
        Inl e \<Rightarrow> Inl (PoolCreation e)
      | Inr p \<Rightarrow> Inr \<lparr>po_pool = p, po_config = cfg\<rparr>)"

definition pg_from_uri ::
  "url_lib \<Rightarrow> ('p, 'w) postgres_lib \<Rightarrow> string \<Rightarrow> postgres_observer_error + 'p postgres_observer" where
  "pg_from_uri ul lib uri =
     and_then_res (parse_uri ul uri) (\<lambda>parsed.
       case pg_create_pool lib
              \<lparr>dp_host = Some (pu_host parsed), dp_port = Some (pu_port parsed),
               dp_user = Some (pu_user parsed), dp_password = pu_password parsed,
               dp_dbname = Some (pu_database parsed), dp_connect_timeout_secs = None\<rparr> of
         Inl e \<Rightarrow> Inl (PoolCreation e)
       | Inr p \<Rightarrow> Inr \<lparr>po_pool = p, po_config = default_postgres_config\<rparr>)"

text \<open>\<open>Number::from\<close> of a signed integer, and \<open>Number::from_f64\<close>, which refuses non-finite numbers.\<close>

definition number_of_i64 :: "i64 \<Rightarrow> number" where
  "number_of_i64 n = (if sint n < 0 then NegInt n else PosInt n)"

definition number_of_f64 :: "f64 \<Rightarrow> number option" where
  "number_of_f64 x = (if f64_is_nan x \<or> f64_is_inf x then None else Some (Float x))"

definition pg_value_to_json :: "('p, 'w) postgres_lib \<Rightarrow> pg_cell \<Rightarrow> json" where
  "pg_value_to_json lib cell =
     (case cell_string cell of
        Some s \<Rightarrow> (case pg_from_str lib s of Some v \<Rightarrow> v | None \<Rightarrow> JString s)
      | None \<Rightarrow>
     (case cell_i64 cell of
        Some n \<Rightarrow> JNumber (number_of_i64 n)
      | None \<Rightarrow>
     (case cell_i32 cell of
        Some n \<Rightarrow> JNumber (number_of_i64 (scast n))
      | None \<Rightarrow>
     (case Option.bind (cell_f64 cell) number_of_f64 of
        Some x \<Rightarrow> JNumber x
      | None \<Rightarrow> (case cell_bool cell of Some b \<Rightarrow> JBool b | None \<Rightarrow> JNull)))))"

definition row_to_json :: "('p, 'w) postgres_lib \<Rightarrow> pg_row \<Rightarrow> json" where
  "row_to_json lib row = json_object (map (\<lambda>(name, cell). (name, pg_value_to_json lib cell)) row)"

text \<open>The parameters as the query receives them: JSON text.\<close>

definition string_params :: "('p, 'w) postgres_lib \<Rightarrow> json list \<Rightarrow> string list" where
  "string_params lib params =
     map (\<lambda>v. case pg_to_string lib v of Some s \<Rightarrow> s | None \<Rightarrow> ''null'') params"

definition execute_query ::
  "('p, 'w) postgres_lib \<Rightarrow> 'p postgres_observer \<Rightarrow> string \<Rightarrow> json list \<Rightarrow> 'w
   \<Rightarrow> (postgres_observer_error + json) \<times> 'w" where
  "execute_query lib ob query params w =
     (case pg_pool_get lib (po_pool ob) w of
        (Inl e, w1) \<Rightarrow> (Inl (QueryError (''Pool get failed: '' @ e)), w1)
      | (Inr _, w1) \<Rightarrow>
          (case pg_query lib query (string_params lib params) w1 of
             (Inl e, w2) \<Rightarrow> (Inl (QueryError e), w2)
           | (Inr rows, w2) \<Rightarrow> (Inr (JArray (map (row_to_json lib) rows)), w2)))"

definition table_name_refused :: "string \<Rightarrow> bool" where
  "table_name_refused name \<longleftrightarrow>
     CHR '';'' \<in> set name \<or> contains_str ''--'' name \<or> contains_str ''/*'' name \<or> contains_str ''*/'' name \<or>
     list_ex (\<lambda>p. starts_with p (to_lowercase name))
       [''drop'', ''insert'', ''update'', ''delete'', ''truncate'', ''alter'', ''create'']"

definition build_observation_query ::
  "('p, 'w) postgres_lib \<Rightarrow> action \<Rightarrow> contract \<Rightarrow> postgres_observer_error + string \<times> json list" where
  "build_observation_query lib act c =
     (let table_name = action_name c
      in if table_name_refused table_name then Inl (QueryBuildError (''Invalid table name: '' @ table_name))
         else Inr (''SELECT * FROM '' @ table_name @ '' WHERE id = $1 LIMIT 1'',
                   [JString (pg_show_uuid lib (act_id act))]))"

definition pg_health_check ::
  "('p, 'w) postgres_lib \<Rightarrow> 'p postgres_observer \<Rightarrow> 'w \<Rightarrow> (postgres_observer_error + unit) \<times> 'w" where
  "pg_health_check lib ob w =
     (case pg_pool_get lib (po_pool ob) w of
        (Inl e, w1) \<Rightarrow> (Inl (QueryError (''Pool get failed: '' @ e)), w1)
      | (Inr _, w1) \<Rightarrow> apfst (map_err QueryError) (pg_query_one lib ''SELECT 1'' w1))"

definition pg_observe ::
  "('p, 'w) postgres_lib \<Rightarrow> 'p postgres_observer \<Rightarrow> datetime \<Rightarrow> action \<Rightarrow> contract \<Rightarrow> 'w
   \<Rightarrow> (executor_error + observation) \<times> 'w" where
  "pg_observe lib ob now act c w =
     (case build_observation_query lib act c of
        Inl e \<Rightarrow> (Inl (Unknown_err (''Query build failed: '' @ show_postgres_error e)), w)
      | Inr (query, params) \<Rightarrow>
          (case execute_query lib ob query params w of
             (Inl e, w1) \<Rightarrow> (Inl (Unknown_err (''Query execution failed: '' @ show_postgres_error e)), w1)
           | (Inr results, w1) \<Rightarrow>
               (let state =
                  (case results of
                     JArray [] \<Rightarrow> json_object
                       [(''found'', JBool False), (''table'', JString (action_name c)),
                        (''action_id'', JString (pg_show_uuid lib (act_id act)))]
                   | JArray (row # _) \<Rightarrow> row
                   | v \<Rightarrow> v)
                in (Inr (new_observation now ''postgres'' state), w1))))"

section \<open>Lemmas\<close>

lemma show_nat_no_colon: "CHR '':'' \<notin> set (show_nat n)"
  using show_nat_digits [of "CHR '':''" n] by auto

lemma show_nat_no_at: "CHR ''@'' \<notin> set (show_nat n)"
  using show_nat_digits [of "CHR ''@''" n] by auto

lemma show_nat_no_slash: "CHR ''/'' \<notin> set (show_nat n)"
  using show_nat_digits [of "CHR ''/''" n] by auto

lemma parse_port_show: "parse_port (host @ CHR '':'' # show_nat (unat (p :: u16))) = Inr (host, p)"
proof -
  have "unat p < 2 ^ 16" using unsigned_less [where ?'a = nat, of p] by simp
  then have "parse_uint (2 ^ 16 - 1) (show_nat (unat p)) = Some (unat p)"
    by (intro parse_uint_show_nat) simp
  then show ?thesis by (simp add: parse_port_def rsplit_once_hit show_nat_no_colon)
qed

text \<open>What the percent coder promises: it decodes what it encoded, and encodes the delimiters.\<close>

definition url_coder :: "url_lib \<Rightarrow> bool" where
  "url_coder ul \<longleftrightarrow> (\<forall>s. url_decode ul (url_encode ul s) = Some s \<and>
     set (url_encode ul s) \<inter> {CHR ''@'', CHR '':'', CHR ''/'', CHR ''?''} = {})"

lemma url_coderD:
  assumes "url_coder ul"
  shows "url_decode ul (url_encode ul s) = Some s" "CHR ''@'' \<notin> set (url_encode ul s)"
    "CHR '':'' \<notin> set (url_encode ul s)" "CHR ''/'' \<notin> set (url_encode ul s)"
    "CHR ''?'' \<notin> set (url_encode ul s)"
  using assms by (auto simp: url_coder_def)

lemma parse_userinfo_built:
  assumes "url_coder ul"
  shows "parse_userinfo ul (url_encode ul u @ CHR '':'' # url_encode ul p) = Inr (url_encode ul u, Some p)"
  using url_coderD [OF assms] by (simp add: parse_userinfo_def split_once_hit decode_component_def)

section \<open>Properties\<close>

text \<open>
  Property C36 (round trip): the URI that a configuration builds parses back to its user,
  password, host, port and database, whatever characters user, password, database and
  application name contain, provided the host has no \<open>@\<close> or \<open>/\<close>, the SSL mode has no \<open>@\<close>, and the
  percent coder decodes what it encodes and leaves no delimiter in it.
\<close>

theorem uri_roundtrip:
  assumes "url_coder ul" "CHR ''@'' \<notin> set (pg_host cfg)" "CHR ''/'' \<notin> set (pg_host cfg)"
    and "CHR ''@'' \<notin> set (pg_ssl_mode cfg)"
  shows "parse_uri ul (build_uri ul cfg) = Inr
    \<lparr>pu_user = pg_user cfg, pu_password = Some (pg_password cfg), pu_host = pg_host cfg,
     pu_port = pg_port cfg, pu_database = pg_database cfg\<rparr>"
proof -
  note u = url_coderD [OF assms(1)]
  define tail where "tail = ''sslmode='' @ pg_ssl_mode cfg @ ''&application_name='' @
    url_encode ul (pg_application_name cfg)"
  define host_port where "host_port = pg_host cfg @ CHR '':'' # show_nat (unat (pg_port cfg))"
  define authority where "authority = host_port @ CHR ''/'' # url_encode ul (pg_database cfg) @ CHR ''?'' # tail"
  define userinfo where "userinfo = url_encode ul (pg_user cfg) @ CHR '':'' # url_encode ul (pg_password cfg)"
  have uri: "build_uri ul cfg = ''postgres://'' @ userinfo @ CHR ''@'' # authority"
    by (simp add: build_uri_def userinfo_def authority_def host_port_def tail_def)
  have "CHR ''@'' \<notin> set authority"
    using assms u show_nat_no_at by (auto simp: authority_def host_port_def tail_def)
  then have at: "rsplit_once CHR ''@'' (userinfo @ CHR ''@'' # authority) = Some (userinfo, authority)"
    by (rule rsplit_once_hit)
  have "CHR ''/'' \<notin> set host_port" using assms show_nat_no_slash by (auto simp: host_port_def)
  then have slash: "split_once CHR ''/'' authority =
      Some (host_port, url_encode ul (pg_database cfg) @ CHR ''?'' # tail)"
    unfolding authority_def by (rule split_once_hit)
  have cut: "cut_params (url_encode ul (pg_database cfg) @ CHR ''?'' # tail) = url_encode ul (pg_database cfg)"
    using u by (simp add: cut_params_def split_once_hit)
  show ?thesis
    using u(1) parse_userinfo_built [OF assms(1)] parse_port_show [of "pg_host cfg" "pg_port cfg"]
    by (simp add: parse_uri_def uri strip_scheme_def at slash cut userinfo_def [symmetric]
        host_port_def [symmetric] decode_component_def)
       (simp add: userinfo_def)
qed

text \<open>A percent coder: two letters for each byte.\<close>

fun nibble_decode :: "string \<Rightarrow> string option" where
  "nibble_decode [] = Some []"
| "nibble_decode [a] = None"
| "nibble_decode (a # b # r) =
     map_option (Cons (char_of ((of_char a - 97) * 16 + (of_char b - 97) :: nat))) (nibble_decode r)"

definition nibble_encode :: "string \<Rightarrow> string" where
  "nibble_encode s = concat (map (\<lambda>c. [char_of (97 + (of_char c :: nat) div 16), char_of (97 + (of_char c :: nat) mod 16)]) s)"

definition nibble_coder :: url_lib where
  "nibble_coder = \<lparr>url_encode = nibble_encode, url_decode = nibble_decode\<rparr>"

lemma nibble_roundtrip: "nibble_decode (nibble_encode s) = Some s"
proof (induction s)
  case (Cons c s)
  have "(of_char c :: nat) div 16 < 16" using nat_of_char_less_256 [of c] by linarith
  moreover have "(of_char c :: nat) mod 16 < 16" by simp
  ultimately show ?case using Cons by (simp add: nibble_encode_def)
qed (simp add: nibble_encode_def)

lemma nibble_coder_ok: "url_coder nibble_coder"
proof -
  have "97 \<le> (of_char x :: nat)" if "x \<in> set (nibble_encode s)" for x s
  proof -
    from that obtain c where c: "x = char_of (97 + (of_char c :: nat) div 16) \<or> x = char_of (97 + (of_char c :: nat) mod 16)"
      by (auto simp: nibble_encode_def)
    have "(of_char c :: nat) div 16 < 16" using nat_of_char_less_256 [of c] by linarith
    with c show ?thesis by auto
  qed
  then show ?thesis by (fastforce simp: url_coder_def nibble_coder_def nibble_roundtrip)
qed

theorem uri_roundtrip_witness:
  "parse_uri nibble_coder (build_uri nibble_coder (with_password ''a:b@c'' default_postgres_config)) = Inr
    \<lparr>pu_user = ''postgres'', pu_password = Some ''a:b@c'', pu_host = ''localhost'',
     pu_port = 5432, pu_database = ''postgres''\<rparr>"
  using uri_roundtrip [OF nibble_coder_ok, of "with_password ''a:b@c'' default_postgres_config"]
  by (simp add: with_password_def default_postgres_config_def)

text \<open>
  The name of the table is put into the query as it is, and the guard lets any SQL through that
  has no comment and does not start with one of seven words.
\<close>

lemma table_guard_admits_sql:
  assumes "action_name c = ''t UNION SELECT * FROM secrets''"
  shows "build_observation_query lib act c =
    Inr (''SELECT * FROM t UNION SELECT * FROM secrets WHERE id = $1 LIMIT 1'',
         [JString (pg_show_uuid lib (act_id act))])"
  using assms
  by (simp add: build_observation_query_def table_name_refused_def Let_def starts_with_def
      to_lowercase_def to_lower_char_def)

text \<open>The text of the \<open>id\<close> column of a row.\<close>

definition row_id :: "pg_row \<Rightarrow> string option" where
  "row_id row = Option.bind (map_of row ''id'') cell_string"

text \<open>
  Property C40 (functional): the observer never finds its row. The identifier is bound as JSON
  text, in quotation marks; so when the table's identifiers are the texts of identifiers, which
  have no quotation mark in front, and the server selects the rows whose \<open>id\<close> is the parameter,
  every observation says that nothing was found, even when the action's row is there.
\<close>

theorem row_never_found:
  assumes "\<And>i. pg_to_string lib (JString (pg_show_uuid lib i)) =
      Some (CHR 0x22 # pg_show_uuid lib i @ [CHR 0x22])"
    and "\<And>i s. pg_show_uuid lib i \<noteq> CHR 0x22 # s"
    and "pg_pool_get lib (po_pool ob) w = (Inr u, w)"
    and "\<And>q p. pg_query lib q [p] w = (Inr (filter (\<lambda>row. row_id row = Some p) rows), w)"
    and "\<forall>row \<in> set rows. \<exists>i. row_id row = Some (pg_show_uuid lib i)"
    and "\<not> table_name_refused (action_name c)"
  shows "pg_observe lib ob now act c w = (Inr (new_observation now ''postgres'' (json_object
      [(''found'', JBool False), (''table'', JString (action_name c)),
       (''action_id'', JString (pg_show_uuid lib (act_id act)))])), w)"
proof -
  have "filter (\<lambda>row. row_id row = Some (CHR 0x22 # pg_show_uuid lib (act_id act) @ [CHR 0x22])) rows = []"
    using assms(2,5) by (fastforce simp: filter_empty_conv)
  then show ?thesis using assms(1,3,4,6)
    by (simp add: pg_observe_def build_observation_query_def execute_query_def string_params_def)
qed

definition demo_pg_lib :: "(unit, unit) postgres_lib" where
  "demo_pg_lib = \<lparr>pg_create_pool = (\<lambda>_. Inr ()), pg_pool_get = (\<lambda>_ w. (Inr (), w)),
     pg_query = (\<lambda>q ps w. (Inr (filter (\<lambda>row. ps = [the (row_id row)])
       [[(''id'', \<lparr>cell_string = Some ''u1'', cell_i64 = None, cell_i32 = None, cell_f64 = None, cell_bool = None\<rparr>)]]), w)),
     pg_query_one = (\<lambda>_ w. (Inr (), w)),
     pg_to_string = (\<lambda>v. case v of JString s \<Rightarrow> Some (CHR 0x22 # s @ [CHR 0x22]) | _ \<Rightarrow> None),
     pg_from_str = (\<lambda>_. None), pg_show_uuid = (\<lambda>i. ''u'' @ show_nat (unat i))\<rparr>"

theorem row_never_found_witness:
  "fst (pg_observe demo_pg_lib \<lparr>po_pool = (), po_config = default_postgres_config\<rparr> 0
      (new_action 1 0 ''t'' JNull) (new_contract 2 0 ''t'') ())
   = Inr (new_observation 0 ''postgres'' (json_object [(''found'', JBool False), (''table'', JString ''t''),
       (''action_id'', JString ''u1'')]))"
proof -
  let ?row = "[(''id'', \<lparr>cell_string = Some ''u1'', cell_i64 = None, cell_i32 = None, cell_f64 = None, cell_bool = None\<rparr>)]"
  have one: "show_nat (Suc 0) = ''1''" by (simp add: show_nat.simps digit_char_def) code_simp
  then have "row_id ?row = Some (pg_show_uuid demo_pg_lib 1)" by (simp add: row_id_def demo_pg_lib_def)
  then have "pg_observe demo_pg_lib \<lparr>po_pool = (), po_config = default_postgres_config\<rparr> 0
      (new_action 1 0 ''t'' JNull) (new_contract 2 0 ''t'') () = (Inr (new_observation 0 ''postgres'' (json_object
      [(''found'', JBool False), (''table'', JString (action_name (new_contract 2 0 ''t''))),
       (''action_id'', JString (pg_show_uuid demo_pg_lib (act_id (new_action 1 0 ''t'' JNull))))])), ())"
    by (intro row_never_found [where rows = "[?row]" and u = "()"])
      (auto simp: demo_pg_lib_def row_id_def new_contract_def table_name_refused_def starts_with_def
        to_lowercase_def to_lower_char_def one intro!: exI [where x = "1 :: uuid"])
  then show ?thesis using one by (simp add: demo_pg_lib_def new_action_def new_contract_def)
qed

end
