(* ===== verification/Redis_Observer.thy ===== *)
theory Redis_Observer
  imports Executor Str_Ops
begin

text \<open>
  The Redis observer (\<open>agentverify-observe/src/redis_observer.rs\<close>): configuration, observation specs
  read from the contract's action name, and \<open>observe\<close>. The pool, the Redis commands and the JSON
  reader are parameters; a command takes and returns the state of the server.
\<close>

section \<open>Errors and configuration\<close>

datatype redis_observer_error =
    ConnectionFailed string
  | RedisOperation string
  | KeyNotFound string
  | InvalidKeyPattern string
  | InvalidObservationSpec string
  | PoolError string
  | PoolCreate string
  | RedisError string

fun show_redis_error :: "redis_observer_error \<Rightarrow> string" where
  "show_redis_error (ConnectionFailed s) = ''Redis connection failed: '' @ s"
| "show_redis_error (RedisOperation s) = ''Redis operation failed: '' @ s"
| "show_redis_error (KeyNotFound s) = ''Key not found: '' @ s"
| "show_redis_error (InvalidKeyPattern s) = ''Invalid key pattern: '' @ s"
| "show_redis_error (InvalidObservationSpec s) = ''Invalid observation spec: '' @ s"
| "show_redis_error (PoolError s) = ''Pool error: '' @ s"
| "show_redis_error (PoolCreate s) = ''Pool creation error: '' @ s"
| "show_redis_error (RedisError s) = ''Redis error: '' @ s"

record redis_observer_config =
  redis_url :: string
  rd_timeout_ms :: u64
  key_prefix :: string
  default_key :: "string option"

definition new_redis_config :: "string \<Rightarrow> redis_observer_config" where
  "new_redis_config url = \<lparr>redis_url = url, rd_timeout_ms = 5000, key_prefix = [], default_key = None\<rparr>"

definition rd_with_timeout :: "u64 \<Rightarrow> redis_observer_config \<Rightarrow> redis_observer_config" where
  "rd_with_timeout ms cfg = cfg\<lparr>rd_timeout_ms := ms\<rparr>"

definition with_key_prefix :: "string \<Rightarrow> redis_observer_config \<Rightarrow> redis_observer_config" where
  "with_key_prefix p cfg = cfg\<lparr>key_prefix := p\<rparr>"

definition with_default_key :: "string \<Rightarrow> redis_observer_config \<Rightarrow> redis_observer_config" where
  "with_default_key k cfg = cfg\<lparr>default_key := Some k\<rparr>"

definition default_redis_config :: redis_observer_config where
  "default_redis_config = new_redis_config ''redis://127.0.0.1:6379''"

section \<open>The observer\<close>

record ('p, 'w) redis_observer_lib =
  rd_create_pool :: "string \<Rightarrow> u64 \<Rightarrow> string + 'p"
  rd_pool_get :: "'p \<Rightarrow> 'w \<Rightarrow> (string + unit) \<times> 'w"
  rd_get :: "string \<Rightarrow> 'w \<Rightarrow> (string + string option) \<times> 'w"
  rd_exists :: "string \<Rightarrow> 'w \<Rightarrow> (string + bool) \<times> 'w"
  rd_scard :: "string \<Rightarrow> 'w \<Rightarrow> (string + u64) \<times> 'w"
  rd_hget :: "string \<Rightarrow> string \<Rightarrow> 'w \<Rightarrow> (string + string option) \<times> 'w"
  rd_hgetall :: "string \<Rightarrow> 'w \<Rightarrow> (string + (string \<times> string) list) \<times> 'w"
  rd_from_str :: "string \<Rightarrow> json option"

record 'p redis_observer =
  ro_pool :: 'p
  ro_config :: redis_observer_config

text \<open>The pool is created with the timeout as its maximal size.\<close>

definition new_redis_observer ::
  "('p, 'w) redis_observer_lib \<Rightarrow> redis_observer_config \<Rightarrow> redis_observer_error + 'p redis_observer" where
  "new_redis_observer lib cfg =
     (case rd_create_pool lib (redis_url cfg) (rd_timeout_ms cfg) of
        Inl e \<Rightarrow> Inl (PoolCreate e)
      | Inr p \<Rightarrow> Inr \<lparr>ro_pool = p, ro_config = cfg\<rparr>)"

definition rd_with_pool :: "'p \<Rightarrow> redis_observer_config \<Rightarrow> 'p redis_observer" where
  "rd_with_pool p cfg = \<lparr>ro_pool = p, ro_config = cfg\<rparr>"

text \<open>\<open>Value::get\<close> with a string index.\<close>

fun json_get :: "json \<Rightarrow> string \<Rightarrow> json option" where
  "json_get (JObject es) k = map_of es k"
| "json_get _ k = None"

definition resolve_key :: "'p redis_observer \<Rightarrow> action \<Rightarrow> contract \<Rightarrow> string" where
  "resolve_key ob act c =
     (case Option.bind (json_get (arguments act) ''key'') as_str of
        Some key \<Rightarrow> key
      | None \<Rightarrow>
          if action_name c \<noteq> [] then action_name c
          else (case default_key (ro_config ob) of Some k \<Rightarrow> k | None \<Rightarrow> ''default''))"

definition parse_spec :: "string \<Rightarrow> redis_observer_error + string \<times> string \<times> string list" where
  "parse_spec spec =
     (case splitn 3 CHR '':'' spec of
        [oper, key] \<Rightarrow> Inr (oper, key, [])
      | [oper, key, extra] \<Rightarrow> Inr (oper, key, split_on CHR '':'' extra)
      | _ \<Rightarrow> Inl (InvalidObservationSpec spec))"

definition value_of_text :: "('p, 'w) redis_observer_lib \<Rightarrow> string \<Rightarrow> json" where
  "value_of_text lib s = (case rd_from_str lib s of Some v \<Rightarrow> v | None \<Rightarrow> JString s)"

definition execute_spec ::
  "('p, 'w) redis_observer_lib \<Rightarrow> 'p redis_observer \<Rightarrow> string \<Rightarrow> 'w \<Rightarrow> (redis_observer_error + json) \<times> 'w" where
  "execute_spec lib ob spec w =
     (case parse_spec spec of
        Inl e \<Rightarrow> (Inl e, w)
      | Inr (oper, key, extra) \<Rightarrow>
          (let prefixed_key = key_prefix (ro_config ob) @ key
           in if oper = ''get'' then
                (case rd_get lib prefixed_key w of
                   (Inl e, w1) \<Rightarrow> (Inl (RedisError e), w1)
                 | (Inr (Some s), w1) \<Rightarrow> (Inr (value_of_text lib s), w1)
                 | (Inr None, w1) \<Rightarrow> (Inl (KeyNotFound prefixed_key), w1))
              else if oper = ''exists'' then
                apfst (map_sum RedisError JBool) (rd_exists lib prefixed_key w)
              else if oper = ''scard'' then
                apfst (map_sum RedisError (\<lambda>n. JNumber (PosInt n))) (rd_scard lib prefixed_key w)
              else if oper = ''hget'' then
                (case extra of
                   [] \<Rightarrow> (Inl (InvalidObservationSpec ''hget requires a field argument''), w)
                 | field # _ \<Rightarrow>
                     apfst (map_sum RedisError (\<lambda>r. case r of Some s \<Rightarrow> value_of_text lib s | None \<Rightarrow> JNull))
                       (rd_hget lib prefixed_key field w))
              else if oper = ''hgetall'' then
                apfst (map_sum RedisError (\<lambda>es. json_object (map (\<lambda>(k, s). (k, value_of_text lib s)) es)))
                  (rd_hgetall lib prefixed_key w)
              else (Inl (InvalidObservationSpec (''unknown operation: '' @ oper)), w)))"

definition build_spec :: "contract \<Rightarrow> string" where
  "build_spec c = (if CHR '':'' \<in> set (action_name c) then action_name c else ''get:'' @ action_name c)"

definition rd_observe ::
  "('p, 'w) redis_observer_lib \<Rightarrow> 'p redis_observer \<Rightarrow> datetime \<Rightarrow> action \<Rightarrow> contract \<Rightarrow> 'w
   \<Rightarrow> (executor_error + observation) \<times> 'w" where
  "rd_observe lib ob now act c w =
     (case rd_pool_get lib (ro_pool ob) w of
        (Inl e, w1) \<Rightarrow> (Inl (Unknown_err (''Redis pool error: '' @ e)), w1)
      | (Inr _, w1) \<Rightarrow>
          (case execute_spec lib ob (build_spec c) w1 of
             (Inl e, w2) \<Rightarrow> (Inl (Unknown_err (''Redis observation failed: '' @ show_redis_error e)), w2)
           | (Inr state, w2) \<Rightarrow> (Inr (new_observation now ''redis'' state), w2)))"

section \<open>Lemmas\<close>

lemma parse_spec_two:
  "CHR '':'' \<notin> set oper \<Longrightarrow> CHR '':'' \<notin> set key \<Longrightarrow> parse_spec (oper @ CHR '':'' # key) = Inr (oper, key, [])"
  by (simp add: parse_spec_def numeral_3_eq_3 split_once_hit split_once_miss)

text \<open>A state that is no container fails every positive condition, and passes every absence.\<close>

lemma scalar_state_verdicts:
  assumes "\<And>s. path_step v s = None"
  shows "eval_exists v p = Failed" "eval_equals v p x args = Failed" "eval_not_exists v p = Verified"
  using get_path_scalar [OF assms, of p]
  by (simp_all add: eval_exists_def eval_equals_def eval_not_exists_def verdict_def)

section \<open>Properties\<close>

text \<open>
  The specs \<open>exists:key\<close> and \<open>scard:key\<close> observe a state that no predicate can
  look into. The state is a bare boolean or number, every path, the empty one included, names
  nothing in it; so \<open>Exists\<close> and \<open>Equals\<close> fail on every path, and \<open>NotExists\<close> holds on every path,
  whatever Redis answered.
\<close>

theorem redis_scalar_state_is_opaque:
  assumes "rd_pool_get lib (ro_pool ob) w = (Inr u, w1)" "CHR '':'' \<notin> set key"
    and "action_name c = ''exists:'' @ key \<and> rd_exists lib (key_prefix (ro_config ob) @ key) w1 = (Inr b, w2)
      \<or> action_name c = ''scard:'' @ key \<and> rd_scard lib (key_prefix (ro_config ob) @ key) w1 = (Inr n, w2)"
  shows "\<exists>obs. rd_observe lib ob now act c w = (Inr obs, w2) \<and>
    (\<forall>p x args. eval_exists (obs_state obs) p = Failed \<and> eval_equals (obs_state obs) p x args = Failed
       \<and> eval_not_exists (obs_state obs) p = Verified)"
  using assms(3)
proof (elim disjE conjE)
  assume a: "action_name c = ''exists:'' @ key" "rd_exists lib (key_prefix (ro_config ob) @ key) w1 = (Inr b, w2)"
  have "parse_spec (''exists:'' @ key) = Inr (''exists'', key, [])"
    using parse_spec_two [of "''exists''" key] assms(2) by simp
  then show ?thesis using assms(1) a
    by (simp add: rd_observe_def build_spec_def execute_spec_def new_observation_def scalar_state_verdicts)
next
  assume a: "action_name c = ''scard:'' @ key" "rd_scard lib (key_prefix (ro_config ob) @ key) w1 = (Inr n, w2)"
  have "parse_spec (''scard:'' @ key) = Inr (''scard'', key, [])"
    using parse_spec_two [of "''scard''" key] assms(2) by simp
  then show ?thesis using assms(1) a
    by (simp add: rd_observe_def build_spec_def execute_spec_def new_observation_def scalar_state_verdicts)
qed

definition demo_redis_lib :: "(unit, unit) redis_observer_lib" where
  "demo_redis_lib = \<lparr>rd_create_pool = (\<lambda>_ _. Inr ()), rd_pool_get = (\<lambda>_ w. (Inr (), w)),
     rd_get = (\<lambda>_ w. (Inr None, w)), rd_exists = (\<lambda>_ w. (Inr True, w)), rd_scard = (\<lambda>_ w. (Inr 3, w)),
     rd_hget = (\<lambda>_ _ w. (Inr None, w)), rd_hgetall = (\<lambda>_ w. (Inr [], w)), rd_from_str = (\<lambda>_. None)\<rparr>"

theorem redis_scalar_state_is_opaque_witness:
  "\<exists>obs. rd_observe demo_redis_lib (rd_with_pool () default_redis_config) 0 (new_action 1 0 ''a'' JNull)
      (new_contract 2 0 ''exists:k'') () = (Inr obs, ()) \<and> eval_not_exists (obs_state obs) ''x'' = Verified"
proof -
  have "\<exists>obs. rd_observe demo_redis_lib (rd_with_pool () default_redis_config) 0 (new_action 1 0 ''a'' JNull)
      (new_contract 2 0 ''exists:k'') () = (Inr obs, ()) \<and>
    (\<forall>p x args. eval_exists (obs_state obs) p = Failed \<and> eval_equals (obs_state obs) p x args = Failed
       \<and> eval_not_exists (obs_state obs) p = Verified)"
    by (rule redis_scalar_state_is_opaque [where key = "''k''" and b = True and n = 0 and u = "()" and ?w1.0 = "()"])
      (simp_all add: demo_redis_lib_def new_contract_def)
  then show ?thesis by blast
qed

text \<open>A missing key is an error of the observation, and so an unknown outcome of the action.\<close>

lemma missing_key_is_unknown:
  assumes "rd_pool_get lib (ro_pool ob) w = (Inr u, w1)" "CHR '':'' \<notin> set (action_name c)"
    and "rd_get lib (key_prefix (ro_config ob) @ action_name c) w1 = (Inr None, w2)"
  shows "rd_observe lib ob now act c w =
    (Inl (Unknown_err (''Redis observation failed: Key not found: '' @ key_prefix (ro_config ob) @ action_name c)), w2)"
  using assms parse_spec_two [of "''get''" "action_name c"]
  by (simp add: rd_observe_def build_spec_def execute_spec_def)

end
