(* ===== verification/Wasm_Store.thy ===== *)
theory Wasm_Store
  imports Idempotency Receipt_Store
begin

text \<open>
  The browser stores of \<open>agentverify-http/src/wasm_storage.rs\<close>: receipts and idempotency keys in
  \<open>localStorage\<close>. The storage is a map from strings to strings; each call to it may throw, which
  \<open>ls_io\<close> says key by key. The stores are further instances of the contracts \<open>receipt_store\<close> and
  \<open>idempotency_store\<close>.
\<close>

section \<open>Local storage\<close>

type_synonym local_storage = "string \<Rightarrow> string option"

text \<open>What the calls throw, printed: \<open>None\<close> when they succeed.\<close>

record ls_io =
  ls_get_throws :: "string \<Rightarrow> string option"
  ls_set_throws :: "string \<Rightarrow> string option"
  ls_remove_throws :: "string \<Rightarrow> string option"

definition ls_fine :: ls_io where
  "ls_fine = \<lparr>ls_get_throws = Map.empty, ls_set_throws = Map.empty, ls_remove_throws = Map.empty\<rparr>"

definition get_item :: "ls_io \<Rightarrow> string \<Rightarrow> local_storage \<Rightarrow> string + string option" where
  "get_item io k st = (case ls_get_throws io k of Some e \<Rightarrow> Inl e | None \<Rightarrow> Inr (st k))"

definition set_item :: "ls_io \<Rightarrow> string \<Rightarrow> string \<Rightarrow> local_storage \<Rightarrow> (string + unit) \<times> local_storage" where
  "set_item io k v st =
     (case ls_set_throws io k of Some e \<Rightarrow> (Inl e, st) | None \<Rightarrow> (Inr (), st(k \<mapsto> v)))"

definition remove_item :: "ls_io \<Rightarrow> string \<Rightarrow> local_storage \<Rightarrow> (string + unit) \<times> local_storage" where
  "remove_item io k st =
     (case ls_remove_throws io k of Some e \<Rightarrow> (Inl e, st) | None \<Rightarrow> (Inr (), st(k := None)))"

datatype wasm_storage_error = WSerialization string | WStorage string | WNotFound string

fun show_wasm_storage_error :: "wasm_storage_error \<Rightarrow> string" where
  "show_wasm_storage_error (WSerialization e) = ''Serialization error: '' @ e"
| "show_wasm_storage_error (WStorage e) = ''Storage error: '' @ e"
| "show_wasm_storage_error (WNotFound e) = ''Not found: '' @ e"

text \<open>
  \<open>window().local_storage()\<close>: no window, a call that throws, or whether there is a storage.
\<close>

type_synonym window = "(string + bool) option"

definition window_storage :: "window \<Rightarrow> wasm_storage_error + unit" where
  "window_storage win =
     (case win of
        None \<Rightarrow> Inl (WStorage ''No window'')
      | Some (Inl e) \<Rightarrow> Inl (WStorage e)
      | Some (Inr False) \<Rightarrow> Inl (WStorage ''No local storage'')
      | Some (Inr True) \<Rightarrow> Inr ())"

section \<open>The receipt store\<close>

record wasm_lib =
  wl_id_string :: "uuid \<Rightarrow> string"
  wl_receipt_to_string :: "receipt \<Rightarrow> string + string"
  wl_receipt_from_str :: "string \<Rightarrow> string + receipt"
  wl_ids_to_string :: "string list \<Rightarrow> string + string"
  wl_ids_from_str :: "string \<Rightarrow> string + string list"

record wasm_receipt_store = wr_prefix :: string

definition new_wasm_receipt_store :: "window \<Rightarrow> string \<Rightarrow> wasm_storage_error + wasm_receipt_store" where
  "new_wasm_receipt_store win namespace =
     (case window_storage win of
        Inl e \<Rightarrow> Inl e
      | Inr _ \<Rightarrow> Inr \<lparr>wr_prefix = ''av_receipts_'' @ namespace @ ''_''\<rparr>)"

definition wr_key_str :: "wasm_receipt_store \<Rightarrow> string \<Rightarrow> string" where
  "wr_key_str ws i = wr_prefix ws @ i"

definition wr_key :: "wasm_lib \<Rightarrow> wasm_receipt_store \<Rightarrow> receipt_id \<Rightarrow> string" where
  "wr_key lib ws i = wr_prefix ws @ wl_id_string lib i"

definition wr_action_key :: "wasm_lib \<Rightarrow> wasm_receipt_store \<Rightarrow> action_id \<Rightarrow> string" where
  "wr_action_key lib ws a = wr_prefix ws @ ''by_action_'' @ wl_id_string lib a"

definition wr_get_action_ids ::
  "wasm_lib \<Rightarrow> wasm_receipt_store \<Rightarrow> ls_io \<Rightarrow> action_id \<Rightarrow> local_storage
   \<Rightarrow> wasm_storage_error + string list" where
  "wr_get_action_ids lib ws io a st =
     (case get_item io (wr_action_key lib ws a) st of
        Inl e \<Rightarrow> Inl (WStorage e)
      | Inr None \<Rightarrow> Inr []
      | Inr (Some js) \<Rightarrow>
          (case wl_ids_from_str lib js of Inl e \<Rightarrow> Inl (WSerialization e) | Inr ids \<Rightarrow> Inr ids))"

definition wr_store ::
  "wasm_lib \<Rightarrow> wasm_receipt_store \<Rightarrow> ls_io \<Rightarrow> receipt \<Rightarrow> local_storage
   \<Rightarrow> (wasm_storage_error + unit) \<times> local_storage" where
  "wr_store lib ws io r st =
     (case wl_receipt_to_string lib r of
        Inl e \<Rightarrow> (Inl (WSerialization e), st)
      | Inr js \<Rightarrow>
          (case set_item io (wr_key lib ws (rc_id r)) js st of
             (Inl e, st1) \<Rightarrow> (Inl (WStorage e), st1)
           | (Inr _, st1) \<Rightarrow>
               let ids = (case wr_get_action_ids lib ws io (rc_action_id r) st1 of
                            Inl _ \<Rightarrow> [] | Inr ids \<Rightarrow> ids);
                   rid = wl_id_string lib (rc_id r)
               in if rid \<in> set ids then (Inr (), st1)
                  else case wl_ids_to_string lib (ids @ [rid]) of
                    Inl e \<Rightarrow> (Inl (WSerialization e), st1)
                  | Inr ids_js \<Rightarrow>
                      (case set_item io (wr_action_key lib ws (rc_action_id r)) ids_js st1 of
                         (Inl e, st2) \<Rightarrow> (Inl (WStorage e), st2)
                       | (Inr _, st2) \<Rightarrow> (Inr (), st2))))"

definition wr_get ::
  "wasm_lib \<Rightarrow> wasm_receipt_store \<Rightarrow> ls_io \<Rightarrow> receipt_id \<Rightarrow> local_storage
   \<Rightarrow> wasm_storage_error + receipt option" where
  "wr_get lib ws io i st =
     (case get_item io (wr_key lib ws i) st of
        Inr (Some js) \<Rightarrow>
          (case wl_receipt_from_str lib js of Inl e \<Rightarrow> Inl (WSerialization e) | Inr r \<Rightarrow> Inr (Some r))
      | Inr None \<Rightarrow> Inr None
      | Inl e \<Rightarrow> Inl (WStorage e))"

definition wr_read_listed ::
  "wasm_lib \<Rightarrow> wasm_receipt_store \<Rightarrow> ls_io \<Rightarrow> local_storage \<Rightarrow> string \<Rightarrow> receipt option" where
  "wr_read_listed lib ws io st i =
     (case get_item io (wr_key_str ws i) st of
        Inr (Some js) \<Rightarrow> (case wl_receipt_from_str lib js of Inl _ \<Rightarrow> None | Inr r \<Rightarrow> Some r)
      | _ \<Rightarrow> None)"

definition wr_list_by_action ::
  "wasm_lib \<Rightarrow> wasm_receipt_store \<Rightarrow> ls_io \<Rightarrow> action_id \<Rightarrow> local_storage
   \<Rightarrow> wasm_storage_error + receipt list" where
  "wr_list_by_action lib ws io a st =
     (case wr_get_action_ids lib ws io a st of
        Inl e \<Rightarrow> Inl e
      | Inr ids \<Rightarrow> Inr (List.map_filter (wr_read_listed lib ws io st) ids))"

definition wr_exists ::
  "wasm_lib \<Rightarrow> wasm_receipt_store \<Rightarrow> ls_io \<Rightarrow> receipt_id \<Rightarrow> local_storage \<Rightarrow> wasm_storage_error + bool" where
  "wr_exists lib ws io i st =
     (case get_item io (wr_key lib ws i) st of
        Inl e \<Rightarrow> Inl (WStorage e) | Inr found \<Rightarrow> Inr (found \<noteq> None))"

section \<open>The idempotency store\<close>

datatype wasm_claim = WClaimed | WInFlight | WCompleted

record wasm_idempotency_store = wi_prefix :: string

definition new_wasm_idempotency_store ::
  "window \<Rightarrow> string \<Rightarrow> wasm_storage_error + wasm_idempotency_store" where
  "new_wasm_idempotency_store win namespace =
     (case window_storage win of
        Inl e \<Rightarrow> Inl e
      | Inr _ \<Rightarrow> Inr \<lparr>wi_prefix = ''av_idempotency_'' @ namespace @ ''_''\<rparr>)"

definition wi_key :: "wasm_idempotency_store \<Rightarrow> string \<Rightarrow> string" where
  "wi_key ws k = wi_prefix ws @ k"

definition wi_claim_or_check ::
  "wasm_idempotency_store \<Rightarrow> ls_io \<Rightarrow> string \<Rightarrow> local_storage
   \<Rightarrow> (wasm_storage_error + wasm_claim \<times> verification_result option) \<times> local_storage" where
  "wi_claim_or_check ws io k st =
     (case get_item io (wi_key ws k) st of
        Inr (Some v) \<Rightarrow>
          if v = ''in_flight'' then (Inr (WInFlight, None), st)
          else if v = ''verified'' then (Inr (WCompleted, Some Verified), st)
          else if v = ''failed'' then (Inr (WCompleted, Some Failed), st)
          else if v = ''unknown'' then (Inr (WCompleted, Some Unknown), st)
          else if v = ''partial'' then (Inr (WCompleted, Some Partial), st)
          else if v = ''duplicate'' then (Inr (WCompleted, Some Duplicate), st)
          else (Inl (WStorage (''Invalid state: '' @ v)), st)
      | Inr None \<Rightarrow>
          (case set_item io (wi_key ws k) ''in_flight'' st of
             (Inl e, st1) \<Rightarrow> (Inl (WStorage e), st1)
           | (Inr _, st1) \<Rightarrow> (Inr (WClaimed, None), st1))
      | Inl e \<Rightarrow> (Inl (WStorage e), st))"

fun stored_verdict :: "verification_result \<Rightarrow> string" where
  "stored_verdict Verified = ''verified''"
| "stored_verdict Failed = ''failed''"
| "stored_verdict Unknown = ''unknown''"
| "stored_verdict Partial = ''partial''"
| "stored_verdict Duplicate = ''duplicate''"

definition wi_complete ::
  "wasm_idempotency_store \<Rightarrow> ls_io \<Rightarrow> string \<Rightarrow> verification_result \<Rightarrow> local_storage
   \<Rightarrow> (wasm_storage_error + unit) \<times> local_storage" where
  "wi_complete ws io k v st =
     (case set_item io (wi_key ws k) (stored_verdict v) st of
        (Inl e, st1) \<Rightarrow> (Inl (WStorage e), st1) | (Inr _, st1) \<Rightarrow> (Inr (), st1))"

definition wi_release ::
  "wasm_idempotency_store \<Rightarrow> ls_io \<Rightarrow> string \<Rightarrow> local_storage
   \<Rightarrow> (wasm_storage_error + unit) \<times> local_storage" where
  "wi_release ws io k st =
     (case remove_item io (wi_key ws k) st of
        (Inl e, st1) \<Rightarrow> (Inl (WStorage e), st1) | (Inr _, st1) \<Rightarrow> (Inr (), st1))"

section \<open>The idempotency contract\<close>

text \<open>
  An answer as the executor's interface has it: only \<open>WClaimed\<close> makes the caller the owner; an
  error does not. A value that is no verdict is nobody's to claim, like a key in flight.
\<close>

definition ls_ok :: "ls_io \<Rightarrow> bool" where
  "ls_ok io \<longleftrightarrow> ls_get_throws io = Map.empty \<and> ls_set_throws io = Map.empty
     \<and> ls_remove_throws io = Map.empty"

lemma ls_ok_simps [simp]:
  "ls_ok io \<Longrightarrow> get_item io k st = Inr (st k)"
  "ls_ok io \<Longrightarrow> set_item io k v st = (Inr (), st(k \<mapsto> v))"
  "ls_ok io \<Longrightarrow> remove_item io k st = (Inr (), st(k := None))"
  by (simp_all add: ls_ok_def get_item_def set_item_def remove_item_def)

lemma ls_fine_ok [simp]: "ls_ok ls_fine"
  by (simp add: ls_ok_def ls_fine_def)

fun wasm_answer :: "wasm_storage_error + wasm_claim \<times> verification_result option \<Rightarrow> claim_answer" where
  "wasm_answer (Inr (WClaimed, v)) = (Claimed, None)"
| "wasm_answer (Inr (WInFlight, v)) = (AlreadyClaimed, None)"
| "wasm_answer (Inr (WCompleted, v)) = (AlreadyClaimed, v)"
| "wasm_answer (Inl e) = (AlreadyClaimed, None)"

definition wi_claim :: "wasm_idempotency_store \<Rightarrow> ls_io \<Rightarrow> string \<Rightarrow> local_storage
    \<Rightarrow> claim_answer \<times> local_storage" where
  "wi_claim ws io k st = (let (a, st') = wi_claim_or_check ws io k st in (wasm_answer a, st'))"

definition wi_view :: "wasm_idempotency_store \<Rightarrow> local_storage \<Rightarrow> string \<Rightarrow> entry_state option" where
  "wi_view ws st k =
     map_option (\<lambda>v. case parse_result v of None \<Rightarrow> InFlight | Some r \<Rightarrow> Completed r) (st (wi_key ws k))"

lemma wi_key_inject [simp]: "wi_key ws k = wi_key ws j \<longleftrightarrow> k = j"
  by (simp add: wi_key_def)

lemma wi_view_upd [simp]:
  "wi_view ws (st(wi_key ws k := x)) j = (if j = k then
     map_option (\<lambda>v. case parse_result v of None \<Rightarrow> InFlight | Some r \<Rightarrow> Completed r) x else wi_view ws st j)"
  by (simp add: wi_view_def)

lemma parse_stored_verdict [simp]: "parse_result (stored_verdict v) = Some v"
  by (cases v) (simp_all add: parse_result_def)

lemma parse_in_flight [simp]: "parse_result ''in_flight'' = None"
  by (simp add: parse_result_def)

lemma wi_claim_ok:
  "ls_ok io \<Longrightarrow> wi_claim ws io k st =
     (case wi_view ws st k of
        None \<Rightarrow> ((Claimed, None), st(wi_key ws k \<mapsto> ''in_flight''))
      | Some InFlight \<Rightarrow> ((AlreadyClaimed, None), st)
      | Some (Completed r) \<Rightarrow> ((AlreadyClaimed, Some r), st))"
  by (cases "st (wi_key ws k)")
    (simp_all add: wi_claim_def wi_claim_or_check_def wi_view_def parse_result_def)

interpretation wasm_idem: idempotency_store
  "wi_view ws" ls_ok "\<lambda>a b. a \<noteq> b" "wi_claim ws"
  "\<lambda>io k v st. snd (wi_complete ws io k v st)" "\<lambda>io k st. snd (wi_release ws io k st)" for ws
  by unfold_locales
    (simp_all add: wi_claim_ok wi_complete_def wi_release_def split: option.split entry_state.split)

section \<open>The receipt store contract\<close>

definition wasm_lib_ok :: "wasm_lib \<Rightarrow> bool" where
  "wasm_lib_ok lib \<longleftrightarrow> inj (wl_id_string lib)
     \<and> (\<forall>i j. wl_id_string lib i \<noteq> ''by_action_'' @ wl_id_string lib j)
     \<and> (\<forall>ids. \<exists>js. wl_ids_to_string lib ids = Inr js \<and> wl_ids_from_str lib js = Inr ids)"

definition wr_ok :: "wasm_lib \<Rightarrow> ls_io \<Rightarrow> receipt \<Rightarrow> local_storage \<Rightarrow> bool" where
  "wr_ok lib io r st \<longleftrightarrow> ls_ok io \<and> wasm_lib_ok lib
     \<and> (\<exists>js. wl_receipt_to_string lib r = Inr js \<and> wl_receipt_from_str lib js = Inr r)"

definition wr_ids :: "wasm_lib \<Rightarrow> wasm_receipt_store \<Rightarrow> action_id \<Rightarrow> local_storage \<Rightarrow> string list" where
  "wr_ids lib ws a st = (case wr_get_action_ids lib ws ls_fine a st of Inl _ \<Rightarrow> [] | Inr ids \<Rightarrow> ids)"

text \<open>Every identifier in an index is the printed form of one whose receipt is there.\<close>

definition wr_wf :: "wasm_lib \<Rightarrow> wasm_receipt_store \<Rightarrow> local_storage \<Rightarrow> bool" where
  "wr_wf lib ws st \<longleftrightarrow> (\<forall>a. \<forall>x \<in> set (wr_ids lib ws a st).
     \<exists>i. x = wl_id_string lib i \<and> st (wr_key lib ws i) \<noteq> None)"

definition wr_get_fine where
  "wr_get_fine lib ws i st = (case wr_get lib ws ls_fine i st of Inl _ \<Rightarrow> None | Inr x \<Rightarrow> x)"

definition wr_list_fine where
  "wr_list_fine lib ws a st = (case wr_list_by_action lib ws ls_fine a st of Inl _ \<Rightarrow> [] | Inr rs \<Rightarrow> rs)"

definition wr_exists_fine where
  "wr_exists_fine lib ws i st \<longleftrightarrow> wr_exists lib ws ls_fine i st = Inr True"

fun as_store_error :: "wasm_storage_error \<Rightarrow> receipt_store_error" where
  "as_store_error (WSerialization e) = Serialize e"
| "as_store_error (WStorage e) = Persist e"
| "as_store_error (WNotFound e) = Persist e"

definition wr_store_as :: "wasm_lib \<Rightarrow> wasm_receipt_store \<Rightarrow> ls_io \<Rightarrow> receipt \<Rightarrow> local_storage
    \<Rightarrow> (receipt_store_error + unit) \<times> local_storage" where
  "wr_store_as lib ws io r st = map_prod (map_sum as_store_error id) id (wr_store lib ws io r st)"

lemma wr_keys [simp]:
  "wasm_lib_ok lib \<Longrightarrow> wr_key lib ws i = wr_key lib ws j \<longleftrightarrow> i = j"
  "wasm_lib_ok lib \<Longrightarrow> wr_action_key lib ws a = wr_action_key lib ws b \<longleftrightarrow> a = b"
  "wasm_lib_ok lib \<Longrightarrow> wr_key lib ws i \<noteq> wr_action_key lib ws b"
  "wasm_lib_ok lib \<Longrightarrow> wr_action_key lib ws b \<noteq> wr_key lib ws i"
proof -
  assume lib: "wasm_lib_ok lib"
  show "wr_key lib ws i = wr_key lib ws j \<longleftrightarrow> i = j" "wr_action_key lib ws a = wr_action_key lib ws b \<longleftrightarrow> a = b"
    using lib by (auto simp: wasm_lib_ok_def wr_key_def wr_action_key_def dest: injD)
  show "wr_key lib ws i \<noteq> wr_action_key lib ws b"
    using lib by (simp add: wasm_lib_ok_def wr_key_def wr_action_key_def)
  then show "wr_action_key lib ws b \<noteq> wr_key lib ws i" by (rule not_sym)
qed

lemma wr_key_str_id: "wr_key_str ws (wl_id_string lib i) = wr_key lib ws i"
  by (simp add: wr_key_str_def wr_key_def)

lemma wr_exists_fine_iff: "wr_exists_fine lib ws i st \<longleftrightarrow> st (wr_key lib ws i) \<noteq> None"
  by (simp add: wr_exists_fine_def wr_exists_def)

lemma wr_get_fine_eq:
  "wr_get_fine lib ws i st = Option.bind (st (wr_key lib ws i))
     (\<lambda>js. case wl_receipt_from_str lib js of Inl _ \<Rightarrow> None | Inr r \<Rightarrow> Some r)"
  by (auto simp: wr_get_fine_def wr_get_def split: option.split sum.split)

lemma wr_ids_eq:
  "wr_ids lib ws a st = (case st (wr_action_key lib ws a) of
     None \<Rightarrow> [] | Some js \<Rightarrow> (case wl_ids_from_str lib js of Inl _ \<Rightarrow> [] | Inr ids \<Rightarrow> ids))"
  by (auto simp: wr_ids_def wr_get_action_ids_def split: option.split sum.split)

lemma wr_list_fine_eq:
  "wr_list_fine lib ws a st = List.map_filter (wr_read_listed lib ws ls_fine st) (wr_ids lib ws a st)"
  by (auto simp: wr_list_fine_def wr_list_by_action_def wr_ids_def List.map_filter_simps split: sum.split)

lemma wr_read_listed_id:
  "wr_read_listed lib ws ls_fine st (wl_id_string lib i) = wr_get_fine lib ws i st"
  by (auto simp: wr_read_listed_def wr_get_fine_eq wr_key_str_id split: option.split sum.split)

text \<open>What \<open>store\<close> does when nothing fails, seen through the keys it owns.\<close>

lemma wr_store_ids_ok:
  assumes "ls_ok io"
  shows "(case wr_get_action_ids lib ws io a st of Inl _ \<Rightarrow> [] | Inr ids \<Rightarrow> ids) = wr_ids lib ws a st"
  using assms by (simp add: wr_ids_def wr_get_action_ids_def)

lemma wr_store_done:
  assumes "wr_ok lib io r st"
  obtains js where "wl_receipt_from_str lib js = Inr r"
    and "fst (wr_store lib ws io r st) = Inr ()"
    and "\<And>i. snd (wr_store lib ws io r st) (wr_key lib ws i)
          = (if i = rc_id r then Some js else st (wr_key lib ws i))"
    and "\<And>a. wr_ids lib ws a (snd (wr_store lib ws io r st)) =
          (if a = rc_action_id r \<and> wl_id_string lib (rc_id r) \<notin> set (wr_ids lib ws a st)
           then wr_ids lib ws a st @ [wl_id_string lib (rc_id r)] else wr_ids lib ws a st)"
proof -
  from assms have io: "ls_ok io" and lib: "wasm_lib_ok lib" by (simp_all add: wr_ok_def)
  from assms obtain js where js: "wl_receipt_to_string lib r = Inr js" "wl_receipt_from_str lib js = Inr r"
    by (auto simp: wr_ok_def)
  let ?id = "wl_id_string lib (rc_id r)" and ?ids = "wr_ids lib ws (rc_action_id r) st"
  let ?st = "st(wr_key lib ws (rc_id r) \<mapsto> js)"
  have ids: "wr_ids lib ws a ?st = wr_ids lib ws a st" for a
    using lib by (simp add: wr_ids_eq)
  from lib obtain ijs where ijs: "wl_ids_to_string lib (?ids @ [?id]) = Inr ijs"
      "wl_ids_from_str lib ijs = Inr (?ids @ [?id])"
    unfolding wasm_lib_ok_def by blast
  have eq: "wr_store lib ws io r st = (Inr (), if ?id \<in> set ?ids then ?st
      else ?st(wr_action_key lib ws (rc_action_id r) \<mapsto> ijs))"
    using io js ijs by (simp add: wr_store_def Let_def wr_store_ids_ok ids)
  have upd: "wr_ids lib ws a (?st(wr_action_key lib ws (rc_action_id r) \<mapsto> ijs)) =
      (if a = rc_action_id r then ?ids @ [?id] else wr_ids lib ws a st)" for a
    using lib ijs by (simp add: wr_ids_eq)
  show thesis
    by (rule that [OF js(2)]) (use lib in \<open>auto simp: eq ids upd\<close>)
qed

lemma wr_list_store:
  assumes "wr_wf lib ws st" "wr_ok lib io r st" "\<not> wr_exists_fine lib ws (rc_id r) st"
  shows "wr_list_fine lib ws a (snd (wr_store lib ws io r st)) =
    wr_list_fine lib ws a st @ (if rc_action_id r = a then [r] else [])"
proof -
  let ?st = "snd (wr_store lib ws io r st)" and ?id = "wl_id_string lib (rc_id r)"
  obtain js where js: "wl_receipt_from_str lib js = Inr r"
    and key: "\<And>i. ?st (wr_key lib ws i) = (if i = rc_id r then Some js else st (wr_key lib ws i))"
    and ids: "\<And>a. wr_ids lib ws a ?st = (if a = rc_action_id r \<and> ?id \<notin> set (wr_ids lib ws a st)
           then wr_ids lib ws a st @ [?id] else wr_ids lib ws a st)"
    by (rule wr_store_done [OF assms(2), of ws]) blast
  from assms have known: "\<exists>i. x = wl_id_string lib i \<and> i \<noteq> rc_id r" if "x \<in> set (wr_ids lib ws b st)" for b x
    using that unfolding wr_wf_def wr_exists_fine_iff by blast
  have get: "wr_get_fine lib ws i ?st = (if i = rc_id r then Some r else wr_get_fine lib ws i st)" for i
    by (simp add: wr_get_fine_eq key js)
  have old: "List.map_filter (wr_read_listed lib ws ls_fine ?st) (wr_ids lib ws b st)
      = wr_list_fine lib ws b st" for b
    unfolding wr_list_fine_eq
    by (rule map_filter_cong) (use known in \<open>fastforce simp: wr_read_listed_id get\<close>)
  have "?id \<notin> set (wr_ids lib ws b st)" for b
    using known assms(2) by (force simp: wr_ok_def wasm_lib_ok_def dest: injD)
  then show ?thesis
    by (auto simp: wr_list_fine_eq [of lib ws a ?st] ids map_filter_append old
        List.map_filter_simps wr_read_listed_id get)
qed

interpretation wasm_rs: receipt_store
  "wr_wf lib ws" "wr_ok lib" "wr_store_as lib ws"
  "wr_get_fine lib ws" "wr_list_fine lib ws" "wr_exists_fine lib ws" for lib ws
proof
  fix st io r i a
  assume wf: "wr_wf lib ws st" and ok: "wr_ok lib io r st"
  have snd_as: "snd (wr_store_as lib ws io r st) = snd (wr_store lib ws io r st)"
    by (simp add: wr_store_as_def)
  obtain js where js: "wl_receipt_from_str lib js = Inr r"
    and stored: "fst (wr_store lib ws io r st) = Inr ()"
    and key: "\<And>i. snd (wr_store lib ws io r st) (wr_key lib ws i)
          = (if i = rc_id r then Some js else st (wr_key lib ws i))"
    and ids: "\<And>a. wr_ids lib ws a (snd (wr_store lib ws io r st)) =
          (if a = rc_action_id r \<and> wl_id_string lib (rc_id r) \<notin> set (wr_ids lib ws a st)
           then wr_ids lib ws a st @ [wl_id_string lib (rc_id r)] else wr_ids lib ws a st)"
    by (rule wr_store_done [OF ok, of ws]) blast
  show "fst (wr_store_as lib ws io r st) = Inr ()"
    using stored by (simp add: wr_store_as_def)
  show "wr_wf lib ws (snd (wr_store_as lib ws io r st))"
    unfolding snd_as wr_wf_def
  proof (intro allI ballI)
    fix b x
    assume "x \<in> set (wr_ids lib ws b (snd (wr_store lib ws io r st)))"
    then have "x = wl_id_string lib (rc_id r) \<or> x \<in> set (wr_ids lib ws b st)"
      by (auto simp: ids split: if_splits)
    with wf show "\<exists>i. x = wl_id_string lib i \<and> snd (wr_store lib ws io r st) (wr_key lib ws i) \<noteq> None"
      unfolding wr_wf_def key by (metis option.distinct(1))
  qed
  show "wr_get_fine lib ws i (snd (wr_store_as lib ws io r st)) =
      (if i = rc_id r then Some r else wr_get_fine lib ws i st)"
    by (simp add: snd_as wr_get_fine_eq key js)
  show "wr_exists_fine lib ws i (snd (wr_store_as lib ws io r st)) \<longleftrightarrow>
      i = rc_id r \<or> wr_exists_fine lib ws i st"
    by (simp add: snd_as wr_exists_fine_iff key)
  show "\<not> wr_exists_fine lib ws (rc_id r) st \<Longrightarrow>
      wr_list_fine lib ws a (snd (wr_store_as lib ws io r st)) =
        wr_list_fine lib ws a st @ (if rc_action_id r = a then [r] else [])"
    unfolding snd_as by (rule wr_list_store [OF wf ok])
qed

section \<open>Properties\<close>

text \<open>
  Over any interleaving of claims of a key with operations on other
  keys, with the key vacant at first, exactly one caller of the browser store is told that it
  owns the key.
\<close>

theorem wasm_exactly_one_winner:
  assumes "\<And>op. op \<in> set ops \<Longrightarrow> op = OpClaim k \<or> op_key op \<noteq> k" and "st (wi_key ws k) = None"
  shows "wins k (fst (run_ops (wi_claim ws) (\<lambda>io k v st. snd (wi_complete ws io k v st))
      (\<lambda>io k st. snd (wi_release ws io k st)) (map (Pair ls_fine) ops) st))
    = (if OpClaim k \<in> set ops then 1 else 0)"
  using wasm_idem.exactly_one_winner [of "map (Pair ls_fine) ops" k ws st] assms
  by (auto simp: wi_view_def image_iff)

theorem wasm_exactly_one_winner_witness:
  "wins ''k'' (fst (run_ops (wi_claim \<lparr>wi_prefix = ''p''\<rparr>)
      (\<lambda>io k v st. snd (wi_complete \<lparr>wi_prefix = ''p''\<rparr> io k v st))
      (\<lambda>io k st. snd (wi_release \<lparr>wi_prefix = ''p''\<rparr> io k st))
      (map (Pair ls_fine) [OpClaim ''k'', OpRelease ''j'', OpClaim ''k'']) Map.empty)) = 1"
  by (subst wasm_exactly_one_winner) auto

text \<open>
  Namespaces are not separate. The store of the namespace
  \<open>n_m\<close> answers for a key as the store of the namespace \<open>n\<close> does for the key \<open>m_k\<close>, and leaves
  the same storage behind: a key claimed by an application in one namespace is taken for
  another in the other.
\<close>

theorem wasm_namespaces_overlap:
  assumes "new_wasm_idempotency_store win (n @ ''_'' @ m) = Inr a"
    and "new_wasm_idempotency_store win n = Inr b"
  shows "wi_claim_or_check a io k st = wi_claim_or_check b io (m @ ''_'' @ k) st"
proof -
  from assms have "wi_key a k = wi_key b (m @ ''_'' @ k)"
    by (auto simp: new_wasm_idempotency_store_def wi_key_def split: sum.splits)
  then show ?thesis unfolding wi_claim_or_check_def by (rule ssubst) (rule refl)
qed

theorem wasm_namespaces_overlap_witness:
  "wi_claim_or_check \<lparr>wi_prefix = ''av_idempotency_shop_eu_''\<rparr> ls_fine ''order'' Map.empty
   = wi_claim_or_check \<lparr>wi_prefix = ''av_idempotency_shop_''\<rparr> ls_fine ''eu_order'' Map.empty"
  using wasm_namespaces_overlap [of "Some (Inr True)" "''shop''" "''eu''"
      "\<lparr>wi_prefix = ''av_idempotency_shop_eu_''\<rparr>" "\<lparr>wi_prefix = ''av_idempotency_shop_''\<rparr>"
      ls_fine "''order''" Map.empty]
  by (simp add: new_wasm_idempotency_store_def window_storage_def)

text \<open>
  When the index of an action cannot be read, \<open>store\<close> still answers that
  all is well and replaces it by one with the new receipt only. Every receipt stored for the
  action before is still there under its identifier, and never listed again.
\<close>

theorem wasm_unreadable_index_is_replaced:
  assumes "ls_get_throws io (wr_action_key lib ws (rc_action_id r)) = Some e"
    and "ls_set_throws io = Map.empty"
    and "wasm_lib_ok lib" "wl_receipt_to_string lib r = Inr js" "wl_receipt_from_str lib js = Inr r"
    and "wr_store lib ws io r st = (res, st')"
  shows "res = Inr ()
    \<and> wr_list_by_action lib ws ls_fine (rc_action_id r) st' = Inr [r]
    \<and> (\<forall>i. i \<noteq> rc_id r \<longrightarrow> wr_get lib ws ls_fine i st' = wr_get lib ws ls_fine i st)"
proof -
  let ?id = "wl_id_string lib (rc_id r)"
  from assms(3) obtain ijs where ijs: "wl_ids_to_string lib [?id] = Inr ijs"
      "wl_ids_from_str lib ijs = Inr [?id]"
    unfolding wasm_lib_ok_def by blast
  have "wr_store lib ws io r st =
      (Inr (), st(wr_key lib ws (rc_id r) \<mapsto> js, wr_action_key lib ws (rc_action_id r) \<mapsto> ijs))"
    using assms(1,2,4) ijs
    by (simp add: wr_store_def wr_get_action_ids_def get_item_def set_item_def Let_def)
  with assms(3,5,6) ijs show ?thesis
    by (auto simp: wr_list_by_action_def wr_get_action_ids_def wr_get_def List.map_filter_simps
        wr_read_listed_def wr_key_str_id)
qed

text \<open>An instance: identifiers in decimal, lists of them with every character marked.\<close>

fun mark :: "string \<Rightarrow> string" where
  "mark [] = '',''"
| "mark (c # cs) = CHR ''.'' # c # mark cs"

fun unmark :: "string \<Rightarrow> string list" where
  "unmark [] = []"
| "unmark [c] = [[]]"
| "unmark (d # c # cs) =
     (if d = CHR ''.'' then (case unmark cs of [] \<Rightarrow> [[c]] | x # xs \<Rightarrow> (c # x) # xs)
      else [] # unmark (c # cs))"

lemma unmark_marked: "unmark (mark x @ rest) = x # unmark rest"
  by (induction x) (cases rest; simp)+

lemma unmark_marks: "unmark (concat (map mark xs)) = xs"
  by (induction xs) (simp_all add: unmark_marked)

definition demo_wasm_lib :: wasm_lib where
  "demo_wasm_lib = \<lparr>wl_id_string = (\<lambda>u. show_nat (unat u)),
     wl_receipt_to_string = (\<lambda>r. Inr (show_nat (unat (rc_id r)))),
     wl_receipt_from_str = (\<lambda>s. case parse_digits 0 s of None \<Rightarrow> Inl s | Some n \<Rightarrow> Inr (demo_receipt n)),
     wl_ids_to_string = (\<lambda>ids. Inr (concat (map mark ids))),
     wl_ids_from_str = (\<lambda>s. Inr (unmark s))\<rparr>"

lemma demo_wasm_lib_ok: "wasm_lib_ok demo_wasm_lib"
proof -
  have "show_nat n \<noteq> ''by_action_'' @ show_nat m" for n m
    using parse_digits_show_nat [of n] by (auto simp: digit_value_def)
  then show ?thesis
    by (auto simp: wasm_lib_ok_def demo_wasm_lib_def unmark_marks inj_def dest!: show_nat_inject
        intro: unsigned_word_eqI)
qed

theorem wasm_unreadable_index_is_replaced_witness:
  "\<exists>st'. wr_store demo_wasm_lib \<lparr>wr_prefix = ''p''\<rparr>
       (ls_fine\<lparr>ls_get_throws := (\<lambda>_. Some ''SecurityError'')\<rparr>) (demo_receipt 8)
       [''p7'' \<mapsto> ''7'', ''pby_action_1'' \<mapsto> ''.7,''] = (Inr (), st')
     \<and> wr_list_by_action demo_wasm_lib \<lparr>wr_prefix = ''p''\<rparr> ls_fine (rc_action_id (demo_receipt 8)) st'
        = Inr [demo_receipt 8]"
proof -
  let ?io = "ls_fine\<lparr>ls_get_throws := (\<lambda>_. Some ''SecurityError'')\<rparr>"
  let ?st = "[''p7'' \<mapsto> ''7'', ''pby_action_1'' \<mapsto> ''.7,'']"
  obtain res st' where run: "wr_store demo_wasm_lib \<lparr>wr_prefix = ''p''\<rparr> ?io (demo_receipt 8) ?st = (res, st')"
    by (cases "wr_store demo_wasm_lib \<lparr>wr_prefix = ''p''\<rparr> ?io (demo_receipt 8) ?st")
  have "unat (rc_id (demo_receipt 8)) = 8" by (simp add: demo_receipt_def)
  then show ?thesis
    using wasm_unreadable_index_is_replaced [OF _ _ demo_wasm_lib_ok _ _ run] run
    by (simp add: demo_wasm_lib_def ls_fine_def)
qed

end
