(* ===== verification/Control_Center.thy ===== *)
theory Control_Center
  imports Receipt
begin

text \<open>
  The Control Center client of \<open>agentverify-http/src/client.rs\<close>: its configuration and builder,
  the redaction of a receipt, and the submission of a receipt with and without the timeout
  rule. The HTTP client, the derived \<open>Serialize\<close> of a receipt, the JSON writer and the reader of
  the answer are parameters; a request takes and returns the state of the outside.
\<close>

section \<open>Errors and configuration\<close>

datatype control_center_error =
    CcHttpError string
  | CcInvalidUrl string
  | CcParseError string
  | CcTimeout u64
  | CcRejected string
  | CcUnauthorized
  | CcForbidden

fun show_cc_error :: "control_center_error \<Rightarrow> string" where
  "show_cc_error (CcHttpError e) = ''HTTP request failed: '' @ e"
| "show_cc_error (CcInvalidUrl u) = ''Invalid URL: '' @ u"
| "show_cc_error (CcParseError e) = ''Response parse error: '' @ e"
| "show_cc_error (CcTimeout ms) = ''Request timeout after '' @ show_nat (unat ms) @ ''ms''"
| "show_cc_error (CcRejected why) = ''Server rejected receipt: '' @ why"
| "show_cc_error CcUnauthorized = ''Unauthorized - check credentials''"
| "show_cc_error CcForbidden = ''Forbidden - not authorized for this resource''"

record cc_config =
  cc_base_url :: string
  cc_bearer_token :: "string option"
  cc_timeout_ms :: u64
  max_receipt_size :: nat
  redact_fields :: "string list"

definition new_cc_config :: "string \<Rightarrow> cc_config" where
  "new_cc_config url = \<lparr>cc_base_url = url, cc_bearer_token = None, cc_timeout_ms = 10000,
     max_receipt_size = 1024 * 1024, redact_fields = []\<rparr>"

definition with_bearer_token :: "string \<Rightarrow> cc_config \<Rightarrow> cc_config" where
  "with_bearer_token token cfg = cfg\<lparr>cc_bearer_token := Some token\<rparr>"

definition cc_with_timeout :: "u64 \<Rightarrow> cc_config \<Rightarrow> cc_config" where
  "cc_with_timeout ms cfg = cfg\<lparr>cc_timeout_ms := ms\<rparr>"

definition with_redact_field :: "string \<Rightarrow> cc_config \<Rightarrow> cc_config" where
  "with_redact_field field cfg = cfg\<lparr>redact_fields := redact_fields cfg @ [field]\<rparr>"

definition default_cc_config :: cc_config where
  "default_cc_config = new_cc_config ''http://localhost:8080''"

record submission_response =
  sr_accepted :: bool
  sr_correlation_id :: "string option"
  sr_error :: "string option"

section \<open>The client\<close>

text \<open>
  \<open>cc_send\<close> sends a request: a timeout, another failure, or the status and the body, which may
  fail to be read. \<open>receipt_to_value\<close> and \<open>value_to_string\<close> are \<open>serde_json::to_value\<close> and
  \<open>to_string\<close>; \<open>response_from_str\<close> reads an answer.
\<close>

datatype send_failure = SendTimedOut | SendFailed string

record cc_request =
  rq_url :: string
  rq_bearer :: "string option"
  rq_headers :: "(string \<times> string) list"
  rq_body :: string

record ('cl, 'w) cc_lib =
  cc_http_client :: "u64 \<Rightarrow> string + 'cl"
  cc_send :: "'cl \<Rightarrow> cc_request \<Rightarrow> 'w \<Rightarrow> (send_failure + nat \<times> (string + string)) \<times> 'w"
  receipt_to_value :: "receipt \<Rightarrow> json option"
  value_to_string :: "json \<Rightarrow> string + string"
  response_from_str :: "string \<Rightarrow> string + submission_response"

record 'cl cc_client =
  cc_config :: cc_config
  cc_http :: 'cl

definition new_cc_client ::
  "('cl, 'w) cc_lib \<Rightarrow> cc_config \<Rightarrow> control_center_error + 'cl cc_client" where
  "new_cc_client lib cfg =
     (case cc_http_client lib (cc_timeout_ms cfg) of
        Inl e \<Rightarrow> Inl (CcHttpError e)
      | Inr cl \<Rightarrow> Inr \<lparr>cc_config = cfg, cc_http = cl\<rparr>)"

definition REDACTED :: json where
  "REDACTED = JString ''[REDACTED]''"

fun redact_field :: "string \<Rightarrow> json \<Rightarrow> json"
and redact_entries :: "string \<Rightarrow> (string \<times> json) list \<Rightarrow> (string \<times> json) list" where
  "redact_field path (JObject es) = JObject (redact_entries path es)"
| "redact_field path JNull = JNull"
| "redact_field path (JBool b) = JBool b"
| "redact_field path (JNumber n) = JNumber n"
| "redact_field path (JString s) = JString s"
| "redact_field path (JArray xs) = JArray xs"
| "redact_entries path [] = []"
| "redact_entries path ((key, val) # es) =
     (key, if key = path \<or> path = ''*'' then REDACTED else redact_field path val)
     # redact_entries path es"

definition redact_receipt :: "('cl, 'w) cc_lib \<Rightarrow> cc_config \<Rightarrow> receipt \<Rightarrow> json" where
  "redact_receipt lib cfg r =
     fold redact_field (redact_fields cfg)
       (case receipt_to_value lib r of None \<Rightarrow> JNull | Some v \<Rightarrow> v)"

definition submission_request :: "cc_config \<Rightarrow> receipt \<Rightarrow> string \<Rightarrow> cc_request" where
  "submission_request cfg r body =
     \<lparr>rq_url = cc_base_url cfg @ ''/api/v1/verification-receipts'',
      rq_bearer = cc_bearer_token cfg,
      rq_headers = [(''Content-Type'', ''application/json''), (''X-Idempotency-Key'', rc_digest r)],
      rq_body = body\<rparr>"

definition submit_receipt ::
  "('cl, 'w) cc_lib \<Rightarrow> 'cl cc_client \<Rightarrow> receipt \<Rightarrow> 'w
   \<Rightarrow> (control_center_error + submission_response) \<times> 'w" where
  "submit_receipt lib c r w =
     (case value_to_string lib (redact_receipt lib (cc_config c) r) of
        Inl e \<Rightarrow> (Inl (CcParseError e), w)
      | Inr body \<Rightarrow>
          if length body > max_receipt_size (cc_config c)
          then (Inr \<lparr>sr_accepted = False, sr_correlation_id = None,
                  sr_error = Some ''Receipt exceeds maximum size''\<rparr>, w)
          else
            case cc_send lib (cc_http c) (submission_request (cc_config c) r body) w of
              (Inl SendTimedOut, w') \<Rightarrow> (Inl (CcTimeout (cc_timeout_ms (cc_config c))), w')
            | (Inl (SendFailed e), w') \<Rightarrow> (Inl (CcHttpError e), w')
            | (Inr (status, text), w') \<Rightarrow>
                if status = 401 then (Inl CcUnauthorized, w')
                else if status = 403 then (Inl CcForbidden, w')
                else
                  case text of
                    Inl e \<Rightarrow> (Inl (CcParseError (''failed to read response: '' @ e)), w')
                  | Inr t \<Rightarrow>
                      (case response_from_str lib t of
                         Inl e \<Rightarrow> (Inl (CcParseError (''failed to parse response: '' @ e)), w')
                       | Inr resp \<Rightarrow> (Inr resp, w')))"

definition submit_receipt_with_unknown_on_timeout ::
  "('cl, 'w) cc_lib \<Rightarrow> 'cl cc_client \<Rightarrow> receipt \<Rightarrow> 'w
   \<Rightarrow> (control_center_error + submission_response) \<times> 'w" where
  "submit_receipt_with_unknown_on_timeout lib c r w =
     (case submit_receipt lib c r w of
        (Inl (CcTimeout ms), w') \<Rightarrow>
          (Inr \<lparr>sr_accepted = False, sr_correlation_id = None,
             sr_error = Some ''Timeout - submission status unknown''\<rparr>, w')
      | other \<Rightarrow> other)"

subsection \<open>The builder\<close>

record cc_builder = bd_config :: cc_config

definition new_builder :: cc_builder where
  "new_builder = \<lparr>bd_config = default_cc_config\<rparr>"

definition bd_base_url :: "string \<Rightarrow> cc_builder \<Rightarrow> cc_builder" where
  "bd_base_url url b = b\<lparr>bd_config := (bd_config b)\<lparr>cc_base_url := url\<rparr>\<rparr>"

definition bd_bearer_token :: "string \<Rightarrow> cc_builder \<Rightarrow> cc_builder" where
  "bd_bearer_token token b = b\<lparr>bd_config := (bd_config b)\<lparr>cc_bearer_token := Some token\<rparr>\<rparr>"

definition bd_timeout_ms :: "u64 \<Rightarrow> cc_builder \<Rightarrow> cc_builder" where
  "bd_timeout_ms ms b = b\<lparr>bd_config := (bd_config b)\<lparr>cc_timeout_ms := ms\<rparr>\<rparr>"

definition bd_max_receipt_size :: "nat \<Rightarrow> cc_builder \<Rightarrow> cc_builder" where
  "bd_max_receipt_size n b = b\<lparr>bd_config := (bd_config b)\<lparr>max_receipt_size := n\<rparr>\<rparr>"

definition bd_redact_field :: "string \<Rightarrow> cc_builder \<Rightarrow> cc_builder" where
  "bd_redact_field field b =
     b\<lparr>bd_config := (bd_config b)\<lparr>redact_fields := redact_fields (bd_config b) @ [field]\<rparr>\<rparr>"

definition bd_build ::
  "('cl, 'w) cc_lib \<Rightarrow> cc_builder \<Rightarrow> control_center_error + 'cl cc_client" where
  "bd_build lib b = new_cc_client lib (bd_config b)"

section \<open>What redaction reaches\<close>

text \<open>
  The values that a document holds under a key, at the top or in objects nested directly in
  objects: the part of the document that the redaction walks over.
\<close>

fun exposed :: "string \<Rightarrow> json \<Rightarrow> json list"
and exposed_entries :: "string \<Rightarrow> (string \<times> json) list \<Rightarrow> json list" where
  "exposed f (JObject es) = exposed_entries f es"
| "exposed f JNull = []"
| "exposed f (JBool b) = []"
| "exposed f (JNumber n) = []"
| "exposed f (JString s) = []"
| "exposed f (JArray xs) = []"
| "exposed_entries f [] = []"
| "exposed_entries f ((k, v) # es) = (if k = f then [v] else []) @ exposed f v @ exposed_entries f es"

text \<open>Redacting a field leaves nothing else under it, and keeps what was redacted before.\<close>

lemma redacted_no_field [simp]: "exposed f REDACTED = []" "redact_field f REDACTED = REDACTED"
  by (simp_all add: REDACTED_def)

definition scrubbed :: "json list \<Rightarrow> bool" where
  "scrubbed xs \<longleftrightarrow> (\<forall>x \<in> set xs. x = REDACTED)"

lemma scrubbed_simps [simp]:
  "scrubbed []" "scrubbed (x # xs) \<longleftrightarrow> x = REDACTED \<and> scrubbed xs"
  "scrubbed (xs @ ys) \<longleftrightarrow> scrubbed xs \<and> scrubbed ys"
  by (auto simp: scrubbed_def)

lemma redact_field_scrubs:
  "scrubbed (exposed f (redact_field f v))"
  "scrubbed (exposed_entries f (redact_entries f es))"
  by (induction f v and f es rule: redact_field_redact_entries.induct) simp_all

lemma redact_field_keeps_scrubbed:
  "scrubbed (exposed f v) \<Longrightarrow> scrubbed (exposed f (redact_field g v))"
  "scrubbed (exposed_entries f es) \<Longrightarrow> scrubbed (exposed_entries f (redact_entries g es))"
  by (induction g v and g es rule: redact_field_redact_entries.induct) (simp_all split: if_splits)

lemma fold_redact_keeps_scrubbed:
  "scrubbed (exposed f v) \<Longrightarrow> scrubbed (exposed f (fold redact_field gs v))"
  by (induction gs arbitrary: v) (simp_all add: redact_field_keeps_scrubbed)

lemma fold_redact_scrubs:
  "f \<in> set gs \<Longrightarrow> scrubbed (exposed f (fold redact_field gs v))"
  by (induction gs arbitrary: v) (auto simp: redact_field_scrubs fold_redact_keeps_scrubbed)

lemma redact_entries_array:
  "(k, JArray xs) \<in> set es \<Longrightarrow> k \<noteq> g \<Longrightarrow> g \<noteq> ''*'' \<Longrightarrow> (k, JArray xs) \<in> set (redact_entries g es)"
  by (induction es) auto

lemma fold_redact_array:
  "(k, JArray xs) \<in> set es \<Longrightarrow> k \<notin> set gs \<Longrightarrow> ''*'' \<notin> set gs
    \<Longrightarrow> \<exists>es'. fold redact_field gs (JObject es) = JObject es' \<and> (k, JArray xs) \<in> set es'"
proof (induction gs arbitrary: es)
  case (Cons g gs)
  then have "(k, JArray xs) \<in> set (redact_entries g es)" by (intro redact_entries_array) auto
  from Cons.IH [OF this] Cons.prems show ?case by simp
qed simp

section \<open>Properties\<close>

text \<open>
  Property C37 (safety): in the document that is sent, every value under a configured field,
  at the top or in an object nested in objects, is the marker \<open>[REDACTED]\<close>, whichever other
  fields are redacted before and after it.
\<close>

theorem redact_receipt_scrubs:
  assumes "f \<in> set (redact_fields cfg)"
  shows "list_all (\<lambda>x. x = REDACTED) (exposed f (redact_receipt lib cfg r))"
  using fold_redact_scrubs [OF assms] by (simp add: redact_receipt_def scrubbed_def list_all_iff)

definition demo_cc_lib :: "(unit, cc_request list) cc_lib" where
  "demo_cc_lib = \<lparr>cc_http_client = (\<lambda>_. Inr ()),
     cc_send = (\<lambda>_ rq w. (Inr (500, Inr ''ok''), w @ [rq])),
     receipt_to_value = (\<lambda>r. Some (JObject
       [(''digest'', JString (rc_digest r)), (''key_id'', json_opt_string (rc_key_id r)),
        (''observations'', JArray (map obs_state (rc_observations r)))])),
     value_to_string = (\<lambda>_. Inr ''body''),
     response_from_str = (\<lambda>_. Inr \<lparr>sr_accepted = True, sr_correlation_id = None, sr_error = None\<rparr>)\<rparr>"

theorem redact_receipt_scrubs_witness:
  "list_all (\<lambda>x. x = REDACTED) (exposed ''key_id'' (redact_receipt demo_cc_lib
       (with_redact_field ''digest'' (with_redact_field ''key_id'' default_cc_config))
       (with_key_id ''k'' (new_receipt demo_ext 1 0 2 3 Verified 1))))"
  by (rule redact_receipt_scrubs) (simp add: with_redact_field_def)

text \<open>
  Redaction does not look into arrays. An array of the receipt is sent
  as it is, with every occurrence of the configured fields in it, unless its own key is
  redacted: the states the observers saw, which are the elements of \<open>observations\<close>, leave the
  process in full.
\<close>

theorem redaction_spares_arrays:
  assumes "receipt_to_value lib r = Some (JObject es)" "(k, JArray xs) \<in> set es"
    and "k \<notin> set (redact_fields cfg)" "''*'' \<notin> set (redact_fields cfg)"
  shows "\<exists>es'. redact_receipt lib cfg r = JObject es' \<and> (k, JArray xs) \<in> set es'"
  using fold_redact_array [OF assms(2-4)] assms(1) by (simp add: redact_receipt_def)

theorem redaction_spares_arrays_witness:
  "\<exists>es'. redact_receipt demo_cc_lib (with_redact_field ''password'' default_cc_config)
       (with_observation demo_ext
          (new_observation 0 ''db'' (JObject [(''password'', JString ''hunter2'')]))
          (new_receipt demo_ext 1 0 2 3 Verified 1)) = JObject es'
     \<and> (''observations'', JArray [JObject [(''password'', JString ''hunter2'')]]) \<in> set es'"
  by (rule redaction_spares_arrays, simp add: demo_cc_lib_def)
    (simp_all add: demo_cc_lib_def with_observation_def new_receipt_def with_digest_def Let_def
      new_observation_def with_redact_field_def default_cc_config_def new_cc_config_def)

text \<open>
  A submission is reported as accepted exactly when the document
  was small enough, the request was answered with a status other than 401 and 403, and the body
  reads as an accepting answer. No other status is looked at: an answer with status 500 that
  says \<open>accepted\<close> counts.
\<close>

theorem submit_accepted_iff:
  "(\<exists>resp. fst (submit_receipt lib c r w) = Inr resp \<and> sr_accepted resp) \<longleftrightarrow>
   (\<exists>body status t resp.
      value_to_string lib (redact_receipt lib (cc_config c) r) = Inr body
      \<and> length body \<le> max_receipt_size (cc_config c)
      \<and> fst (cc_send lib (cc_http c) (submission_request (cc_config c) r body) w) = Inr (status, Inr t)
      \<and> status \<noteq> 401 \<and> status \<noteq> 403
      \<and> response_from_str lib t = Inr resp \<and> sr_accepted resp)"
  by (auto simp: submit_receipt_def split: sum.splits prod.splits send_failure.splits)

text \<open>
  With the timeout rule a timeout is never an error; every other outcome, and what reached the
  outside, is that of \<open>submit_receipt\<close>. A request that failed otherwise is still an error.
\<close>

lemma unknown_on_timeout:
  "submit_receipt_with_unknown_on_timeout lib c r w = (res, w') \<Longrightarrow>
   (\<forall>ms. res \<noteq> Inl (CcTimeout ms)) \<and> snd (submit_receipt lib c r w) = w'
   \<and> (res = fst (submit_receipt lib c r w)
      \<or> (\<exists>ms resp. fst (submit_receipt lib c r w) = Inl (CcTimeout ms) \<and> res = Inr resp
           \<and> \<not> sr_accepted resp))"
  unfolding submit_receipt_with_unknown_on_timeout_def
  by (auto split: prod.splits sum.splits control_center_error.splits)

text \<open>A document over the limit is refused without a request.\<close>

lemma oversized_not_sent:
  "value_to_string lib (redact_receipt lib (cc_config c) r) = Inr body
    \<Longrightarrow> max_receipt_size (cc_config c) < length body
    \<Longrightarrow> snd (submit_receipt lib c r w) = w
      \<and> (\<exists>resp. fst (submit_receipt lib c r w) = Inr resp \<and> \<not> sr_accepted resp)"
  by (simp add: submit_receipt_def)

end
