(* ===== verification/Testkit.thy ===== *)
theory Testkit
  imports Idempotency
begin

text \<open>
  The mock idempotency store of \<open>agentverify-testkit/src/lib.rs\<close>: configured answers, a default
  answer, and a record of the calls. Its locks are held for one access each; a call from one
  task is one step.
\<close>

section \<open>The mock store\<close>

record mock_store =
  mk_results :: "string \<Rightarrow> claim_answer option"
  mk_claim_calls :: "string list"
  mk_complete_calls :: "(string \<times> verification_result) list"
  mk_release_calls :: "string list"
  mk_default :: "claim_answer option"
  mk_already :: bool

definition new_mock :: mock_store where
  "new_mock = \<lparr>mk_results = Map.empty, mk_claim_calls = [], mk_complete_calls = [],
     mk_release_calls = [], mk_default = None, mk_already = True\<rparr>"

definition set_result :: "string \<Rightarrow> claim_answer \<Rightarrow> mock_store \<Rightarrow> mock_store" where
  "set_result key a s = s\<lparr>mk_results := (mk_results s)(key \<mapsto> a)\<rparr>"

definition set_default_result :: "claim_answer \<Rightarrow> mock_store \<Rightarrow> mock_store" where
  "set_default_result a s = s\<lparr>mk_default := Some a\<rparr>"

definition set_return_already_claimed :: "bool \<Rightarrow> mock_store \<Rightarrow> mock_store" where
  "set_return_already_claimed b s = s\<lparr>mk_already := b\<rparr>"

definition claim_or_check_call_count :: "mock_store \<Rightarrow> nat" where
  "claim_or_check_call_count s = length (mk_claim_calls s)"

definition complete_call_count :: "mock_store \<Rightarrow> nat" where
  "complete_call_count s = length (mk_complete_calls s)"

definition release_call_count :: "mock_store \<Rightarrow> nat" where
  "release_call_count s = length (mk_release_calls s)"

definition claim_or_check_calls :: "mock_store \<Rightarrow> string list" where
  "claim_or_check_calls s = mk_claim_calls s"

definition complete_calls :: "mock_store \<Rightarrow> (string \<times> verification_result) list" where
  "complete_calls s = mk_complete_calls s"

definition release_calls :: "mock_store \<Rightarrow> string list" where
  "release_calls s = mk_release_calls s"

definition reset_calls :: "mock_store \<Rightarrow> mock_store" where
  "reset_calls s = s\<lparr>mk_claim_calls := [], mk_complete_calls := [], mk_release_calls := []\<rparr>"

definition reset_all :: "mock_store \<Rightarrow> mock_store" where
  "reset_all s = reset_calls (s\<lparr>mk_results := Map.empty, mk_default := None, mk_already := True\<rparr>)"

definition mock_answer :: "mock_store \<Rightarrow> string \<Rightarrow> claim_answer" where
  "mock_answer s key =
     (case mk_results s key of
        Some a \<Rightarrow>
          if mk_already s \<and> contains_str ''_claimed'' key then
            (case mk_results s (key @ ''_already'') of Some r \<Rightarrow> r | None \<Rightarrow> (AlreadyClaimed, None))
          else a
      | None \<Rightarrow> (case mk_default s of Some a \<Rightarrow> a | None \<Rightarrow> (Claimed, None)))"

definition mock_claim_or_check :: "string \<Rightarrow> mock_store \<Rightarrow> claim_answer \<times> mock_store" where
  "mock_claim_or_check key s =
     (let s1 = s\<lparr>mk_claim_calls := mk_claim_calls s @ [key]\<rparr> in (mock_answer s1 key, s1))"

definition mock_complete :: "string \<Rightarrow> verification_result \<Rightarrow> mock_store \<Rightarrow> mock_store" where
  "mock_complete key r s = s\<lparr>mk_complete_calls := mk_complete_calls s @ [(key, r)]\<rparr>"

definition mock_release :: "string \<Rightarrow> mock_store \<Rightarrow> mock_store" where
  "mock_release key s = s\<lparr>mk_release_calls := mk_release_calls s @ [key]\<rparr>"

section \<open>Lemmas\<close>

lemma mock_sel [simp]:
  "mock_answer (s\<lparr>mk_claim_calls := xs\<rparr>) k = mock_answer s k"
  "mock_answer (mock_complete j r s) k = mock_answer s k"
  "mock_answer (mock_release j s) k = mock_answer s k"
  by (auto simp: mock_answer_def mock_complete_def mock_release_def split: option.split)

lemma mock_claim_eq:
  "mock_claim_or_check k s = (mock_answer s k, s\<lparr>mk_claim_calls := mk_claim_calls s @ [k]\<rparr>)"
  by (simp add: mock_claim_or_check_def Let_def)

lemma reset_all_is_new: "reset_all s = new_mock"
  by (simp add: reset_all_def reset_calls_def new_mock_def)

text \<open>The three call histories are what a sequence of operations did, in order.\<close>

lemma mock_history:
  "mk_claim_calls (snd (run_ops (\<lambda>_. mock_claim_or_check) (\<lambda>_. mock_complete) (\<lambda>_. mock_release) ops s))
     = mk_claim_calls s @ List.map_filter (\<lambda>x. case snd x of OpClaim k \<Rightarrow> Some k | _ \<Rightarrow> None) ops"
  "mk_complete_calls (snd (run_ops (\<lambda>_. mock_claim_or_check) (\<lambda>_. mock_complete) (\<lambda>_. mock_release) ops s))
     = mk_complete_calls s @ List.map_filter (\<lambda>x. case snd x of OpComplete k r \<Rightarrow> Some (k, r) | _ \<Rightarrow> None) ops"
  "mk_release_calls (snd (run_ops (\<lambda>_. mock_claim_or_check) (\<lambda>_. mock_complete) (\<lambda>_. mock_release) ops s))
     = mk_release_calls s @ List.map_filter (\<lambda>x. case snd x of OpRelease k \<Rightarrow> Some k | _ \<Rightarrow> None) ops"
proof -
  have step: "snd (run_ops cl co re ((io, op) # ops) s) = snd (run_ops cl co re ops
      (case op of OpClaim k \<Rightarrow> snd (cl io k s) | OpComplete k r \<Rightarrow> co io k r s | OpRelease k \<Rightarrow> re io k s))"
    for cl :: "'a \<Rightarrow> string \<Rightarrow> mock_store \<Rightarrow> claim_answer \<times> mock_store" and co re io op ops s
    by (cases op) (simp_all add: Let_def split_def)
  show "mk_claim_calls (snd (run_ops (\<lambda>_. mock_claim_or_check) (\<lambda>_. mock_complete) (\<lambda>_. mock_release) ops s))
     = mk_claim_calls s @ List.map_filter (\<lambda>x. case snd x of OpClaim k \<Rightarrow> Some k | _ \<Rightarrow> None) ops"
    by (induction ops arbitrary: s)
      (auto simp: step List.map_filter_simps mock_claim_eq mock_complete_def mock_release_def
        simp del: run_ops.simps(2-) split: idem_op.splits)
  show "mk_complete_calls (snd (run_ops (\<lambda>_. mock_claim_or_check) (\<lambda>_. mock_complete) (\<lambda>_. mock_release) ops s))
     = mk_complete_calls s @ List.map_filter (\<lambda>x. case snd x of OpComplete k r \<Rightarrow> Some (k, r) | _ \<Rightarrow> None) ops"
    by (induction ops arbitrary: s)
      (auto simp: step List.map_filter_simps mock_claim_eq mock_complete_def mock_release_def
        simp del: run_ops.simps(2-) split: idem_op.splits)
  show "mk_release_calls (snd (run_ops (\<lambda>_. mock_claim_or_check) (\<lambda>_. mock_complete) (\<lambda>_. mock_release) ops s))
     = mk_release_calls s @ List.map_filter (\<lambda>x. case snd x of OpRelease k \<Rightarrow> Some k | _ \<Rightarrow> None) ops"
    by (induction ops arbitrary: s)
      (auto simp: step List.map_filter_simps mock_claim_eq mock_complete_def mock_release_def
        simp del: run_ops.simps(2-) split: idem_op.splits)
qed

section \<open>Properties\<close>

text \<open>
  The mock does not exclude. Over any operations on a mock that answers
  \<open>Claimed\<close> for a key, every claim of the key wins, completed or not: it counts as many winners as
  claims, where the stores it stands for allow one.
\<close>

theorem mock_every_claim_wins:
  assumes "fst (mock_answer s k) = Claimed"
  shows "wins k (fst (run_ops (\<lambda>_. mock_claim_or_check) (\<lambda>_. mock_complete) (\<lambda>_. mock_release) ops s))
    = length (filter (\<lambda>x. snd x = OpClaim k) ops)"
  using assms
proof (induction ops arbitrary: s)
  case (Cons x ops)
  obtain io op where x: "x = (io, op)" by (cases x)
  with Cons show ?case by (cases op) (auto simp: wins_claim mock_claim_eq simp del: run_ops.simps(2))
qed simp

theorem mock_every_claim_wins_witness:
  "wins ''k'' (fst (run_ops (\<lambda>_. mock_claim_or_check) (\<lambda>_. mock_complete) (\<lambda>_. mock_release)
      [((), OpClaim ''k''), ((), OpComplete ''k'' Verified), ((), OpClaim ''k'')] new_mock)) = 2"
  by (subst mock_every_claim_wins) (simp_all add: mock_answer_def new_mock_def)

end
