(* ===== verification/Telemetry.thy ===== *)
theory Telemetry
  imports Executor_Correct
begin

text \<open>
  The exporter of \<open>agentverify-otel/src/lib.rs\<close>: its configuration, and the span that each
  \<open>record_\<close> method ends, as a value. The tracer provider is the list of spans ended so far; what
  OTLP does with them is not part of the model, and whether the exporter can be built and shut
  down is a parameter.
\<close>

section \<open>Configuration\<close>

datatype otlp_error = Initialization string | Export string | InvalidEndpoint string

fun show_otlp_error :: "otlp_error \<Rightarrow> string" where
  "show_otlp_error (Initialization e) = ''Failed to initialize OTLP exporter: '' @ e"
| "show_otlp_error (Export e) = ''Failed to export span: '' @ e"
| "show_otlp_error (InvalidEndpoint e) = ''Invalid endpoint: '' @ e"

record otlp_config =
  ot_endpoint :: string
  ot_timeout_ms :: u64
  ot_service_name :: string

definition default_otlp_config :: otlp_config where
  "default_otlp_config =
     \<lparr>ot_endpoint = ''http://localhost:4317'', ot_timeout_ms = 5000, ot_service_name = ''agentverify''\<rparr>"

definition with_endpoint :: "string \<Rightarrow> otlp_config \<Rightarrow> otlp_config" where
  "with_endpoint e cfg = cfg\<lparr>ot_endpoint := e\<rparr>"

definition with_timeout_ms :: "u64 \<Rightarrow> otlp_config \<Rightarrow> otlp_config" where
  "with_timeout_ms ms cfg = cfg\<lparr>ot_timeout_ms := ms\<rparr>"

definition with_service_name :: "string \<Rightarrow> otlp_config \<Rightarrow> otlp_config" where
  "with_service_name n cfg = cfg\<lparr>ot_service_name := n\<rparr>"

section \<open>Spans\<close>

datatype span_kind = Server_kind | Internal_kind | Client_kind

datatype span_status = Status_unset | Status_ok | Status_error string

datatype attribute = AString string | ABool bool | AInt i64

record span =
  sp_name :: string
  sp_kind :: span_kind
  sp_attributes :: "(string \<times> attribute) list"
  sp_status :: span_status

record otlp_exporter =
  ox_service :: string
  ox_ended :: "span list"

definition new_exporter :: "(otlp_config \<Rightarrow> string + unit) \<Rightarrow> otlp_config \<Rightarrow> otlp_error + otlp_exporter" where
  "new_exporter build cfg =
     (case build cfg of
        Inl e \<Rightarrow> Inl (Initialization e)
      | Inr _ \<Rightarrow> Inr \<lparr>ox_service = ot_service_name cfg, ox_ended = []\<rparr>)"

definition exporter_shutdown :: "(otlp_exporter \<Rightarrow> string + unit) \<Rightarrow> otlp_exporter \<Rightarrow> otlp_error + unit" where
  "exporter_shutdown provider_shutdown ox = map_err Export (provider_shutdown ox)"

definition end_span :: "span \<Rightarrow> otlp_exporter \<Rightarrow> otlp_exporter" where
  "end_span s ox = ox\<lparr>ox_ended := ox_ended ox @ [s]\<rparr>"

definition record_action_created :: "receipt_lib \<Rightarrow> action \<Rightarrow> otlp_exporter \<Rightarrow> otlp_exporter" where
  "record_action_created ext act = end_span
     \<lparr>sp_name = ''action.lifecycle'', sp_kind = Server_kind,
      sp_attributes =
        [(''action.id'', AString (show_uuid ext (act_id act))), (''action.name'', AString (act_name act)),
         (''action.created_at'', AString (show_rfc3339 ext (act_created_at act)))] @
        (case act_idempotency_key act of
           Some key \<Rightarrow> [(''action.idempotency_key'', AString key)] | None \<Rightarrow> []),
      sp_status = Status_unset\<rparr>"

definition record_state_transition ::
  "string \<Rightarrow> lifecycle \<Rightarrow> lifecycle \<Rightarrow> otlp_exporter \<Rightarrow> otlp_exporter" where
  "record_state_transition aid from_state to_state = end_span
     \<lparr>sp_name = ''state.transition'', sp_kind = Internal_kind,
      sp_attributes = [(''action.id'', AString aid), (''state.from'', AString (show_lifecycle from_state)),
        (''state.to'', AString (show_lifecycle to_state))],
      sp_status = (if to_state \<in> {Failed_st, VerificationFailed, Rejected}
        then Status_error (''Entered state: '' @ show_lifecycle to_state) else Status_ok)\<rparr>"

text \<open>\<open>i64::try_from(len).unwrap_or(i64::MAX)\<close>\<close>

definition i64_of_len :: "nat \<Rightarrow> i64" where
  "i64_of_len n = (if n < 2 ^ 63 then of_nat n else of_nat (2 ^ 63 - 1))"

definition record_observation :: "receipt_lib \<Rightarrow> string \<Rightarrow> observation \<Rightarrow> otlp_exporter \<Rightarrow> otlp_exporter" where
  "record_observation ext aid obs = end_span
     \<lparr>sp_name = ''verification.observation'', sp_kind = Client_kind,
      sp_attributes = [(''action.id'', AString aid), (''observation.source'', AString (obs_source obs)),
        (''observation.timestamp'', AString (show_rfc3339 ext (obs_timestamp obs))),
        (''observation.evidence_count'', AInt (i64_of_len (length (obs_evidence obs))))],
      sp_status = Status_unset\<rparr>"

definition record_verification_result ::
  "string \<Rightarrow> verification_result \<Rightarrow> otlp_exporter \<Rightarrow> otlp_exporter" where
  "record_verification_result aid r = end_span
     \<lparr>sp_name = ''verification.verify'', sp_kind = Internal_kind,
      sp_attributes = [(''action.id'', AString aid), (''verification.result'', AString (show_result r)),
        (''verification.success'', ABool (is_success r)), (''verification.failure'', ABool (is_failure r)),
        (''verification.unknown'', ABool (is_unknown r))],
      sp_status = (if is_success r then Status_ok
        else if is_failure r then Status_error (''Verification failed: '' @ show_result r)
        else Status_unset)\<rparr>"

definition predicate_span :: "string \<Rightarrow> postcondition_result \<Rightarrow> span" where
  "predicate_span aid d =
     \<lparr>sp_name = ''verification.predicate'', sp_kind = Internal_kind,
      sp_attributes =
        [(''action.id'', AString aid), (''predicate.description'', AString (pcr_description d)),
         (''predicate.passed'', ABool (pcr_passed d))] @
        (case pcr_error d of Some e \<Rightarrow> [(''predicate.error'', AString e)] | None \<Rightarrow> []),
      sp_status = (case pcr_error d of Some e \<Rightarrow> Status_error e | None \<Rightarrow> Status_ok)\<rparr>"

definition record_predicate_result :: "string \<Rightarrow> postcondition_result \<Rightarrow> otlp_exporter \<Rightarrow> otlp_exporter" where
  "record_predicate_result aid d = end_span (predicate_span aid d)"

definition record_receipt_created :: "receipt_lib \<Rightarrow> receipt \<Rightarrow> otlp_exporter \<Rightarrow> otlp_exporter" where
  "record_receipt_created ext r = end_span
     \<lparr>sp_name = ''receipt.created'', sp_kind = Internal_kind,
      sp_attributes =
        [(''receipt.id'', AString (show_uuid ext (rc_id r))),
         (''receipt.action_id'', AString (show_uuid ext (rc_action_id r))),
         (''receipt.contract_id'', AString (show_uuid ext (rc_contract_id r))),
         (''receipt.result'', AString (show_result (rc_result r))),
         (''receipt.attempts'', AInt (ucast (rc_attempts r))),
         (''receipt.timestamp'', AString (show_rfc3339 ext (rc_timestamp r))),
         (''receipt.signed'', ABool (is_signed r))],
      sp_status = Status_unset\<rparr>"

definition record_contract_validated ::
  "receipt_lib \<Rightarrow> string \<Rightarrow> contract \<Rightarrow> bool \<Rightarrow> otlp_exporter \<Rightarrow> otlp_exporter" where
  "record_contract_validated ext aid c valid = end_span
     \<lparr>sp_name = ''contract.validation'', sp_kind = Internal_kind,
      sp_attributes = [(''action.id'', AString aid), (''contract.id'', AString (show_uuid ext (contract_id c))),
        (''contract.action_name'', AString (action_name c)), (''contract.valid'', ABool valid)],
      sp_status = (if valid then Status_ok else Status_error ''Contract validation failed'')\<rparr>"

text \<open>
  \<open>init_tracing\<close> builds an exporter, drops it, and installs a subscriber that prints: none of its
  layers refers to the exporter.
\<close>

definition init_tracing ::
  "(otlp_config \<Rightarrow> string + unit) \<Rightarrow> (string + unit) \<Rightarrow> otlp_config \<Rightarrow> otlp_error + unit" where
  "init_tracing build try_init cfg =
     and_then_res (new_exporter build cfg) (\<lambda>_. map_err Initialization try_init)"

section \<open>Properties\<close>

text \<open>A verdict's span has an error status exactly for the verdicts that are failures.\<close>

lemma verdict_span_status:
  "(\<exists>e. sp_status (last (ox_ended (record_verification_result aid r ox))) = Status_error e) \<longleftrightarrow> is_failure r"
  by (cases r) (simp_all add: record_verification_result_def end_span_def)

text \<open>The executor records no error with a postcondition that it evaluated.\<close>

lemma verify_loop_errors:
  assumes "verify_loop eng act obs ap mf ds pcs = Inr ev" "\<forall>d \<in> set ds. pcr_error d = None"
  shows "\<forall>d \<in> set (pv_details ev). pcr_error d = None"
  using assms
proof (induction pcs arbitrary: ap mf ds)
  case (Cons pc pcs)
  then obtain r where r: "evaluate_fresh eng (post_predicate pc) (obs_state obs) (arguments act) = Inr r"
    by (cases "evaluate_fresh eng (post_predicate pc) (obs_state obs) (arguments act)") auto
  have none: "\<forall>d \<in> set (ds @ [postcondition_detail pc b None]). pcr_error d = None" for b
    using Cons.prems(2) by (auto simp: postcondition_detail_def)
  from evaluate_fresh_definite [OF r] show ?case
  proof
    assume "r = Verified"
    with Cons.prems(1) r have "verify_loop eng act obs ap mf (ds @ [postcondition_detail pc True None]) pcs = Inr ev"
      by simp
    from Cons.IH [OF this none] show ?thesis .
  next
    assume "r = Failed"
    with Cons.prems(1) r have "verify_loop eng act obs False (mf \<or> mandatory pc)
        (ds @ [postcondition_detail pc False None]) pcs = Inr ev" by simp
    from Cons.IH [OF this none] show ?thesis .
  qed
qed (auto split: if_splits)

text \<open>
  A failed postcondition is exported as a success. Whatever the executor
  evaluates, the span of each postcondition has status \<open>Ok\<close>, failed ones included; only the
  attribute \<open>predicate.passed\<close> tells them apart.
\<close>

theorem failed_predicate_span_is_ok:
  assumes "verify_postconditions eng act c obs = Inr ev" "d \<in> set (pv_details ev)"
  shows "sp_status (predicate_span aid d) = Status_ok
    \<and> (''predicate.passed'', ABool (pcr_passed d)) \<in> set (sp_attributes (predicate_span aid d))"
  using verify_loop_errors [OF assms(1) [unfolded verify_postconditions_def]] assms(2)
  by (simp add: predicate_span_def)

theorem failed_predicate_span_is_ok_witness:
  "sp_status (predicate_span ''a'' (postcondition_detail
     \<lparr>post_predicate = Exists ''done'', post_description = ''done'', mandatory = True\<rparr> False None)) = Status_ok"
  using failed_predicate_span_is_ok [OF nothing_seen_fails [of "''db''"], of _ "''a''"] by simp

end
