(* ===== verification/Interleaving.thy ===== *)
theory Interleaving
  imports Main
begin

text \<open>
  Executions of numbered threads over a shared state, for the components whose calls interleave:
  a thread that is \<open>enabled\<close> makes its next \<open>step\<close>, for which the outside supplies a value (the
  fortunes of a system call, the time on the clock). The locale \<open>threads\<close> states what the
  components promise, that every step brings a thread nearer to its end and leaves the program
  counters of the others alone, and gives the bound on executions.
\<close>

inductive exec ::
  "(nat \<Rightarrow> 's \<Rightarrow> bool) \<Rightarrow> ('e \<Rightarrow> nat \<Rightarrow> 's \<Rightarrow> 's) \<Rightarrow> 's \<Rightarrow> ('e \<times> nat) list \<Rightarrow> 's \<Rightarrow> bool"
  for enabled step s0 where
  exec_start: "exec enabled step s0 [] s0"
| exec_step: "exec enabled step s0 sch s \<Longrightarrow> enabled t s \<Longrightarrow>
    exec enabled step s0 (sch @ [(e, t)]) (step e t s)"

text \<open>A schedule run from a state, if each of its steps is enabled in turn.\<close>

fun run_schedule ::
  "(nat \<Rightarrow> 's \<Rightarrow> bool) \<Rightarrow> ('e \<Rightarrow> nat \<Rightarrow> 's \<Rightarrow> 's) \<Rightarrow> ('e \<times> nat) list \<Rightarrow> 's \<Rightarrow> 's option" where
  "run_schedule enabled step [] s = Some s"
| "run_schedule enabled step ((e, t) # sch) s =
     (if enabled t s then run_schedule enabled step sch (step e t s) else None)"

lemma run_schedule_exec_from:
  "exec enabled step s0 pre s \<Longrightarrow> run_schedule enabled step sch s = Some s' \<Longrightarrow>
   exec enabled step s0 (pre @ sch) s'"
proof (induction sch arbitrary: pre s)
  case (Cons x sch)
  obtain e t where x: "x = (e, t)" by (cases x)
  with Cons.prems(2) have en: "enabled t s"
    and rest: "run_schedule enabled step sch (step e t s) = Some s'"
    by (simp_all split: if_splits)
  from Cons.IH [OF exec_step [OF Cons.prems(1) en] rest] x show ?case by simp
qed simp

lemma run_schedule_exec:
  "run_schedule enabled step sch s = Some s' \<Longrightarrow> exec enabled step s sch s'"
  using run_schedule_exec_from [OF exec_start] by fastforce

lemma exec_invariant:
  assumes "exec enabled step s0 sch s" and "I s0"
    and "\<And>e t s. I s \<Longrightarrow> enabled t s \<Longrightarrow> I (step e t s)"
  shows "I s"
  using assms by (induction rule: exec.induct) simp_all

locale threads =
  fixes pcs :: "'s \<Rightarrow> nat \<Rightarrow> 'p"
    and steps_left :: "'p \<Rightarrow> nat"
    and enabled :: "nat \<Rightarrow> 's \<Rightarrow> bool"
    and step :: "'e \<Rightarrow> nat \<Rightarrow> 's \<Rightarrow> 's"
  assumes step_nearer: "enabled t s \<Longrightarrow> steps_left (pcs (step e t s) t) < steps_left (pcs s t)"
    and step_others: "enabled t s \<Longrightarrow> u \<noteq> t \<Longrightarrow> pcs (step e t s) u = pcs s u"
begin

text \<open>When only the threads in \<open>T\<close> are under way, they pay for every step.\<close>

lemma steps_paid:
  assumes "exec enabled step s0 sch s" and "finite T"
    and "\<And>t. t \<notin> T \<Longrightarrow> steps_left (pcs s0 t) = 0"
  shows "length sch + (\<Sum>t\<in>T. steps_left (pcs s t)) \<le> (\<Sum>t\<in>T. steps_left (pcs s0 t)) \<and>
    (\<forall>t. t \<notin> T \<longrightarrow> steps_left (pcs s t) = 0)"
  using assms(1,3)
proof (induction rule: exec.induct)
  case (exec_step sch s t e)
  note IH = exec_step.IH [OF exec_step.prems]
  note less = step_nearer [OF exec_step.hyps(2), of e] and same = step_others [OF exec_step.hyps(2), of _ e]
  have t: "t \<in> T" using less IH by (metis not_less0)
  have "(\<Sum>u\<in>T - {t}. steps_left (pcs (step e t s) u)) = (\<Sum>u\<in>T - {t}. steps_left (pcs s u))"
    using same by (intro sum.cong) auto
  then have "(\<Sum>u\<in>T. steps_left (pcs (step e t s) u)) < (\<Sum>u\<in>T. steps_left (pcs s u))"
    using less by (simp add: sum.remove [OF assms(2) t])
  moreover have "steps_left (pcs (step e t s) u) = 0" if "u \<notin> T" for u
    using that t same [of u] IH by metis
  ultimately show ?case using IH by auto
qed simp

lemma executions_bounded:
  assumes "exec enabled step s0 sch s" and "finite T"
    and "\<And>t. t \<notin> T \<Longrightarrow> steps_left (pcs s0 t) = 0" and "\<And>t. steps_left (pcs s0 t) \<le> b"
  shows "length sch \<le> b * card T"
proof -
  have "length sch \<le> (\<Sum>t\<in>T. steps_left (pcs s0 t))" using steps_paid [OF assms(1-3)] by simp
  also have "\<dots> \<le> (\<Sum>t\<in>T. b)" by (rule sum_mono) (rule assms(4))
  finally show ?thesis by (simp add: mult.commute)
qed

end

end
