(* ===== verification/Idem_Interleaving.thy ===== *)
theory Idem_Interleaving
  imports Idempotency Interleaving
begin

text \<open>
  Interleavings of the idempotency stores at the granularity of their system calls
  (\<open>agentverify-runtime/src/idempotency_store.rs\<close>). Every call of a method is a thread with a
  program counter. A thread of the file store belongs to a handle, one \<open>FileIdempotencyStore\<close>
  with its cache and the mutex of that cache; the handles share a directory. A thread of the
  Redis store sends commands that the server runs one at a time, while entries expire at will.
\<close>

section \<open>The file store: program counters\<close>

text \<open>
  \<open>claim_or_check\<close> takes the mutex, looks into the cache and the directory, and keeps the mutex
  while it writes and renames the new entry and puts it into the cache. \<open>complete\<close> writes and
  renames before it takes the mutex, \<open>release\<close> unlinks before it takes it.
\<close>

datatype fi_pc =
    FClaim string
  | FClaimWrite string
  | FClaimRename persisted_entry
  | FClaimInsert persisted_entry
  | FComplete string verification_result
  | FCompleteRename persisted_entry
  | FCompleteInsert persisted_entry
  | FRelease string
  | FReleaseCache string
  | FAnswer string claim_answer
  | FDone

type_synonym fi_cache_map = "string \<Rightarrow> persisted_entry option"

text \<open>The two halves of \<open>save_entry\<close>; the rename fails when another thread took the file away.\<close>

definition save_write :: "file_idem_lib \<Rightarrow> path \<Rightarrow> idem_io \<Rightarrow> persisted_entry \<Rightarrow> fs \<Rightarrow> bool \<times> fs" where
  "save_write ext base io e f =
     (case entry_to_string ext e of
        None \<Rightarrow> (False, f)
      | Some content \<Rightarrow> fs_write (io_write io) (entry_tmp_path ext base (original_key e)) content f)"

definition save_rename :: "file_idem_lib \<Rightarrow> path \<Rightarrow> idem_io \<Rightarrow> persisted_entry \<Rightarrow> fs \<Rightarrow> fs" where
  "save_rename ext base io e f =
     (let tmp = entry_tmp_path ext base (original_key e)
      in snd (fs_rename (io_rename_ok io \<and> f tmp \<noteq> None) tmp (entry_path ext base (original_key e)) f))"

fun fi_advance ::
  "file_idem_lib \<Rightarrow> path \<Rightarrow> idem_io \<Rightarrow> fi_pc \<times> fs \<times> fi_cache_map \<Rightarrow> fi_pc \<times> fs \<times> fi_cache_map" where
  "fi_advance ext base io (FClaim key, f, c) =
     (case c key of
        Some e \<Rightarrow>
          (FAnswer key (AlreadyClaimed,
             case pe_state e of PInFlight \<Rightarrow> None | PCompleted _ \<Rightarrow> to_result e), f, c)
      | None \<Rightarrow>
          (case load_entry ext io \<lparr>fi_base_path = base, fi_cache = c, fi_fs = f\<rparr> key of
             Some e \<Rightarrow> (FAnswer key (AlreadyClaimed, to_result e), f, c(key \<mapsto> e))
           | None \<Rightarrow> (FClaimWrite key, f, c)))"
| "fi_advance ext base io (FClaimWrite key, f, c) =
     (let e = new_in_flight (io_now io) key; (written, f1) = save_write ext base io e f
      in (if written then FClaimRename e else FClaimInsert e, f1, c))"
| "fi_advance ext base io (FClaimRename e, f, c) = (FClaimInsert e, save_rename ext base io e f, c)"
| "fi_advance ext base io (FClaimInsert e, f, c) =
     (FAnswer (original_key e) (Claimed, None), f, c(original_key e \<mapsto> e))"
| "fi_advance ext base io (FComplete key result, f, c) =
     (let e = new_completed (io_now io) key result; (written, f1) = save_write ext base io e f
      in (if written then FCompleteRename e else FCompleteInsert e, f1, c))"
| "fi_advance ext base io (FCompleteRename e, f, c) =
     (FCompleteInsert e, save_rename ext base io e f, c)"
| "fi_advance ext base io (FCompleteInsert e, f, c) = (FDone, f, c(original_key e \<mapsto> e))"
| "fi_advance ext base io (FRelease key, f, c) =
     (FReleaseCache key, fs_remove (io_remove_ok io) (entry_path ext base key) f, c)"
| "fi_advance ext base io (FReleaseCache key, f, c) = (FDone, f, c(key := None))"
| "fi_advance ext base io (FAnswer key a, f, c) = (FAnswer key a, f, c)"
| "fi_advance ext base io (FDone, f, c) = (FDone, f, c)"

text \<open>Which steps begin by taking the mutex, which are made while holding it, and the end.\<close>

fun takes_lock :: "fi_pc \<Rightarrow> bool" where
  "takes_lock (FClaim _) = True"
| "takes_lock (FCompleteInsert _) = True"
| "takes_lock (FReleaseCache _) = True"
| "takes_lock _ = False"

fun holds_lock :: "fi_pc \<Rightarrow> bool" where
  "holds_lock (FClaimWrite _) = True"
| "holds_lock (FClaimRename _) = True"
| "holds_lock (FClaimInsert _) = True"
| "holds_lock _ = False"

fun fi_steps_left :: "fi_pc \<Rightarrow> nat" where
  "fi_steps_left (FClaim _) = 4"
| "fi_steps_left (FClaimWrite _) = 3"
| "fi_steps_left (FClaimRename _) = 2"
| "fi_steps_left (FClaimInsert _) = 1"
| "fi_steps_left (FComplete _ _) = 3"
| "fi_steps_left (FCompleteRename _) = 2"
| "fi_steps_left (FCompleteInsert _) = 1"
| "fi_steps_left (FRelease _) = 2"
| "fi_steps_left (FReleaseCache _) = 1"
| "fi_steps_left (FAnswer _ _) = 0"
| "fi_steps_left FDone = 0"

abbreviation fi_finished :: "fi_pc \<Rightarrow> bool" where
  "fi_finished pc \<equiv> fi_steps_left pc = 0"

section \<open>The file store: handles and threads\<close>

record fi_sys =
  sys_fs :: fs
  sys_cache :: "nat \<Rightarrow> fi_cache_map"
  sys_lock :: "nat \<Rightarrow> nat option"
  sys_pc :: "nat \<Rightarrow> fi_pc"

text \<open>\<open>home t\<close> is the handle on which thread \<open>t\<close> called the method.\<close>

definition fi_enabled :: "(nat \<Rightarrow> nat) \<Rightarrow> nat \<Rightarrow> fi_sys \<Rightarrow> bool" where
  "fi_enabled home t s \<longleftrightarrow>
     \<not> fi_finished (sys_pc s t) \<and> (takes_lock (sys_pc s t) \<longrightarrow> sys_lock s (home t) = None)"

definition fi_step :: "file_idem_lib \<Rightarrow> path \<Rightarrow> (nat \<Rightarrow> nat) \<Rightarrow> idem_io \<Rightarrow> nat \<Rightarrow> fi_sys \<Rightarrow> fi_sys" where
  "fi_step ext base home io t s =
     (let h = home t; (pc, f, c) = fi_advance ext base io (sys_pc s t, sys_fs s, sys_cache s h)
      in \<lparr>sys_fs = f, sys_cache = (sys_cache s)(h := c),
          sys_lock = (sys_lock s)(h :=
            if holds_lock pc then Some t
            else if holds_lock (sys_pc s t) then None else sys_lock s h),
          sys_pc = (sys_pc s)(t := pc)\<rparr>)"

text \<open>Every method is at its beginning or over, and no mutex is held.\<close>

fun fi_fresh :: "fi_pc \<Rightarrow> bool" where
  "fi_fresh (FClaim _) = True"
| "fi_fresh (FComplete _ _) = True"
| "fi_fresh (FRelease _) = True"
| "fi_fresh pc = fi_finished pc"

definition fi_start :: "fi_sys \<Rightarrow> bool" where
  "fi_start s \<longleftrightarrow> (\<forall>h. sys_lock s h = None) \<and> (\<forall>t. fi_fresh (sys_pc s t)) \<and>
     (\<forall>t k a. sys_pc s t \<noteq> FAnswer k a)"

abbreviation fi_exec ::
  "file_idem_lib \<Rightarrow> path \<Rightarrow> (nat \<Rightarrow> nat) \<Rightarrow> fi_sys \<Rightarrow> (idem_io \<times> nat) list \<Rightarrow> fi_sys \<Rightarrow> bool" where
  "fi_exec ext base home \<equiv> exec (fi_enabled home) (fi_step ext base home)"

abbreviation fi_run ::
  "file_idem_lib \<Rightarrow> path \<Rightarrow> (nat \<Rightarrow> nat) \<Rightarrow> (idem_io \<times> nat) list \<Rightarrow> fi_sys \<Rightarrow> fi_sys option" where
  "fi_run ext base home \<equiv> run_schedule (fi_enabled home) (fi_step ext base home)"

text \<open>Alone, a thread does what the one-step method does.\<close>

lemma save_write_rename:
  "save_entry ext io e \<lparr>fi_base_path = base, fi_cache = c, fi_fs = f\<rparr> =
     \<lparr>fi_base_path = base, fi_cache = c,
      fi_fs = (case save_write ext base io e f of
        (True, f1) \<Rightarrow> save_rename ext base io e f1 | (False, f1) \<Rightarrow> f1)\<rparr>"
  by (auto simp: save_entry_def save_write_def save_rename_def write_atomic_def fs_write_def Let_def
      split: option.split write_outcome.split)

lemma claim_solo:
  "(fi_advance ext base io ^^ 4) (FClaim key, f, c) =
     (let (a, s) = file_claim_or_check ext io key \<lparr>fi_base_path = base, fi_cache = c, fi_fs = f\<rparr>
      in (FAnswer key a, fi_fs s, fi_cache s))"
  by (auto simp: file_claim_or_check_def save_write_rename numeral_eq_Suc Let_def split_def
      split: option.splits persisted_state.splits)

lemma complete_solo:
  "(fi_advance ext base io ^^ 3) (FComplete key result, f, c) =
     (let s = file_complete ext io key result \<lparr>fi_base_path = base, fi_cache = c, fi_fs = f\<rparr>
      in (FDone, fi_fs s, fi_cache s))"
  by (auto simp: file_complete_def save_write_rename numeral_eq_Suc Let_def split_def
      split: option.splits)

lemma release_solo:
  "(fi_advance ext base io ^^ 2) (FRelease key, f, c) =
     (let s = file_release ext io key \<lparr>fi_base_path = base, fi_cache = c, fi_fs = f\<rparr>
      in (FDone, fi_fs s, fi_cache s))"
  by (simp add: file_release_def numeral_eq_Suc Let_def)

section \<open>The file store: invariants\<close>

text \<open>The mutex of a handle is held by the thread whose program counter says so, and by no other.\<close>

definition lock_inv :: "(nat \<Rightarrow> nat) \<Rightarrow> fi_sys \<Rightarrow> bool" where
  "lock_inv home s \<longleftrightarrow> (\<forall>t. holds_lock (sys_pc s t) \<longleftrightarrow> sys_lock s (home t) = Some t) \<and>
     (\<forall>h t. sys_lock s h = Some t \<longrightarrow> home t = h)"

fun claiming :: "string \<Rightarrow> fi_pc \<Rightarrow> bool" where
  "claiming k (FClaimWrite key) = (key = k)"
| "claiming k (FClaimRename e) = (original_key e = k)"
| "claiming k (FClaimInsert e) = (original_key e = k)"
| "claiming k _ = False"

definition won :: "string \<Rightarrow> fi_pc \<Rightarrow> bool" where
  "won k pc \<longleftrightarrow> (\<exists>r. pc = FAnswer k (Claimed, r))"

fun releasing :: "string \<Rightarrow> fi_pc \<Rightarrow> bool" where
  "releasing k (FRelease key) = (key = k)"
| "releasing k (FReleaseCache key) = (key = k)"
| "releasing k _ = False"

text \<open>On one handle without releases of a key: who has won it has left it in the cache, who is
  about to win it has not found it there.\<close>

definition winner_inv :: "(nat \<Rightarrow> nat) \<Rightarrow> nat \<Rightarrow> string \<Rightarrow> fi_sys \<Rightarrow> bool" where
  "winner_inv home h k s \<longleftrightarrow>
     (\<forall>t. home t = h \<longrightarrow> \<not> releasing k (sys_pc s t)) \<and>
     (\<forall>t. home t = h \<and> claiming k (sys_pc s t) \<longrightarrow> sys_cache s h k = None) \<and>
     (\<forall>t. home t = h \<and> won k (sys_pc s t) \<longrightarrow> sys_cache s h k \<noteq> None) \<and>
     (\<forall>t u. home t = h \<and> home u = h \<and> won k (sys_pc s t) \<and> won k (sys_pc s u) \<longrightarrow> t = u)"

lemma winner_invD:
  assumes "winner_inv home h k s"
  shows "home t = h \<Longrightarrow> \<not> releasing k (sys_pc s t)"
    and "home t = h \<Longrightarrow> claiming k (sys_pc s t) \<Longrightarrow> sys_cache s h k = None"
    and "home t = h \<Longrightarrow> won k (sys_pc s t) \<Longrightarrow> sys_cache s h k \<noteq> None"
    and "home t = h \<Longrightarrow> home u = h \<Longrightarrow> won k (sys_pc s t) \<Longrightarrow> won k (sys_pc s u) \<Longrightarrow> t = u"
  using assms unfolding winner_inv_def by metis+

lemma winner_inv_local:
  assumes "\<And>u. home u = h \<Longrightarrow> sys_pc s' u = sys_pc s u" and "sys_cache s' h = sys_cache s h"
    and "winner_inv home h k s"
  shows "winner_inv home h k s'"
  unfolding winner_inv_def assms(2)
  by (intro conjI allI impI) (metis assms(1) winner_invD [OF assms(3)])+

lemma claiming_holds: "claiming k pc \<Longrightarrow> holds_lock pc"
  by (cases pc) simp_all

lemma lock_exclusive:
  "lock_inv home s \<Longrightarrow> holds_lock (sys_pc s t) \<Longrightarrow> holds_lock (sys_pc s u) \<Longrightarrow> home t = home u \<Longrightarrow> t = u"
  unfolding lock_inv_def by (metis option.inject)

text \<open>What one step of a thread does to its program counter and the cache of its handle.\<close>

lemma fi_advance_rest:
  "fi_advance ext base io (pc, f, c) = (pc', f', c') \<Longrightarrow> \<not> fi_finished pc \<Longrightarrow>
   fi_steps_left pc' < fi_steps_left pc"
  by (cases pc) (auto simp: Let_def split_def split: option.splits if_splits)

lemma fi_advance_releasing:
  "fi_advance ext base io (pc, f, c) = (pc', f', c') \<Longrightarrow> \<not> releasing k pc \<Longrightarrow> \<not> releasing k pc'"
  by (cases pc) (auto simp: Let_def split_def split: option.splits if_splits)

lemma fi_advance_claiming:
  "fi_advance ext base io (pc, f, c) = (pc', f', c') \<Longrightarrow> claiming k pc' \<Longrightarrow>
   c' = c \<and> (claiming k pc \<or> c k = None)"
  by (cases pc) (auto simp: Let_def split_def split: option.splits if_splits)

lemma fi_advance_won:
  "fi_advance ext base io (pc, f, c) = (pc', f', c') \<Longrightarrow> won k pc' \<Longrightarrow>
   won k pc \<and> c' = c \<or> claiming k pc \<and> c' k \<noteq> None"
  by (cases pc) (auto simp: Let_def split_def won_def split: option.splits if_splits)

lemma fi_advance_keeps:
  "fi_advance ext base io (pc, f, c) = (pc', f', c') \<Longrightarrow> \<not> releasing k pc \<Longrightarrow> c k \<noteq> None \<Longrightarrow> c' k \<noteq> None"
  by (cases pc) (auto simp: Let_def split_def split: option.splits if_splits)

lemma fi_advance_cache_locked:
  "fi_advance ext base io (pc, f, c) = (pc', f', c') \<Longrightarrow> \<not> takes_lock pc \<Longrightarrow> \<not> holds_lock pc \<Longrightarrow>
   c' = c \<and> \<not> holds_lock pc'"
  by (cases pc) (auto simp: Let_def split_def split: option.splits if_splits)

lemma fi_step_sel:
  assumes "fi_advance ext base io (sys_pc s t, sys_fs s, sys_cache s (home t)) = (pc, f, c)"
  shows "sys_pc (fi_step ext base home io t s) = (sys_pc s)(t := pc)"
    and "sys_cache (fi_step ext base home io t s) = (sys_cache s)(home t := c)"
    and "sys_lock (fi_step ext base home io t s) = (sys_lock s)(home t :=
      if holds_lock pc then Some t
      else if holds_lock (sys_pc s t) then None else sys_lock s (home t))"
    and "sys_fs (fi_step ext base home io t s) = f"
  using assms by (simp_all add: fi_step_def Let_def)

lemma lock_inv_step:
  assumes inv: "lock_inv home s" and en: "fi_enabled home t s"
  shows "lock_inv home (fi_step ext base home io t s)"
proof -
  obtain pc f c where adv: "fi_advance ext base io (sys_pc s t, sys_fs s, sys_cache s (home t)) = (pc, f, c)"
    by (metis prod_cases3)
  have free: "sys_lock s (home t) = None \<or> sys_lock s (home t) = Some t" if "holds_lock pc"
    using that fi_advance_cache_locked [OF adv] en inv by (auto simp: fi_enabled_def lock_inv_def)
  have own: "sys_lock s (home t) = Some t \<longleftrightarrow> holds_lock (sys_pc s t)" and
    others: "holds_lock (sys_pc s u) \<longleftrightarrow> sys_lock s (home u) = Some u"
    "sys_lock s h = Some u \<Longrightarrow> home u = h" for u h
    using inv by (auto simp: lock_inv_def)
  let ?L = "(sys_lock s)(home t := if holds_lock pc then Some t
      else if holds_lock (sys_pc s t) then None else sys_lock s (home t))"
  have "holds_lock (((sys_pc s)(t := pc)) u) \<longleftrightarrow> ?L (home u) = Some u" for u
    using free own others(1) [of u] by (cases "u = t"; cases "home u = home t") auto
  moreover have "home u = h" if "?L h = Some u" for h u
    using that others(2) [of h u] by (cases "h = home t") (simp_all split: if_splits)
  ultimately show ?thesis
    unfolding lock_inv_def fi_step_sel [where home = home and t = t and s = s, OF adv] by blast
qed

lemma winner_inv_step:
  assumes lock: "lock_inv home s" and inv: "winner_inv home h k s" and en: "fi_enabled home t s"
  shows "winner_inv home h k (fi_step ext base home io t s)"
proof (cases "home t = h")
  case False
  obtain pc f c where adv: "fi_advance ext base io (sys_pc s t, sys_fs s, sys_cache s (home t)) = (pc, f, c)"
    by (metis prod_cases3)
  show ?thesis
    by (rule winner_inv_local [OF _ _ inv])
      (use False in \<open>auto simp: fi_step_sel [where home = home and t = t and s = s, OF adv]\<close>)
next
  case True
  obtain pc f c where adv: "fi_advance ext base io (sys_pc s t, sys_fs s, sys_cache s (home t)) = (pc, f, c)"
    by (metis prod_cases3)
  let ?c = "sys_cache s h"
  note rel = winner_invD(1) [OF inv] and cl = winner_invD(2) [OF inv] and wn = winner_invD(3) [OF inv]
    and uniq = winner_invD(4) [OF inv]
  text \<open>While another thread of the handle is claiming, this one cannot touch the cache.\<close>
  have frozen: "c = ?c" if "home u = h" "claiming k (sys_pc s u)" "u \<noteq> t" for u
  proof -
    have "sys_lock s h = Some u"
      using lock claiming_holds [OF that(2)] that(1) by (auto simp: lock_inv_def)
    then have "\<not> takes_lock (sys_pc s t)" "\<not> holds_lock (sys_pc s t)"
      using en lock that(3) True by (auto simp: fi_enabled_def lock_inv_def)
    with fi_advance_cache_locked [OF adv] True show ?thesis by simp
  qed
  show ?thesis
    unfolding winner_inv_def fi_step_sel [where home = home and t = t and s = s, OF adv]
  proof (intro conjI allI impI)
    fix u assume u: "home u = h"
    then show "\<not> releasing k (((sys_pc s)(t := pc)) u)"
      using rel fi_advance_releasing [OF adv] True by simp
  next
    fix u assume u: "home u = h \<and> claiming k (((sys_pc s)(t := pc)) u)"
    show "((sys_cache s)(home t := c)) h k = None"
    proof (cases "u = t")
      case True
      with u fi_advance_claiming [OF adv, of k] cl [of t] show ?thesis by auto
    next
      case False
      with u cl [of u] frozen [of u] True show ?thesis by auto
    qed
  next
    fix u assume u: "home u = h \<and> won k (((sys_pc s)(t := pc)) u)"
    show "((sys_cache s)(home t := c)) h k \<noteq> None"
    proof (cases "u = t")
      case True
      with u fi_advance_won [OF adv, of k] wn [of t] show ?thesis by auto
    next
      case False
      with u wn [of u] fi_advance_keeps [OF adv rel [OF True]] True show ?thesis by auto
    qed
  next
    fix u v assume uv: "home u = h \<and> home v = h \<and> won k (((sys_pc s)(t := pc)) u) \<and> won k (((sys_pc s)(t := pc)) v)"
    have new: "won k (sys_pc s t)" if "w \<noteq> t" "home w = h" "won k (sys_pc s w)" "won k pc" for w
      using fi_advance_won [OF adv that(4)] wn [OF that(2,3)] cl [OF True] by auto
    show "u = v"
    proof (cases "u = t \<longleftrightarrow> v = t")
      case True
      with uv uniq [of u v] show ?thesis by (cases "u = t") simp_all
    next
      case False
      define w where "w = (if u = t then v else u)"
      with False uv have w: "w \<noteq> t" "home w = h" "won k (sys_pc s w)" "won k pc"
        by (cases "u = t"; simp)+
      from uniq [OF w(2) True w(3) new [OF w]] w(1) show ?thesis by simp
    qed
  qed
qed

lemma fi_fresh_simps:
  "fi_fresh pc \<Longrightarrow> \<not> holds_lock pc" "fi_fresh pc \<Longrightarrow> \<not> claiming k pc"
  "fi_fresh pc \<Longrightarrow> releasing k pc \<Longrightarrow> pc = FRelease k" "fi_steps_left pc \<le> 4"
  by (cases pc; simp)+

lemma lock_inv_exec:
  assumes "fi_exec ext base home s0 sch s" and "fi_start s0"
  shows "lock_inv home s"
  by (rule exec_invariant [OF assms(1)])
    (use assms(2) in \<open>auto simp: lock_inv_step, auto simp: lock_inv_def fi_start_def fi_fresh_simps(1)\<close>)

lemma winner_inv_exec:
  assumes "fi_exec ext base home s0 sch s" and "fi_start s0"
    and "\<And>t. home t = h \<Longrightarrow> sys_pc s0 t \<noteq> FRelease k"
  shows "winner_inv home h k s"
proof -
  have "\<not> releasing k (sys_pc s0 t)" if "home t = h" for t
    using assms(2) assms(3) [OF that] fi_fresh_simps(3) [of "sys_pc s0 t" k] by (auto simp: fi_start_def)
  then have "winner_inv home h k s0" "lock_inv home s0"
    using assms(2) by (auto simp: winner_inv_def lock_inv_def fi_start_def won_def fi_fresh_simps(1,2))
  then have "winner_inv home h k s \<and> lock_inv home s"
    by (intro exec_invariant [OF assms(1), where I = "\<lambda>s. winner_inv home h k s \<and> lock_inv home s"])
      (auto simp: winner_inv_step lock_inv_step)
  then show ?thesis ..
qed

text \<open>The threads of the file store are threads: each step brings a call nearer to its end.\<close>

interpretation fi_threads: threads sys_pc fi_steps_left "fi_enabled home" "fi_step ext base home"
  for ext base home
proof
  fix t s io u
  assume en: "fi_enabled home t s"
  obtain pc f c where adv: "fi_advance ext base io (sys_pc s t, sys_fs s, sys_cache s (home t)) = (pc, f, c)"
    by (metis prod_cases3)
  note sel = fi_step_sel(1) [where home = home and t = t and s = s, OF adv]
  show "fi_steps_left (sys_pc (fi_step ext base home io t s) t) < fi_steps_left (sys_pc s t)"
    using fi_advance_rest [OF adv] en by (simp add: sel fi_enabled_def)
  show "u \<noteq> t \<Longrightarrow> sys_pc (fi_step ext base home io t s) u = sys_pc s u" by (simp add: sel)
qed

text \<open>Whoever waits for a mutex waits for a thread that can go on.\<close>

lemma some_thread_enabled:
  assumes "lock_inv home s" and "\<not> fi_finished (sys_pc s t)"
  shows "\<exists>u. fi_enabled home u s"
proof (cases "fi_enabled home t s")
  case False
  then obtain u where "sys_lock s (home t) = Some u" using assms(2) by (auto simp: fi_enabled_def)
  then have "holds_lock (sys_pc s u)" using assms(1) unfolding lock_inv_def by metis
  then have "fi_enabled home u s" by (cases "sys_pc s u") (simp_all add: fi_enabled_def)
  then show ?thesis ..
qed blast

section \<open>The file store: properties\<close>

text \<open>
  Property C11 (safety): the calls on one handle interleave at the grain of their file operations
  (claims under the mutex, completions and releases partly outside it, other handles writing and
  unlinking in the same directory, any of these failing) and still at most one of them is told
  \<open>Claimed\<close> for a key that nobody releases on that handle.
\<close>

theorem handle_one_winner:
  assumes "fi_start s0" and "fi_exec ext base home s0 sch s"
    and "\<forall>t. home t = h \<longrightarrow> sys_pc s0 t \<noteq> FRelease k"
  shows "\<exists>t. {u. home u = h \<and> won k (sys_pc s u)} \<subseteq> {t}"
proof -
  have "winner_inv home h k s" using winner_inv_exec [OF assms(2,1)] assms(3) by blast
  then show ?thesis unfolding winner_inv_def by blast
qed

text \<open>Two calls that claim a key on an empty directory, and a completion of another key.\<close>

definition two_claims :: "string \<Rightarrow> fi_sys" where
  "two_claims k = \<lparr>sys_fs = Map.empty, sys_cache = (\<lambda>_. Map.empty), sys_lock = (\<lambda>_. None),
     sys_pc = (\<lambda>_. FDone)(0 := FClaim k, 1 := FClaim k, 2 := FComplete (k @ k) Verified)\<rparr>"

definition solo_handle :: "nat \<Rightarrow> nat" where
  "solo_handle t = 0"

lemma two_claims_start: "fi_start (two_claims k)"
  by (simp add: fi_start_def two_claims_def)

lemmas fi_eval = fi_step_def fi_enabled_def two_claims_def solo_handle_def Let_def save_write_def
  save_rename_def load_entry_def fs_write_def fs_rename_def

theorem handle_one_winner_witness:
  "\<exists>s t. fi_run demo_file_lib ''d'' solo_handle
       [(good_io, 2), (good_io, 0), (good_io, 0), (good_io, 2), (good_io, 0), (good_io, 0),
        (good_io, 1), (good_io, 2)] (two_claims ''a'') = Some s \<and>
     sys_pc s 0 = FAnswer ''a'' (Claimed, None) \<and> sys_pc s 1 = FAnswer ''a'' (AlreadyClaimed, None) \<and>
     {u. solo_handle u = 0 \<and> won ''a'' (sys_pc s u)} \<subseteq> {t}"
proof -
  obtain s where s: "fi_run demo_file_lib ''d'' solo_handle
       [(good_io, 2), (good_io, 0), (good_io, 0), (good_io, 2), (good_io, 0), (good_io, 0),
        (good_io, 1), (good_io, 2)] (two_claims ''a'') = Some s"
     "sys_pc s 0 = FAnswer ''a'' (Claimed, None) \<and> sys_pc s 1 = FAnswer ''a'' (AlreadyClaimed, None)"
    by (simp add: fi_eval good_io_def demo_file_lib_def entry_paths new_in_flight_def)
  have "\<exists>t. {u. solo_handle u = 0 \<and> won ''a'' (sys_pc s u)} \<subseteq> {t}"
    by (rule handle_one_winner [OF two_claims_start run_schedule_exec [OF s(1)]])
      (simp add: two_claims_def)
  with s show ?thesis by blast
qed

text \<open>
  Property C12 (termination): calls on file stores always finish. When only the calls in \<open>T\<close> are
  under way, no execution is longer than four steps for each, and as long as one of them is not
  over some call can make its next step: the mutexes cannot deadlock.
\<close>

theorem file_calls_finish:
  assumes "fi_start s0" and "fi_exec ext base home s0 sch s" and "finite T"
    and "\<forall>t. t \<notin> T \<longrightarrow> fi_finished (sys_pc s0 t)"
  shows "length sch \<le> 4 * card T \<and>
    ((\<exists>t. \<not> fi_finished (sys_pc s t)) \<longrightarrow> (\<exists>t. fi_enabled home t s))"
proof
  show "length sch \<le> 4 * card T"
    by (rule fi_threads.executions_bounded [OF assms(2,3)])
      (use assms(4) in \<open>auto simp: fi_fresh_simps(4)\<close>)
  show "(\<exists>t. \<not> fi_finished (sys_pc s t)) \<longrightarrow> (\<exists>t. fi_enabled home t s)"
    using some_thread_enabled [OF lock_inv_exec [OF assms(2,1)]] by blast
qed

theorem file_calls_finish_witness:
  "\<exists>s. fi_run demo_file_lib ''d'' solo_handle [(good_io, 0), (good_io, 0), (good_io, 2)]
      (two_claims ''a'') = Some s \<and> \<not> fi_enabled solo_handle 1 s \<and>
    (\<exists>t. fi_enabled solo_handle t s)"
proof -
  obtain s where s: "fi_run demo_file_lib ''d'' solo_handle [(good_io, 0), (good_io, 0), (good_io, 2)]
      (two_claims ''a'') = Some s" "sys_lock s 0 = Some 0" "sys_pc s 1 = FClaim ''a''"
    by (simp add: fi_eval good_io_def demo_file_lib_def)
  have "length [(good_io, 0), (good_io, 0), (good_io, 2::nat)] \<le> 4 * card {0, 1, 2::nat} \<and>
    ((\<exists>t. \<not> fi_finished (sys_pc s t)) \<longrightarrow> (\<exists>t. fi_enabled solo_handle t s))"
    by (rule file_calls_finish [OF two_claims_start [of "''a''"], of solo_handle demo_file_lib "''d''"])
      (use run_schedule_exec [OF s(1)] in \<open>simp_all add: two_claims_def\<close>)
  moreover have "\<not> fi_finished (sys_pc s 1)" using s(3) by simp
  ultimately have "\<exists>t. fi_enabled solo_handle t s" by blast
  moreover have "\<not> fi_enabled solo_handle 1 s" using s(2,3) by (simp add: fi_enabled_def solo_handle_def)
  ultimately show ?thesis using s(1) by blast
qed

text \<open>
  Property C13 (safety): the mutex is the handle's own. Two handles on one directory, as two
  processes have, can both be told \<open>Claimed\<close> for a key: each finds no entry before the other
  has renamed its own into place, whatever the key, when entries can be serialised and all
  file operations succeed.
\<close>

theorem two_handles_both_win:
  assumes "\<forall>e. entry_to_string ext e \<noteq> None"
  shows "\<exists>sch s. fi_exec ext base id (two_claims k) sch s \<and>
    sys_pc s 0 = FAnswer k (Claimed, None) \<and> sys_pc s 1 = FAnswer k (Claimed, None)"
proof -
  obtain c where c: "entry_to_string ext (new_in_flight [] k) = Some c" using assms by blast
  have "\<exists>s. fi_run ext base id (map (Pair good_io) [0, 1, 0, 0, 0, 1, 1, 1]) (two_claims k) = Some s \<and>
    sys_pc s 0 = FAnswer k (Claimed, None) \<and> sys_pc s 1 = FAnswer k (Claimed, None)"
    by (simp add: fi_eval good_io_def c)
  then show ?thesis by (metis run_schedule_exec)
qed

theorem two_handles_both_win_witness:
  "\<exists>sch s. fi_exec demo_file_lib ''d'' id (two_claims ''a'') sch s \<and>
    sys_pc s 0 = FAnswer ''a'' (Claimed, None) \<and> sys_pc s 1 = FAnswer ''a'' (Claimed, None)"
  by (rule two_handles_both_win) (simp add: demo_file_lib_def)

section \<open>The Redis store, command by command\<close>

text \<open>
  The server runs commands one at a time over a map; a client's command arrives and is answered,
  is lost on its way, or is run and its answer lost. \<open>claim_or_check\<close> sends \<open>SET NX\<close>, then a \<open>GET\<close>
  when the key exists, then a second \<open>SET NX\<close> when the entry went missing in between.
\<close>

datatype delivery = Delivered | RequestLost | ReplyLost

record rd_io =
  rio_now :: string
  rio_conn :: bool
  rio_delivery :: delivery

type_synonym rd_db = "string \<Rightarrow> string option"

definition send_command :: "delivery \<Rightarrow> (rd_db \<Rightarrow> 'a \<times> rd_db) \<Rightarrow> rd_db \<Rightarrow> 'a option \<times> rd_db" where
  "send_command d f db =
     (case d of
        Delivered \<Rightarrow> (Some (fst (f db)), snd (f db))
      | RequestLost \<Rightarrow> (None, db)
      | ReplyLost \<Rightarrow> (None, snd (f db)))"

definition srv_set_nx :: "string \<Rightarrow> string \<Rightarrow> rd_db \<Rightarrow> bool \<times> rd_db" where
  "srv_set_nx key v db = (if db key = None then (True, db(key \<mapsto> v)) else (False, db))"

datatype rd_pc =
    RClaim string
  | RClaimGet string
  | RClaimRetry string
  | RComplete string verification_result
  | RRelease string
  | RAnswer string claim_answer
  | RDone

fun rd_advance :: "rd_db redis_lib \<Rightarrow> rd_io \<Rightarrow> rd_pc \<times> rd_db \<Rightarrow> rd_pc \<times> rd_db" where
  "rd_advance lib io (RClaim key, db) =
     (if \<not> rio_conn io then (RAnswer key (Claimed, None), db)
      else case redis_entry_to_string lib (redis_new_in_flight (rio_now io) key) of
        None \<Rightarrow> (RAnswer key (Claimed, None), db)
      | Some v \<Rightarrow>
          (case send_command (rio_delivery io) (srv_set_nx (redis_key key) v) db of
             (Some True, db1) \<Rightarrow> (RAnswer key (Claimed, None), db1)
           | (Some False, db1) \<Rightarrow> (RClaimGet key, db1)
           | (None, db1) \<Rightarrow> (RAnswer key (AlreadyClaimed, None), db1)))"
| "rd_advance lib io (RClaimGet key, db) =
     (case send_command (rio_delivery io) (\<lambda>db. (db (redis_key key), db)) db of
        (Some (Some raw), db1) \<Rightarrow>
          (RAnswer key (AlreadyClaimed,
             case redis_entry_from_str lib raw of Some e \<Rightarrow> redis_to_result e | None \<Rightarrow> None), db1)
      | (_, db1) \<Rightarrow> (RClaimRetry key, db1))"
| "rd_advance lib io (RClaimRetry key, db) =
     (let v = (case redis_entry_to_string lib (redis_new_in_flight (rio_now io) key) of
                 None \<Rightarrow> [] | Some v \<Rightarrow> v)
      in case send_command (rio_delivery io) (srv_set_nx (redis_key key) v) db of
           (Some True, db1) \<Rightarrow> (RAnswer key (Claimed, None), db1)
         | (_, db1) \<Rightarrow> (RAnswer key (AlreadyClaimed, None), db1))"
| "rd_advance lib io (RComplete key result, db) =
     (if \<not> rio_conn io then (RDone, db)
      else case redis_entry_to_string lib (redis_new_completed (rio_now io) key result) of
        None \<Rightarrow> (RDone, db)
      | Some v \<Rightarrow> (RDone, snd (send_command (rio_delivery io) (\<lambda>db. ((), db(redis_key key \<mapsto> v))) db)))"
| "rd_advance lib io (RRelease key, db) =
     (if rio_conn io
      then (RDone, snd (send_command (rio_delivery io) (\<lambda>db. ((), db(redis_key key := None))) db))
      else (RDone, db))"
| "rd_advance lib io (RAnswer key a, db) = (RAnswer key a, db)"
| "rd_advance lib io (RDone, db) = (RDone, db)"

text \<open>A step of a client, or the expiry of an entry.\<close>

datatype rd_event = RdStep rd_io nat | RdExpire string

record rd_sys =
  rd_db :: rd_db
  rd_pcs :: "nat \<Rightarrow> rd_pc"

definition rd_do :: "rd_db redis_lib \<Rightarrow> rd_event \<Rightarrow> rd_sys \<Rightarrow> rd_sys" where
  "rd_do lib ev s =
     (case ev of
        RdStep io t \<Rightarrow>
          (let (pc, db) = rd_advance lib io (rd_pcs s t, rd_db s)
           in \<lparr>rd_db = db, rd_pcs = (rd_pcs s)(t := pc)\<rparr>)
      | RdExpire key \<Rightarrow> s\<lparr>rd_db := (rd_db s)(redis_key key := None)\<rparr>)"

definition rd_won :: "string \<Rightarrow> rd_pc \<Rightarrow> bool" where
  "rd_won k pc \<longleftrightarrow> (case pc of RAnswer key (Claimed, _) \<Rightarrow> key = k | _ \<Rightarrow> False)"

text \<open>How often, in a run, a client is told \<open>Claimed\<close> for a key, and how often the key is expired
  or about to be deleted.\<close>

fun rd_wins :: "rd_db redis_lib \<Rightarrow> string \<Rightarrow> rd_event list \<Rightarrow> rd_sys \<Rightarrow> nat" where
  "rd_wins lib k [] s = 0"
| "rd_wins lib k (ev # evs) s =
     (case ev of
        RdStep io t \<Rightarrow>
          if rd_won k (rd_pcs (rd_do lib ev s) t) \<and> \<not> rd_won k (rd_pcs s t) then 1 else 0
      | RdExpire _ \<Rightarrow> 0) + rd_wins lib k evs (rd_do lib ev s)"

fun rd_removals :: "rd_db redis_lib \<Rightarrow> string \<Rightarrow> rd_event list \<Rightarrow> rd_sys \<Rightarrow> nat" where
  "rd_removals lib k [] s = 0"
| "rd_removals lib k (ev # evs) s =
     (if (case ev of RdStep io t \<Rightarrow> rd_pcs s t = RRelease k | RdExpire key \<Rightarrow> key = k) then 1 else 0)
     + rd_removals lib k evs (rd_do lib ev s)"

text \<open>Alone, with every command answered, a client does what the one-step method does.\<close>

definition map_server ::
  "(redis_entry \<Rightarrow> string option) \<Rightarrow> (string \<Rightarrow> redis_entry option) \<Rightarrow> rd_db redis_lib" where
  "map_server enc dec = map_redis\<lparr>redis_entry_to_string := enc, redis_entry_from_str := dec\<rparr>"

lemma redis_claim_solo:
  assumes "rio_conn io" "rio_delivery io = Delivered"
  shows "(rd_advance (map_server enc dec) io ^^ 3) (RClaim key, db) =
    (let (a, db') = redis_claim_or_check (map_server enc dec) ttl (rio_now io) key db
     in (RAnswer key a, db'))"
  using assms
  by (auto simp: redis_claim_or_check_def map_server_def map_redis_def numeral_eq_Suc send_command_def
      srv_set_nx_def split: option.split)

lemma redis_others_solo:
  assumes "rio_delivery io = Delivered"
  shows "rio_conn io \<Longrightarrow> rd_advance (map_server enc dec) io (RComplete key r, db) =
      (RDone, redis_complete (map_server enc dec) ttl (rio_now io) key r db)"
    and "rio_conn io \<Longrightarrow> rd_advance (map_server enc dec) io (RRelease key, db) =
      (RDone, redis_release (map_server enc dec) key db)"
  using assms
  by (auto simp: redis_complete_def redis_release_def map_server_def map_redis_def send_command_def
      split: option.split)

text \<open>Only a \<open>SET NX\<close> on a vacant key makes a winner; only a removal makes a key vacant.\<close>

lemma rd_advance_effect:
  assumes "rio_conn io" and "\<And>now. redis_entry_to_string lib (new_in_flight now k) \<noteq> None"
    and "rd_advance lib io (pc, db) = (pc', db')"
  shows "rd_won k pc' \<Longrightarrow> \<not> rd_won k pc \<Longrightarrow> db (redis_key k) = None \<and> db' (redis_key k) \<noteq> None"
    and "pc \<noteq> RRelease k \<Longrightarrow> db (redis_key k) \<noteq> None \<Longrightarrow> db' (redis_key k) \<noteq> None"
    and "pc = RRelease k \<Longrightarrow> \<not> rd_won k pc'"
  using assms
  by (cases pc; auto simp: send_command_def srv_set_nx_def rd_won_def Let_def
      split: option.splits delivery.splits if_splits bool.splits)+

lemma rd_wins_bound:
  assumes "\<And>io t. RdStep io t \<in> set evs \<Longrightarrow> rio_conn io"
    and "\<And>now. redis_entry_to_string lib (new_in_flight now k) \<noteq> None"
  shows "rd_wins lib k evs s \<le> rd_removals lib k evs s + (if rd_db s (redis_key k) = None then 1 else 0)"
  using assms(1)
proof (induction evs arbitrary: s)
  case (Cons ev evs)
  let ?s = "rd_do lib ev s"
  have IH: "rd_wins lib k evs ?s \<le>
      rd_removals lib k evs ?s + (if rd_db ?s (redis_key k) = None then 1 else 0)"
    by (rule Cons.IH) (use Cons.prems in auto)
  show ?case
  proof (cases ev)
    case (RdStep io t)
    obtain pc db where adv: "rd_advance lib io (rd_pcs s t, rd_db s) = (pc, db)" by fastforce
    have "rio_conn io" using Cons.prems RdStep by auto
    note eff = rd_advance_effect [OF this assms(2) adv]
    have s': "rd_pcs ?s t = pc" "rd_db ?s = db" using adv RdStep by (simp_all add: rd_do_def)
    show ?thesis
      using IH eff s' RdStep by (cases "rd_pcs s t = RRelease k") (auto split: if_splits)
  next
    case (RdExpire key)
    with IH show ?thesis by (auto simp: rd_do_def split: if_splits)
  qed
qed simp

text \<open>
  Property C14 (bounds): however the commands of any number of clients interleave and whatever
  replies are lost, as long as connections can be had the Redis store tells at most one more
  client \<open>Claimed\<close> for a key than the key is released or expires.
\<close>

theorem redis_wins_bounded:
  assumes "\<forall>ev \<in> set evs. case ev of RdStep io t \<Rightarrow> rio_conn io | RdExpire key \<Rightarrow> True"
    and "\<forall>now. redis_entry_to_string lib (new_in_flight now k) \<noteq> None"
  shows "rd_wins lib k evs s \<le> rd_removals lib k evs s + 1"
  using rd_wins_bound [of evs lib k s] assms by (fastforce split: if_splits)

definition answered_io :: rd_io where
  "answered_io = \<lparr>rio_now = [], rio_conn = True, rio_delivery = Delivered\<rparr>"

theorem redis_wins_bounded_witness:
  "rd_wins map_redis ''k''
     [RdStep answered_io 0, RdStep answered_io 1, RdExpire ''k'', RdStep answered_io 1,
      RdStep (answered_io\<lparr>rio_delivery := ReplyLost\<rparr>) 1, RdStep answered_io 2]
     \<lparr>rd_db = Map.empty, rd_pcs = (\<lambda>_. RClaim ''k'')\<rparr> \<le> 2"
  using redis_wins_bounded [of "[RdStep answered_io 0, RdStep answered_io 1, RdExpire ''k'', RdStep answered_io 1,
      RdStep (answered_io\<lparr>rio_delivery := ReplyLost\<rparr>) 1, RdStep answered_io 2]" map_redis "''k''"
     "\<lparr>rd_db = Map.empty, rd_pcs = (\<lambda>_. RClaim ''k'')\<rparr>"]
  by (simp add: answered_io_def rd_do_def send_command_def srv_set_nx_def)

end
