(* ===== verification/Breaker_Interleaving.thy ===== *)
theory Breaker_Interleaving
  imports Recovery Interleaving
begin

text \<open>
  A circuit breaker shared by threads (\<open>agentverify-recovery/src/lib.rs\<close>), at the grain of its
  locks and atomics. \<open>record_failure\<close> holds the write lock of \<open>last_failure\<close> to its end,
  \<open>is_allowed\<close> holds its read lock while it moves an open circuit to half-open, and the state and
  the counters are read and written one at a time.
\<close>

section \<open>Program counters\<close>

datatype br_pc =
    BFail | BFailState | BFailAdd | BFailOpen | BFailReopen | BFailReset
  | BSucc | BSuccReset | BSuccAdd | BSuccClose | BSuccFailures | BSuccSuccesses
  | BAsk | BAskLast | BAskHalfOpen
  | BAllowed bool | BDone

fun br_advance :: "datetime \<Rightarrow> br_pc \<times> circuit_breaker \<Rightarrow> br_pc \<times> circuit_breaker" where
  "br_advance now (BFail, cb) = (BFailState, cb\<lparr>last_failure := Some now\<rparr>)"
| "br_advance now (BFailState, cb) =
     (case cb_state cb of Closed \<Rightarrow> BFailAdd | HalfOpen \<Rightarrow> BFailReopen | Open \<Rightarrow> BDone, cb)"
| "br_advance now (BFailAdd, cb) =
     (let failures = failure_count cb + 1
      in (if failures \<ge> failure_threshold (cb_config cb) then BFailOpen else BDone,
          cb\<lparr>failure_count := failures\<rparr>))"
| "br_advance now (BFailOpen, cb) = (BDone, cb\<lparr>cb_state := Open\<rparr>)"
| "br_advance now (BFailReopen, cb) = (BFailReset, cb\<lparr>cb_state := Open\<rparr>)"
| "br_advance now (BFailReset, cb) = (BDone, cb\<lparr>success_count := 0\<rparr>)"
| "br_advance now (BSucc, cb) =
     (case cb_state cb of Closed \<Rightarrow> BSuccReset | HalfOpen \<Rightarrow> BSuccAdd | Open \<Rightarrow> BDone, cb)"
| "br_advance now (BSuccReset, cb) = (BDone, cb\<lparr>failure_count := 0\<rparr>)"
| "br_advance now (BSuccAdd, cb) =
     (let successes = success_count cb + 1
      in (if successes \<ge> success_threshold (cb_config cb) then BSuccClose else BDone,
          cb\<lparr>success_count := successes\<rparr>))"
| "br_advance now (BSuccClose, cb) = (BSuccFailures, cb\<lparr>cb_state := Closed\<rparr>)"
| "br_advance now (BSuccFailures, cb) = (BSuccSuccesses, cb\<lparr>failure_count := 0\<rparr>)"
| "br_advance now (BSuccSuccesses, cb) = (BDone, cb\<lparr>success_count := 0\<rparr>)"
| "br_advance now (BAsk, cb) = (if cb_state cb = Open then BAskLast else BAllowed True, cb)"
| "br_advance now (BAskLast, cb) =
     (case last_failure cb of
        Some t \<Rightarrow>
          if now - t \<ge> recovery_timeout (cb_config cb) then BAskHalfOpen else BAllowed False
      | None \<Rightarrow> BAllowed False, cb)"
| "br_advance now (BAskHalfOpen, cb) = (BAllowed True, cb\<lparr>cb_state := HalfOpen\<rparr>)"
| "br_advance now (BAllowed b, cb) = (BAllowed b, cb)"
| "br_advance now (BDone, cb) = (BDone, cb)"

fun br_steps_left :: "br_pc \<Rightarrow> nat" where
  "br_steps_left BFail = 4"
| "br_steps_left BFailState = 3"
| "br_steps_left BFailAdd = 2"
| "br_steps_left BFailOpen = 1"
| "br_steps_left BFailReopen = 2"
| "br_steps_left BFailReset = 1"
| "br_steps_left BSucc = 5"
| "br_steps_left BSuccReset = 1"
| "br_steps_left BSuccAdd = 4"
| "br_steps_left BSuccClose = 3"
| "br_steps_left BSuccFailures = 2"
| "br_steps_left BSuccSuccesses = 1"
| "br_steps_left BAsk = 3"
| "br_steps_left BAskLast = 2"
| "br_steps_left BAskHalfOpen = 1"
| "br_steps_left (BAllowed _) = 0"
| "br_steps_left BDone = 0"

text \<open>Alone, a thread does what the one-step method does.\<close>

lemma record_failure_solo: "(br_advance now ^^ 4) (BFail, cb) = (BDone, record_failure now cb)"
  by (auto simp: numeral_eq_Suc record_failure_def Let_def split: circuit_state.split)

lemma record_success_solo: "(br_advance now ^^ 5) (BSucc, cb) = (BDone, record_success cb)"
  by (auto simp: numeral_eq_Suc record_success_def Let_def split: circuit_state.split)

lemma is_allowed_solo:
  "(br_advance now ^^ 3) (BAsk, cb) = (BAllowed (fst (is_allowed now cb)), snd (is_allowed now cb))"
  by (auto simp: numeral_eq_Suc is_allowed_def split: option.split)

section \<open>Threads\<close>

text \<open>Who holds the lock of \<open>last_failure\<close> for writing, and who for reading.\<close>

definition holds_write :: "br_pc \<Rightarrow> bool" where
  "holds_write pc = (pc \<in> {BFailState, BFailAdd, BFailOpen, BFailReopen, BFailReset})"

definition holds_read :: "br_pc \<Rightarrow> bool" where
  "holds_read pc = (pc = BAskHalfOpen)"

record br_sys =
  br_cb :: circuit_breaker
  br_pcs :: "nat \<Rightarrow> br_pc"

definition br_enabled :: "nat \<Rightarrow> br_sys \<Rightarrow> bool" where
  "br_enabled t s \<longleftrightarrow> br_steps_left (br_pcs s t) \<noteq> 0 \<and>
     (br_pcs s t = BFail \<longrightarrow> (\<forall>u. \<not> holds_write (br_pcs s u) \<and> \<not> holds_read (br_pcs s u))) \<and>
     (br_pcs s t = BAskLast \<longrightarrow> (\<forall>u. \<not> holds_write (br_pcs s u)))"

definition br_step :: "datetime \<Rightarrow> nat \<Rightarrow> br_sys \<Rightarrow> br_sys" where
  "br_step now t s =
     (let (pc, cb) = br_advance now (br_pcs s t, br_cb s)
      in \<lparr>br_cb = cb, br_pcs = (br_pcs s)(t := pc)\<rparr>)"

text \<open>A new breaker, and every thread about to call a method or without a call.\<close>

definition br_start :: "circuit_breaker_config \<Rightarrow> br_sys \<Rightarrow> bool" where
  "br_start cfg s \<longleftrightarrow> br_cb s = new_circuit_breaker cfg \<and> (\<forall>t. br_pcs s t \<in> {BFail, BSucc, BAsk, BDone})"

lemma br_step_sel [simp]:
  "br_pcs (br_step now t s) = (br_pcs s)(t := fst (br_advance now (br_pcs s t, br_cb s)))"
  "br_cb (br_step now t s) = snd (br_advance now (br_pcs s t, br_cb s))"
  by (simp_all add: br_step_def split_def Let_def)

lemma br_advance_nearer:
  "br_steps_left pc \<noteq> 0 \<Longrightarrow> br_steps_left (fst (br_advance now (pc, cb))) < br_steps_left pc"
  by (cases pc) (auto simp: Let_def split: circuit_state.split option.split)

interpretation br_threads: threads br_pcs br_steps_left br_enabled br_step
  by unfold_locales (simp_all add: br_enabled_def br_advance_nearer)

text \<open>
  What is kept: the lock of \<open>last_failure\<close> excludes, a circuit that is not closed has failed at
  some time, and so has every circuit a thread is about to open or half-open.
\<close>

definition br_inv :: "br_sys \<Rightarrow> bool" where
  "br_inv s \<longleftrightarrow>
     (\<forall>t u. holds_write (br_pcs s t) \<and> (holds_write (br_pcs s u) \<or> holds_read (br_pcs s u)) \<longrightarrow> t = u) \<and>
     (cb_state (br_cb s) \<noteq> Closed \<longrightarrow> last_failure (br_cb s) \<noteq> None) \<and>
     (\<forall>t. holds_write (br_pcs s t) \<or> holds_read (br_pcs s t) \<or> br_pcs s t = BAskLast
        \<longrightarrow> last_failure (br_cb s) \<noteq> None)"

lemma br_advance_last:
  "last_failure cb \<noteq> None \<Longrightarrow> last_failure (snd (br_advance now (pc, cb))) \<noteq> None"
  by (cases pc) (auto simp: Let_def)

lemma br_advance_state:
  assumes "cb_state cb \<noteq> Closed \<longrightarrow> last_failure cb \<noteq> None"
    and "holds_write pc \<or> holds_read pc \<or> pc = BAskLast \<longrightarrow> last_failure cb \<noteq> None"
    and "cb_state (snd (br_advance now (pc, cb))) \<noteq> Closed \<or>
      (let pc' = fst (br_advance now (pc, cb)) in holds_write pc' \<or> holds_read pc' \<or> pc' = BAskLast)"
  shows "last_failure (snd (br_advance now (pc, cb))) \<noteq> None"
  using assms
  by (cases pc) (auto simp: Let_def holds_write_def holds_read_def
    split: circuit_state.splits option.splits if_splits)

lemma br_advance_locks:
  "holds_write (fst (br_advance now (pc, cb))) \<Longrightarrow> holds_write pc \<or> pc = BFail"
  "holds_read (fst (br_advance now (pc, cb))) \<Longrightarrow> pc = BAskLast"
  by (cases pc; auto simp: Let_def holds_write_def holds_read_def split: circuit_state.splits option.splits if_splits)+

lemma br_inv_step:
  assumes inv: "br_inv s" and en: "br_enabled t s"
  shows "br_inv (br_step now t s)"
proof -
  let ?pc = "fst (br_advance now (br_pcs s t, br_cb s))" and ?cb = "snd (br_advance now (br_pcs s t, br_cb s))"
  note locks = br_advance_locks [of now "br_pcs s t" "br_cb s"]
  have excl: "u = v" if "holds_write (br_pcs s u)" "holds_write (br_pcs s v) \<or> holds_read (br_pcs s v)" for u v
    using inv that unfolding br_inv_def by blast
  have last: "last_failure (br_cb s) \<noteq> None"
    if "holds_write (br_pcs s u) \<or> holds_read (br_pcs s u) \<or> br_pcs s u = BAskLast" for u
    using inv that unfolding br_inv_def by blast
  have cl: "cb_state (br_cb s) \<noteq> Closed \<longrightarrow> last_failure (br_cb s) \<noteq> None"
    using inv unfolding br_inv_def by blast
  have kept: "last_failure ?cb \<noteq> None"
    if "cb_state ?cb \<noteq> Closed \<or> holds_write ?pc \<or> holds_read ?pc \<or> ?pc = BAskLast"
    using br_advance_state [OF cl, of "br_pcs s t" now] last [of t] that by (simp add: Let_def)
  have new: "u = v" if uv: "holds_write (((br_pcs s)(t := ?pc)) u)"
    "holds_write (((br_pcs s)(t := ?pc)) v) \<or> holds_read (((br_pcs s)(t := ?pc)) v)" for u v
  proof (rule ccontr)
    assume ne: "u \<noteq> v"
    show False
    proof (cases "t = u \<or> t = v")
      case False
      then show ?thesis using uv ne excl [of u v] by auto
    next
      case True
      define w where "w = (if t = u then v else u)"
      have w: "w \<noteq> t" "holds_write (br_pcs s w) \<or> holds_read (br_pcs s w)"
        using True ne uv by (auto simp: w_def split: if_splits)
      show ?thesis
      proof (cases "t = u")
        case True
        then have "holds_write ?pc" using uv by simp
        from locks(1) [OF this] w excl [of t w] en show False by (auto simp: br_enabled_def)
      next
        case False
        then have "holds_write (br_pcs s w)" "holds_write ?pc \<or> holds_read ?pc"
          using uv \<open>t = u \<or> t = v\<close> by (auto simp: w_def)
        with locks w(1) excl [of w t] en show False by (auto simp: br_enabled_def)
      qed
    qed
  qed
  have "last_failure ?cb \<noteq> None"
    if "holds_write (((br_pcs s)(t := ?pc)) u) \<or> holds_read (((br_pcs s)(t := ?pc)) u) \<or>
      ((br_pcs s)(t := ?pc)) u = BAskLast" for u
    using that kept last [of u] br_advance_last [of "br_cb s" now "br_pcs s t"] by (cases "u = t") auto
  with new kept show ?thesis unfolding br_inv_def br_step_sel by blast
qed

lemma br_inv_exec:
  assumes "exec br_enabled br_step s0 sch s" and "br_start cfg s0"
  shows "br_inv s"
proof (rule exec_invariant [OF assms(1)])
  have "\<not> holds_write (br_pcs s0 t) \<and> \<not> holds_read (br_pcs s0 t) \<and> br_pcs s0 t \<noteq> BAskLast" for t
  proof -
    have "br_pcs s0 t \<in> {BFail, BSucc, BAsk, BDone}" using assms(2) by (simp add: br_start_def)
    then show ?thesis by (auto simp: holds_write_def holds_read_def)
  qed
  then show "br_inv s0" using assms(2) by (simp add: br_inv_def br_start_def new_circuit_breaker_def)
qed (rule br_inv_step)

lemma br_config_exec:
  assumes "exec br_enabled br_step s0 sch s" and "br_start cfg s0"
  shows "cb_config (br_cb s) = cfg"
proof (rule exec_invariant [OF assms(1)])
  show "cb_config (br_cb s0) = cfg" using assms(2) by (simp add: br_start_def new_circuit_breaker_def)
  show "cb_config (br_cb (br_step now t s)) = cfg" if "cb_config (br_cb s) = cfg" for now t s
    using that by (cases "br_pcs s t") (auto simp: Let_def)
qed

text \<open>Whoever waits for the lock waits for a thread that can go on.\<close>

lemma lock_holder_enabled: "holds_write (br_pcs s u) \<or> holds_read (br_pcs s u) \<Longrightarrow> br_enabled u s"
  by (cases "br_pcs s u") (simp_all add: br_enabled_def holds_write_def holds_read_def)

lemma br_some_enabled:
  assumes "br_steps_left (br_pcs s t) \<noteq> 0"
  shows "\<exists>u. br_enabled u s"
proof (cases "br_enabled t s")
  case False
  then have "\<exists>u. holds_write (br_pcs s u) \<or> holds_read (br_pcs s u)"
    using assms unfolding br_enabled_def by blast
  then show ?thesis using lock_holder_enabled by blast
qed blast

section \<open>Properties\<close>

text \<open>
  Property C30 (invariant): an open circuit can always recover. However the calls of any number of
  threads interleave, a circuit that is open or half-open has the time of a failure on record, so
  when the recovery timeout has passed since then the next \<open>is_allowed\<close> answers \<open>true\<close> and leaves
  it half-open.
\<close>

theorem open_circuit_recovers:
  assumes "br_start cfg s0" and "exec br_enabled br_step s0 sch s" and "cb_state (br_cb s) \<noteq> Closed"
  shows "\<exists>t. last_failure (br_cb s) = Some t \<and>
    (\<forall>now. now - t \<ge> recovery_timeout cfg \<longrightarrow>
      fst (is_allowed now (br_cb s)) \<and> cb_state (snd (is_allowed now (br_cb s))) = HalfOpen)"
proof -
  obtain t where "last_failure (br_cb s) = Some t"
    using br_inv_exec [OF assms(2,1)] assms(3) unfolding br_inv_def by blast
  moreover have "cb_config (br_cb s) = cfg" by (rule br_config_exec [OF assms(2,1)])
  ultimately show ?thesis using assms(3)
    by (cases "cb_state (br_cb s)") (auto simp: is_allowed_def)
qed

text \<open>Threads that report a failure, report a success and ask, on a breaker with thresholds one.\<close>

definition hasty_config :: circuit_breaker_config where
  "hasty_config = \<lparr>failure_threshold = 1, success_threshold = 1, recovery_timeout = 10\<rparr>"

definition hasty_start :: br_sys where
  "hasty_start = \<lparr>br_cb = new_circuit_breaker hasty_config,
     br_pcs = (\<lambda>_. BDone)(0 := BFail, 1 := BAsk, 2 := BSucc, 3 := BFail)\<rparr>"

lemma hasty_start_ok: "br_start hasty_config hasty_start"
  by (simp add: br_start_def hasty_start_def)

lemmas br_eval = br_enabled_def br_step_def hasty_start_def hasty_config_def new_circuit_breaker_def
  holds_write_def holds_read_def Let_def

theorem open_circuit_recovers_witness:
  "\<exists>s. run_schedule br_enabled br_step [(5, 0), (5, 0), (6, 0), (7, 0)] hasty_start = Some s \<and>
     cb_state (br_cb s) = Open \<and> last_failure (br_cb s) = Some 5 \<and> fst (is_allowed 15 (br_cb s))"
proof -
  obtain s where s: "run_schedule br_enabled br_step [(5, 0), (5, 0), (6, 0), (7, 0)] hasty_start = Some s"
    "cb_state (br_cb s) = Open" "last_failure (br_cb s) = Some 5"
    by (simp add: br_eval)
  from open_circuit_recovers [OF hasty_start_ok run_schedule_exec [OF s(1)]] s(2,3) have
    "fst (is_allowed 15 (br_cb s))" by (auto simp: hasty_config_def)
  with s show ?thesis by blast
qed

text \<open>
  Calls on a shared breaker always finish. When only the calls in \<open>T\<close>
  are under way no execution is longer than five steps for each, and as long as one of them is
  not over some call can make its next step: the locks cannot deadlock.
\<close>

theorem breaker_calls_finish:
  assumes "br_start cfg s0" and "exec br_enabled br_step s0 sch s" and "finite T"
    and "\<forall>t. t \<notin> T \<longrightarrow> br_pcs s0 t = BDone"
  shows "length sch \<le> 5 * card T \<and>
    ((\<exists>t. br_steps_left (br_pcs s t) \<noteq> 0) \<longrightarrow> (\<exists>t. br_enabled t s))"
proof
  have "br_steps_left pc \<le> 5" for pc by (cases pc) simp_all
  then show "length sch \<le> 5 * card T"
    by (intro br_threads.executions_bounded [OF assms(2,3)]) (use assms(4) in auto)
  show "(\<exists>t. br_steps_left (br_pcs s t) \<noteq> 0) \<longrightarrow> (\<exists>t. br_enabled t s)"
    using br_some_enabled by blast
qed

theorem breaker_calls_finish_witness:
  "\<exists>s. run_schedule br_enabled br_step [(5, 0), (5, 0)] hasty_start = Some s \<and>
     \<not> br_enabled 3 s \<and> (\<exists>t. br_enabled t s)"
proof -
  obtain s where s: "run_schedule br_enabled br_step [(5, 0), (5, 0)] hasty_start = Some s"
    "br_pcs s 0 = BFailAdd" "br_pcs s 3 = BFail"
    by (simp add: br_eval)
  have "length [(5 :: int, 0), (5, 0 :: nat)] \<le> 5 * card {0, 1, 2, 3 :: nat} \<and>
      ((\<exists>t. br_steps_left (br_pcs s t) \<noteq> 0) \<longrightarrow> (\<exists>t. br_enabled t s))"
    by (rule breaker_calls_finish [OF hasty_start_ok run_schedule_exec [OF s(1)]])
      (simp_all add: hasty_start_def)
  moreover have "br_steps_left (br_pcs s 0) \<noteq> 0" using s(2) by simp
  ultimately have "\<exists>t. br_enabled t s" by blast
  moreover have "\<not> br_enabled 3 s" using s(2,3) by (auto simp: br_enabled_def holds_write_def)
  ultimately show ?thesis using s(1) by blast
qed

text \<open>
  The run of the next property, step by step: the success sees the circuit half-open and counts
  itself, the failure re-opens the circuit, and then the success closes it.
\<close>

lemma success_counts:
  assumes "cb_state cb = HalfOpen" "success_threshold (cb_config cb) \<le> success_count cb + 1" "pcs t = BSucc"
  shows "run_schedule br_enabled br_step (map (Pair now) [t, t]) \<lparr>br_cb = cb, br_pcs = pcs\<rparr>
    = Some \<lparr>br_cb = cb\<lparr>success_count := success_count cb + 1\<rparr>, br_pcs = pcs(t := BSuccClose)\<rparr>"
  using assms by (simp add: br_enabled_def br_step_def)

lemma failure_reopens:
  assumes "cb_state cb = HalfOpen" "pcs u = BFail" "\<forall>v. \<not> holds_write (pcs v) \<and> \<not> holds_read (pcs v)"
  shows "run_schedule br_enabled br_step (map (Pair now) [u, u, u, u]) \<lparr>br_cb = cb, br_pcs = pcs\<rparr>
    = Some \<lparr>br_cb = cb\<lparr>last_failure := Some now, cb_state := Open, success_count := 0\<rparr>, br_pcs = pcs(u := BDone)\<rparr>"
  using assms by (simp add: br_enabled_def br_step_def)

lemma success_closes:
  assumes "pcs t = BSuccClose"
  shows "run_schedule br_enabled br_step (map (Pair now) [t, t, t]) \<lparr>br_cb = cb, br_pcs = pcs\<rparr>
    = Some \<lparr>br_cb = cb\<lparr>cb_state := Closed, failure_count := 0, success_count := 0\<rparr>, br_pcs = pcs(t := BDone)\<rparr>"
  using assms by (simp add: br_enabled_def br_step_def)

lemma run_schedule_append:
  "run_schedule enabled step (xs @ ys) s =
   (case run_schedule enabled step xs s of None \<Rightarrow> None | Some s1 \<Rightarrow> run_schedule enabled step ys s1)"
  by (induction enabled step xs s rule: run_schedule.induct) auto

lemma half_open_run:
  assumes "cb_state cb = HalfOpen" "success_threshold (cb_config cb) \<le> success_count cb + 1"
    and "pcs t = BSucc" "pcs u = BFail" "t \<noteq> u" "\<forall>v. \<not> holds_write (pcs v) \<and> \<not> holds_read (pcs v)"
  shows "run_schedule br_enabled br_step (map (Pair now) ([t, t] @ [u, u, u, u] @ [t, t, t])) \<lparr>br_cb = cb, br_pcs = pcs\<rparr>
    = Some \<lparr>br_cb = cb\<lparr>success_count := 0, last_failure := Some now, cb_state := Closed, failure_count := 0\<rparr>,
        br_pcs = pcs(u := BDone, t := BDone)\<rparr>"
proof -
  let ?cb = "cb\<lparr>success_count := success_count cb + 1\<rparr>" and ?pcs = "pcs(t := BSuccClose)"
  have free: "\<forall>v. \<not> holds_write (?pcs v) \<and> \<not> holds_read (?pcs v)"
    using assms(6) by (simp add: holds_write_def holds_read_def)
  have 1: "run_schedule br_enabled br_step (map (Pair now) [u, u, u, u]) \<lparr>br_cb = ?cb, br_pcs = ?pcs\<rparr>
    = Some \<lparr>br_cb = ?cb\<lparr>last_failure := Some now, cb_state := Open, success_count := 0\<rparr>, br_pcs = ?pcs(u := BDone)\<rparr>"
    using assms(1,4,5) by (intro failure_reopens free) simp_all
  have 2: "(?pcs(u := BDone)) t = BSuccClose" using assms(5) by simp
  have 3: "?pcs(u := BDone, t := BDone) = pcs(u := BDone, t := BDone)" by (rule ext) simp
  show ?thesis
    unfolding map_append run_schedule_append success_counts [where pcs = pcs and t = t, OF assms(1-3)] option.case 1 success_closes [where pcs = "?pcs(u := BDone)" and t = t, OF 2] 3
    by simp
qed

text \<open>
  Property C31 (safety): \<open>record_success\<close> and \<open>record_failure\<close> are not atomic together. On every
  half-open breaker, whatever its thresholds and times, where one more success is enough to close
  the circuit, a success and a failure that are both about to start can interleave so that the
  circuit ends closed with no failure counted: the failure is lost. Made one after the other, in
  either order, the two calls leave the circuit open or the failure counted.
\<close>

theorem half_open_failure_overwritten:
  assumes "cb_state (br_cb s) = HalfOpen"
    and "success_threshold (cb_config (br_cb s)) \<le> success_count (br_cb s) + 1"
    and "br_pcs s t = BSucc" "br_pcs s u = BFail"
    and "\<forall>v. \<not> holds_write (br_pcs s v) \<and> \<not> holds_read (br_pcs s v)"
  shows "(\<exists>vs s'. exec br_enabled br_step s (map (Pair now) vs) s' \<and> set vs = {t, u}
      \<and> br_pcs s' t = BDone \<and> br_pcs s' u = BDone
      \<and> cb_state (br_cb s') = Closed \<and> failure_count (br_cb s') = 0)
    \<and> cb_state (record_success (record_failure now (br_cb s))) = Open
    \<and> (let cb = record_failure now (record_success (br_cb s)) in
        if failure_threshold (cb_config (br_cb s)) \<le> 1 then cb_state cb = Open
        else cb_state cb = Closed \<and> failure_count cb = 1)"
proof -
  have "t \<noteq> u" using assms(3,4) by auto
  from half_open_run [OF assms(1-4) this assms(5), of now]
  obtain s' where s': "run_schedule br_enabled br_step (map (Pair now) ([t, t] @ [u, u, u, u] @ [t, t, t])) s = Some s'"
    "br_pcs s' t = BDone" "br_pcs s' u = BDone" "cb_state (br_cb s') = Closed" "failure_count (br_cb s') = 0"
    by (cases s) auto
  have "set ([t, t] @ [u, u, u, u] @ [t, t, t]) = {t, u}" by auto
  with run_schedule_exec [OF s'(1)] s'(2-)
  have "\<exists>vs s'. exec br_enabled br_step s (map (Pair now) vs) s' \<and> set vs = {t, u}
      \<and> br_pcs s' t = BDone \<and> br_pcs s' u = BDone
      \<and> cb_state (br_cb s') = Closed \<and> failure_count (br_cb s') = 0" by blast
  then show ?thesis using assms(1,2) by (simp add: record_failure_def record_success_def Let_def)
qed

text \<open>
  A breaker with thresholds of two: two failures open it, a question half-opens it, one success is
  counted, and then a success and a failure race.
\<close>

definition patient_config :: circuit_breaker_config where
  "patient_config = \<lparr>failure_threshold = 2, success_threshold = 2, recovery_timeout = 10\<rparr>"

definition patient_start :: br_sys where
  "patient_start = \<lparr>br_cb = new_circuit_breaker patient_config,
     br_pcs = (\<lambda>_. BDone)(0 := BFail, 1 := BFail, 2 := BAsk, 3 := BSucc, 4 := BSucc, 5 := BFail)\<rparr>"

lemma no_locks_upd:
  assumes "\<forall>v. \<not> holds_write (pcs v) \<and> \<not> holds_read (pcs v)" "\<not> holds_write pc" "\<not> holds_read pc"
  shows "\<forall>v. \<not> holds_write ((pcs(t := pc)) v) \<and> \<not> holds_read ((pcs(t := pc)) v)"
  using assms by simp

lemma failure_counts:
  assumes "cb_state cb = Closed" "\<not> failure_threshold (cb_config cb) \<le> failure_count cb + 1" "pcs u = BFail"
    and "\<forall>v. \<not> holds_write (pcs v) \<and> \<not> holds_read (pcs v)"
  shows "run_schedule br_enabled br_step (map (Pair now) [u, u, u]) \<lparr>br_cb = cb, br_pcs = pcs\<rparr>
    = Some \<lparr>br_cb = cb\<lparr>last_failure := Some now, failure_count := failure_count cb + 1\<rparr>, br_pcs = pcs(u := BDone)\<rparr>"
  using assms by (simp add: br_enabled_def br_step_def)

lemma failure_opens:
  assumes "cb_state cb = Closed" "failure_threshold (cb_config cb) \<le> failure_count cb + 1" "pcs u = BFail"
    and "\<forall>v. \<not> holds_write (pcs v) \<and> \<not> holds_read (pcs v)"
  shows "run_schedule br_enabled br_step (map (Pair now) [u, u, u, u]) \<lparr>br_cb = cb, br_pcs = pcs\<rparr>
    = Some \<lparr>br_cb = cb\<lparr>last_failure := Some now, failure_count := failure_count cb + 1, cb_state := Open\<rparr>,
        br_pcs = pcs(u := BDone)\<rparr>"
  using assms by (simp add: br_enabled_def br_step_def)

lemma question_half_opens:
  assumes "cb_state cb = Open" "last_failure cb = Some t0" "recovery_timeout (cb_config cb) \<le> now - t0" "pcs u = BAsk"
    and "\<forall>v. \<not> holds_write (pcs v) \<and> \<not> holds_read (pcs v)"
  shows "run_schedule br_enabled br_step (map (Pair now) [u, u, u]) \<lparr>br_cb = cb, br_pcs = pcs\<rparr>
    = Some \<lparr>br_cb = cb\<lparr>cb_state := HalfOpen\<rparr>, br_pcs = pcs(u := BAllowed True)\<rparr>"
  using assms by (simp add: br_enabled_def br_step_def holds_write_def)

lemma success_counted:
  assumes "cb_state cb = HalfOpen" "\<not> success_threshold (cb_config cb) \<le> success_count cb + 1" "pcs u = BSucc"
  shows "run_schedule br_enabled br_step (map (Pair now) [u, u]) \<lparr>br_cb = cb, br_pcs = pcs\<rparr>
    = Some \<lparr>br_cb = cb\<lparr>success_count := success_count cb + 1\<rparr>, br_pcs = pcs(u := BDone)\<rparr>"
  using assms by (simp add: br_enabled_def br_step_def)

theorem half_open_failure_overwritten_witness:
  "\<exists>h vs s. br_start patient_config patient_start \<and>
     exec br_enabled br_step patient_start
       (map (Pair 5) [0, 0, 0] @ map (Pair 6) [1, 1, 1, 1] @ map (Pair 20) [2, 2, 2] @ map (Pair 21) [3, 3]) h \<and>
     exec br_enabled br_step h (map (Pair 22) vs) s \<and> set vs = {4, 5} \<and>
     cb_state (br_cb s) = Closed \<and> failure_count (br_cb s) = 0"
proof -
  let ?run = "run_schedule br_enabled br_step"
  let ?cb = "\<lambda>st f g last. \<lparr>cb_state = st, failure_count = f, success_count = g, last_failure = last,
    cb_config = patient_config\<rparr>"
  define p0 where "p0 = (\<lambda>_ :: nat. BDone)(0 := BFail, 1 := BFail, 2 := BAsk, 3 := BSucc, 4 := BSucc, 5 := BFail)"
  define p1 where "p1 = p0(0 := BDone)"
  define p2 where "p2 = p1(1 := BDone)"
  define p3 where "p3 = p2(2 := BAllowed True)"
  define p4 where "p4 = p3(3 := BDone)"
  note defs = p0_def p1_def p2_def p3_def p4_def patient_config_def
  let ?free = "\<lambda>p. \<forall>v. \<not> holds_write (p v) \<and> \<not> holds_read (p v)"
  have f0: "?free p0" unfolding p0_def
    by (intro no_locks_upd) (simp_all add: holds_write_def holds_read_def)
  then have f1: "?free p1" unfolding p1_def
    by (intro no_locks_upd) (simp_all add: holds_write_def holds_read_def)
  then have f2: "?free p2" unfolding p2_def
    by (intro no_locks_upd) (simp_all add: holds_write_def holds_read_def)
  then have f4: "?free p4" unfolding p3_def p4_def
    by (intro no_locks_upd) (simp_all add: holds_write_def holds_read_def)
  have 1: "?run (map (Pair 5) [0, 0, 0]) \<lparr>br_cb = ?cb Closed 0 0 None, br_pcs = p0\<rparr>
      = Some \<lparr>br_cb = ?cb Closed 1 0 (Some 5), br_pcs = p1\<rparr>"
    unfolding p1_def by (subst failure_counts [OF _ _ _ f0]) (simp_all add: defs word_le_nat_alt)
  have 2: "?run (map (Pair 6) [1, 1, 1, 1]) \<lparr>br_cb = ?cb Closed 1 0 (Some 5), br_pcs = p1\<rparr>
      = Some \<lparr>br_cb = ?cb Open 2 0 (Some 6), br_pcs = p2\<rparr>"
    unfolding p2_def by (subst failure_opens [OF _ _ _ f1]) (simp_all add: defs)
  have 3: "?run (map (Pair 20) [2, 2, 2]) \<lparr>br_cb = ?cb Open 2 0 (Some 6), br_pcs = p2\<rparr>
      = Some \<lparr>br_cb = ?cb HalfOpen 2 0 (Some 6), br_pcs = p3\<rparr>"
    unfolding p3_def by (subst question_half_opens [where ?t0.0 = 6, OF _ _ _ _ f2]) (simp_all add: defs)
  have 4: "?run (map (Pair 21) [3, 3]) \<lparr>br_cb = ?cb HalfOpen 2 0 (Some 6), br_pcs = p3\<rparr>
      = Some \<lparr>br_cb = ?cb HalfOpen 2 1 (Some 6), br_pcs = p4\<rparr>"
    unfolding p4_def by (subst success_counted) (simp_all add: defs word_le_nat_alt)
  have start: "patient_start = \<lparr>br_cb = ?cb Closed 0 0 None, br_pcs = p0\<rparr>"
    by (simp add: patient_start_def p0_def new_circuit_breaker_def)
  let ?h = "\<lparr>br_cb = ?cb HalfOpen 2 1 (Some 6), br_pcs = p4\<rparr>"
  have "?run (map (Pair 5) [0, 0, 0] @ map (Pair 6) [1, 1, 1, 1] @ map (Pair 20) [2, 2, 2] @ map (Pair 21) [3, 3])
      patient_start = Some ?h"
    by (simp only: start run_schedule_append 1 2 3 4 option.case)
  note reach = run_schedule_exec [OF this]
  have "br_start patient_config patient_start" by (simp add: br_start_def patient_start_def)
  moreover have "p4 4 = BSucc" "p4 5 = BFail" by (simp_all add: defs)
  ultimately show ?thesis
    using half_open_failure_overwritten [of ?h 4 5 22] reach f4 by (auto simp: patient_config_def)
qed

end
