(* ===== verification/Executor_Replay.thy ===== *)
theory Executor_Replay
  imports Executor_Correct
begin

text \<open>
  Repeated requests: what sequences of runs with one idempotency key do, on one executor and
  across a restart of the process. The lemmas are about any store that keeps its contract; the
  properties instantiate them with the in-memory registry and the file store.
\<close>

section \<open>Sequences of runs\<close>

fun execute_all ::
  "('re, 'w, 's, 'r) exec_env \<Rightarrow> (action \<times> contract) list \<Rightarrow> ('w, 's, 'r) exec_state
   \<Rightarrow> (executor_error + verification_result \<times> receipt) list \<times> ('w, 's, 'r) exec_state" where
  "execute_all env [] st = ([], st)"
| "execute_all env ((act, c) # reqs) st =
     (let (res, st1) = execute_with_executor env act c st; (ress, st2) = execute_all env reqs st1
      in (res # ress, st2))"

text \<open>Every answer is this verdict, with a receipt for the request it answers.\<close>

definition all_answer ::
  "receipt_lib \<Rightarrow> verification_result \<Rightarrow> (action \<times> contract) list
   \<Rightarrow> (executor_error + verification_result \<times> receipt) list \<Rightarrow> bool" where
  "all_answer rl r reqs ress =
     list_all2 (\<lambda>(act, c) res. case res of
       Inl _ \<Rightarrow> False | Inr (v, x) \<Rightarrow> v = r \<and> receipt_for rl act c r x) reqs ress"

context executor_on_store
begin

text \<open>A run that wins the key and returns a verdict has just completed the key with it.\<close>

lemma winner_completes:
  assumes "act_idempotency_key act = Some key" "fst (claim cio key (es_store st)) = (Claimed, None)"
    and "execute_with_executor env act c st = (Inr (r, x), st1)"
  shows "\<exists>s. es_store st1 = complete fio key r s"
proof -
  obtain s where "claim cio key (es_store st) = ((Claimed, None), s)"
    using assms(2) by (cases "claim cio key (es_store st)") simp
  then obtain st2 where "run_claimed env Dispatching act c st2 = (Inr (r, x), st1)"
    using assms(1,3) by (auto simp: execute_with_executor_def claim_or_check_def env_claim)
  from run_claimed_store [OF this assms(1)] show ?thesis by (auto simp: env_complete)
qed

lemma completed_key_replays:
  assumes ok: "ok cio"
    and asm: "view (es_store st) key = Some (Completed r)"
      "\<And>act c. (act, c) \<in> set reqs \<Longrightarrow> act_idempotency_key act = Some key"
      "execute_all env reqs st = (ress, st1)"
  shows "all_answer (ee_receipt_lib env) r reqs ress \<and> dispatches (es_trace st1) = dispatches (es_trace st)
    \<and> view (es_store st1) key = Some (Completed r)"
  using asm
proof (induction reqs arbitrary: st ress)
  case Nil
  then show ?case by (simp add: all_answer_def)
next
  case (Cons q reqs)
  obtain act c where q: "q = (act, c)" by (cases q)
  obtain res st2 where run: "execute_with_executor env act c st = (res, st2)"
    by (cases "execute_with_executor env act c st")
  obtain ress2 where rest: "execute_all env reqs st2 = (ress2, st1)" "ress = res # ress2"
    using Cons.prems(3) run by (auto simp: q split: prod.splits)
  have key: "act_idempotency_key act = Some key" using Cons.prems(2) [of act c] q by simp
  from loser_does_nothing [OF ok key _ run] Cons.prems(1)
  have one: "dispatches (es_trace st2) = dispatches (es_trace st)"
    "\<exists>x. res = Inr (r, x) \<and> receipt_for (ee_receipt_lib env) act c r x"
    "view (es_store st2) key = Some (Completed r)" by auto
  from Cons.IH [OF one(3) _ rest(1)] Cons.prems(2)
  have "all_answer (ee_receipt_lib env) r reqs ress2 \<and> dispatches (es_trace st1) = dispatches (es_trace st2)
    \<and> view (es_store st1) key = Some (Completed r)" by auto
  with one rest(2) show ?case by (auto simp: all_answer_def q)
qed

end

text \<open>For the witnesses: a transport that fails ends a run at once with \<open>Unknown\<close>.\<close>

lemma transport_error_run:
  assumes "ee_dispatch env = (\<lambda>_ w. (Inr (TransportError e), w))" "preconditions c = []"
  shows "\<exists>x s1. run_claimed env Dispatching act c s = (Inr (Unknown, x), s1)"
proof -
  have "\<exists>s1. attempt env Dispatching act c 1 s = (Stop Unknown, s1)"
    using assms by (simp add: attempt_def attempt_dispatched_eq bind_phase_def prepare_eq
        pre_observation_def validate_preconditions_def dispatch_phase_def Let_def)
  then have "\<exists>s1. run_loop env Dispatching act c 0 [] s = (Inr (Unknown, None, 1, []), s1)"
    by (subst run_loop.simps) auto
  then obtain s1 where "run_loop env Dispatching act c 0 [] s = (Inr (Unknown, None, 1, []), s1)" ..
  moreover obtain fres s2 where fin: "finish env act c Unknown None 1 [] s1 = (fres, s2)"
    by (cases "finish env act c Unknown None 1 [] s1")
  ultimately show ?thesis using finish_sel(1) [OF fin] by (auto simp: run_claimed_def)
qed

section \<open>Properties\<close>

text \<open>
  Property C7 (safety): a request takes effect once. After a run on a vacant key has returned a verdict,
  any number of further requests with that key, for whatever actions and contracts and whatever
  the adapter would do, dispatch nothing and are all answered with that verdict, each with a
  receipt of its own.
\<close>

theorem repeats_replay_verdict:
  assumes "act_idempotency_key act = Some key" "es_store st key = None"
    and "execute_with_executor (on_registry env) act c st = (Inr (r, x), st1)"
    and "\<forall>(a, d) \<in> set reqs. act_idempotency_key a = Some key"
    and "execute_all (on_registry env) reqs st1 = (ress, st2)"
  shows "all_answer (ee_receipt_lib env) r reqs ress \<and> dispatches (es_trace st2) = dispatches (es_trace st1)"
proof -
  have "es_store st1 key = Some (Completed r)"
    using reg_exec.winner_completes [OF assms(1) _ assms(3)] assms(2)
    by (auto simp: registry_complete_def registry_claim_or_check_def)
  from reg_exec.completed_key_replays [OF TrueI this _ assms(5)] assms(4) show ?thesis
    by (auto simp: on_registry_def)
qed

definition broken_env :: "(string, script, registry, unit) exec_env" where
  "broken_env = (script_env id)\<lparr>ee_dispatch := (\<lambda>_ w. (Inr (TransportError ''reset''), w))\<rparr>"

theorem repeats_replay_verdict_witness:
  "\<exists>x st1 ress st2. execute_with_executor (on_registry broken_env) script_action script_contract
       (script_state new_registry ([], [])) = (Inr (Unknown, x), st1) \<and>
     execute_all (on_registry broken_env) [(script_action, script_contract), (script_action, script_contract)] st1
       = (ress, st2) \<and>
     all_answer (ee_receipt_lib broken_env) Unknown
       [(script_action, script_contract), (script_action, script_contract)] ress \<and>
     dispatches (es_trace st2) = dispatches (es_trace st1)"
proof -
  let ?go = "execute_with_executor (on_registry broken_env) script_action script_contract
       (script_state new_registry ([], []))"
  let ?reqs = "[(script_action, script_contract), (script_action, script_contract)]"
  have "\<exists>s1. ?go = run_claimed (on_registry broken_env) Dispatching script_action script_contract s1"
    by (auto simp: execute_with_executor_def claim_or_check_def on_registry_def registry_claim_or_check_def
        new_registry_def)
  then obtain s1 where go: "?go = run_claimed (on_registry broken_env) Dispatching script_action script_contract s1" ..
  have "ee_dispatch (on_registry broken_env) = (\<lambda>_ w. (Inr (TransportError ''reset''), w))"
    by (simp add: on_registry_def broken_env_def)
  from transport_error_run [OF this, of script_contract script_action s1] go
  obtain x st1 where run: "?go = (Inr (Unknown, x), st1)" by auto
  obtain ress st2 where all: "execute_all (on_registry broken_env) ?reqs st1 = (ress, st2)"
    by (cases "execute_all (on_registry broken_env) ?reqs st1")
  from repeats_replay_verdict [OF _ _ run _ all] run all show ?thesis by (auto simp: new_registry_def)
qed

lemma on_file_store_remove_unused:
  "on_file_store ext (cio\<lparr>io_remove_ok := b\<rparr>) fio rio env = on_file_store ext cio fio rio env"
proof -
  have "file_claim_or_check ext (cio\<lparr>io_remove_ok := b\<rparr>) = file_claim_or_check ext cio"
    by (simp add: fun_eq_iff file_claim_or_check_def load_entry_def save_entry_def Let_def
        split: option.split persisted_state.split)
  then show ?thesis by (simp add: on_file_store_def)
qed

text \<open>
  A key whose files show no entry is claimed, whatever becomes of the system calls: a read that fails
  counts as a missing file.
\<close>

lemma file_vacant_claimed:
  "file_view ext s key = None \<Longrightarrow> fst (file_claim_or_check ext io key s) = (Claimed, None)"
  by (auto simp: file_view_def disk_entry_def file_claim_or_check_def load_entry_def fs_read_def Let_def
      split: option.splits if_splits)

text \<open>
  Property C8 (safety): a request takes effect once across a restart. When a run on the file store has returned a
  verdict and the write and the rename of its entry went through, a later process that opens the same
  directory and can read the entry's file, whatever its configuration, adapter and observer, answers a
  request with that key with that verdict and dispatches nothing, provided \<open>serde_json\<close> reads back
  the entry it wrote. Nothing is asked of the other system calls of the two processes; but the read
  of the second must not fail: \<open>unread_entry_runs_again\<close>.
\<close>

theorem restart_replays_verdict:
  assumes "act_idempotency_key act = Some key" "file_view ext (es_store st) key = None"
    and "execute_with_executor (on_file_store ext cio fio rio env) act c st = (Inr (r, x), st1)"
    and "io_write fio = WriteOk" "io_rename_ok fio"
    and "\<forall>r. \<exists>s. entry_to_string ext (new_completed (io_now fio) key r) = Some s \<and>
      entry_from_str ext s = Some (new_completed (io_now fio) key r)"
    and "es_store st2 = new_file_idem (fi_base_path (es_store st1)) (fi_fs (es_store st1))"
    and "act_idempotency_key act2 = Some key" and "io_read_ok cio2"
    and "execute_with_executor (on_file_store ext cio2 fio2 rio2 env2) act2 c2 st2 = (res, st3)"
  shows "\<exists>y. res = Inr (r, y) \<and> receipt_for (ee_receipt_lib env2) act2 c2 r y \<and>
    dispatches (es_trace st3) = dispatches (es_trace st2)"
proof -
  obtain s where s: "es_store st1 = file_complete ext fio key r s"
    using file_exec.winner_completes [OF assms(1) file_vacant_claimed [OF assms(2)] assms(3)] by blast
  obtain t where "entry_to_string ext (new_completed (io_now fio) key r) = Some t"
    "entry_from_str ext t = Some (new_completed (io_now fio) key r)" using assms(6) by blast
  then have "disk_entry ext (es_store st1) key = Some (new_completed (io_now fio) key r)"
    unfolding s using disk_entry_complete [of fio ext key r t] assms(4,5) by simp
  then have view: "file_view ext (es_store st2) key = Some (Completed r)"
    by (simp add: assms(7) file_view_def disk_entry_def new_file_idem_def)
  have ok: "file_io_ok (cio2\<lparr>io_remove_ok := True\<rparr>)" using assms(9) by (simp add: file_io_ok_def)
  have run: "execute_with_executor (on_file_store ext (cio2\<lparr>io_remove_ok := True\<rparr>) fio2 rio2 env2) act2 c2 st2
      = (res, st3)"
    using assms(10) by (simp only: on_file_store_remove_unused)
  from file_exec.loser_does_nothing [OF ok assms(8) _ run] view show ?thesis
    by (auto simp: on_file_store_def)
qed

text \<open>
  Without that read the request runs again: \<open>load_entry\<close> turns an error of the read into a missing
  entry, so a later process whose read fails claims the completed key and runs the action.
\<close>

theorem unread_entry_runs_again:
  assumes "act_idempotency_key act = Some key" "\<not> io_read_ok cio"
    and "es_store st = new_file_idem base fs"
  shows "\<exists>st1. execute_with_executor (on_file_store ext cio fio rio env) act c st
    = run_claimed (on_file_store ext cio fio rio env) Dispatching act c st1"
  using assms
  by (auto simp: execute_with_executor_def claim_or_check_def on_file_store_def file_claim_or_check_def
      new_file_idem_def load_entry_def fs_read_def Let_def split: option.split)

text \<open>An instance: the script's adapter on a file store whose library reads back what it wrote.\<close>

definition broken_file_env :: "(string, script, file_idem, unit) exec_env" where
  "broken_file_env =
     \<lparr>ee_config = default_executor_config, ee_claim = file_claim_or_check demo_file_lib good_io,
      ee_complete = file_complete demo_file_lib good_io, ee_release = file_release demo_file_lib good_io,
      ee_others = (\<lambda>_. id), ee_receipt_store = None, ee_observer = None,
      ee_dispatch = (\<lambda>_ w. (Inr (TransportError ''reset''), w)), ee_fresh = (\<lambda>w. ((0, 0), w)),
      ee_engine = literal_ext, ee_receipt_lib = demo_ext,
      ee_backoff_lib = \<lparr>num_milliseconds = (\<lambda>d. of_int (d div 1000000)), f64_powi = (\<lambda>_ _. 0)\<rparr>\<rparr>"

definition key_file_lib :: file_idem_lib where
  "key_file_lib = demo_file_lib\<lparr>entry_from_str := (\<lambda>s.
     map_option (\<lambda>e. e\<lparr>original_key := ''k''\<rparr>) (entry_of_name s))\<rparr>"

definition file_state :: "file_idem \<Rightarrow> (script, file_idem, unit) exec_state" where
  "file_state s = \<lparr>es_world = ([], []), es_store = s, es_receipts = (), es_trace = []\<rparr>"

theorem restart_replays_verdict_witness:
  "\<exists>x st1 res st3. execute_with_executor (on_file_store key_file_lib good_io good_io good_io broken_file_env)
       script_action script_contract (file_state (new_file_idem ''d'' Map.empty)) = (Inr (Unknown, x), st1) \<and>
     execute_with_executor (on_file_store key_file_lib good_io good_io good_io broken_file_env) script_action script_contract
       (file_state (new_file_idem (fi_base_path (es_store st1)) (fi_fs (es_store st1)))) = (res, st3) \<and>
     (\<exists>y. res = Inr (Unknown, y)) \<and> dispatches (es_trace st3) = 0"
proof -
  let ?env = "on_file_store key_file_lib good_io good_io good_io broken_file_env"
  let ?go = "execute_with_executor ?env script_action script_contract (file_state (new_file_idem ''d'' Map.empty))"
  have vacant: "file_view key_file_lib (new_file_idem ''d'' Map.empty) ''k'' = None"
    by (simp add: file_view_def new_file_idem_def disk_entry_def)
  have "\<exists>s1. ?go = run_claimed ?env Dispatching script_action script_contract s1"
    by (auto simp: execute_with_executor_def claim_or_check_def on_file_store_def file_claim_or_check_def
        new_file_idem_def load_entry_def file_state_def Let_def)
  then obtain s1 where go: "?go = run_claimed ?env Dispatching script_action script_contract s1" ..
  have "ee_dispatch ?env = (\<lambda>_ w. (Inr (TransportError ''reset''), w))"
    by (simp add: on_file_store_def broken_file_env_def)
  from transport_error_run [OF this, of script_contract script_action s1] go
  obtain x st1 where run: "?go = (Inr (Unknown, x), st1)" by auto
  let ?st2 = "file_state (new_file_idem (fi_base_path (es_store st1)) (fi_fs (es_store st1)))"
  obtain res st3 where again: "execute_with_executor ?env script_action script_contract ?st2 = (res, st3)"
    by (cases "execute_with_executor ?env script_action script_contract ?st2")
  have "\<forall>r. \<exists>s. entry_to_string key_file_lib (new_completed (io_now good_io) ''k'' r) = Some s \<and>
      entry_from_str key_file_lib s = Some (new_completed (io_now good_io) ''k'' r)"
    by (simp add: key_file_lib_def demo_file_lib_def entry_name_def entry_of_name_def new_completed_def good_io_def)
  from restart_replays_verdict [OF _ _ run _ _ this _ _ _ again] vacant run again
  show ?thesis by (auto simp: file_state_def good_io_def)
qed

end
