(* ===== verification/Executor_Concurrent.thy ===== *)
theory Executor_Concurrent
  imports Executor_Replay
begin

text \<open>
  Concurrent callers of the executor (\<open>agentverify-runtime/src/executor.rs\<close>). Each call of
  \<open>execute_with_executor\<close> or \<open>execute\<close>, in whatever environment, leaves a trace of events; a system
  of callers that share the in-memory registry is an interleaving of such traces, possibly of calls
  that are not over, in which the registry answers every claim. What a call promises about its
  own key, whatever the answers it gets, is proved for one call (its \<open>stance\<close>) and then composed.
\<close>

section \<open>One call, seen from its key\<close>

datatype stance = Asking | Owning | Outside | Astray

fun stance_step :: "string \<Rightarrow> event \<Rightarrow> stance \<Rightarrow> stance" where
  "stance_step key (EvClaim k a) s =
     (if k \<noteq> key then s
      else case s of
        Asking \<Rightarrow> if fst a = Claimed then Owning else Outside
      | Outside \<Rightarrow> Outside
      | _ \<Rightarrow> Astray)"
| "stance_step key (EvDispatch _) s = (if s = Owning then Owning else Astray)"
| "stance_step key (EvComplete k _) s = (if k \<noteq> key then s else if s = Owning then Outside else Astray)"
| "stance_step key (EvRelease k) s = (if k \<noteq> key then s else if s = Owning then Outside else Astray)"
| "stance_step key _ s = s"

abbreviation stance :: "string \<Rightarrow> event list \<Rightarrow> stance" where
  "stance key evs \<equiv> fold (stance_step key) evs Asking"

lemma stance_astray [simp]: "stance_step key e Astray = Astray"
  by (cases e) simp_all

lemma astray_stays [simp]: "fold (stance_step key) evs Astray = Astray"
  by (induction evs) simp_all

section \<open>What the events of a run satisfy\<close>

text \<open>
  A rule for both pipelines, of which \<open>m\<close> says which: a property \<open>Q\<close> of the pieces of a run's trace, and \<open>A\<close> of those that
  end in an abort, with the claim resolved, hold of every run if they hold of what single steps leave
  behind and of sequences of pieces.
\<close>

locale run_events =
  fixes act :: action and m :: mode and Q A :: "event list \<Rightarrow> bool"
  assumes no_events: "Q []"
    and sequence: "Q evs \<Longrightarrow> Q evs' \<Longrightarrow> Q (evs @ evs')"
    and sequence_abort: "Q evs \<Longrightarrow> A evs' \<Longrightarrow> A (evs @ evs')"
    and resolved: "A (resolution act policy)"
    and looked: "pre_events pre \<Longrightarrow> Q pre"
    and cleared: "Q [EvCleared]"
    and dispatched: "m = Dispatching \<Longrightarrow> Q [EvDispatch d]"
    and observed_then: "Q [EvObserve x]"
    and fabricated: "Q [EvFabricate]"
    and judged: "Q [EvVerdict v]"
    and slept: "Q [EvSleep ms]"
begin

declare no_events [simp]

definition ends :: "'a phase \<Rightarrow> event list \<Rightarrow> bool" where
  "ends p evs = (case p of Abort _ \<Rightarrow> A evs | _ \<Rightarrow> Q evs)"

lemma ends_simps [simp]: "ends (Abort e) = A" "ends (Stop r) = Q" "ends (Go x) = Q"
  by (simp_all add: ends_def fun_eq_iff)

lemma ends_sequence: "Q evs \<Longrightarrow> ends p evs' \<Longrightarrow> ends p (evs @ evs')"
  by (cases p) (auto intro: sequence sequence_abort)

definition phase_ok :: "(('w, 's, 'r) exec_state \<Rightarrow> 'a phase \<times> ('w, 's, 'r) exec_state) \<Rightarrow> bool" where
  "phase_ok f \<longleftrightarrow> (\<forall>st p st1. f st = (p, st1) \<longrightarrow>
     (\<exists>evs. es_trace st1 = es_trace st @ evs \<and> ends p evs))"

lemma phase_okI:
  "(\<And>st p st1. f st = (p, st1) \<Longrightarrow> \<exists>evs. es_trace st1 = es_trace st @ evs \<and>
     ends p evs) \<Longrightarrow> phase_ok f"
  by (simp add: phase_ok_def)

lemma phase_ok_after:
  assumes "phase_ok f" and "f s = (p, st1)" and "es_trace s = es_trace st @ pre" and "Q pre"
  shows "\<exists>evs. es_trace st1 = es_trace st @ evs \<and> ends p evs"
proof -
  obtain evs where "es_trace st1 = es_trace s @ evs" "ends p evs"
    using assms(1,2) unfolding phase_ok_def by blast
  with assms(3,4) ends_sequence show ?thesis by (intro exI [of _ "pre @ evs"]) simp
qed

lemma ok_bind:
  assumes "phase_ok f" and "\<And>x. phase_ok (g x)"
  shows "phase_ok (bind_phase f g)"
proof (rule phase_okI)
  fix st p st1 assume run: "bind_phase f g st = (p, st1)"
  obtain q s where f: "f st = (q, s)" by (cases "f st")
  then obtain evs where evs: "es_trace s = es_trace st @ evs" "ends q evs"
    using assms(1) unfolding phase_ok_def by blast
  show "\<exists>evs. es_trace st1 = es_trace st @ evs \<and> ends p evs"
  proof (cases q)
    case (Go x)
    with run f have "g x s = (p, st1)" by (simp add: bind_phase_def)
    from phase_ok_after [OF assms(2) this evs(1)] evs(2) Go show ?thesis by simp
  qed (use run f evs in \<open>auto simp: bind_phase_def\<close>)
qed

lemma ok_quiet: "(\<And>st p st1. f st = (p, st1) \<Longrightarrow> st1 = st \<and> (\<forall>e. p \<noteq> Abort e)) \<Longrightarrow> phase_ok f"
  by (rule phase_okI) (fastforce simp: ends_def split: phase.split)

lemma ok_abort: "phase_ok (abort_claimed_run env act policy e)"
  by (rule phase_okI) (auto simp: abort_claimed_run_def resolve_trace resolved)

lemma ok_advance: "phase_ok (advance_or_abort env act policy wrap next sm)"
  by (rule phase_okI) (auto simp: advance_or_abort_def abort_claimed_run_def resolve_trace resolved
      split: prod.splits sum.splits)

lemma ok_reject: "phase_ok (reject env act message sm)"
  unfolding reject_def by (intro ok_bind ok_advance ok_quiet) auto

lemma ok_pre_state: "phase_ok (pre_state_phase env act c sm)"
proof (rule phase_okI)
  fix st p st1 assume run: "pre_state_phase env act c sm st = (p, st1)"
  obtain r s where obs: "observe_pre_state env act c st = (r, s)" by (cases "observe_pre_state env act c st")
  from observe_pre_state_trace [OF this] obtain pre where
    pre: "Q pre" "es_trace s = es_trace st @ pre" using looked by blast
  show "\<exists>evs. es_trace st1 = es_trace st @ evs \<and> ends p evs"
  proof (cases r)
    case (Inl message)
    show ?thesis
    proof (cases "preconditions c = []")
      case False
      with run obs Inl have "reject env act message sm s = (p, st1)" by (simp add: pre_state_phase_def)
      from phase_ok_after [OF ok_reject this pre(2,1)] show ?thesis .
    qed (use run in \<open>auto simp: pre_state_phase_def\<close>)
  qed (use run obs pre in \<open>auto simp: pre_state_phase_def split: if_splits\<close>)
qed

lemma ok_precondition: "phase_ok (precondition_phase env act c pre sm)"
proof (rule phase_okI)
  fix st p st1 assume run: "precondition_phase env act c pre sm st = (p, st1)"
  show "\<exists>evs. es_trace st1 = es_trace st @ evs \<and> ends p evs"
  proof (cases "validate_preconditions (ee_engine env) (ee_receipt_lib env) act c pre")
    case (Inl e)
    with run have "reject env act e sm st = (p, st1)" by (simp add: precondition_phase_def)
    with ok_reject show ?thesis unfolding phase_ok_def by blast
  qed (use run cleared in \<open>auto simp: precondition_phase_def\<close>)
qed

lemma ok_prepare: "phase_ok (prepare env act c)"
  unfolding prepare_def by (intro ok_bind ok_advance ok_pre_state ok_precondition)

lemma ok_dispatch:
  assumes m: "m = Dispatching"
  shows "phase_ok (dispatch_phase env act sm)"
proof (rule phase_okI)
  fix st p st1 assume run: "dispatch_phase env act sm st = (p, st1)"
  obtain r w where r: "ee_dispatch env act (es_world st) = (r, w)" by fastforce
  let ?s = "log_event (EvDispatch r) (suspend env w st)"
  have s: "es_trace ?s = es_trace st @ [EvDispatch r]" by simp
  let ?G = "\<exists>evs. es_trace st1 = es_trace st @ evs \<and> ends p evs"
  have abort: ?G if "abort_claimed_run env act policy e ?s = (p, st1)" for policy e
    by (rule phase_ok_after [OF ok_abort that s dispatched [OF m]])
  have advance: ?G if "advance_or_abort env act policy wrap to sm ?s = (p, st1)" for policy wrap to
    by (rule phase_ok_after [OF ok_advance that s dispatched [OF m]])
  have stop: ?G if "p = Stop Unknown" "st1 = ?s"
    using that dispatched [OF m] by simp
  have "(\<exists>policy e. abort_claimed_run env act policy e ?s = (p, st1)) \<or>
    (\<exists>policy wrap to. advance_or_abort env act policy wrap to sm ?s = (p, st1)) \<or> p = Stop Unknown \<and> st1 = ?s"
    using run r by (auto simp: dispatch_phase_def Let_def split: sum.splits dispatch_outcome.splits)
  with abort advance stop show ?G by blast
qed

lemma ok_observe:
  "phase_ok (observe_dispatched env act c)" "phase_ok (observe_simulated env act c)"
proof -
  have ok: "\<exists>evs. es_trace st1 = es_trace st @ evs \<and> ends p evs"
    if run: "observe_dispatched env act c st = (p, st1) \<or> observe_simulated env act c st = (p, st1)"
    for st :: "('w, 's, 'r) exec_state" and p st1 and env :: "('re, 'w, 's, 'r) exec_env"
  proof (cases "ee_observer env")
    case None
    with run fabricated show ?thesis
      by (auto simp: observe_dispatched_def observe_simulated_def fabricate_observation_def split: prod.splits)
  next
    case (Some obs)
    obtain r s where r: "run_observer env obs act c st = (r, s)" by (cases "run_observer env obs act c st")
    let ?s = "log_event (EvObserve r) s"
    have s: "es_trace ?s = es_trace st @ [EvObserve r]" using run_observer_trace [OF r] by simp
    have quiet: ?thesis if "st1 = ?s" "\<And>e. p \<noteq> Abort e"
      using that s observed_then by (cases p) auto
    have abort: ?thesis if "abort_claimed_run env act policy e ?s = (p, st1)" for policy e
      by (rule phase_ok_after [OF ok_abort that s observed_then])
    have "(\<exists>policy e. abort_claimed_run env act policy e ?s = (p, st1)) \<or> st1 = ?s \<and> (\<forall>e. p \<noteq> Abort e)"
      using run Some r
      by (auto simp: observe_dispatched_def observe_simulated_def Let_def
          split: option.splits sum.splits executor_error.splits)
    with quiet abort show ?thesis by blast
  qed
  show "phase_ok (observe_dispatched env act c)" "phase_ok (observe_simulated env act c)"
    by (rule phase_okI, rule ok, blast)+
qed

lemma ok_decide: "phase_ok (decide env act c policy a obs r sm)"
  by (cases r) (auto simp: decide_def Let_def intro!: ok_bind ok_advance intro: ok_quiet)

lemma ok_verify: "phase_ok (verify_phase env act c policy a obs sm)"
  unfolding verify_phase_def
proof (rule ok_bind [OF ok_advance], rule phase_okI)
  fix sm1 st p st1
  assume run: "(case verify_postconditions (ee_engine env) act c obs of
      Inl e \<Rightarrow> abort_claimed_run env act policy e st
    | Inr ev \<Rightarrow> bind_phase (decide env act c policy a obs (pv_result ev) sm1)
        (\<lambda>d st1. (Go (pv_details ev, d), st1)) (log_event (EvVerdict (pv_result ev)) st)) = (p, st1)"
  have rest: "phase_ok (bind_phase (decide env act c policy a obs (pv_result ev) sm1)
      (\<lambda>d st1. (Go (pv_details ev, d), st1)))" for ev
    by (intro ok_bind ok_decide ok_quiet) auto
  show "\<exists>evs. es_trace st1 = es_trace st @ evs \<and> ends p evs"
  proof (cases "verify_postconditions (ee_engine env) act c obs")
    case (Inl e)
    with run have "abort_claimed_run env act policy e st = (p, st1)" by simp
    with ok_abort show ?thesis unfolding phase_ok_def by blast
  next
    case (Inr ev)
    with run show ?thesis by (intro phase_ok_after [OF rest _ _ judged]) auto
  qed
qed

lemma ok_attempt: "phase_ok (attempt env m act c a)"
  by (cases m) (auto simp: attempt_def attempt_dispatched_def attempt_simulated_def
      intro!: ok_bind ok_prepare ok_dispatch ok_advance ok_observe ok_verify)

lemma run_loop_ok:
  "run_loop env m act c a ds st = (res, st1) \<Longrightarrow>
   \<exists>evs. es_trace st1 = es_trace st @ evs \<and> (case res of Inl _ \<Rightarrow> A evs | Inr _ \<Rightarrow> Q evs)"
proof (induction "attempts_left (retry_bound (recovery c) (max_retries (ee_config env))) a"
    arbitrary: a ds st rule: less_induct)
  case less
  obtain p s where att: "attempt env m act c (a + 1) st = (p, s)" by (cases "attempt env m act c (a + 1) st")
  then obtain evs where evs: "es_trace s = es_trace st @ evs" "ends p evs"
    using ok_attempt unfolding phase_ok_def by blast
  show ?case
  proof (cases "\<exists>ds1 ms. p = Go (ds1, Again ms)")
    case True
    then obtain ds1 ms where p: "p = Go (ds1, Again ms)" by blast
    with less.prems att have rest: "run_loop env m act c (a + 1) ds1 (sleep env ms s) = (res, st1)"
      by (simp add: run_loop.simps [of env m act c a])
    have "a + 1 < retry_bound (recovery c) (max_retries (ee_config env))"
      using attempt_again att p should_retry_bound by metis
    from less.hyps [OF attempts_left_decreases [OF this] rest] obtain evs2 where
      "es_trace st1 = es_trace s @ EvSleep ms # evs2" "(case res of Inl _ \<Rightarrow> A evs2 | Inr _ \<Rightarrow> Q evs2)"
      by auto
    with evs p sequence [OF slept, of evs2 ms] sequence_abort [OF slept, of evs2 ms] show ?thesis
      by (intro exI [of _ "evs @ EvSleep ms # evs2"]) (auto intro: sequence sequence_abort split: sum.splits)
  next
    case False
    with less.prems att evs show ?thesis
      by (auto simp: run_loop.simps [of env m act c a] split: phase.splits prod.splits decision.splits)
  qed
qed

text \<open>A run that owns its key: the loop, then the closing events with the verdict it returns.\<close>

lemma run_claimed_ok:
  assumes "run_claimed env m act c st = (res, st1)"
  shows "\<exists>evs post. es_trace st1 = es_trace st @ evs @ post \<and>
    (case res of Inl _ \<Rightarrow> A evs \<and> post = [] | Inr (r, x) \<Rightarrow> Q evs \<and> closing act r post)"
proof -
  obtain lres s where l: "run_loop env m act c 0 [] st = (lres, s)" by (cases "run_loop env m act c 0 [] st")
  from run_loop_ok [OF l] obtain evs where evs: "es_trace s = es_trace st @ evs"
    "(case lres of Inl _ \<Rightarrow> A evs | Inr _ \<Rightarrow> Q evs)" by blast
  show ?thesis
  proof (cases lres)
    case (Inl e)
    with assms l evs show ?thesis by (auto simp: run_claimed_def)
  next
    case (Inr q)
    obtain r obs k ds where q: "q = (r, obs, k, ds)" by (cases q) auto
    with assms l Inr have f: "finish env act c r obs k ds s = (res, st1)" by (simp add: run_claimed_def)
    from finish_sel(1,3) [OF f] evs Inr show ?thesis by fastforce
  qed
qed

end

section \<open>Calls\<close>

text \<open>While it runs, a call owns its key, and gives it up as it ends or aborts.\<close>

interpretation keeps_key: run_events act m
  "\<lambda>evs. \<forall>key. act_idempotency_key act = Some key \<longrightarrow> fold (stance_step key) evs Owning = Owning"
  "\<lambda>evs. \<forall>key. act_idempotency_key act = Some key \<longrightarrow> fold (stance_step key) evs Owning = Outside"
  for act m
  by unfold_locales (auto simp: resolution_def pre_events_def split: option.split claim_policy.split)

text \<open>A call touches no key but its own.\<close>

fun minds :: "action \<Rightarrow> event \<Rightarrow> bool" where
  "minds act (EvClaim k _) = (act_idempotency_key act = Some k)"
| "minds act (EvComplete k _) = (act_idempotency_key act = Some k)"
| "minds act (EvRelease k) = (act_idempotency_key act = Some k)"
| "minds act _ = True"

interpretation minds_key: run_events act m "list_all (minds act)" "list_all (minds act)" for act m
  by unfold_locales (auto simp: resolution_def pre_events_def split: option.split claim_policy.split)

text \<open>A simulated run dispatches nothing.\<close>

interpretation simulates: run_events act Simulated "\<lambda>evs. dispatches evs = 0" "\<lambda>evs. dispatches evs = 0" for act
  by unfold_locales (auto simp: pre_events_def)

text \<open>
  How far the dispatches of a call have come: none yet, one that may have taken effect, one whose
  effect an observation did not show, or one that the adapter refused. A call gives a key back only when
  it has dispatched nothing or the refusal proves that nothing was sent.
\<close>

datatype course = Quiet | Underway | Refuted | Refused dispatch_error | Amiss

fun course_step :: "string \<Rightarrow> event \<Rightarrow> course \<Rightarrow> course" where
  "course_step key (EvDispatch d) s =
     (if s = Quiet \<or> s = Refuted then (case d of Inl e \<Rightarrow> Refused e | Inr _ \<Rightarrow> Underway) else Amiss)"
| "course_step key (EvVerdict r) s = (if s = Underway \<and> r = Failed then Refuted else s)"
| "course_step key (EvRelease k) s =
     (if k \<noteq> key \<or> s = Quiet then s
      else case s of Refused e \<Rightarrow> if claim_policy_for e = Release then s else Amiss | _ \<Rightarrow> Amiss)"
| "course_step key _ s = s"

lemma course_amiss [simp]: "course_step key e Amiss = Amiss"
  by (cases e) simp_all

lemma amiss_stays [simp]: "fold (course_step key) evs Amiss = Amiss"
  by (induction evs) simp_all

lemma course_pre: "pre_events pre \<Longrightarrow> fold (course_step key) pre s = s"
  by (auto simp: pre_events_def)

lemma course_sighting: "sighting env ev \<Longrightarrow> course_step key ev s = s"
  by (auto simp: sighting_def split: option.splits)

lemma course_closing: "closing act r evs \<Longrightarrow> fold (course_step key) evs s = s"
  by (auto simp: closing_def split: option.splits)

lemma course_quiet: "dispatches evs = 0 \<Longrightarrow> fold (course_step key) evs Quiet = Quiet"
proof (induction evs)
  case (Cons e evs)
  then show ?case by (cases e) (auto split: event.splits)
qed simp

lemma course_attempt:
  assumes "dispatched_events env act evs p" and "s = Quiet \<or> s = Refuted"
  shows "fold (course_step key) evs s \<noteq> Amiss \<and>
    ((\<exists>ds ms. p = Go (ds, Again ms)) \<longrightarrow> fold (course_step key) evs s = Refuted)"
  using assms
  by (cases rule: dispatched_events.cases)
    (auto simp: course_pre course_sighting resolution_def split: option.split claim_policy.split)

lemma course_loop:
  "loop_events env act bound a evs res \<Longrightarrow> s = Quiet \<or> s = Refuted \<Longrightarrow> fold (course_step key) evs s \<noteq> Amiss"
proof (induction arbitrary: s rule: loop_events.induct)
  case (again evs ds ms a evs' res)
  with course_attempt [OF again.hyps(1) again.prems] show ?case by simp
qed (use course_attempt in blast)+

lemma course_run:
  assumes "run_claimed env m act c st = (res, st1)"
  shows "\<exists>evs. es_trace st1 = es_trace st @ evs \<and> fold (course_step key) evs Quiet \<noteq> Amiss"
proof (cases m)
  case Dispatching
  with run_claimed_events assms obtain evs tail where evs: "es_trace st1 = es_trace st @ evs @ tail"
    "loop_events env act (retry_bound (recovery c) (max_retries (ee_config env))) 0 evs (map_sum id fst res)"
    "case res of Inl _ \<Rightarrow> tail = [] | Inr (r, x) \<Rightarrow> closing act r tail" by blast
  have "fold (course_step key) (evs @ tail) Quiet \<noteq> Amiss"
    using course_loop [OF evs(2)] evs(3) by (cases res) (auto simp: course_closing)
  with evs(1) show ?thesis by blast
next
  case Simulated
  with simulates.run_claimed_ok assms obtain evs post where evs: "es_trace st1 = es_trace st @ evs @ post"
    "case res of Inl _ \<Rightarrow> dispatches evs = 0 \<and> post = [] | Inr (r, x) \<Rightarrow> dispatches evs = 0 \<and> closing act r post"
    by blast
  have "fold (course_step key) (evs @ post) Quiet \<noteq> Amiss"
    using evs(2) by (cases res) (auto simp: course_closing course_quiet)
  with evs(1) show ?thesis by blast
qed

record ('re, 'w, 's, 'r) call =
  cl_mode :: mode
  cl_env :: "('re, 'w, 's, 'r) exec_env"
  cl_action :: action
  cl_contract :: contract
  cl_state :: "('w, 's, 'r) exec_state"

definition run_call ::
  "('re, 'w, 's, 'r) call \<Rightarrow> (executor_error + verification_result \<times> receipt) \<times> ('w, 's, 'r) exec_state" where
  "run_call q = (case cl_mode q of Dispatching \<Rightarrow> execute_with_executor | Simulated \<Rightarrow> execute)
     (cl_env q) (cl_action q) (cl_contract q) (cl_state q)"

definition call_events :: "('re, 'w, 's, 'r) call \<Rightarrow> event list" where
  "call_events q = drop (length (es_trace (cl_state q))) (es_trace (snd (run_call q)))"

text \<open>The verdicts that a call could have learnt: the one it completed its key with, or was told.\<close>

definition learnt :: "string \<Rightarrow> event list \<Rightarrow> verification_result set" where
  "learnt key evs = {r. EvComplete key r \<in> set evs \<or> (\<exists>q. EvClaim key (q, Some r) \<in> set evs)}"

text \<open>A call goes one of three ways: it runs, or it answers after one or two looks at its key.\<close>

lemma call_cases:
  assumes "run_call q = (res, st1)"
  obtains (keyless) m where "act_idempotency_key (cl_action q) = None"
      "run_claimed (cl_env q) m (cl_action q) (cl_contract q) (cl_state q) = (res, st1)"
    | (winner) key m a s where "act_idempotency_key (cl_action q) = Some key"
      "es_trace s = es_trace (cl_state q) @ [EvClaim key (Claimed, a)]"
      "run_claimed (cl_env q) m (cl_action q) (cl_contract q) s = (res, st1)"
    | (loser) key a evs x r where "act_idempotency_key (cl_action q) = Some key"
      "es_trace st1 = es_trace (cl_state q) @ EvClaim key (AlreadyClaimed, a) # evs"
      "evs = [] \<or> (\<exists>b. evs = [EvSleep 50, EvClaim key b])" "res = Inr (r, x)"
      "r = Duplicate \<or> r \<in> learnt key (EvClaim key (AlreadyClaimed, a) # evs)"
proof -
  define env act c st where "env = cl_env q" "act = cl_action q" "c = cl_contract q" "st = cl_state q"
  note d = this
  show thesis
  proof (cases "act_idempotency_key act")
    case None
    with assms keyless show thesis
      by (cases "cl_mode q") (auto simp: run_call_def execute_with_executor_def execute_def simp flip: d)
  next
    case (Some key)
    obtain b a s where cl: "claim_or_check env key st = ((b, a), s)" by (metis prod.exhaust)
    obtain b' a' s' where cl': "claim_or_check env key (sleep env 50 s) = ((b', a'), s')" by (metis prod.exhaust)
    note tr = claim_or_check_trace [OF cl] claim_or_check_trace [OF cl', simplified]
    have answered: "(\<exists>x. res = Inr (r, x)) \<and> es_trace st1 = es_trace s1"
      if "answer_without_run env act c r s1 = (res, st1)" for r s1
      using answer_without_run_sel(1,3) [OF that] by blast
    show thesis
    proof (cases b)
      case Claimed
      with assms cl Some tr(1) winner [of key s a] show thesis
        by (cases "cl_mode q") (auto simp: run_call_def execute_with_executor_def execute_def simp flip: d)
    next
      case AlreadyClaimed
      have "\<exists>evs r x. es_trace st1 = es_trace st @ EvClaim key (AlreadyClaimed, a) # evs \<and>
        (evs = [] \<or> (\<exists>b. evs = [EvSleep 50, EvClaim key b])) \<and> res = Inr (r, x) \<and>
        (r = Duplicate \<or> r \<in> learnt key (EvClaim key (AlreadyClaimed, a) # evs))"
        using assms cl cl' AlreadyClaimed Some tr
        by (cases "cl_mode q") (auto simp: run_call_def execute_with_executor_def execute_def learnt_def
            simp flip: d split: option.splits dest!: answered)
      with loser Some show thesis by (auto simp: d)
    qed
  qed
qed

lemma closing_key:
  "act_idempotency_key act = Some key \<Longrightarrow> closing act r evs \<Longrightarrow>
   fold (stance_step key) evs Owning = Outside \<and> EvComplete key r \<in> set evs"
  by (auto simp: closing_def)

lemma closing_minds: "closing act r evs \<Longrightarrow> list_all (minds act) evs"
  by (auto simp: closing_def split: option.splits)

lemma run_claimed_minds:
  assumes "run_claimed env m act c st = (res, st1)"
  shows "\<exists>evs. es_trace st1 = es_trace st @ evs \<and> list_all (minds act) evs"
proof -
  obtain evs post where tr: "es_trace st1 = es_trace st @ evs @ post"
    and q: "case res of Inl _ \<Rightarrow> list_all (minds act) evs \<and> post = []
      | Inr (r, x) \<Rightarrow> list_all (minds act) evs \<and> closing act r post"
    using minds_key.run_claimed_ok [OF assms] by blast
  from q have "list_all (minds act) (evs @ post)"
    by (cases res) (auto dest: closing_minds)
  with tr show ?thesis by blast
qed

lemma run_claimed_stance:
  assumes "act_idempotency_key act = Some key" and "run_claimed env m act c st = (res, st1)"
  shows "\<exists>evs. es_trace st1 = es_trace st @ evs \<and> fold (stance_step key) evs Owning = Outside \<and>
    (\<forall>r x. res = Inr (r, x) \<longrightarrow> EvComplete key r \<in> set evs)"
proof -
  obtain evs post where tr: "es_trace st1 = es_trace st @ evs @ post"
    and q: "case res of Inl _ \<Rightarrow> fold (stance_step key) evs Owning = Outside \<and> post = []
      | Inr (r, x) \<Rightarrow> fold (stance_step key) evs Owning = Owning \<and> closing act r post"
    using keeps_key.run_claimed_ok [OF assms(2)] assms(1) by (cases res) fastforce+
  from q have "fold (stance_step key) (evs @ post) Owning = Outside \<and>
      (\<forall>r x. res = Inr (r, x) \<longrightarrow> EvComplete key r \<in> set (evs @ post))"
    by (cases res) (auto dest: closing_key [OF assms(1)])
  with tr show ?thesis by blast
qed

lemma call_minds:
  "es_trace (snd (run_call q)) = es_trace (cl_state q) @ call_events q \<and>
   list_all (minds (cl_action q)) (call_events q)"
proof -
  obtain res st1 where run: "run_call q = (res, st1)" by (cases "run_call q")
  have goal: ?thesis if "es_trace st1 = es_trace (cl_state q) @ evs" "list_all (minds (cl_action q)) evs" for evs
    using that run by (simp add: call_events_def)
  have claimed: ?thesis if "es_trace s = es_trace (cl_state q) @ pre" "list_all (minds (cl_action q)) pre"
    "run_claimed (cl_env q) m (cl_action q) (cl_contract q) s = (res, st1)" for s pre m
  proof -
    from run_claimed_minds [OF that(3)] obtain evs where
      "es_trace st1 = es_trace s @ evs" "list_all (minds (cl_action q)) evs" by blast
    with that(1,2) show ?thesis by (intro goal [of "pre @ evs"]) simp_all
  qed
  from run show ?thesis
  proof (cases rule: call_cases)
    case (keyless m)
    then show ?thesis by (intro claimed [of _ "[]"]) simp_all
  next
    case (winner key m a s)
    then show ?thesis by (intro claimed [OF winner(2)]) simp_all
  next
    case (loser key a evs x r)
    then show ?thesis by (intro goal [OF loser(2)]) auto
  qed
qed

lemma call_stance:
  assumes "act_idempotency_key (cl_action q) = Some key"
  shows "stance key (call_events q) \<noteq> Astray \<and>
    (\<forall>r x. fst (run_call q) = Inr (r, x) \<longrightarrow> r = Duplicate \<or> r \<in> learnt key (call_events q))"
proof -
  obtain res st1 where run: "run_call q = (res, st1)" by (cases "run_call q")
  have evs: "call_events q = evs" if "es_trace st1 = es_trace (cl_state q) @ evs" for evs
    using that run by (simp add: call_events_def)
  from run show ?thesis
  proof (cases rule: call_cases)
    case (winner k m a s)
    then have key: "k = key" using assms by simp
    from run_claimed_stance [OF assms winner(3)] obtain es where
      es: "es_trace st1 = es_trace s @ es" "fold (stance_step key) es Owning = Outside"
      "\<forall>r x. res = Inr (r, x) \<longrightarrow> EvComplete key r \<in> set es" by blast
    have "call_events q = EvClaim key (Claimed, a) # es"
      using evs es(1) winner(2) key by simp
    with es(2,3) run show ?thesis by (auto simp: learnt_def)
  next
    case (loser k a es x r)
    with assms evs [OF loser(2)] run show ?thesis by auto
  qed (use assms in simp)
qed

lemma call_course: "fold (course_step key) (call_events q) Quiet \<noteq> Amiss"
proof -
  obtain res st1 where run: "run_call q = (res, st1)" by (cases "run_call q")
  have evs: "call_events q = evs" if "es_trace st1 = es_trace (cl_state q) @ evs" for evs
    using that run by (simp add: call_events_def)
  from run show ?thesis
  proof (cases rule: call_cases)
    case (keyless m)
    from course_run [OF keyless(2)] evs show ?thesis by metis
  next
    case (winner k m a s)
    from course_run [OF winner(3)] obtain es where
      "es_trace st1 = es_trace s @ es" "fold (course_step key) es Quiet \<noteq> Amiss" by blast
    with winner(2) evs [of "EvClaim k (Claimed, a) # es"] show ?thesis by simp
  next
    case (loser k a es x r)
    with evs [OF loser(2)] show ?thesis by auto
  qed
qed

text \<open>How a call that has dispatched comes to be refused.\<close>

lemma course_underway:
  "(fold (course_step key) evs Underway = Refuted \<longrightarrow> EvVerdict Failed \<in> set evs) \<and>
   (fold (course_step key) evs Underway = Refused e \<longrightarrow>
      EvVerdict Failed \<in> set evs \<and> EvDispatch (Inl e) \<in> set evs) \<and>
   fold (course_step key) evs Underway \<noteq> Quiet"
proof (induction evs rule: rev_induct)
  case (snoc x evs)
  then show ?case
    by (cases x) (auto split: if_splits sum.splits course.splits)
qed simp

lemma course_refused:
  "fold (course_step key) evs (Refused e) \<in> {Refused e, Amiss}"
proof (induction evs rule: rev_induct)
  case (snoc x evs)
  then show ?case by (cases x; cases "claim_policy_for e") auto
qed simp

lemma release_refused:
  assumes "fold (course_step key) (pre @ EvDispatch d # evs @ [EvRelease key]) Quiet \<noteq> Amiss"
  shows "\<exists>e. claim_policy_for e = Release \<and>
    (d = Inl e \<or> EvVerdict Failed \<in> set evs \<and> EvDispatch (Inl e) \<in> set evs)"
proof -
  let ?s = "course_step key (EvDispatch d) (fold (course_step key) pre Quiet)"
  have rel: "course_step key (EvRelease key) (fold (course_step key) evs ?s) \<noteq> Amiss" using assms by simp
  have "?s \<noteq> Amiss"
  proof
    assume "?s = Amiss"
    with rel show False by (simp only: amiss_stays course_amiss simp_thms)
  qed
  then have s: "?s = (case d of Inl e \<Rightarrow> Refused e | Inr _ \<Rightarrow> Underway)"
    by (cases d) (auto split: if_splits)
  show ?thesis
  proof (cases d)
    case (Inl e)
    with s have "?s = Refused e" by simp
    with course_refused [of key evs e] rel Inl show ?thesis by (auto split: if_splits)
  next
    case (Inr out)
    with s have "?s = Underway" by simp
    with rel course_underway [of key evs] have "\<exists>e. fold (course_step key) evs Underway = Refused e \<and> claim_policy_for e = Release"
      by (cases "fold (course_step key) evs Underway") (auto split: if_splits)
    with course_underway [of key evs] show ?thesis by blast
  qed
qed

section \<open>Callers that share a registry\<close>

fun registry_step :: "event \<Rightarrow> registry \<Rightarrow> registry" where
  "registry_step (EvClaim k _) reg = snd (registry_claim_or_check k reg)"
| "registry_step (EvComplete k r) reg = registry_complete k r reg"
| "registry_step (EvRelease k) reg = registry_release k reg"
| "registry_step _ reg = reg"

abbreviation registry_after :: "registry \<Rightarrow> (nat \<times> event) list \<Rightarrow> registry" where
  "registry_after reg tr \<equiv> fold (\<lambda>(_, e). registry_step e) tr reg"

fun answers_event :: "registry \<Rightarrow> event \<Rightarrow> bool" where
  "answers_event reg (EvClaim k a) = (a = fst (registry_claim_or_check k reg))"
| "answers_event reg _ = True"

fun answered_by :: "registry \<Rightarrow> (nat \<times> event) list \<Rightarrow> bool" where
  "answered_by reg [] = True"
| "answered_by reg ((_, e) # tr) = (answers_event reg e \<and> answered_by (registry_step e reg) tr)"

definition of_caller :: "nat \<Rightarrow> (nat \<times> event) list \<Rightarrow> event list" where
  "of_caller t tr = map snd (filter (\<lambda>(u, _). u = t) tr)"

text \<open>Every caller has got some way through its call, and the registry gave the answers.\<close>

definition concurrent_calls ::
  "(nat \<Rightarrow> ('re, 'w, 's, 'r) call) \<Rightarrow> registry \<Rightarrow> (nat \<times> event) list \<Rightarrow> bool" where
  "concurrent_calls qs reg tr \<longleftrightarrow> answered_by reg tr \<and>
     (\<forall>t. \<exists>more. call_events (qs t) = of_caller t tr @ more)"

definition asks_for :: "string \<Rightarrow> ('re, 'w, 's, 'r) call \<Rightarrow> bool" where
  "asks_for key q \<longleftrightarrow> act_idempotency_key (cl_action q) = Some key"

lemma of_caller_simps [simp]:
  "of_caller t [] = []" "of_caller t ((u, e) # tr) = (if u = t then e # of_caller t tr else of_caller t tr)"
  "of_caller t (tr @ tr') = of_caller t tr @ of_caller t tr'"
  by (simp_all add: of_caller_def)

lemma of_caller_mem: "e \<in> set (of_caller t tr) \<Longrightarrow> (t, e) \<in> set tr"
  by (auto simp: of_caller_def)

lemma answered_by_append [simp]:
  "answered_by reg (tr @ tr') \<longleftrightarrow> answered_by reg tr \<and> answered_by (registry_after reg tr) tr'"
  by (induction reg tr rule: answered_by.induct) simp_all

lemma concurrent_prefix: "concurrent_calls qs reg (tr @ tr') \<Longrightarrow> concurrent_calls qs reg tr"
  by (auto simp: concurrent_calls_def)


section \<open>Who holds a key\<close>

text \<open>Of the callers \<open>T\<close> that ask for the key at most one owns it, and it is in flight then.\<close>

definition key_inv :: "(nat \<Rightarrow> bool) \<Rightarrow> string \<Rightarrow> registry \<Rightarrow> (nat \<Rightarrow> stance) \<Rightarrow> bool" where
  "key_inv T key reg st \<longleftrightarrow>
     (\<forall>t u. T t \<and> T u \<and> st t = Owning \<and> st u = Owning \<longrightarrow> t = u) \<and>
     (\<forall>t. T t \<and> st t = Owning \<longrightarrow> reg key = Some InFlight)"

fun about_key :: "string \<Rightarrow> event \<Rightarrow> bool" where
  "about_key key (EvClaim k _) = (k = key)"
| "about_key key (EvComplete k _) = (k = key)"
| "about_key key (EvRelease k) = (k = key)"
| "about_key key _ = False"

lemma minds_about: "minds act e \<Longrightarrow> about_key key e \<Longrightarrow> act_idempotency_key act = Some key"
  by (cases e) simp_all

lemmas registry_defs = registry_claim_or_check_def registry_complete_def registry_release_def

lemma registry_step_other: "\<not> about_key key e \<Longrightarrow> registry_step e reg key = reg key"
  by (cases e) (auto simp: registry_defs split: option.split entry_state.split)

lemma stance_step_other:
  "\<not> about_key key e \<Longrightarrow> stance_step key e s \<in> {s, Astray}"
  by (cases e) simp_all

lemma key_inv_step:
  assumes inv: "key_inv T key reg st" and ans: "answers_event reg e"
    and ok: "T t \<Longrightarrow> stance_step key e (st t) \<noteq> Astray" and own: "about_key key e \<Longrightarrow> T t"
  shows "key_inv T key (registry_step e reg) (st(t := stance_step key e (st t)))"
proof (cases "about_key key e")
  case False
  with inv ok stance_step_other [OF False, of "st t"] registry_step_other [OF False] show ?thesis
    by (auto simp: key_inv_def)
next
  case True
  note t = own [OF True]
  have uniq: "u = t" if "T u" "st u = Owning" "st t = Owning" for u
    using inv t that unfolding key_inv_def by blast
  have held: "reg key = Some InFlight" if "T u" "st u = Owning" for u
    using inv that unfolding key_inv_def by blast
  show ?thesis
  proof (cases e)
    case (EvClaim k a)
    show ?thesis
    proof (cases "reg key")
      case None
      with True EvClaim ok [OF t] held inv show ?thesis
        by (cases "st t") (auto simp: key_inv_def registry_defs)
    next
      case (Some x)
      with True EvClaim ans ok [OF t] held inv show ?thesis
        by (cases x; cases "st t") (auto simp: key_inv_def registry_defs)
    qed
  next
    case (EvComplete k r)
    with True ok [OF t] uniq inv show ?thesis by (auto simp: key_inv_def split: if_splits)
  next
    case (EvRelease k)
    with True ok [OF t] uniq inv show ?thesis by (auto simp: key_inv_def split: if_splits)
  qed (use True in simp_all)
qed

text \<open>A completed key stays as it is.\<close>

lemma completed_step:
  assumes "key_inv T key reg st" and "reg key = Some (Completed r)"
    and "T t \<Longrightarrow> stance_step key e (st t) \<noteq> Astray" and "about_key key e \<Longrightarrow> T t"
  shows "registry_step e reg key = Some (Completed r)"
proof (cases "about_key key e")
  case True
  then have "T t" "st t \<noteq> Owning" using assms unfolding key_inv_def by auto
  with True assms(2) assms(3) show ?thesis
    by (cases e) (auto simp: registry_defs split: if_splits)
qed (simp add: registry_step_other assms(2))

text \<open>In a system of calls.\<close>

abbreviation stances :: "string \<Rightarrow> (nat \<times> event) list \<Rightarrow> nat \<Rightarrow> stance" where
  "stances key tr \<equiv> \<lambda>t. stance key (of_caller t tr)"

lemma calls_step:
  assumes "concurrent_calls qs reg (tr @ [(t, e)])"
  shows "answers_event (registry_after reg tr) e"
    and "asks_for key (qs t) \<Longrightarrow> stance_step key e (stances key tr t) \<noteq> Astray"
    and "about_key key e \<Longrightarrow> asks_for key (qs t)"
proof -
  obtain more where "call_events (qs t) = of_caller t (tr @ [(t, e)]) @ more"
    using assms unfolding concurrent_calls_def by blast
  then have more: "call_events (qs t) = of_caller t tr @ e # more" by simp
  show "answers_event (registry_after reg tr) e" using assms by (simp add: concurrent_calls_def)
  show "stance_step key e (stances key tr t) \<noteq> Astray" if "asks_for key (qs t)"
    using call_stance [of "qs t" key] that more by (auto simp: asks_for_def)
  show "asks_for key (qs t)" if "about_key key e"
    using call_minds [of "qs t"] more minds_about [OF _ that] by (simp add: asks_for_def)
qed

lemma dispatch_owner: "stance_step key (EvDispatch d) s \<noteq> Astray \<Longrightarrow> s = Owning"
  by (simp split: if_splits)

lemma stances_snoc: "stances key (tr @ [(t, e)]) = (stances key tr)(t := stance_step key e (stances key tr t))"
  by (simp add: fun_eq_iff)

lemma calls_key_inv:
  "concurrent_calls qs reg tr \<Longrightarrow> key_inv (\<lambda>t. asks_for key (qs t)) key (registry_after reg tr) (stances key tr)"
proof (induction tr rule: rev_induct)
  case Nil
  then show ?case by (simp add: key_inv_def)
next
  case (snoc x tr)
  obtain t e where x: "x = (t, e)" by (cases x)
  note step = calls_step [OF snoc.prems [unfolded x]]
  from key_inv_step [OF snoc.IH [OF concurrent_prefix [OF snoc.prems]] step] show ?case
    unfolding x stances_snoc by simp
qed

lemma calls_completed_step:
  assumes "concurrent_calls qs reg (tr @ [(t, e)])" and "registry_after reg tr key = Some (Completed r)"
  shows "registry_after reg (tr @ [(t, e)]) key = Some (Completed r)"
  using completed_step [OF calls_key_inv [OF concurrent_prefix [OF assms(1)]] assms(2) calls_step(2,3) [OF assms(1)]]
  by simp

text \<open>An owner owns its key until it releases it or it is completed for good.\<close>

lemma owner_until:
  assumes "asks_for key (qs t)" and "stances key xs t = Owning"
  shows "concurrent_calls qs reg (xs @ ys) \<Longrightarrow> (t, EvRelease key) \<in> set ys \<or>
    stances key (xs @ ys) t = Owning \<or> (\<exists>r. registry_after reg (xs @ ys) key = Some (Completed r))"
proof (induction ys rule: rev_induct)
  case Nil
  with assms(2) show ?case by simp
next
  case (snoc x ys)
  obtain u e where x: "x = (u, e)" by (cases x)
  have calls: "concurrent_calls qs reg ((xs @ ys) @ [(u, e)])" using snoc.prems x by simp
  from snoc.IH [OF concurrent_prefix [OF calls]] show ?case
  proof (elim disjE exE)
    assume own: "stances key (xs @ ys) t = Owning"
    show ?case
    proof (cases "u = t")
      case True
      with calls_step(2) [OF calls, of key] assms(1) own have "stance_step key e Owning \<noteq> Astray" by simp
      then show ?thesis using own x True
        by (cases e) (auto simp: registry_complete_def split: if_splits)
    qed (use own x in simp)
  next
    fix r assume "registry_after reg (xs @ ys) key = Some (Completed r)"
    from calls_completed_step [OF calls this] show ?case using x by simp
  qed (simp add: x)
qed

text \<open>What any caller has learnt is what the registry has recorded.\<close>

lemma learnt_recorded:
  "concurrent_calls qs reg tr \<Longrightarrow> r \<in> learnt key (of_caller t tr) \<Longrightarrow>
   registry_after reg tr key = Some (Completed r)"
proof (induction tr rule: rev_induct)
  case Nil
  then show ?case by (simp add: learnt_def)
next
  case (snoc x tr)
  obtain u e where x: "x = (u, e)" by (cases x)
  note calls = snoc.prems(1) [unfolded x]
  show ?case
  proof (cases "r \<in> learnt key (of_caller t tr)")
    case True
    from calls_completed_step [OF calls snoc.IH [OF concurrent_prefix [OF calls] True]] show ?thesis
      by (simp add: x)
  next
    case False
    with snoc.prems(2) x have "e = EvComplete key r \<or> (\<exists>q. e = EvClaim key (q, Some r))"
      by (auto simp: learnt_def split: if_splits)
    with calls_step(1) [OF calls] show ?thesis
      by (auto simp: x registry_defs split: option.splits entry_state.splits)
  qed
qed


section \<open>Scripted calls\<close>

text \<open>For the witnesses: a call whose action is rejected, one whose transport fails, and one that
  finds its key in flight and, after the poll, completed.\<close>

definition script_call :: "(registry \<Rightarrow> registry) \<Rightarrow> registry \<Rightarrow> (dispatch_error + dispatch_outcome) list
    \<Rightarrow> (string, script, registry, unit) call" where
  "script_call others reg ds =
     \<lparr>cl_mode = Dispatching, cl_env = script_env others, cl_action = script_action,
      cl_contract = script_contract, cl_state = script_state reg (ds, [])\<rparr>"

definition rejected_call :: "(string, script, registry, unit) call" where
  "rejected_call = script_call id new_registry [Inl (Rejected_err ''no'')]"

definition broken_call :: "(string, script, registry, unit) call" where
  "broken_call = script_call id new_registry [Inr (TransportError ''reset'')]"

definition waiting_call :: "(string, script, registry, unit) call" where
  "waiting_call = script_call (\<lambda>s. s(''k'' \<mapsto> Completed Unknown)) [''k'' \<mapsto> InFlight] []"

lemma script_call_asks: "asks_for ''k'' (script_call f s ds)"
  by (simp add: asks_for_def script_call_def)

lemma rejected_call_events:
  "call_events rejected_call =
     [EvClaim ''k'' (Claimed, None), EvCleared, EvDispatch (Inl (Rejected_err ''no'')), EvRelease ''k'']"
  by (simp add: call_events_def run_call_def rejected_call_def script_call_def execute_with_executor_def
      claim_or_check_def registry_claim_or_check_def new_registry_def run_claimed_def run_loop.simps
      script_attempt_rejected release_key_def)

lemma broken_attempt:
  assumes "es_world st = (Inr (TransportError e) # ds, os)"
  shows "attempt (script_env f) Dispatching script_action script_contract k st =
    (Stop Unknown, log_event (EvDispatch (Inr (TransportError e)))
       (suspend (script_env f) (ds, os) (log_event EvCleared st)))"
  using assms by (simp add: attempt_def attempt_dispatched_eq bind_phase_def dispatch_phase_def Let_def)

lemma broken_call_run:
  "call_events broken_call =
     [EvClaim ''k'' (Claimed, None), EvCleared, EvDispatch (Inr (TransportError ''reset'')), EvComplete ''k'' Unknown]"
  "\<exists>x. fst (run_call broken_call) = Inr (Unknown, x)"
  by (simp_all add: call_events_def run_call_def broken_call_def script_call_def execute_with_executor_def
      claim_or_check_def registry_claim_or_check_def new_registry_def run_claimed_def run_loop.simps
      broken_attempt finish_def create_receipt_def complete_key_def store_receipt_def Let_def)

lemma waiting_call_run:
  "call_events waiting_call =
     [EvClaim ''k'' (AlreadyClaimed, None), EvSleep 50, EvClaim ''k'' (AlreadyClaimed, Some Unknown)]"
  "\<exists>x. fst (run_call waiting_call) = Inr (Unknown, x)"
  by (simp_all add: call_events_def run_call_def waiting_call_def script_call_def execute_with_executor_def
      claim_or_check_def registry_claim_or_check_def sleep_def answer_without_run_def create_receipt_def Let_def)

section \<open>Properties\<close>

text \<open>
  Property C4 (safety): callers with one key take turns. However any number of concurrent calls of
  the two pipelines on one registry interleave, whatever their adapters, observers and
  configurations: when a caller has dispatched and another caller with the same key dispatches
  later, the first has released the key in between, and it did so because its last dispatch came
  back with an error that proves that nothing was sent. If that was not the dispatch in question, a
  verdict \<open>Failed\<close> came between it and the refused attempt. So after a dispatch that was accepted and
  not judged \<open>Failed\<close> no other caller dispatches. It does not follow that the effect of the first
  dispatch is over or has not happened: an accepted dispatch can be judged too early, and when the
  retry is then refused the key is given back all the same, as \<open>released_after_dispatch\<close> shows.
\<close>

theorem dispatches_take_turns:
  assumes "concurrent_calls qs reg (xs @ (t, EvDispatch d) # ys @ (u, EvDispatch d') # zs)"
    and "asks_for key (qs t)" and "asks_for key (qs u)" and "t \<noteq> u"
  shows "(t, EvRelease key) \<in> set ys \<and>
    (\<exists>e. claim_policy_for e = Release \<and>
      (d = Inl e \<or> (t, EvVerdict Failed) \<in> set ys \<and> (t, EvDispatch (Inl e)) \<in> set ys))"
proof -
  let ?xs = "xs @ [(t, EvDispatch d)]"
  have calls: "concurrent_calls qs reg ((?xs @ ys) @ [(u, EvDispatch d')])"
    using assms(1) concurrent_prefix [of qs reg _ zs] by simp
  note before = concurrent_prefix [OF calls]
  have "stances key ?xs t = Owning"
    using calls_step(2) [OF concurrent_prefix [OF before] assms(2)] by (simp split: if_splits)
  from owner_until [OF assms(2) this before]
  have "(t, EvRelease key) \<in> set ys \<or> stances key (?xs @ ys) t = Owning \<or>
    (\<exists>r. registry_after reg (?xs @ ys) key = Some (Completed r))" .
  moreover have "stances key (?xs @ ys) u = Owning"
    by (rule dispatch_owner [OF calls_step(2) [OF calls assms(3)]])
  then have "stances key (?xs @ ys) t \<noteq> Owning" "registry_after reg (?xs @ ys) key = Some InFlight"
    using calls_key_inv [OF before, of key] assms(2-4) unfolding key_inv_def by blast+
  ultimately have rel: "(t, EvRelease key) \<in> set ys" by simp
  then obtain ys1 ys2 where ys: "ys = ys1 @ (t, EvRelease key) # ys2" by (meson split_list)
  obtain more where "call_events (qs t) = of_caller t (?xs @ ys) @ more"
    using before unfolding concurrent_calls_def by blast
  then have "call_events (qs t) =
      (of_caller t xs @ EvDispatch d # of_caller t ys1 @ [EvRelease key]) @ of_caller t ys2 @ more"
    by (simp add: ys)
  with call_course [of key "qs t"]
  have "fold (course_step key) (of_caller t xs @ EvDispatch d # of_caller t ys1 @ [EvRelease key]) Quiet \<noteq> Amiss"
    by (metis amiss_stays fold_append comp_apply)
  from release_refused [OF this] of_caller_mem [of _ t ys1] rel show ?thesis by (auto simp: ys)
qed

theorem dispatches_take_turns_witness:
  "concurrent_calls (\<lambda>t. if t = 0 then rejected_call else broken_call) new_registry
     ([(0, EvClaim ''k'' (Claimed, None)), (0, EvCleared)] @ (0, EvDispatch (Inl (Rejected_err ''no''))) #
      [(0, EvRelease ''k''), (1, EvClaim ''k'' (Claimed, None)), (1, EvCleared)] @
      (1, EvDispatch (Inr (TransportError ''reset''))) # []) \<and>
   (0, EvRelease ''k'') \<in> set [(0, EvRelease ''k''), (1, EvClaim ''k'' (Claimed, None)), (1 :: nat, EvCleared)]"
proof -
  let ?qs = "\<lambda>t :: nat. if t = 0 then rejected_call else broken_call"
  have calls: "concurrent_calls ?qs new_registry
     ([(0, EvClaim ''k'' (Claimed, None)), (0, EvCleared)] @ (0, EvDispatch (Inl (Rejected_err ''no''))) #
      [(0, EvRelease ''k''), (1, EvClaim ''k'' (Claimed, None)), (1, EvCleared)] @
      (1, EvDispatch (Inr (TransportError ''reset''))) # [])"
    by (simp add: concurrent_calls_def rejected_call_events broken_call_run(1) registry_defs new_registry_def)
  have "asks_for ''k'' (?qs 0)" "asks_for ''k'' (?qs 1)"
    by (simp_all add: rejected_call_def broken_call_def script_call_asks)
  from dispatches_take_turns [OF calls this] calls show ?thesis by simp
qed

text \<open>
  Property C5 (safety): callers with one key agree. In the same systems, two calls with one key that
  are over and returned verdicts returned the same verdict, unless one of them was told
  \<open>Duplicate\<close>.
\<close>

theorem callers_agree:
  assumes "concurrent_calls qs reg tr" and "asks_for key (qs t)" and "asks_for key (qs u)"
    and "of_caller t tr = call_events (qs t)" and "of_caller u tr = call_events (qs u)"
    and "fst (run_call (qs t)) = Inr (v, x)" and "fst (run_call (qs u)) = Inr (w, y)"
  shows "v = w \<or> v = Duplicate \<or> w = Duplicate"
proof -
  have "v = Duplicate \<or> registry_after reg tr key = Some (Completed v)"
    "w = Duplicate \<or> registry_after reg tr key = Some (Completed w)"
    using assms call_stance learnt_recorded [OF assms(1)] unfolding asks_for_def by metis+
  then show ?thesis by auto
qed

theorem callers_agree_witness:
  "\<exists>v w x y. concurrent_calls (\<lambda>t. if t = 0 then broken_call else waiting_call) new_registry
     [(0, EvClaim ''k'' (Claimed, None)), (1, EvClaim ''k'' (AlreadyClaimed, None)), (0, EvCleared),
      (0, EvDispatch (Inr (TransportError ''reset''))), (0, EvComplete ''k'' Unknown), (1, EvSleep 50),
      (1, EvClaim ''k'' (AlreadyClaimed, Some Unknown))] \<and>
   fst (run_call broken_call) = Inr (v, x) \<and> fst (run_call waiting_call) = Inr (w, y) \<and>
   v \<noteq> Duplicate \<and> w \<noteq> Duplicate \<and> v = w"
proof -
  let ?qs = "\<lambda>t :: nat. if t = 0 then broken_call else waiting_call"
  let ?tr = "[(0 :: nat, EvClaim ''k'' (Claimed, None)), (1, EvClaim ''k'' (AlreadyClaimed, None)), (0, EvCleared),
      (0, EvDispatch (Inr (TransportError ''reset''))), (0, EvComplete ''k'' Unknown), (1, EvSleep 50),
      (1, EvClaim ''k'' (AlreadyClaimed, Some Unknown))]"
  have calls: "concurrent_calls ?qs new_registry ?tr"
    by (simp add: concurrent_calls_def broken_call_run(1) waiting_call_run(1) registry_defs new_registry_def)
  have asks: "asks_for ''k'' (?qs 0)" "asks_for ''k'' (?qs 1)"
    by (simp_all add: waiting_call_def broken_call_def script_call_asks)
  have all: "of_caller 0 ?tr = call_events (?qs 0)" "of_caller 1 ?tr = call_events (?qs 1)"
    by (simp_all add: broken_call_run(1) waiting_call_run(1))
  obtain x y where r: "fst (run_call (?qs 0)) = Inr (Unknown, x)" "fst (run_call (?qs 1)) = Inr (Unknown, y)"
    using broken_call_run(2) waiting_call_run(2) by auto
  from callers_agree [OF calls asks all r] calls r show ?thesis by auto
qed

end
