(* ===== verification/Core_Tests.thy ===== *)
theory Core_Tests
  imports State_Machine Contract
begin

text \<open>
  Unit tests of \<open>agentverify-core\<close> run on the model: those of the state machine
  (\<open>state_machine.rs\<close>) and of contracts (\<open>contract.rs\<close>). Each definition is a test function, true
  when its assertions hold. Tests of derived implementations (\<open>Debug\<close>, \<open>Clone\<close>, serde) are left out.
\<close>

named_theorems core_test

section \<open>The state machine\<close>

text \<open>Calls of \<open>advance\<close> that must be accepted, with the state they lead to.\<close>

fun walks :: "state_machine \<Rightarrow> lifecycle list \<Rightarrow> bool" where
  "walks m [] = True"
| "walks m (s # ss) =
     (case advance m s of (Inr t, m1) \<Rightarrow> t = s \<and> current m1 = s \<and> walks m1 ss | (Inl _, _) \<Rightarrow> False)"

text \<open>\<open>sm.advance(..).unwrap()\<close>, one after the other; \<open>None\<close> is a panic.\<close>

fun advances :: "state_machine \<Rightarrow> lifecycle list \<Rightarrow> state_machine option" where
  "advances m [] = Some m"
| "advances m (s # ss) = (case advance m s of (Inr _, m1) \<Rightarrow> advances m1 ss | (Inl _, _) \<Rightarrow> None)"

definition refuses :: "state_machine \<Rightarrow> lifecycle \<Rightarrow> bool" where
  "refuses m s = (case advance m s of (Inl _, _) \<Rightarrow> True | (Inr _, _) \<Rightarrow> False)"

definition test_sm_happy_path :: bool where
  "test_sm_happy_path =
     (current new_machine = Proposed \<and>
      walks new_machine [Validating, Authorized, Executing, Unknown_st, Observing, Verifying, Verified_st, Committed])"

definition test_sm_invalid_transition :: bool where
  "test_sm_invalid_transition =
     (case advances new_machine [Validating] of None \<Rightarrow> False | Some m \<Rightarrow> refuses m Executing)"

definition test_sm_terminal_state :: bool where
  "test_sm_terminal_state =
     (case advances new_machine [Validating, Rejected] of
        None \<Rightarrow> False | Some m \<Rightarrow> current m = Rejected \<and> refuses m Authorized)"

definition test_sm_every_legal_lifecycle_walk_completes :: bool where
  "test_sm_every_legal_lifecycle_walk_completes =
     list_all (\<lambda>walk. walks new_machine (tl walk) \<and>
         map_option current (advances new_machine (tl walk)) = Some (last walk))
       [[Proposed, Validating, Authorized, Executing, Executed, Observing, Verifying, Verified_st, Committed],
        [Proposed, Validating, Authorized, Executing, Unknown_st, Observing, Verifying, Verified_st, Committed],
        [Proposed, Validating, Authorized, Executing, Timeout, Observing, Verifying, Verified_st, Committed],
        [Proposed, Validating, Authorized, Executing, Failed_st, Verifying, Verified_st, Committed],
        [Proposed, Validating, Authorized, Executing, Executed, Observing, Verifying, VerificationFailed]]"

definition test_sm_recovery_states_by_resuming :: bool where
  "test_sm_recovery_states_by_resuming =
     (map_option current (advances (with_state Recovering) [Recovered, Verifying, Verified_st, Committed])
        = Some Committed)"

definition test_sm_recovering_may_escalate :: bool where
  "test_sm_recovering_may_escalate =
     (case advances (with_state Recovering) [Escalated] of
        None \<Rightarrow> False
      | Some m \<Rightarrow> current m = Escalated \<and> is_terminal (current m) \<and> refuses m Recovering)"

definition test_sm_verification_failed_refuses :: bool where
  "test_sm_verification_failed_refuses =
     (valid_transitions VerificationFailed = [Recovering] \<and>
      transition VerificationFailed Recovering = Inl (TerminalState VerificationFailed))"

definition test_sm_every_state_reports_terminal_status :: bool where
  "test_sm_every_state_reports_terminal_status =
     (list_all (\<lambda>s. is_terminal s \<and> valid_transitions s = []) [Committed, Rejected, Escalated] \<and>
      list_all (\<lambda>s. \<not> is_terminal s \<and> valid_transitions s \<noteq> [])
        [Proposed, Validating, Authorized, Executing, Executed, Failed_st, Timeout, Unknown_st, Observing,
         Verifying, Verified_st, Recovering, Recovered] \<and>
      is_terminal VerificationFailed \<and> valid_transitions VerificationFailed = [Recovering])"

definition all_lifecycle :: "lifecycle list" where
  "all_lifecycle =
     [Proposed, Validating, Rejected, Authorized, Executing, Executed, Failed_st, Timeout, Unknown_st,
      Observing, Verifying, Verified_st, VerificationFailed, Recovering, Recovered, Escalated, Committed]"

definition test_sm_all_undeclared_transitions_are_rejected :: bool where
  "test_sm_all_undeclared_transitions_are_rejected =
     list_all (\<lambda>from_st. list_all (\<lambda>to_st.
       let declared = \<not> is_terminal from_st \<and> to_st \<in> set (valid_transitions from_st)
       in case transition from_st to_st of
            Inr t \<Rightarrow> declared \<and> t = to_st
          | Inl e \<Rightarrow> \<not> declared \<and>
              (case e of
                 InvalidTransition f t \<Rightarrow> f = from_st \<and> t = to_st \<and>
                   show_state_error e = ''Invalid transition from '' @ show_lifecycle f @ '' to '' @ show_lifecycle t
               | TerminalState s \<Rightarrow> s = from_st)) all_lifecycle) all_lifecycle"

definition test_sm_terminal_states_report_themselves :: bool where
  "test_sm_terminal_states_report_themselves =
     (list_all (\<lambda>s. transition s Proposed = Inl (TerminalState s) \<and>
         show_state_error (TerminalState s) = ''Action is in terminal state '' @ show_lifecycle s)
       [Committed, Rejected, Escalated] \<and>
      transition VerificationFailed Proposed = Inl (TerminalState VerificationFailed))"

definition test_sm_every_state_displays_as_snake_case :: bool where
  "test_sm_every_state_displays_as_snake_case =
     list_all (\<lambda>(s, name). show_lifecycle s = name)
       [(Proposed, ''proposed''), (Validating, ''validating''), (Rejected, ''rejected''),
        (Authorized, ''authorized''), (Executing, ''executing''), (Executed, ''executed''),
        (Failed_st, ''failed''), (Timeout, ''timeout''), (Unknown_st, ''unknown''),
        (Observing, ''observing''), (Verifying, ''verifying''), (Verified_st, ''verified''),
        (VerificationFailed, ''verification_failed''), (Recovering, ''recovering''),
        (Recovered, ''recovered''), (Escalated, ''escalated''), (Committed, ''committed'')]"

definition test_sm_with_state_starts_at_requested_state :: bool where
  "test_sm_with_state_starts_at_requested_state =
     (current (with_state Observing) = Observing \<and>
      map_option current (advances (with_state Observing) [Verifying]) = Some Verifying)"

definition test_sm_failed_advance_leaves_state_unchanged :: bool where
  "test_sm_failed_advance_leaves_state_unchanged =
     (case advances new_machine [Validating] of
        None \<Rightarrow> False
      | Some m \<Rightarrow> refuses m Committed \<and> current (snd (advance m Committed)) = current m)"

lemmas [core_test] = refuses_def advance_def transition_def current_def new_machine_def with_state_def
  is_terminal_def all_lifecycle_def

lemma state_machine_tests:
  test_sm_happy_path test_sm_invalid_transition test_sm_terminal_state
  test_sm_every_legal_lifecycle_walk_completes test_sm_recovery_states_by_resuming
  test_sm_recovering_may_escalate test_sm_verification_failed_refuses
  test_sm_every_state_reports_terminal_status test_sm_terminal_states_report_themselves
  test_sm_every_state_displays_as_snake_case test_sm_with_state_starts_at_requested_state
  test_sm_failed_advance_leaves_state_unchanged
  by (simp_all add: core_test test_sm_happy_path_def test_sm_invalid_transition_def
      test_sm_terminal_state_def test_sm_every_legal_lifecycle_walk_completes_def
      test_sm_recovery_states_by_resuming_def test_sm_recovering_may_escalate_def
      test_sm_verification_failed_refuses_def test_sm_every_state_reports_terminal_status_def
      test_sm_terminal_states_report_themselves_def test_sm_every_state_displays_as_snake_case_def
      test_sm_with_state_starts_at_requested_state_def test_sm_failed_advance_leaves_state_unchanged_def)

lemma state_machine_table_test: test_sm_all_undeclared_transitions_are_rejected
  by (simp add: core_test test_sm_all_undeclared_transitions_are_rejected_def Let_def)

section \<open>Contracts\<close>

text \<open>The helpers of the tests. \<open>uid\<close> and \<open>now\<close> are what \<open>Contract::new\<close> draws.\<close>

definition valid_contract :: "uuid \<Rightarrow> datetime \<Rightarrow> contract" where
  "valid_contract uid now =
     with_postcondition (p_exists ''refund.status'') ''refund recorded'' (new_contract uid now ''refund_customer'')"

definition recovery_of :: "recovery_strategy \<Rightarrow> u32 \<Rightarrow> backoff_config option \<Rightarrow> recovery_config" where
  "recovery_of s n b = \<lparr>strategy = s, max_attempts = n, backoff = b, on_unknown = []\<rparr>"

definition seconds :: "int \<Rightarrow> duration" where
  "seconds n = n * 10 ^ 9"

definition test_schema_version_parses_major_and_minor :: bool where
  "test_schema_version_parses_major_and_minor =
     (case schema_version_new ''2.7'' of
        None \<Rightarrow> False | Some v \<Rightarrow> major v = 2 \<and> minor v = 7 \<and> version_string v = ''2.7'')"

definition test_schema_version_rejects_malformed_strings :: bool where
  "test_schema_version_rejects_malformed_strings =
     list_all (\<lambda>s. schema_version_new s = None)
       [[], ''1'', ''1.0.0'', ''1.'', ''.1'', ''a.b'', ''1.x'', ''x.1'', ''1.-2'']"

definition test_schema_version_compatibility :: bool where
  "test_schema_version_compatibility =
     (let compatible = (\<lambda>s. map_option (\<lambda>v. is_compatible_with v default_version) (schema_version_new s))
      in compatible ''1.0'' = Some True \<and> compatible ''1.9'' = Some True \<and>
         compatible ''2.0'' = Some False \<and> compatible ''0.9'' = Some False)"

definition test_schema_version_default_is_one_zero :: bool where
  "test_schema_version_default_is_one_zero =
     (major default_version = 1 \<and> minor default_version = 0 \<and> version_string default_version = ''1.0'')"

definition test_contract_schema_version_constant_is_current :: bool where
  "test_contract_schema_version_constant_is_current =
     (CONTRACT_SCHEMA_VERSION = ''1.0'' \<and> CONTRACT_SCHEMA_VERSION = version_string default_version)"

definition test_contract_new_sets_schema_defaults :: "uuid \<Rightarrow> datetime \<Rightarrow> bool" where
  "test_contract_new_sets_schema_defaults uid now =
     (let c = new_contract uid now ''create_customer''
      in schema_version c = ''1.0'' \<and> action_name c = ''create_customer'' \<and> preconditions c = [] \<and>
         postconditions c = [] \<and> recovery c = None \<and>
         consistency (verification c) = consistency default_verification_config)"

definition test_contract_builders_accumulate :: "uuid \<Rightarrow> datetime \<Rightarrow> bool" where
  "test_contract_builders_accumulate uid now =
     (let c = with_recovery (recovery_of VerifyThenRetry 4 None)
            (with_postcondition (p_equals ''charge.status'' (JString ''captured'')) ''captured''
              (with_precondition (p_exists ''account.id'') ''account exists'' (new_contract uid now ''charge'')))
      in length (preconditions c) = 1 \<and> pre_description (hd (preconditions c)) = ''account exists'' \<and>
         length (postconditions c) = 1 \<and> mandatory (hd (postconditions c)) \<and>
         (case recovery c of None \<Rightarrow> False | Some r \<Rightarrow> strategy r = VerifyThenRetry \<and> max_attempts r = 4))"

definition test_validate_accepts_well_formed_contract :: "uuid \<Rightarrow> datetime \<Rightarrow> bool" where
  "test_validate_accepts_well_formed_contract uid now =
     (let c = valid_contract uid now
      in is_ok (validate (c\<lparr>preconditions := preconditions c @
           [\<lparr>pre_predicate = p_exists ''account.id'', pre_description = ''account''\<rparr>]\<rparr>)))"

text \<open>A test that expects an error and its message. Durations print as \<open>sd\<close>, floats as \<open>sf\<close>.\<close>

definition fails_with ::
  "(duration \<Rightarrow> string) \<Rightarrow> (f64 \<Rightarrow> string) \<Rightarrow> contract \<Rightarrow> contract_validation_error \<Rightarrow> string \<Rightarrow> bool" where
  "fails_with sd sf c e message = (validate c = Inl e \<and> show_validation_error sd sf e = message)"

definition test_validate_rejects_unparseable_schema_version ::
  "(duration \<Rightarrow> string) \<Rightarrow> (f64 \<Rightarrow> string) \<Rightarrow> uuid \<Rightarrow> datetime \<Rightarrow> bool" where
  "test_validate_rejects_unparseable_schema_version sd sf uid now =
     fails_with sd sf ((valid_contract uid now)\<lparr>schema_version := ''latest''\<rparr>)
       (InvalidSchemaVersion ''latest'') ''Invalid schema version: latest''"

definition test_validate_rejects_incompatible_schema_version ::
  "(duration \<Rightarrow> string) \<Rightarrow> (f64 \<Rightarrow> string) \<Rightarrow> uuid \<Rightarrow> datetime \<Rightarrow> bool" where
  "test_validate_rejects_incompatible_schema_version sd sf uid now =
     fails_with sd sf ((valid_contract uid now)\<lparr>schema_version := ''2.0''\<rparr>)
       (IncompatibleSchemaVersion ''1.0'' ''2.0'') ''Incompatible schema version: expected 1.0, got 2.0''"

definition test_validate_rejects_empty_action_name ::
  "(duration \<Rightarrow> string) \<Rightarrow> (f64 \<Rightarrow> string) \<Rightarrow> uuid \<Rightarrow> datetime \<Rightarrow> bool" where
  "test_validate_rejects_empty_action_name sd sf uid now =
     fails_with sd sf ((valid_contract uid now)\<lparr>action_name := []\<rparr>) EmptyActionName ''Action name cannot be empty''"

definition test_validate_requires_at_least_one_postcondition ::
  "(duration \<Rightarrow> string) \<Rightarrow> (f64 \<Rightarrow> string) \<Rightarrow> uuid \<Rightarrow> datetime \<Rightarrow> bool" where
  "test_validate_requires_at_least_one_postcondition sd sf uid now =
     fails_with sd sf (new_contract uid now ''no_postconditions'') NoPostconditions
       ''Contract must have at least one postcondition''"

definition test_validate_detects_duplicate_simple_path ::
  "(duration \<Rightarrow> string) \<Rightarrow> (f64 \<Rightarrow> string) \<Rightarrow> uuid \<Rightarrow> datetime \<Rightarrow> bool" where
  "test_validate_detects_duplicate_simple_path sd sf uid now =
     fails_with sd sf
       (with_postcondition (p_equals ''refund.status'' (JString ''ok'')) ''second''
         (with_postcondition (p_exists ''refund.status'') ''first'' (new_contract uid now ''dup'')))
       (DuplicatePostconditionPath ''refund.status'') ''Duplicate postcondition path: refund.status''"

definition test_extract_predicate_path_unwraps_compound_predicates :: "uuid \<Rightarrow> datetime \<Rightarrow> bool" where
  "test_extract_predicate_path_unwraps_compound_predicates uid now =
     (let inner = p_exists ''ledger.entry''
      in list_all (\<lambda>p. \<not> is_ok (validate
           (with_postcondition (p_exists ''ledger.entry'') ''two''
             (with_postcondition p ''one'' (new_contract uid now ''compound'')))))
           [p_all [inner], p_any [inner], p_negate inner, Implies inner (p_exists ''other.path'')])"

definition test_extract_predicate_path_covers_every_predicate_shape :: bool where
  "test_extract_predicate_path_covers_every_predicate_shape =
     (let one = JNumber (PosInt 1)
      in extract_predicate_path (Exists ''a'') = ''a'' \<and> extract_predicate_path (NotExists ''b'') = ''b'' \<and>
         extract_predicate_path (Equals ''c'' one) = ''c'' \<and> extract_predicate_path (NotEquals ''d'' one) = ''d'' \<and>
         extract_predicate_path (Contains ''e'' one) = ''e'' \<and> extract_predicate_path (Matches ''f'' ''^x'') = ''f'' \<and>
         extract_predicate_path (GreaterThan ''g'' one) = ''g'' \<and>
         extract_predicate_path (LessThan ''h'' one) = ''h'' \<and> extract_predicate_path (Count ''i'' Eq 1) = ''i'' \<and>
         extract_predicate_path (IsEmpty ''j'') = ''j'' \<and> extract_predicate_path (IsNotEmpty ''k'') = ''k'' \<and>
         extract_predicate_path (PAll []) = [] \<and> extract_predicate_path (PAny []) = [])"

definition test_validate_ignores_empty_and_distinct_paths :: "uuid \<Rightarrow> datetime \<Rightarrow> bool" where
  "test_validate_ignores_empty_and_distinct_paths uid now =
     is_ok (validate
       (with_postcondition (p_exists ''a.two'') ''b''
         (with_postcondition (p_exists ''a.one'') ''a''
           (with_postcondition (p_exists []) ''second empty path''
             (with_postcondition (p_exists []) ''empty path is skipped'' (new_contract uid now ''paths''))))))"

definition test_validate_rejects_zero_max_attempts ::
  "(duration \<Rightarrow> string) \<Rightarrow> (f64 \<Rightarrow> string) \<Rightarrow> uuid \<Rightarrow> datetime \<Rightarrow> bool" where
  "test_validate_rejects_zero_max_attempts sd sf uid now =
     fails_with sd sf (with_recovery (recovery_of Retry 0 None) (valid_contract uid now))
       InvalidMaxAttempts ''max_attempts must be greater than 0''"

definition test_validate_rejects_backoff_max_below_initial ::
  "(duration \<Rightarrow> string) \<Rightarrow> (f64 \<Rightarrow> string) \<Rightarrow> uuid \<Rightarrow> datetime \<Rightarrow> bool" where
  "test_validate_rejects_backoff_max_below_initial sd sf uid now =
     fails_with sd sf
       (with_recovery (recovery_of Retry 3 (Some \<lparr>backoff_type = Exponential, bc_initial = seconds 30,
          bc_max = seconds 1, bc_multiplier = 0x4000000000000000\<rparr>)) (valid_contract uid now))
       (InvalidBackoff (seconds 30) (seconds 1)) ''Backoff max (PT1S) must be >= initial (PT30S)''"

text \<open>The multipliers 0.0 and -1.5.\<close>

definition test_validate_rejects_non_positive_backoff_multiplier ::
  "(duration \<Rightarrow> string) \<Rightarrow> (f64 \<Rightarrow> string) \<Rightarrow> uuid \<Rightarrow> datetime \<Rightarrow> bool" where
  "test_validate_rejects_non_positive_backoff_multiplier sd sf uid now =
     list_all (\<lambda>multiplier. fails_with sd sf
       (with_recovery (recovery_of Retry 3 (Some \<lparr>backoff_type = Linear, bc_initial = seconds 1,
          bc_max = seconds 10, bc_multiplier = multiplier\<rparr>)) (valid_contract uid now))
       (InvalidBackoffMultiplier multiplier) (''Backoff multiplier must be positive, got '' @ sf multiplier))
       [0, 0xBFF8000000000000]"

definition test_validate_accepts_missing_backoff :: "uuid \<Rightarrow> datetime \<Rightarrow> bool" where
  "test_validate_accepts_missing_backoff uid now =
     is_ok (validate (with_recovery (recovery_of Escalate 1 None) (valid_contract uid now)))"

definition test_validate_accepts_equal_backoff_bounds :: "uuid \<Rightarrow> datetime \<Rightarrow> bool" where
  "test_validate_accepts_equal_backoff_bounds uid now =
     is_ok (validate (with_recovery (recovery_of PollStrategy 2 (Some \<lparr>backoff_type = Linear,
        bc_initial = seconds 2, bc_max = seconds 2, bc_multiplier = 0x3FF0000000000000\<rparr>)) (valid_contract uid now)))"

lemmas [core_test] = valid_contract_def recovery_of_def seconds_def schema_version_new_def parse_u32_def
  parse_uint_def digit_value_def u32_max_def version_string_def default_version_def is_compatible_with_def
  CONTRACT_SCHEMA_VERSION_def new_contract_def with_precondition_def with_postcondition_def
  with_recovery_def fails_with_def validate_def and_then_res_def check_schema_version_def is_ok_def
  check_recovery_def check_backoff_def p_exists_def p_equals_def p_all_def p_any_def p_negate_def
  default_verification_config_def show_nat.simps digit_char_def f64_le_def f64_zero_def f64_key_def f64_neg_def
  f64_mag_def f64_is_nan_def f64_exp_def f64_frac_def Let_def

lemma digit_chars [core_test]:
  "char_of (48 :: nat) = CHR ''0''" "char_of (49 :: nat) = CHR ''1''" "char_of (50 :: nat) = CHR ''2''"
  "char_of (55 :: nat) = CHR ''7''"
  by (simp_all add: char_of_def bit_0)

lemma contract_tests:
  test_schema_version_parses_major_and_minor test_schema_version_rejects_malformed_strings
  test_schema_version_compatibility test_schema_version_default_is_one_zero
  test_contract_schema_version_constant_is_current "test_contract_new_sets_schema_defaults uid now"
  "test_contract_builders_accumulate uid now" "test_validate_accepts_well_formed_contract uid now"
  "test_extract_predicate_path_unwraps_compound_predicates uid now"
  test_extract_predicate_path_covers_every_predicate_shape
  "test_validate_ignores_empty_and_distinct_paths uid now"
  "test_validate_accepts_missing_backoff uid now" "test_validate_accepts_equal_backoff_bounds uid now"
  by (simp_all add: core_test test_schema_version_parses_major_and_minor_def
      test_schema_version_rejects_malformed_strings_def test_schema_version_compatibility_def
      test_schema_version_default_is_one_zero_def test_contract_schema_version_constant_is_current_def
      test_contract_new_sets_schema_defaults_def test_contract_builders_accumulate_def
      test_validate_accepts_well_formed_contract_def test_extract_predicate_path_unwraps_compound_predicates_def
      test_extract_predicate_path_covers_every_predicate_shape_def
      test_validate_ignores_empty_and_distinct_paths_def test_validate_accepts_missing_backoff_def
      test_validate_accepts_equal_backoff_bounds_def)

lemma contract_error_tests:
  "test_validate_rejects_unparseable_schema_version sd sf uid now"
  "test_validate_rejects_incompatible_schema_version sd sf uid now"
  "test_validate_rejects_empty_action_name sd sf uid now"
  "test_validate_requires_at_least_one_postcondition sd sf uid now"
  "test_validate_detects_duplicate_simple_path sd sf uid now"
  "test_validate_rejects_zero_max_attempts sd sf uid now"
  "test_validate_rejects_non_positive_backoff_multiplier sd sf uid now"
  by (simp_all add: core_test test_validate_rejects_unparseable_schema_version_def
      test_validate_rejects_incompatible_schema_version_def test_validate_rejects_empty_action_name_def
      test_validate_requires_at_least_one_postcondition_def test_validate_detects_duplicate_simple_path_def
      test_validate_rejects_zero_max_attempts_def test_validate_rejects_non_positive_backoff_multiplier_def)

text \<open>The message of this one needs \<open>chrono\<close> to print durations.\<close>

lemma contract_backoff_test:
  assumes "sd (seconds 1) = ''PT1S''" "sd (seconds 30) = ''PT30S''"
  shows "test_validate_rejects_backoff_max_below_initial sd sf uid now"
proof -
  have "seconds 1 < seconds 30" by (simp add: seconds_def)
  with assms show ?thesis
    by (simp add: test_validate_rejects_backoff_max_below_initial_def fails_with_def validate_def
        valid_contract_def with_recovery_def recovery_of_def check_recovery_def check_backoff_def and_then_res_def
        with_postcondition_def new_contract_def check_schema_version_def CONTRACT_SCHEMA_VERSION_def
        schema_version_new_def parse_u32_def parse_uint_def digit_value_def u32_max_def is_compatible_with_def
        default_version_def p_exists_def Let_def)
qed

end
