(* ===== verification/Engine_Tests.thy ===== *)
theory Engine_Tests
  imports Predicate_Engine
begin

text \<open>
  The unit tests of the predicate engine (\<open>mod tests\<close> of \<open>agentverify-engine/src/engine.rs\<close>),
  translated one by one and run on the model by the kernel: each definition is a test function, true
  when its assertion holds, for every engine library whose \<open>Number::as_f64\<close> converts integers as
  the operator \<open>as\<close> does. The tests that need a regular expression to match, or \<open>serde_json\<close> to
  print an object, depend on code outside the repository and are left out.
\<close>

section \<open>Running a test\<close>

text \<open>\<open>Number::as_f64\<close> of \<open>serde_json\<close>.\<close>

fun number_as_f64 :: "number \<Rightarrow> f64 option" where
  "number_as_f64 (PosInt w) = Some (f64_of_nat (unat w))"
| "number_as_f64 (NegInt i) = Some (f64_of_int (sint i))"
| "number_as_f64 (Float f) = Some f"

text \<open>\<open>PredicateEngine::default().evaluate(..)\<close>.\<close>

definition evaluate_default ::
  "'re engine_lib \<Rightarrow> predicate \<Rightarrow> json \<Rightarrow> json \<Rightarrow> engine_error + verification_result" where
  "evaluate_default ext p state args = fst (evaluate ext p state args new_engine)"

named_theorems run_test

lemmas [run_test] = evaluate_default_def p_exists_def p_not_exists_def p_equals_def p_not_equals_def
  p_contains_def p_matches_def p_greater_than_def p_less_than_def p_count_def p_is_empty_def
  p_is_not_empty_def p_all_def p_any_def p_negate_def eval_exists_def eval_not_exists_def eval_equals_def
  eval_not_equals_def eval_contains_def eval_matches_def eval_greater_than_def eval_less_than_def
  eval_count_def count_of_def eval_is_empty_def eval_is_not_empty_def get_path_def resolve_value_def
  json_object_def path_step_def parse_uint_def digit_value_def starts_with_def usize_max_def f64_lt_small Let_def

text \<open>The doubles that occur besides integers.\<close>

lemma f64_of_five: "f64_of_nat 5 = 4617315517961601024"
  by (simp add: f64_of_nat_small small_mag_def bit_len.simps)

lemma f64_five_less [run_test]:
  "\<not> f64_lt (f64_of_nat 5) 4617315517961601024" "\<not> f64_lt 4617315517961601024 (f64_of_nat 5)"
  "f64_lt (f64_of_nat 5) 4617428107952285286"
  by (simp_all add: f64_of_five f64_lt_def f64_key_def f64_neg_def f64_mag_def f64_is_nan_def f64_exp_def f64_frac_def)

section \<open>The tests\<close>

definition test_exists_found :: "'re engine_lib \<Rightarrow> bool" where
  "test_exists_found ext =
     (let state = json_object [(''customer'', json_object [(''email'', JString ''test@example.com'')])];
          predicate = p_exists ''customer.email''
      in evaluate_default ext predicate state (json_object []) = Inr Verified)"

definition test_exists_not_found :: "'re engine_lib \<Rightarrow> bool" where
  "test_exists_not_found ext =
     (let state = json_object [(''customer'', json_object [])];
          predicate = p_exists ''customer.email''
      in evaluate_default ext predicate state (json_object []) = Inr Failed)"

definition test_not_exists :: "'re engine_lib \<Rightarrow> bool" where
  "test_not_exists ext =
     (let state = json_object [(''customer'', json_object [])];
          predicate = p_not_exists ''customer.email''
      in evaluate_default ext predicate state (json_object []) = Inr Verified)"

definition test_equals_success :: "'re engine_lib \<Rightarrow> bool" where
  "test_equals_success ext =
     (let state = json_object [(''customer'', json_object [(''status'', JString ''active'')])];
          predicate = p_equals ''customer.status'' (JString ''active'')
      in evaluate_default ext predicate state (json_object []) = Inr Verified)"

definition test_equals_failure :: "'re engine_lib \<Rightarrow> bool" where
  "test_equals_failure ext =
     (let state = json_object [(''customer'', json_object [(''status'', JString ''inactive'')])];
          predicate = p_equals ''customer.status'' (JString ''active'')
      in evaluate_default ext predicate state (json_object []) = Inr Failed)"

definition test_not_equals :: "'re engine_lib \<Rightarrow> bool" where
  "test_not_equals ext =
     (let state = json_object [(''customer'', json_object [(''status'', JString ''active'')])];
          predicate = NotEquals ''customer.status'' (JString ''inactive'')
      in evaluate_default ext predicate state (json_object []) = Inr Verified)"

definition test_contains_in_string :: "'re engine_lib \<Rightarrow> bool" where
  "test_contains_in_string ext =
     (let state = json_object [(''message'', JString ''Hello World'')];
          predicate = Contains ''message'' (JString ''World'')
      in evaluate_default ext predicate state (json_object []) = Inr Verified)"

definition test_contains_in_array :: "'re engine_lib \<Rightarrow> bool" where
  "test_contains_in_array ext =
     (let state = json_object [(''items'', JArray [JString ''a'', JString ''b'', JString ''c''])];
          predicate = Contains ''items'' (JString ''b'')
      in evaluate_default ext predicate state (json_object []) = Inr Verified)"

definition test_greater_than_number :: "'re engine_lib \<Rightarrow> bool" where
  "test_greater_than_number ext =
     (let state = json_object [(''count'', JNumber (PosInt 10))];
          predicate = GreaterThan ''count'' (JNumber (PosInt 5))
      in evaluate_default ext predicate state (json_object []) = Inr Verified)"

definition test_less_than_number :: "'re engine_lib \<Rightarrow> bool" where
  "test_less_than_number ext =
     (let state = json_object [(''count'', JNumber (PosInt 3))];
          predicate = LessThan ''count'' (JNumber (PosInt 5))
      in evaluate_default ext predicate state (json_object []) = Inr Verified)"

definition test_count_equals :: "'re engine_lib \<Rightarrow> bool" where
  "test_count_equals ext =
     (let state = json_object [(''items'', JArray [JNumber (PosInt 1), JNumber (PosInt 2), JNumber (PosInt 3)])];
          predicate = p_count ''items'' Eq 3
      in evaluate_default ext predicate state (json_object []) = Inr Verified)"

definition test_count_greater :: "'re engine_lib \<Rightarrow> bool" where
  "test_count_greater ext =
     (let state = json_object [(''items'', JArray [JNumber (PosInt 1), JNumber (PosInt 2), JNumber (PosInt 3), JNumber (PosInt 4), JNumber (PosInt 5)])];
          predicate = p_count ''items'' Gt 3
      in evaluate_default ext predicate state (json_object []) = Inr Verified)"

definition test_is_empty_array :: "'re engine_lib \<Rightarrow> bool" where
  "test_is_empty_array ext =
     (let state = json_object [(''items'', JArray [])];
          predicate = IsEmpty ''items''
      in evaluate_default ext predicate state (json_object []) = Inr Verified)"

definition test_is_not_empty :: "'re engine_lib \<Rightarrow> bool" where
  "test_is_not_empty ext =
     (let state = json_object [(''items'', JArray [JNumber (PosInt 1)])];
          predicate = IsNotEmpty ''items''
      in evaluate_default ext predicate state (json_object []) = Inr Verified)"

definition test_all_predicates :: "'re engine_lib \<Rightarrow> bool" where
  "test_all_predicates ext =
     (let state = json_object [(''a'', JNumber (PosInt 1)), (''b'', JNumber (PosInt 2))];
          predicate = p_all [p_exists ''a'', p_exists ''b'']
      in evaluate_default ext predicate state (json_object []) = Inr Verified)"

definition test_all_predicates_failure :: "'re engine_lib \<Rightarrow> bool" where
  "test_all_predicates_failure ext =
     (let state = json_object [(''a'', JNumber (PosInt 1))];
          predicate = p_all [p_exists ''a'', p_exists ''b'']
      in evaluate_default ext predicate state (json_object []) = Inr Failed)"

definition test_any_predicates :: "'re engine_lib \<Rightarrow> bool" where
  "test_any_predicates ext =
     (let state = json_object [(''a'', JNumber (PosInt 1))];
          predicate = p_any [p_exists ''a'', p_exists ''b'']
      in evaluate_default ext predicate state (json_object []) = Inr Verified)"

definition test_not_predicate :: "'re engine_lib \<Rightarrow> bool" where
  "test_not_predicate ext =
     (let state = json_object [(''a'', JNumber (PosInt 1))];
          predicate = p_negate (p_exists ''b'')
      in evaluate_default ext predicate state (json_object []) = Inr Verified)"

definition test_implies_true :: "'re engine_lib \<Rightarrow> bool" where
  "test_implies_true ext =
     (let state = json_object [(''a'', JBool True), (''b'', JBool True)];
          predicate = Implies (p_exists ''a'') (p_exists ''b'')
      in evaluate_default ext predicate state (json_object []) = Inr Verified)"

definition test_implies_false_when_antecedent_true_consequent_false :: "'re engine_lib \<Rightarrow> bool" where
  "test_implies_false_when_antecedent_true_consequent_false ext =
     (let state = json_object [(''a'', JNumber (PosInt 1)), (''c'', JNumber (PosInt 1))];
          predicate = Implies (p_exists ''a'') (p_exists ''b'')
      in evaluate_default ext predicate state (json_object []) = Inr Failed)"

definition test_implies_true_when_antecedent_false :: "'re engine_lib \<Rightarrow> bool" where
  "test_implies_true_when_antecedent_false ext =
     (let state = json_object [(''a'', JBool False)];
          predicate = Implies (p_exists ''b'') (p_exists ''a'')
      in evaluate_default ext predicate state (json_object []) = Inr Verified)"

definition test_args_resolution :: "'re engine_lib \<Rightarrow> bool" where
  "test_args_resolution ext =
     (let state = json_object [(''customer'', json_object [(''email'', JString ''test@example.com'')])];
          predicate = p_equals ''customer.email'' (JString ''$args.email'')
      in evaluate_default ext predicate state (json_object [(''email'', JString ''test@example.com'')]) = Inr Verified)"

definition test_exists_on_null_value :: "'re engine_lib \<Rightarrow> bool" where
  "test_exists_on_null_value ext =
     (let state = json_object [(''customer'', JNull)];
          predicate = p_exists ''customer''
      in evaluate_default ext predicate state (json_object []) = Inr Verified)"

definition test_exists_on_missing_path :: "'re engine_lib \<Rightarrow> bool" where
  "test_exists_on_missing_path ext =
     (let state = json_object [(''customer'', json_object [(''name'', JString ''test'')])];
          predicate = p_exists ''customer.missing''
      in evaluate_default ext predicate state (json_object []) = Inr Failed)"

definition test_not_exists_on_null_value :: "'re engine_lib \<Rightarrow> bool" where
  "test_not_exists_on_null_value ext =
     (let state = json_object [(''customer'', JNull)];
          predicate = p_not_exists ''customer''
      in evaluate_default ext predicate state (json_object []) = Inr Failed)"

definition test_equals_with_missing_path :: "'re engine_lib \<Rightarrow> bool" where
  "test_equals_with_missing_path ext =
     (let state = json_object [(''customer'', json_object [(''name'', JString ''test'')])];
          predicate = p_equals ''customer.missing'' (JString ''value'')
      in evaluate_default ext predicate state (json_object []) = Inr Failed)"

definition test_equals_with_null_actual :: "'re engine_lib \<Rightarrow> bool" where
  "test_equals_with_null_actual ext =
     (let state = json_object [(''field'', JNull)];
          predicate = p_equals ''field'' JNull
      in evaluate_default ext predicate state (json_object []) = Inr Verified)"

definition test_not_equals_with_null_actual :: "'re engine_lib \<Rightarrow> bool" where
  "test_not_equals_with_null_actual ext =
     (let state = json_object [(''field'', JNull)];
          predicate = p_not_equals ''field'' (JString ''value'')
      in evaluate_default ext predicate state (json_object []) = Inr Verified)"

definition test_equals_type_mismatch_string_vs_number :: "'re engine_lib \<Rightarrow> bool" where
  "test_equals_type_mismatch_string_vs_number ext =
     (let state = json_object [(''field'', JString ''123'')];
          predicate = p_equals ''field'' (JNumber (PosInt 123))
      in evaluate_default ext predicate state (json_object []) = Inr Failed)"

definition test_equals_type_mismatch_number_vs_string :: "'re engine_lib \<Rightarrow> bool" where
  "test_equals_type_mismatch_number_vs_string ext =
     (let state = json_object [(''field'', JNumber (PosInt 123))];
          predicate = p_equals ''field'' (JString ''123'')
      in evaluate_default ext predicate state (json_object []) = Inr Failed)"

definition test_equals_type_mismatch_bool :: "'re engine_lib \<Rightarrow> bool" where
  "test_equals_type_mismatch_bool ext =
     (let state = json_object [(''field'', JBool True)];
          predicate = p_equals ''field'' (JString ''true'')
      in evaluate_default ext predicate state (json_object []) = Inr Failed)"

definition test_greater_than_type_mismatch :: "'re engine_lib \<Rightarrow> bool" where
  "test_greater_than_type_mismatch ext =
     (let state = json_object [(''field'', JString ''abc'')];
          predicate = p_greater_than ''field'' (JNumber (PosInt 100))
      in evaluate_default ext predicate state (json_object []) = Inr Failed)"

definition test_less_than_type_mismatch :: "'re engine_lib \<Rightarrow> bool" where
  "test_less_than_type_mismatch ext =
     (let state = json_object [(''field'', JString ''abc'')];
          predicate = p_less_than ''field'' (JNumber (PosInt 100))
      in evaluate_default ext predicate state (json_object []) = Inr Failed)"

definition test_contains_type_mismatch :: "'re engine_lib \<Rightarrow> bool" where
  "test_contains_type_mismatch ext =
     (let state = json_object [(''field'', JNumber (PosInt 123))];
          predicate = p_contains ''field'' (JString ''23'')
      in evaluate_default ext predicate state (json_object []) = Inr Failed)"

definition test_matches_type_mismatch_non_string :: "'re engine_lib \<Rightarrow> bool" where
  "test_matches_type_mismatch_non_string ext =
     (let state = json_object [(''field'', JNumber (PosInt 123))];
          predicate = p_matches ''field'' (CHR 0x5C # ''d+'')
      in evaluate_default ext predicate state (json_object []) = Inr Failed)"

definition test_greater_than_float_edge :: "'re engine_lib \<Rightarrow> bool" where
  "test_greater_than_float_edge ext =
     (let state = json_object [(''count'', JNumber (Float 4617315517961601024))];
          predicate = p_greater_than ''count'' (JNumber (PosInt 5))
      in evaluate_default ext predicate state (json_object []) = Inr Failed)"

definition test_less_than_float_edge :: "'re engine_lib \<Rightarrow> bool" where
  "test_less_than_float_edge ext =
     (let state = json_object [(''count'', JNumber (Float 4617315517961601024))];
          predicate = p_less_than ''count'' (JNumber (PosInt 5))
      in evaluate_default ext predicate state (json_object []) = Inr Failed)"

definition test_greater_than_float_success :: "'re engine_lib \<Rightarrow> bool" where
  "test_greater_than_float_success ext =
     (let state = json_object [(''count'', JNumber (Float 4617428107952285286))];
          predicate = p_greater_than ''count'' (JNumber (PosInt 5))
      in evaluate_default ext predicate state (json_object []) = Inr Verified)"

definition test_greater_than_string_lexicographic :: "'re engine_lib \<Rightarrow> bool" where
  "test_greater_than_string_lexicographic ext =
     (let state = json_object [(''version'', JString ''10.0'')];
          predicate = p_greater_than ''version'' (JString ''2.0'')
      in evaluate_default ext predicate state (json_object []) = Inr Failed)"

definition test_count_empty_array :: "'re engine_lib \<Rightarrow> bool" where
  "test_count_empty_array ext =
     (let state = json_object [(''items'', JArray [])];
          predicate = p_count ''items'' Eq 0
      in evaluate_default ext predicate state (json_object []) = Inr Verified)"

definition test_count_empty_object :: "'re engine_lib \<Rightarrow> bool" where
  "test_count_empty_object ext =
     (let state = json_object [(''data'', json_object [])];
          predicate = p_count ''data'' Eq 0
      in evaluate_default ext predicate state (json_object []) = Inr Verified)"

definition test_count_empty_string :: "'re engine_lib \<Rightarrow> bool" where
  "test_count_empty_string ext =
     (let state = json_object [(''name'', JString [])];
          predicate = p_count ''name'' Eq 0
      in evaluate_default ext predicate state (json_object []) = Inr Verified)"

definition test_is_empty_on_missing_path :: "'re engine_lib \<Rightarrow> bool" where
  "test_is_empty_on_missing_path ext =
     (let state = json_object [(''customer'', json_object [(''name'', JString ''test'')])];
          predicate = p_is_empty ''customer.missing''
      in evaluate_default ext predicate state (json_object []) = Inr Verified)"

definition test_is_empty_null :: "'re engine_lib \<Rightarrow> bool" where
  "test_is_empty_null ext =
     (let state = json_object [(''field'', JNull)];
          predicate = p_is_empty ''field''
      in evaluate_default ext predicate state (json_object []) = Inr Verified)"

definition test_is_not_empty_on_number :: "'re engine_lib \<Rightarrow> bool" where
  "test_is_not_empty_on_number ext =
     (let state = json_object [(''count'', JNumber (PosInt 0))];
          predicate = p_is_not_empty ''count''
      in evaluate_default ext predicate state (json_object []) = Inr Verified)"

definition test_all_with_one_failure :: "'re engine_lib \<Rightarrow> bool" where
  "test_all_with_one_failure ext =
     (let state = json_object [(''a'', JNumber (PosInt 1)), (''b'', JNumber (PosInt 2))];
          predicate = p_all [p_exists ''a'', p_exists ''b'', p_exists ''c'']
      in evaluate_default ext predicate state (json_object []) = Inr Failed)"

definition test_any_with_all_failures :: "'re engine_lib \<Rightarrow> bool" where
  "test_any_with_all_failures ext =
     (let state = json_object [(''a'', JNumber (PosInt 1))];
          predicate = p_any [p_exists ''b'', p_exists ''c'']
      in evaluate_default ext predicate state (json_object []) = Inr Failed)"

definition test_not_with_verified :: "'re engine_lib \<Rightarrow> bool" where
  "test_not_with_verified ext =
     (let state = json_object [(''a'', JNumber (PosInt 1))];
          predicate = p_negate (p_exists ''a'')
      in evaluate_default ext predicate state (json_object []) = Inr Failed)"

definition test_not_with_failed :: "'re engine_lib \<Rightarrow> bool" where
  "test_not_with_failed ext =
     (let state = json_object [(''a'', JNumber (PosInt 1))];
          predicate = p_negate (p_exists ''b'')
      in evaluate_default ext predicate state (json_object []) = Inr Verified)"

definition test_not_with_unknown :: "'re engine_lib \<Rightarrow> bool" where
  "test_not_with_unknown ext =
     (let state = json_object [(''a'', JNumber (PosInt 1))];
          predicate = PNot (Implies (p_exists ''nonexistent'') (p_exists ''also_nonexistent''))
      in evaluate_default ext predicate state (json_object []) = Inr Failed)"

definition test_implies_false_antecedent :: "'re engine_lib \<Rightarrow> bool" where
  "test_implies_false_antecedent ext =
     (let state = json_object [(''b'', JNumber (PosInt 1))];
          predicate = Implies (p_exists ''a'') (p_exists ''b'')
      in evaluate_default ext predicate state (json_object []) = Inr Verified)"

definition test_nested_compound_predicates :: "'re engine_lib \<Rightarrow> bool" where
  "test_nested_compound_predicates ext =
     (let state = json_object [(''a'', JNumber (PosInt 1)), (''b'', JNumber (PosInt 2)), (''c'', JNumber (PosInt 3))];
          predicate = p_all [p_any [p_exists ''a'', p_exists ''b''], p_negate (p_greater_than ''c'' (JNumber (PosInt 10)))]
      in evaluate_default ext predicate state (json_object []) = Inr Verified)"

definition test_args_missing_key :: "'re engine_lib \<Rightarrow> bool" where
  "test_args_missing_key ext =
     (let state = json_object [(''field'', JString ''original'')];
          predicate = p_equals ''field'' (JString ''$args.missing'')
      in evaluate_default ext predicate state (json_object [(''other'', JString ''value'')]) = Inr Failed)"

definition test_args_nested_path :: "'re engine_lib \<Rightarrow> bool" where
  "test_args_nested_path ext =
     (let state = json_object [(''customer'', json_object [(''email'', JString ''test@example.com'')])];
          predicate = p_equals ''customer.email'' (JString ''$args.customer.email'')
      in evaluate_default ext predicate state (json_object [(''customer'', json_object [(''email'', JString ''test@example.com'')])]) = Inr Verified)"

definition test_args_with_non_string_value :: "'re engine_lib \<Rightarrow> bool" where
  "test_args_with_non_string_value ext =
     (let state = json_object [(''count'', JNumber (PosInt 42))];
          predicate = p_equals ''count'' (JString ''$args.expected'')
      in evaluate_default ext predicate state (json_object [(''expected'', JNumber (PosInt 42))]) = Inr Verified)"

definition test_path_with_array_index :: "'re engine_lib \<Rightarrow> bool" where
  "test_path_with_array_index ext =
     (let state = json_object [(''items'', JArray [JString ''a'', JString ''b'', JString ''c''])];
          predicate = p_equals ''items.1'' (JString ''b'')
      in evaluate_default ext predicate state (json_object []) = Inr Verified)"

definition test_path_with_out_of_bounds_array_index :: "'re engine_lib \<Rightarrow> bool" where
  "test_path_with_out_of_bounds_array_index ext =
     (let state = json_object [(''items'', JArray [JString ''a'', JString ''b''])];
          predicate = p_exists ''items.5''
      in evaluate_default ext predicate state (json_object []) = Inr Failed)"

definition test_path_with_non_numeric_segment :: "'re engine_lib \<Rightarrow> bool" where
  "test_path_with_non_numeric_segment ext =
     (let state = json_object [(''items'', JArray [JString ''a'', JString ''b''])];
          predicate = p_exists ''items.abc''
      in evaluate_default ext predicate state (json_object []) = Inr Failed)"

definition test_empty_path :: "'re engine_lib \<Rightarrow> bool" where
  "test_empty_path ext =
     (let state = json_object [(''field'', JString ''value'')];
          predicate = p_exists []
      in evaluate_default ext predicate state (json_object []) = Inr Failed)"

definition test_contains_array_element_not_found :: "'re engine_lib \<Rightarrow> bool" where
  "test_contains_array_element_not_found ext =
     (let state = json_object [(''items'', JArray [JString ''a'', JString ''b'', JString ''c''])];
          predicate = p_contains ''items'' (JString ''d'')
      in evaluate_default ext predicate state (json_object []) = Inr Failed)"

definition test_contains_on_missing_path :: "'re engine_lib \<Rightarrow> bool" where
  "test_contains_on_missing_path ext =
     (let state = json_object [(''items'', JArray [JString ''a'', JString ''b''])];
          predicate = p_contains ''missing'' (JString ''a'')
      in evaluate_default ext predicate state (json_object []) = Inr Failed)"

definition test_count_on_missing_path :: "'re engine_lib \<Rightarrow> bool" where
  "test_count_on_missing_path ext =
     (let state = json_object [(''items'', JArray [JString ''a'', JString ''b''])];
          predicate = p_count ''missing'' Eq 0
      in evaluate_default ext predicate state (json_object []) = Inr Verified)"

definition test_count_string_length :: "'re engine_lib \<Rightarrow> bool" where
  "test_count_string_length ext =
     (let state = json_object [(''name'', JString ''abc'')];
          predicate = p_count ''name'' Eq 3
      in evaluate_default ext predicate state (json_object []) = Inr Verified)"

definition test_count_object_keys :: "'re engine_lib \<Rightarrow> bool" where
  "test_count_object_keys ext =
     (let state = json_object [(''obj'', json_object [(''a'', JNumber (PosInt 1)), (''b'', JNumber (PosInt 2)), (''c'', JNumber (PosInt 3))])];
          predicate = p_count ''obj'' Ge 3
      in evaluate_default ext predicate state (json_object []) = Inr Verified)"

definition test_count_on_number :: "'re engine_lib \<Rightarrow> bool" where
  "test_count_on_number ext =
     (let state = json_object [(''num'', JNumber (PosInt 42))];
          predicate = p_count ''num'' Eq 42
      in evaluate_default ext predicate state (json_object []) = Inr Failed)"

definition test_count_on_bool :: "'re engine_lib \<Rightarrow> bool" where
  "test_count_on_bool ext =
     (let state = json_object [(''flag'', JBool True)];
          predicate = p_count ''flag'' Eq 1
      in evaluate_default ext predicate state (json_object []) = Inr Failed)"

definition test_count_not_equals :: "'re engine_lib \<Rightarrow> bool" where
  "test_count_not_equals ext =
     (let state = json_object [(''items'', JArray [JNumber (PosInt 1), JNumber (PosInt 2), JNumber (PosInt 3)])];
          predicate = p_count ''items'' Ne 4
      in evaluate_default ext predicate state (json_object []) = Inr Verified)"

definition test_count_not_equals_failure :: "'re engine_lib \<Rightarrow> bool" where
  "test_count_not_equals_failure ext =
     (let state = json_object [(''items'', JArray [JNumber (PosInt 1), JNumber (PosInt 2), JNumber (PosInt 3)])];
          predicate = p_count ''items'' Ne 3
      in evaluate_default ext predicate state (json_object []) = Inr Failed)"

definition test_count_less_than :: "'re engine_lib \<Rightarrow> bool" where
  "test_count_less_than ext =
     (let state = json_object [(''items'', JArray [JNumber (PosInt 1), JNumber (PosInt 2)])];
          predicate = p_count ''items'' Lt 3
      in evaluate_default ext predicate state (json_object []) = Inr Verified)"

definition test_count_less_than_failure_at_boundary :: "'re engine_lib \<Rightarrow> bool" where
  "test_count_less_than_failure_at_boundary ext =
     (let state = json_object [(''items'', JArray [JNumber (PosInt 1), JNumber (PosInt 2), JNumber (PosInt 3)])];
          predicate = p_count ''items'' Lt 3
      in evaluate_default ext predicate state (json_object []) = Inr Failed)"

definition test_count_less_or_equal :: "'re engine_lib \<Rightarrow> bool" where
  "test_count_less_or_equal ext =
     (let state = json_object [(''items'', JArray [JNumber (PosInt 1), JNumber (PosInt 2), JNumber (PosInt 3)])];
          predicate = p_count ''items'' Le 3
      in evaluate_default ext predicate state (json_object []) = Inr Verified)"

definition test_count_greater_or_equal :: "'re engine_lib \<Rightarrow> bool" where
  "test_count_greater_or_equal ext =
     (let state = json_object [(''items'', JArray [JNumber (PosInt 1), JNumber (PosInt 2), JNumber (PosInt 3)])];
          predicate = p_count ''items'' Ge 3
      in evaluate_default ext predicate state (json_object []) = Inr Verified)"

definition test_count_greater_than_failure_at_boundary :: "'re engine_lib \<Rightarrow> bool" where
  "test_count_greater_than_failure_at_boundary ext =
     (let state = json_object [(''items'', JArray [JNumber (PosInt 1), JNumber (PosInt 2), JNumber (PosInt 3)])];
          predicate = p_count ''items'' Gt 3
      in evaluate_default ext predicate state (json_object []) = Inr Failed)"

definition test_greater_than_string_success :: "'re engine_lib \<Rightarrow> bool" where
  "test_greater_than_string_success ext =
     (let state = json_object [(''version'', JString ''2.0'')];
          predicate = p_greater_than ''version'' (JString ''1.0'')
      in evaluate_default ext predicate state (json_object []) = Inr Verified)"

definition test_greater_than_string_equal_is_failed :: "'re engine_lib \<Rightarrow> bool" where
  "test_greater_than_string_equal_is_failed ext =
     (let state = json_object [(''version'', JString ''1.0'')];
          predicate = p_greater_than ''version'' (JString ''1.0'')
      in evaluate_default ext predicate state (json_object []) = Inr Failed)"

definition test_less_than_string_success :: "'re engine_lib \<Rightarrow> bool" where
  "test_less_than_string_success ext =
     (let state = json_object [(''version'', JString ''1.0'')];
          predicate = p_less_than ''version'' (JString ''2.0'')
      in evaluate_default ext predicate state (json_object []) = Inr Verified)"

definition test_less_than_string_equal_is_failed :: "'re engine_lib \<Rightarrow> bool" where
  "test_less_than_string_equal_is_failed ext =
     (let state = json_object [(''version'', JString ''1.0'')];
          predicate = p_less_than ''version'' (JString ''1.0'')
      in evaluate_default ext predicate state (json_object []) = Inr Failed)"

definition test_greater_than_missing_path_is_failed :: "'re engine_lib \<Rightarrow> bool" where
  "test_greater_than_missing_path_is_failed ext =
     (let state = json_object [(''other'', JString ''1.0'')];
          predicate = p_greater_than ''version'' (JString ''1.0'')
      in evaluate_default ext predicate state (json_object []) = Inr Failed)"

definition test_less_than_missing_path_is_failed :: "'re engine_lib \<Rightarrow> bool" where
  "test_less_than_missing_path_is_failed ext =
     (let state = json_object [(''other'', JString ''1.0'')];
          predicate = p_less_than ''version'' (JString ''1.0'')
      in evaluate_default ext predicate state (json_object []) = Inr Failed)"

definition test_is_empty_object :: "'re engine_lib \<Rightarrow> bool" where
  "test_is_empty_object ext =
     (let state = json_object [(''config'', json_object [])];
          predicate = p_is_empty ''config''
      in evaluate_default ext predicate state (json_object []) = Inr Verified)"

definition test_is_empty_object_with_keys_is_failed :: "'re engine_lib \<Rightarrow> bool" where
  "test_is_empty_object_with_keys_is_failed ext =
     (let state = json_object [(''config'', json_object [(''host'', JString ''localhost'')])];
          predicate = p_is_empty ''config''
      in evaluate_default ext predicate state (json_object []) = Inr Failed)"

definition test_is_empty_string :: "'re engine_lib \<Rightarrow> bool" where
  "test_is_empty_string ext =
     (let state = json_object [(''name'', JString [])];
          predicate = p_is_empty ''name''
      in evaluate_default ext predicate state (json_object []) = Inr Verified)"

definition test_is_empty_non_empty_string_is_failed :: "'re engine_lib \<Rightarrow> bool" where
  "test_is_empty_non_empty_string_is_failed ext =
     (let state = json_object [(''name'', JString ''abc'')];
          predicate = p_is_empty ''name''
      in evaluate_default ext predicate state (json_object []) = Inr Failed)"

definition test_is_not_empty_object :: "'re engine_lib \<Rightarrow> bool" where
  "test_is_not_empty_object ext =
     (let state = json_object [(''config'', json_object [(''host'', JString ''localhost'')])];
          predicate = p_is_not_empty ''config''
      in evaluate_default ext predicate state (json_object []) = Inr Verified)"

definition test_is_not_empty_string :: "'re engine_lib \<Rightarrow> bool" where
  "test_is_not_empty_string ext =
     (let state = json_object [(''name'', JString ''abc'')];
          predicate = p_is_not_empty ''name''
      in evaluate_default ext predicate state (json_object []) = Inr Verified)"

definition test_is_not_empty_empty_object_is_failed :: "'re engine_lib \<Rightarrow> bool" where
  "test_is_not_empty_empty_object_is_failed ext =
     (let state = json_object [(''config'', json_object [])];
          predicate = p_is_not_empty ''config''
      in evaluate_default ext predicate state (json_object []) = Inr Failed)"

definition test_is_not_empty_missing_path_is_failed :: "'re engine_lib \<Rightarrow> bool" where
  "test_is_not_empty_missing_path_is_failed ext =
     (let state = json_object [];
          predicate = p_is_not_empty ''missing''
      in evaluate_default ext predicate state (json_object []) = Inr Failed)"

definition test_contains_with_non_string_value_against_object_is_failed :: "'re engine_lib \<Rightarrow> bool" where
  "test_contains_with_non_string_value_against_object_is_failed ext =
     (let state = json_object [(''config'', json_object [(''port'', JNumber (PosInt 5432))])];
          predicate = p_contains ''config'' (JNumber (PosInt 5432))
      in evaluate_default ext predicate state (json_object []) = Inr Failed)"

definition test_matches_on_missing_path_is_failed :: "'re engine_lib \<Rightarrow> bool" where
  "test_matches_on_missing_path_is_failed ext =
     (let state = json_object [];
          predicate = p_matches ''missing'' ''.+''
      in evaluate_default ext predicate state (json_object []) = Inr Failed)"

section \<open>They pass\<close>

lemma engine_tests_1:
  assumes "num_as_f64 ext = number_as_f64"
  shows "test_exists_found ext"
    "test_exists_not_found ext"
    "test_not_exists ext"
    "test_equals_success ext"
    "test_equals_failure ext"
    "test_not_equals ext"
    "test_contains_in_string ext"
    "test_contains_in_array ext"
    "test_greater_than_number ext"
    "test_less_than_number ext"
    "test_count_equals ext"
    "test_count_greater ext"
    "test_is_empty_array ext"
  by (simp_all add: run_test assms test_exists_found_def test_exists_not_found_def test_not_exists_def test_equals_success_def test_equals_failure_def test_not_equals_def test_contains_in_string_def test_contains_in_array_def test_greater_than_number_def test_less_than_number_def test_count_equals_def test_count_greater_def test_is_empty_array_def split: option.split)

lemma engine_tests_2:
  assumes "num_as_f64 ext = number_as_f64"
  shows "test_is_not_empty ext"
    "test_all_predicates ext"
    "test_all_predicates_failure ext"
    "test_any_predicates ext"
    "test_not_predicate ext"
    "test_implies_true ext"
    "test_implies_false_when_antecedent_true_consequent_false ext"
    "test_implies_true_when_antecedent_false ext"
    "test_args_resolution ext"
    "test_exists_on_null_value ext"
    "test_exists_on_missing_path ext"
    "test_not_exists_on_null_value ext"
    "test_equals_with_missing_path ext"
  by (simp_all add: run_test assms test_is_not_empty_def test_all_predicates_def test_all_predicates_failure_def test_any_predicates_def test_not_predicate_def test_implies_true_def test_implies_false_when_antecedent_true_consequent_false_def test_implies_true_when_antecedent_false_def test_args_resolution_def test_exists_on_null_value_def test_exists_on_missing_path_def test_not_exists_on_null_value_def test_equals_with_missing_path_def split: option.split)

lemma engine_tests_3:
  assumes "num_as_f64 ext = number_as_f64"
  shows "test_equals_with_null_actual ext"
    "test_not_equals_with_null_actual ext"
    "test_equals_type_mismatch_string_vs_number ext"
    "test_equals_type_mismatch_number_vs_string ext"
    "test_equals_type_mismatch_bool ext"
    "test_greater_than_type_mismatch ext"
    "test_less_than_type_mismatch ext"
    "test_contains_type_mismatch ext"
    "test_matches_type_mismatch_non_string ext"
    "test_greater_than_float_edge ext"
    "test_less_than_float_edge ext"
    "test_greater_than_float_success ext"
    "test_greater_than_string_lexicographic ext"
  by (simp_all add: run_test assms test_equals_with_null_actual_def test_not_equals_with_null_actual_def test_equals_type_mismatch_string_vs_number_def test_equals_type_mismatch_number_vs_string_def test_equals_type_mismatch_bool_def test_greater_than_type_mismatch_def test_less_than_type_mismatch_def test_contains_type_mismatch_def test_matches_type_mismatch_non_string_def test_greater_than_float_edge_def test_less_than_float_edge_def test_greater_than_float_success_def test_greater_than_string_lexicographic_def split: option.split)

lemma engine_tests_4:
  assumes "num_as_f64 ext = number_as_f64"
  shows "test_count_empty_array ext"
    "test_count_empty_object ext"
    "test_count_empty_string ext"
    "test_is_empty_on_missing_path ext"
    "test_is_empty_null ext"
    "test_is_not_empty_on_number ext"
    "test_all_with_one_failure ext"
    "test_any_with_all_failures ext"
    "test_not_with_verified ext"
    "test_not_with_failed ext"
    "test_not_with_unknown ext"
    "test_implies_false_antecedent ext"
    "test_nested_compound_predicates ext"
  by (simp_all add: run_test assms test_count_empty_array_def test_count_empty_object_def test_count_empty_string_def test_is_empty_on_missing_path_def test_is_empty_null_def test_is_not_empty_on_number_def test_all_with_one_failure_def test_any_with_all_failures_def test_not_with_verified_def test_not_with_failed_def test_not_with_unknown_def test_implies_false_antecedent_def test_nested_compound_predicates_def split: option.split)

lemma engine_tests_5:
  assumes "num_as_f64 ext = number_as_f64"
  shows "test_args_missing_key ext"
    "test_args_nested_path ext"
    "test_args_with_non_string_value ext"
    "test_path_with_array_index ext"
    "test_path_with_out_of_bounds_array_index ext"
    "test_path_with_non_numeric_segment ext"
    "test_empty_path ext"
    "test_contains_array_element_not_found ext"
    "test_contains_on_missing_path ext"
    "test_count_on_missing_path ext"
    "test_count_string_length ext"
    "test_count_object_keys ext"
    "test_count_on_number ext"
  by (simp_all add: run_test assms test_args_missing_key_def test_args_nested_path_def test_args_with_non_string_value_def test_path_with_array_index_def test_path_with_out_of_bounds_array_index_def test_path_with_non_numeric_segment_def test_empty_path_def test_contains_array_element_not_found_def test_contains_on_missing_path_def test_count_on_missing_path_def test_count_string_length_def test_count_object_keys_def test_count_on_number_def split: option.split)

lemma engine_tests_6:
  assumes "num_as_f64 ext = number_as_f64"
  shows "test_count_on_bool ext"
    "test_count_not_equals ext"
    "test_count_not_equals_failure ext"
    "test_count_less_than ext"
    "test_count_less_than_failure_at_boundary ext"
    "test_count_less_or_equal ext"
    "test_count_greater_or_equal ext"
    "test_count_greater_than_failure_at_boundary ext"
    "test_greater_than_string_success ext"
    "test_greater_than_string_equal_is_failed ext"
    "test_less_than_string_success ext"
    "test_less_than_string_equal_is_failed ext"
    "test_greater_than_missing_path_is_failed ext"
  by (simp_all add: run_test assms test_count_on_bool_def test_count_not_equals_def test_count_not_equals_failure_def test_count_less_than_def test_count_less_than_failure_at_boundary_def test_count_less_or_equal_def test_count_greater_or_equal_def test_count_greater_than_failure_at_boundary_def test_greater_than_string_success_def test_greater_than_string_equal_is_failed_def test_less_than_string_success_def test_less_than_string_equal_is_failed_def test_greater_than_missing_path_is_failed_def split: option.split)

lemma engine_tests_7:
  assumes "num_as_f64 ext = number_as_f64"
  shows "test_less_than_missing_path_is_failed ext"
    "test_is_empty_object ext"
    "test_is_empty_object_with_keys_is_failed ext"
    "test_is_empty_string ext"
    "test_is_empty_non_empty_string_is_failed ext"
    "test_is_not_empty_object ext"
    "test_is_not_empty_string ext"
    "test_is_not_empty_empty_object_is_failed ext"
    "test_is_not_empty_missing_path_is_failed ext"
    "test_contains_with_non_string_value_against_object_is_failed ext"
    "test_matches_on_missing_path_is_failed ext"
  by (simp_all add: run_test assms test_less_than_missing_path_is_failed_def test_is_empty_object_def test_is_empty_object_with_keys_is_failed_def test_is_empty_string_def test_is_empty_non_empty_string_is_failed_def test_is_not_empty_object_def test_is_not_empty_string_def test_is_not_empty_empty_object_is_failed_def test_is_not_empty_missing_path_is_failed_def test_contains_with_non_string_value_against_object_is_failed_def test_matches_on_missing_path_is_failed_def split: option.split)

end
