(* ===== verification/Policy_Tests.thy ===== *)
theory Policy_Tests
  imports Policy
begin

text \<open>
  Unit tests of \<open>agentverify-policy\<close> run on the model: those of \<open>policy.rs\<close> and of \<open>engine.rs\<close>. Each
  definition is a test function, true when its assertions hold. The readings of the clock are
  arguments; the lemmas about tests of rate limits assume what the tests take for granted, that
  a test needs less than a millisecond between its sleeps. Left out are the tests that need the regex
  crate or serde, which are not in the repository.
\<close>

named_theorems policy_test

section \<open>Policies and trackers\<close>

definition test_action_pattern_exact :: "'re policy_lib \<Rightarrow> bool" where
  "test_action_pattern_exact lib =
     (let pattern = pattern_exact ''create_user''
      in pattern_matches lib pattern ''create_user'' \<and> \<not> pattern_matches lib pattern ''update_user'' \<and>
         \<not> pattern_matches lib pattern ''create'')"

definition test_action_pattern_prefix :: "'re policy_lib \<Rightarrow> bool" where
  "test_action_pattern_prefix lib =
     (let pattern = pattern_prefix ''create_''
      in pattern_matches lib pattern ''create_user'' \<and> pattern_matches lib pattern ''create_order'' \<and>
         \<not> pattern_matches lib pattern ''update_user'')"

definition test_action_pattern_suffix :: "'re policy_lib \<Rightarrow> bool" where
  "test_action_pattern_suffix lib =
     (let pattern = pattern_suffix ''_user''
      in pattern_matches lib pattern ''create_user'' \<and> pattern_matches lib pattern ''update_user'' \<and>
         \<not> pattern_matches lib pattern ''createorder'')"

definition test_policy_allow_by_default :: "'re policy_lib \<Rightarrow> bool" where
  "test_policy_allow_by_default lib = is_action_allowed lib (new_policy ''empty_policy'') ''any_action''"

definition test_policy_blocked_takes_precedence :: "'re policy_lib \<Rightarrow> bool" where
  "test_policy_blocked_takes_precedence lib =
     (\<not> is_action_allowed lib
        (block_action_name ''create_user'' (allow_action_name ''create_user'' (new_policy ''blocked_policy'')))
        ''create_user'')"

definition test_policy_empty_name_not_allowed :: "'re policy_lib \<Rightarrow> bool" where
  "test_policy_empty_name_not_allowed lib =
     (\<not> is_action_allowed lib (allow_action_name ''create_user'' (new_policy ''test'')) [])"

text \<open>\<open>start\<close> is the first reading; each call of \<open>check_and_increment\<close> reads the clock up to twice.\<close>

definition test_rate_limit_bucket :: "instant \<Rightarrow> (instant \<times> instant) list \<Rightarrow> bool" where
  "test_rate_limit_bucket start clock =
     (fst (bucket_run clock
        \<lparr>bk_count = 0, window_start = start, bk_limit = new_rate_limit 2 (60 * 10 ^ 9)\<rparr>)
      = [True, True, False])"

definition test_policy_decision_display :: bool where
  "test_policy_decision_display =
     (show_decision Allowed = ''Allowed'' \<and>
      show_decision (Denied EmptyActionName) = ''Denied: Action name cannot be empty'')"

definition test_access_level_display_covers_every_level :: bool where
  "test_access_level_display_covers_every_level =
     (show_access_level User = ''user'' \<and> show_access_level Operator = ''operator'' \<and>
      show_access_level Admin = ''admin'' \<and> show_access_level System = ''system'')"

definition test_access_level_is_ordered :: bool where
  "test_access_level_is_ordered =
     (let levels = [User, Operator, Admin, System]
      in list_all (\<lambda>(lower, higher). lower < higher \<and> higher > lower \<and> lower \<noteq> higher) (zip levels (drop 1 levels)) \<and>
         foldr min (butlast levels) (last levels) = User \<and> foldr max (butlast levels) (last levels) = System)"

definition test_policy_decision_accessors :: bool where
  "test_policy_decision_accessors =
     (let violation = ActionBlocked ''drop_table''
      in decision_is_allowed Allowed \<and> decision_violation Allowed = None \<and>
         \<not> decision_is_allowed (Denied violation) \<and> decision_violation (Denied violation) = Some violation)"

definition test_policy_config_default :: bool where
  "test_policy_config_default =
     (default_rate_limit_window default_policy_config = 60 * 10 ^ 9 \<and>
      max_buckets default_policy_config = 10000 \<and> strict_contract_validation default_policy_config)"

definition test_rate_limit_tracker_default :: bool where
  "test_rate_limit_tracker_default = (get_bucket ''nope'' new_tracker = None)"

text \<open>
  \<open>t\<close> and \<open>u\<close> are the readings of the two checks, \<open>aged\<close> is thirty seconds before a later reading, and
  \<open>now\<close> is read by the clean-up.
\<close>

definition test_tracker_cleanup_removes_only_stale ::
  "instant \<times> instant \<times> instant \<Rightarrow> instant \<times> instant \<times> instant \<Rightarrow> instant \<Rightarrow> instant \<Rightarrow> bool" where
  "test_tracker_cleanup_removes_only_stale t u aged now =
     (let fresh_limit = new_rate_limit 10 (120 * 10 ^ 9);
          stale_limit = new_rate_limit 10 (10 ^ 6);
          (ok1, bs1) = tracker_check (fst t) (fst (snd t)) (snd (snd t)) ''fresh'' fresh_limit new_tracker;
          (ok2, bs2) = tracker_check (fst u) (fst (snd u)) (snd (snd u)) ''stale'' stale_limit bs1
      in ok1 \<and> ok2 \<and>
         (case bs2 ''stale'' of
            None \<Rightarrow> False
          | Some b \<Rightarrow>
              (case cleanup_expired now [''fresh'', ''stale''] (bs2(''stale'' \<mapsto> b\<lparr>window_start := aged\<rparr>)) of
                 None \<Rightarrow> False
               | Some bs3 \<Rightarrow> get_bucket ''fresh'' bs3 \<noteq> None \<and> get_bucket ''stale'' bs3 = None)))"

definition test_bucket_resets_after_window :: "instant \<Rightarrow> instant \<Rightarrow> instant \<Rightarrow> bool" where
  "test_bucket_resets_after_window expired_start t1 t2 =
     (let (ok, b) = check_and_increment t1 t2
            \<lparr>bk_count = 1, window_start = expired_start, bk_limit = new_rate_limit 1 (60 * 10 ^ 9)\<rparr>
      in ok \<and> bk_count b = 1)"

text \<open>Calls of the tracker by key, one after the other.\<close>

fun key_checks :: "rate_limit \<Rightarrow> (instant \<times> instant \<times> instant \<times> string \<times> string) list \<Rightarrow> buckets \<Rightarrow> bool list \<times> buckets" where
  "key_checks l [] bs = ([], bs)"
| "key_checks l ((t0, t1, t2, key, name) # cs) bs =
     (let (ok, bs1) = key_tracker_check t0 t1 t2 key name l bs; (oks, bs2) = key_checks l cs bs1
      in (ok # oks, bs2))"

definition test_idempotency_tracker_default ::
  "instant \<times> instant \<times> instant \<Rightarrow> instant \<times> instant \<times> instant \<Rightarrow> instant \<times> instant \<times> instant \<Rightarrow> bool" where
  "test_idempotency_tracker_default t u v =
     (case (t, u, v) of ((t0, t1, t2), (u0, u1, u2), (v0, v1, v2)) \<Rightarrow>
        fst (key_checks (new_rate_limit 1 (60 * 10 ^ 9))
          [(t0, t1, t2, ''key-1'', ''action_a''), (u0, u1, u2, ''key-1'', ''action_a''),
           (v0, v1, v2, ''key-1'', ''action_b'')] new_key_tracker) = [True, False, True])"

definition test_idempotency_tracker_cleanup ::
  "instant \<times> instant \<times> instant \<Rightarrow> instant \<times> instant \<times> instant \<Rightarrow> instant \<Rightarrow> instant \<times> instant \<times> instant \<Rightarrow> bool" where
  "test_idempotency_tracker_cleanup t u now v =
     (case (t, u, v) of ((t0, t1, t2), (u0, u1, u2), (v0, v1, v2)) \<Rightarrow>
        (let limit = new_rate_limit 1 (60 * 10 ^ 9);
             (oks, bs) = key_checks limit
               [(t0, t1, t2, ''key-1'', ''action_a''), (u0, u1, u2, ''key-1'', ''action_a'')] new_key_tracker
         in oks = [True, False] \<and>
            (case key_cleanup_expired now [effective_key ''action_a'' ''key-1''] bs of
               None \<Rightarrow> False
             | Some bs1 \<Rightarrow> \<not> fst (key_tracker_check v0 v1 v2 ''key-1'' ''action_a'' limit bs1))))"

definition test_policy_is_enabled_reflects_field :: bool where
  "test_policy_is_enabled_reflects_field =
     (let policy = new_policy ''toggled'' :: unit policy
      in is_enabled policy \<and> \<not> is_enabled (policy\<lparr>enabled := False\<rparr>))"

lemmas [policy_test] = pattern_exact_def pattern_prefix_def pattern_suffix_def starts_with_def ends_with_def
  is_action_allowed_def new_policy_def allow_action_name_def block_action_name_def new_rate_limit_def
  check_and_increment_def reset_if_expired_def Let_def default_policy_config_def new_tracker_def
  new_key_tracker_def tracker_check_def get_or_create_bucket_def key_tracker_check_def effective_key_def
  cleanup_expired_def key_cleanup_expired_def duration_max_def

lemma policy_unit_tests:
  "test_action_pattern_exact lib" "test_action_pattern_prefix lib" "test_action_pattern_suffix lib"
  "test_policy_allow_by_default lib" "test_policy_blocked_takes_precedence lib"
  "test_policy_empty_name_not_allowed lib"
  test_policy_decision_display test_access_level_display_covers_every_level test_access_level_is_ordered
  test_policy_decision_accessors test_policy_config_default test_rate_limit_tracker_default
  test_policy_is_enabled_reflects_field
  by (simp_all add: policy_test test_action_pattern_exact_def test_action_pattern_prefix_def
      test_action_pattern_suffix_def test_policy_allow_by_default_def test_policy_blocked_takes_precedence_def
      test_policy_empty_name_not_allowed_def test_policy_decision_display_def
      test_access_level_display_covers_every_level_def test_access_level_is_ordered_def
      test_policy_decision_accessors_def test_policy_config_default_def test_rate_limit_tracker_default_def
      test_policy_is_enabled_reflects_field_def less_access_level_def less_eq_access_level_def min_def max_def)

text \<open>A reading less than a millisecond after \<open>t\<close>.\<close>

definition soon :: "instant \<Rightarrow> instant \<Rightarrow> bool" where
  "soon t x = (t \<le> x \<and> x \<le> t + 10 ^ 6)"

lemma soon_elapsed [policy_test]:
  "soon t x \<Longrightarrow> soon t y \<Longrightarrow> 10 ^ 6 < w \<Longrightarrow> \<not> w \<le> x - y"
  "soon t x \<Longrightarrow> soon t y \<Longrightarrow> 10 ^ 6 < w \<Longrightarrow> x - y < w"
  "soon t x \<Longrightarrow> soon t y \<Longrightarrow> 10 ^ 6 < w \<Longrightarrow> x - y \<le> w"
  by (auto simp: soon_def)

lemma bucket_test:
  assumes "soon start t1" "soon start t2" "soon start t3" "soon start start"
  shows "test_rate_limit_bucket start [(t1, u1), (t2, u2), (t3, u3)]"
  using assms by (simp add: test_rate_limit_bucket_def policy_test)

lemma tracker_tests:
  assumes "soon t t0" "soon t t1" "soon t t2" "soon t u0" "soon t u1" "soon t u2" "soon t v0" "soon t v1"
    "soon t v2" "soon t now"
  shows "test_idempotency_tracker_default (t0, t1, t2) (u0, u1, u2) (v0, v1, v2)"
    and "test_idempotency_tracker_cleanup (t0, t1, t2) (u0, u1, u2) now (v0, v1, v2)"
  using assms by (simp_all add: test_idempotency_tracker_default_def test_idempotency_tracker_cleanup_def policy_test)

lemma stale_tests:
  assumes "soon t t0" "soon t t1" "soon t t2" "soon t u0" "soon t now" and "30 * 10 ^ 9 \<le> t"
  shows "test_tracker_cleanup_removes_only_stale (t0, t1, t2) (u0, u1, u2) (t - 30 * 10 ^ 9) now"
proof -
  have "\<not> now - (t - 30 * 10 ^ 9) < 2 * 10 ^ 6" using assms by (auto simp: soon_def)
  with assms show "test_tracker_cleanup_removes_only_stale (t0, t1, t2) (u0, u1, u2) (t - 30 * 10 ^ 9) now"
    by (simp add: test_tracker_cleanup_removes_only_stale_def policy_test)
qed

lemma expired_bucket_test: "120 * 10 ^ 9 \<le> t \<Longrightarrow> soon t t1 \<Longrightarrow> test_bucket_resets_after_window (t - 120 * 10 ^ 9) t1 t2"
  by (auto simp: test_bucket_resets_after_window_def policy_test soon_def)

section \<open>The policy engine\<close>

text \<open>The engine of the tests, and the verdicts on requests made one after the other with their readings.\<close>

definition create_test_engine :: policy_engine where
  "create_test_engine = new_policy_engine default_policy_config"

fun evaluations :: "'re policy_lib \<Rightarrow> 're policy \<Rightarrow> (instants \<times> action) list \<Rightarrow> policy_engine
    \<Rightarrow> policy_decision option list \<times> policy_engine" where
  "evaluations lib pol [] eng = ([], eng)"
| "evaluations lib pol ((ts, act) # rest) eng =
     (let (d, eng1) = evaluate_policy lib ts pol act None eng; (ds, eng2) = evaluations lib pol rest eng1
      in (d # ds, eng2))"

definition act_named :: "uuid \<Rightarrow> datetime \<Rightarrow> string \<Rightarrow> action" where
  "act_named uid now name = new_action uid now name (json_object [])"

fun rate_exceeded :: "policy_decision option \<Rightarrow> bool" where
  "rate_exceeded (Some (Denied (RateLimitExceeded _ _ _ _))) = True"
| "rate_exceeded _ = False"

fun contract_invalid :: "policy_decision option \<Rightarrow> bool" where
  "contract_invalid (Some (Denied (ContractInvalid _))) = True"
| "contract_invalid _ = False"

definition transfer_policy :: "string \<Rightarrow> 're policy" where
  "transfer_policy name =
     require_contract_for_action ''transfer'' (allow_action_name ''transfer'' (new_policy name))"

definition test_engine_default_allow :: "'re policy_lib \<Rightarrow> uuid \<Rightarrow> datetime \<Rightarrow> instants \<Rightarrow> bool" where
  "test_engine_default_allow lib uid now ts =
     (fst (evaluate_policy lib ts (new_policy ''allow_all'') (act_named uid now ''any_action'') None create_test_engine)
      = Some Allowed)"

definition test_engine_blocks_blocked_actions :: "'re policy_lib \<Rightarrow> uuid \<Rightarrow> datetime \<Rightarrow> instants \<Rightarrow> bool" where
  "test_engine_blocks_blocked_actions lib uid now ts =
     (fst (evaluate_policy lib ts (block_action_name ''dangerous'' (new_policy ''block_test''))
        (act_named uid now ''dangerous'') None create_test_engine) = Some (Denied (ActionBlocked ''dangerous'')))"

definition test_engine_requires_contract :: "'re policy_lib \<Rightarrow> uuid \<Rightarrow> datetime \<Rightarrow> instants \<Rightarrow> bool" where
  "test_engine_requires_contract lib uid now ts =
     (fst (evaluate_policy lib ts (transfer_policy ''contract_required'') (act_named uid now ''transfer'') None
        create_test_engine) = Some (Denied (ContractRequired ''transfer'')))"

definition test_engine_validates_contract :: "'re policy_lib \<Rightarrow> uuid \<Rightarrow> datetime \<Rightarrow> instants \<Rightarrow> bool" where
  "test_engine_validates_contract lib uid now ts =
     contract_invalid (fst (evaluate_policy lib ts (transfer_policy ''contract_required'') (act_named uid now ''transfer'')
        (Some (new_contract uid now ''transfer'')) create_test_engine))"

definition test_engine_valid_contract_passes :: "'re policy_lib \<Rightarrow> uuid \<Rightarrow> datetime \<Rightarrow> instants \<Rightarrow> bool" where
  "test_engine_valid_contract_passes lib uid now ts =
     (fst (evaluate_policy lib ts (transfer_policy ''contract_required'') (act_named uid now ''transfer'')
        (Some (with_postcondition (p_equals ''status'' (JString ''completed'')) ''transfer completed''
          (new_contract uid now ''transfer''))) create_test_engine) = Some Allowed)"

definition test_engine_access_level_enforcement :: "'re policy_lib \<Rightarrow> uuid \<Rightarrow> datetime \<Rightarrow> instants \<Rightarrow> bool" where
  "test_engine_access_level_enforcement lib uid now ts =
     (let policy = require_access_level ''admin_action'' Admin
            (allow_action_name ''admin_action'' (new_policy ''admin_action''));
          act = act_named uid now ''admin_action''
      in fst (evaluate_policy lib ts policy act None create_test_engine)
           = Some (Denied (InsufficientAccessLevel Admin User)) \<and>
         fst (evaluate_with_access lib ts policy act None Admin create_test_engine) = Some Allowed)"

definition test_engine_disabled_policy_denies :: "'re policy_lib \<Rightarrow> uuid \<Rightarrow> datetime \<Rightarrow> instants \<Rightarrow> bool" where
  "test_engine_disabled_policy_denies lib uid now ts =
     (fst (evaluate_policy lib ts ((allow_action_name ''any_action'' (new_policy ''disabled_policy''))\<lparr>enabled := False\<rparr>)
        (act_named uid now ''any_action'') None create_test_engine) = Some (Denied (ActionNotAllowed ''any_action'')))"

definition test_engine_with_default_config :: "'re policy_lib \<Rightarrow> uuid \<Rightarrow> datetime \<Rightarrow> instants \<Rightarrow> bool" where
  "test_engine_with_default_config lib uid now ts =
     (fst (evaluate_policy lib ts (new_policy ''allow_all'') (act_named uid now ''any_action'') None with_default_config)
      = Some Allowed)"

definition test_engine_with_access_level :: "'re policy_lib \<Rightarrow> uuid \<Rightarrow> datetime \<Rightarrow> instants \<Rightarrow> bool" where
  "test_engine_with_access_level lib uid now ts =
     (let engine = with_access_level Operator with_default_config;
          policy = require_access_level ''drain_queue'' Operator
            (allow_action_name ''drain_queue'' (new_policy ''operator_actions''));
          act = act_named uid now ''drain_queue''
      in fst (evaluate_policy lib ts policy act None engine) = Some Allowed \<and>
         fst (evaluate_with_access lib ts policy act None User engine)
           = Some (Denied (InsufficientAccessLevel Operator User)))"

definition test_engine_higher_level_allowed :: "'re policy_lib \<Rightarrow> uuid \<Rightarrow> datetime \<Rightarrow> instants \<Rightarrow> bool" where
  "test_engine_higher_level_allowed lib uid now ts =
     (fst (evaluate_with_access lib ts
        (require_access_level ''grant_role'' Operator (allow_action_name ''grant_role'' (new_policy ''escalation'')))
        (act_named uid now ''grant_role'') None System create_test_engine) = Some Allowed)"

definition test_engine_key_limit_needs_key :: "'re policy_lib \<Rightarrow> uuid \<Rightarrow> datetime \<Rightarrow> instants list \<Rightarrow> bool" where
  "test_engine_key_limit_needs_key lib uid now clock =
     (fst (evaluations lib
        (with_rate_limit_per_key ''submit'' 1 (60 * 10 ^ 9) (allow_action_name ''submit'' (new_policy ''keyed'')))
        (map (\<lambda>ts. (ts, act_named uid now ''submit'')) clock) create_test_engine)
      = replicate (length clock) (Some Allowed))"

definition test_engine_key_limit_per_action :: "'re policy_lib \<Rightarrow> uuid \<Rightarrow> datetime \<Rightarrow> instants \<Rightarrow> instants \<Rightarrow> bool" where
  "test_engine_key_limit_per_action lib uid now ts us =
     (let policy = with_rate_limit_per_key ''resubmit'' 1 (60 * 10 ^ 9)
            (with_rate_limit_per_key ''submit'' 1 (60 * 10 ^ 9)
              (allow_action_name ''resubmit'' (allow_action_name ''submit'' (new_policy ''keyed''))));
          key = new_idempotency_key ''same-key''
      in fst (evaluations lib policy
           [(ts, with_idempotency uid now ''submit'' (json_object []) key),
            (us, with_idempotency uid now ''resubmit'' (json_object []) key)] create_test_engine)
         = [Some Allowed, Some Allowed])"

definition test_engine_contract_duplicate_paths :: "'re policy_lib \<Rightarrow> uuid \<Rightarrow> datetime \<Rightarrow> instants \<Rightarrow> bool" where
  "test_engine_contract_duplicate_paths lib uid now ts =
     contract_invalid (fst (evaluate_policy lib ts (transfer_policy ''contracted'') (act_named uid now ''transfer'')
        (Some (with_postcondition (p_equals ''status'' (JString ''settled'')) ''status is settled''
          (with_postcondition (p_equals ''status'' (JString ''completed'')) ''status is completed''
            (new_contract uid now ''transfer'')))) create_test_engine))"

definition test_engine_foreign_contract_accepted :: "'re policy_lib \<Rightarrow> uuid \<Rightarrow> datetime \<Rightarrow> instants \<Rightarrow> bool" where
  "test_engine_foreign_contract_accepted lib uid now ts =
     (fst (evaluate_policy lib ts (transfer_policy ''contracted'') (act_named uid now ''transfer'')
        (Some (with_postcondition (p_equals ''status'' (JString ''done'')) ''withdraw completed''
          (new_contract uid now ''withdraw''))) create_test_engine) = Some Allowed)"

lemmas [policy_test] = create_test_engine_def new_policy_engine_def with_default_config_def with_access_level_def
  evaluate_policy_def evaluate_with_access_def check_static_def check_key_limit_def act_named_def
  new_action_def with_idempotency_def new_idempotency_key_def transfer_policy_def require_contract_for_action_def
  require_access_level_def with_rate_limit_def with_rate_limit_per_key_def is_contract_required_def
  and_then_res_def map_err_def validate_def check_schema_version_def CONTRACT_SCHEMA_VERSION_def
  schema_version_new_def parse_u32_def parse_uint_def digit_value_def u32_max_def is_compatible_with_def
  default_version_def check_recovery_def new_contract_def with_postcondition_def p_equals_def
  less_access_level_def rate_limit_status_of_def

lemma policy_engine_tests:
  "test_engine_default_allow lib uid now ts" "test_engine_blocks_blocked_actions lib uid now ts"
  "test_engine_requires_contract lib uid now ts" "test_engine_validates_contract lib uid now ts"
  "test_engine_valid_contract_passes lib uid now ts" "test_engine_access_level_enforcement lib uid now ts"
  "test_engine_disabled_policy_denies lib uid now ts" "test_engine_with_default_config lib uid now ts"
  "test_engine_with_access_level lib uid now ts" "test_engine_higher_level_allowed lib uid now ts"
  "test_engine_key_limit_needs_key lib uid now [ts, us, vs]"
  "test_engine_contract_duplicate_paths lib uid now ts" "test_engine_foreign_contract_accepted lib uid now ts"
  by (simp_all add: policy_test test_engine_default_allow_def test_engine_blocks_blocked_actions_def
      test_engine_requires_contract_def test_engine_validates_contract_def test_engine_valid_contract_passes_def
      test_engine_access_level_enforcement_def test_engine_disabled_policy_denies_def
      test_engine_with_default_config_def test_engine_with_access_level_def test_engine_higher_level_allowed_def
      test_engine_key_limit_needs_key_def test_engine_contract_duplicate_paths_def
      test_engine_foreign_contract_accepted_def)

section \<open>Rate limits of the engine\<close>

text \<open>The policy of several tests: \<open>api_call\<close> at most \<open>n\<close> times in a window.\<close>

definition api_policy :: "string \<Rightarrow> u32 \<Rightarrow> nat \<Rightarrow> 're policy" where
  "api_policy name n w = with_rate_limit ''api_call'' n w (allow_action_name ''api_call'' (new_policy name))"

definition api_call :: "uuid \<Rightarrow> datetime \<Rightarrow> action" where
  "api_call uid now = act_named uid now ''api_call''"

definition test_status_untracked :: "instants \<Rightarrow> bool" where
  "test_status_untracked ts =
     (rate_limit_status_of ts ''never_seen'' (new_rate_limit 5 (60 * 10 ^ 9)) create_test_engine
      = Some \<lparr>st_current = 0, st_limit = 5, st_remaining = 5, window_secs_remaining = 0\<rparr>)"

definition test_status_counts_consumed_budget ::
  "'re policy_lib \<Rightarrow> uuid \<Rightarrow> datetime \<Rightarrow> instants \<Rightarrow> instants \<Rightarrow> instants \<Rightarrow> bool" where
  "test_status_counts_consumed_budget lib uid now ts us vs =
     (let policy = api_policy ''budget'' 4 (60 * 10 ^ 9);
          (ds, engine) = evaluations lib policy [(ts, api_call uid now), (us, api_call uid now)] create_test_engine
      in ds = [Some Allowed, Some Allowed] \<and>
         (case get_rate_limit policy ''api_call'' of
            None \<Rightarrow> False
          | Some limit \<Rightarrow>
              (case rate_limit_status_of vs ''api_call'' limit engine of
                 None \<Rightarrow> False
               | Some status \<Rightarrow> st_current status = 2 \<and> st_limit status = 4 \<and> st_remaining status = 2 \<and>
                   window_secs_remaining status \<le> 60 \<and> 59 \<le> window_secs_remaining status)))"

definition test_violation_reports_window ::
  "'re policy_lib \<Rightarrow> uuid \<Rightarrow> datetime \<Rightarrow> instants \<Rightarrow> instants \<Rightarrow> bool" where
  "test_violation_reports_window lib uid now ts us =
     (case fst (evaluations lib (api_policy ''tight'' 1 (60 * 10 ^ 9))
        [(ts, api_call uid now), (us, api_call uid now)] create_test_engine) of
        [Some Allowed, Some (Denied (RateLimitExceeded name current limit window_secs))] \<Rightarrow>
          name = ''api_call'' \<and> current = 1 \<and> limit = 1 \<and> 60 \<le> window_secs
      | _ \<Rightarrow> False)"

definition test_reset_restores_budget ::
  "'re policy_lib \<Rightarrow> uuid \<Rightarrow> datetime \<Rightarrow> instants \<Rightarrow> instants \<Rightarrow> instants \<Rightarrow> bool" where
  "test_reset_restores_budget lib uid now ts us vs =
     (let policy = api_policy ''reset'' 1 (60 * 10 ^ 9);
          (ds, engine) = evaluations lib policy [(ts, api_call uid now), (us, api_call uid now)] create_test_engine
      in hd ds = Some Allowed \<and> rate_exceeded (last ds) \<and>
         fst (evaluate_policy lib vs policy (api_call uid now) None (reset_rate_limits engine)) = Some Allowed)"

text \<open>\<open>c\<close> and \<open>d\<close> are what \<open>cleanup\<close> reads for the two trackers.\<close>

definition test_cleanup_keeps_live_buckets ::
  "'re policy_lib \<Rightarrow> uuid \<Rightarrow> datetime \<Rightarrow> instants \<Rightarrow> instant \<Rightarrow> instant \<Rightarrow> instants \<Rightarrow> bool" where
  "test_cleanup_keeps_live_buckets lib uid now ts c d us =
     (let policy = with_rate_limit ''live_call'' 1 (60 * 10 ^ 9) (allow_action_name ''live_call'' (new_policy ''live''));
          act = act_named uid now ''live_call'';
          (answer, engine) = evaluate_policy lib ts policy act None create_test_engine
      in answer = Some Allowed \<and>
         (case cleanup c d [''live_call''] [] engine of
            None \<Rightarrow> False
          | Some engine1 \<Rightarrow> rate_exceeded (fst (evaluate_policy lib us policy act None engine1))))"

definition test_cleanup_releases_elapsed_limits ::
  "'re policy_lib \<Rightarrow> uuid \<Rightarrow> datetime \<Rightarrow> instants \<Rightarrow> instants \<Rightarrow> instant \<Rightarrow> instant \<Rightarrow> instants \<Rightarrow> bool" where
  "test_cleanup_releases_elapsed_limits lib uid now ts us c d vs =
     (let policy = api_policy ''short'' 1 (20 * 10 ^ 6);
          (ds, engine) = evaluations lib policy [(ts, api_call uid now), (us, api_call uid now)] create_test_engine
      in hd ds = Some Allowed \<and> rate_exceeded (last ds) \<and>
         (case cleanup c d [''api_call''] [] engine of
            None \<Rightarrow> False
          | Some engine1 \<Rightarrow> fst (evaluate_policy lib vs policy (api_call uid now) None engine1) = Some Allowed))"

definition test_cleanup_releases_key_limits ::
  "'re policy_lib \<Rightarrow> uuid \<Rightarrow> uuid \<Rightarrow> datetime \<Rightarrow> instants \<Rightarrow> instants \<Rightarrow> instant \<Rightarrow> instant \<Rightarrow> instants \<Rightarrow> bool" where
  "test_cleanup_releases_key_limits lib uid uid' now ts us c d vs =
     (let policy = with_rate_limit_per_key ''submit'' 1 (20 * 10 ^ 6)
            (allow_action_name ''submit'' (new_policy ''short_keyed''));
          key = new_idempotency_key ''k-1'';
          first = with_idempotency uid now ''submit'' (json_object []) key;
          second = with_idempotency uid' now ''submit'' (json_object []) key;
          (ds, engine) = evaluations lib policy [(ts, first), (us, second)] create_test_engine
      in hd ds = Some Allowed \<and> rate_exceeded (last ds) \<and>
         (case cleanup c d [] [effective_key ''submit'' ''k-1''] engine of
            None \<Rightarrow> False
          | Some engine1 \<Rightarrow> fst (evaluate_policy lib vs policy second None engine1) = Some Allowed))"

lemmas [policy_test] = api_policy_def api_call_def reset_rate_limits_def cleanup_def

text \<open>All readings of an evaluation fall within a millisecond after \<open>t\<close>.\<close>

definition brief :: "instant \<Rightarrow> instants \<Rightarrow> bool" where
  "brief t ts = list_all (soon t) [at_create ts, at_elapsed ts, at_reset ts, at_key_create ts,
     at_key_elapsed ts, at_key_reset ts, at_status ts, at_status_again ts]"

lemma briefD:
  assumes "brief t ts"
  shows "soon t (at_create ts)" "soon t (at_elapsed ts)" "soon t (at_reset ts)" "soon t (at_key_create ts)"
    "soon t (at_key_elapsed ts)" "soon t (at_key_reset ts)" "soon t (at_status ts)" "soon t (at_status_again ts)"
  using assms by (simp_all add: brief_def)

text \<open>Thirty milliseconds later, a window of twenty is over and one of forty is not.\<close>

lemma soon_after_sleep:
  assumes "soon t x" "soon (t + 30 * 10 ^ 6) y"
  shows "20000000 \<le> y - x" "y - x < 40000000"
  using assms by (auto simp: soon_def)

lemma status_untracked_test: "test_status_untracked ts"
  by (simp add: test_status_untracked_def policy_test)

lemma key_limit_test: "test_engine_key_limit_per_action lib uid now ts us"
  by (simp add: test_engine_key_limit_per_action_def policy_test)

lemma violation_test:
  assumes "brief t ts" "brief t us"
  shows "test_violation_reports_window lib uid now ts us" "test_reset_restores_budget lib uid now ts us vs"
  using briefD [OF assms(1)] briefD [OF assms(2)]
  by (simp_all add: test_violation_reports_window_def test_reset_restores_budget_def policy_test as_secs_def)

lemma live_bucket_test:
  assumes "brief t ts" "brief t us" "soon t c" "soon t d"
  shows "test_cleanup_keeps_live_buckets lib uid now ts c d us"
  using briefD [OF assms(1)] briefD [OF assms(2)] assms(3-)
  by (simp add: test_cleanup_keeps_live_buckets_def policy_test)

lemma as_secs_last_second:
  assumes "59 * 10 ^ 9 \<le> d" "d \<le> 60 * 10 ^ 9"
  shows "as_secs d \<le> 60 \<and> 59 \<le> as_secs d"
proof -
  from assms have "d div 10 ^ 9 = 59 \<or> d div 10 ^ 9 = 60" by simp linarith
  then have "as_secs d = 59 \<or> as_secs d = 60"
    unfolding as_secs_def by (elim disjE) (simp_all only: of_nat_numeral simp_thms)
  then show ?thesis by (elim disjE) simp_all
qed

lemma almost_a_minute:
  assumes "soon t x" "soon t y"
  shows "as_secs (60 * 10 ^ 9 - (x - y)) \<le> 60 \<and> 59 \<le> as_secs (60 * 10 ^ 9 - (x - y))"
  using assms by (intro as_secs_last_second) (auto simp: soon_def)

lemma status_counts_test:
  assumes "brief t ts" "brief t us" "brief t vs"
  shows "test_status_counts_consumed_budget lib uid now ts us vs"
proof -
  note r = briefD [OF assms(1)] briefD [OF assms(2)] briefD [OF assms(3)]
  from almost_a_minute [OF r(24) r(1)] r show ?thesis
    by (simp add: test_status_counts_consumed_budget_def policy_test saturating_sub_def)
qed

lemma sleep_tests:
  assumes "brief t ts" "brief t us" "soon (t + 30 * 10 ^ 6) c" "soon (t + 30 * 10 ^ 6) d"
    "brief (t + 30 * 10 ^ 6) vs"
  shows "test_cleanup_releases_elapsed_limits lib uid now ts us c d vs"
    and "test_cleanup_releases_key_limits lib uid uid' now ts us c d vs"
proof -
  note r = briefD [OF assms(1)] briefD [OF assms(2)]
  note late = soon_after_sleep [OF r(1) assms(3)] soon_after_sleep [OF r(1) briefD(2) [OF assms(5)]]
    soon_after_sleep [OF r(4) assms(4)] soon_after_sleep [OF r(4) briefD(5) [OF assms(5)]]
  from r show "test_cleanup_releases_elapsed_limits lib uid now ts us c d vs"
    by (simp add: test_cleanup_releases_elapsed_limits_def policy_test late)
  from r show "test_cleanup_releases_key_limits lib uid uid' now ts us c d vs"
    by (simp add: test_cleanup_releases_key_limits_def policy_test late)
qed

section \<open>Error texts\<close>

text \<open>The tests of \<open>error.rs\<close>. \<open>apos\<close> is the quotation mark around names.\<close>

abbreviation apos :: string where "apos \<equiv> [CHR 0x27]"

definition test_policy_error_display :: bool where
  "test_policy_error_display =
     (show_policy_error (EvaluationFailed ''no rules matched'') = ''Policy evaluation failed: no rules matched'' \<and>
      show_policy_error (InvalidRateLimit ''max_count must be non-zero'') =
        ''Invalid rate limit configuration: max_count must be non-zero'' \<and>
      show_policy_error (InvalidPattern ''[unclosed'') = ''Invalid action pattern: [unclosed'' \<and>
      show_policy_error (ContractValidation ''no postconditions'') =
        ''Contract validation failed: no postconditions'')"

definition test_policy_violation_display :: bool where
  "test_policy_violation_display =
     (show_violation (ActionNotAllowed ''delete_user'') =
        ''Action '' @ apos @ ''delete_user'' @ apos @ '' is not allowed'' \<and>
      show_violation (ActionBlocked ''drop_table'') =
        ''Action '' @ apos @ ''drop_table'' @ apos @ '' is blocked'' \<and>
      show_violation EmptyActionName = ''Action name cannot be empty'' \<and>
      show_violation (ContractRequired ''transfer_funds'') =
        ''Contract required for action '' @ apos @ ''transfer_funds'' @ apos \<and>
      show_violation (ContractInvalid ''no postconditions'') = ''Contract invalid: no postconditions'' \<and>
      show_violation (RateLimitExceeded ''api_call'' 11 10 60) =
        ''Rate limit exceeded for '' @ apos @ ''api_call'' @ apos @ '': 11/10 in 60s window'' \<and>
      show_violation (InsufficientAccessLevel Admin User) =
        ''Insufficient access level: required Admin, got User'')"

definition test_policy_violation_equality :: bool where
  "test_policy_violation_equality =
     (let limited = (\<lambda>count. RateLimitExceeded ''api_call'' count 10 60)
      in limited 11 = limited 11 \<and> limited 11 \<noteq> limited 12 \<and> ActionBlocked ''a'' \<noteq> ActionNotAllowed ''a'')"

definition test_insufficient_access_display :: bool where
  "test_insufficient_access_display =
     (show_violation (InsufficientAccessLevel System Operator) =
        ''Insufficient access level: required System, got Operator'' \<and>
      show_violation (RateLimitExceeded ''a'' 1 1 90) =
        ''Rate limit exceeded for '' @ apos @ ''a'' @ apos @ '': 1/1 in 90s window'')"

lemma policy_error_tests:
  test_policy_error_display test_policy_violation_display test_policy_violation_equality
  test_insufficient_access_display
  by (simp_all add: test_policy_error_display_def test_policy_violation_display_def
      test_policy_violation_equality_def test_insufficient_access_display_def quoted_def show_nat.simps
      digit_char_def char_of_def bit_0)

end
