(* ===== verification/Recovery_Tests.thy ===== *)
theory Recovery_Tests
  imports Recovery
begin

text \<open>
  Unit tests of \<open>agentverify-recovery/src/lib.rs\<close> run on the model. Each definition is a test
  function, true when its assertions hold. What the tests take from chrono, \<open>f64::powi\<close> and tokio is a
  hypothesis of the lemmas; an \<open>AtomicU32\<close> that counts calls is the world of the operation. Tests
  of \<open>Debug\<close> and serde, and those in which a future takes longer than its timeout, are left out.
\<close>

named_theorems recovery_test

section \<open>Backoff\<close>

definition test_backoff_default :: bool where
  "test_backoff_default =
     (bo_type default_backoff = Exponential \<and> bo_initial default_backoff = 100 * 10 ^ 6 \<and>
      bo_max default_backoff = 30 * 10 ^ 9 \<and> bo_multiplier default_backoff = 0x4000000000000000)"

definition test_backoff_exponential :: "'w recovery_lib \<Rightarrow> bool" where
  "test_backoff_exponential lib =
     (map (calculate_delay lib (new_backoff Exponential (100 * 10 ^ 6) (10 * 10 ^ 9))) [0, 1, 2, 3]
      = map (\<lambda>ms. Some (ms * 10 ^ 6)) [100, 200, 400, 800])"

definition test_backoff_linear :: "'w recovery_lib \<Rightarrow> bool" where
  "test_backoff_linear lib =
     (map (calculate_delay lib (new_backoff Linear (100 * 10 ^ 6) (10 * 10 ^ 9))) [0, 1, 2]
      = map (\<lambda>ms. Some (ms * 10 ^ 6)) [100, 300, 500])"

definition test_backoff_fixed :: "'w recovery_lib \<Rightarrow> bool" where
  "test_backoff_fixed lib =
     (map (calculate_delay lib (new_backoff Fixed (100 * 10 ^ 6) (10 * 10 ^ 9))) [0, 1, 5]
      = map (\<lambda>ms. Some (ms * 10 ^ 6)) [100, 100, 100])"

text \<open>The multiplier 0.5.\<close>

definition test_backoff_multiplier :: "'w recovery_lib \<Rightarrow> bool" where
  "test_backoff_multiplier lib =
     (let b = with_multiplier 0x3FE0000000000000 (new_backoff Linear (100 * 10 ^ 6) (10 * 10 ^ 9))
      in bo_multiplier b = 0x3FE0000000000000 \<and> calculate_delay lib b 2 = Some (200 * 10 ^ 6))"

definition test_backoff_clamped :: "'w recovery_lib \<Rightarrow> bool" where
  "test_backoff_clamped lib =
     (map (calculate_delay lib (new_backoff Exponential (100 * 10 ^ 6) (300 * 10 ^ 6))) [0, 1, 2, 9]
      = map (\<lambda>ms. Some (ms * 10 ^ 6)) [100, 200, 300, 300])"

definition test_backoff_accessors :: bool where
  "test_backoff_accessors =
     (let strategy = new_retry_strategy 5 (new_backoff Fixed (5 * 10 ^ 6) (10 ^ 9))
      in max_attempts strategy = 5 \<and> bo_type (retry_backoff strategy) = Fixed \<and>
         bo_initial (retry_backoff strategy) = 5 * 10 ^ 6)"

text \<open>Chrono on durations that are not negative and far from its limits, and powers of two.\<close>

definition small_durations :: "'w recovery_lib \<Rightarrow> bool" where
  "small_durations lib \<longleftrightarrow>
     (\<forall>d. 0 \<le> d \<and> d < 2 ^ 60 \<longrightarrow> rl_num_milliseconds lib d = of_int (d div 10 ^ 6)) \<and>
     (\<forall>n. 0 \<le> n \<and> n < 2 ^ 40 \<longrightarrow> rl_milliseconds lib n = Some (n * 10 ^ 6)) \<and>
     (\<forall>a b. 0 \<le> a \<and> a < 2 ^ 60 \<and> 0 \<le> b \<and> b < 2 ^ 60 \<longrightarrow> rl_add lib a b = Some (a + b))"

definition powers_of_two :: "'w recovery_lib \<Rightarrow> bool" where
  "powers_of_two lib \<longleftrightarrow>
     rl_powi lib 0x4000000000000000 0 = 0x3FF0000000000000 \<and> rl_powi lib 0x4000000000000000 1 = 0x4000000000000000 \<and>
     rl_powi lib 0x4000000000000000 2 = 0x4010000000000000 \<and> rl_powi lib 0x4000000000000000 3 = 0x4020000000000000 \<and>
     rl_powi lib 0x4000000000000000 9 = 0x4080000000000000"

lemma small_durationsD:
  assumes "small_durations lib"
  shows "0 \<le> d \<Longrightarrow> d < 2 ^ 60 \<Longrightarrow> rl_num_milliseconds lib d = of_int (d div 10 ^ 6)"
    and "0 \<le> n \<Longrightarrow> n < 2 ^ 40 \<Longrightarrow> rl_milliseconds lib n = Some (n * 10 ^ 6)"
    and "0 \<le> a \<Longrightarrow> a < 2 ^ 60 \<Longrightarrow> 0 \<le> b \<Longrightarrow> b < 2 ^ 60 \<Longrightarrow> rl_add lib a b = Some (a + b)"
  using assms by (auto simp: small_durations_def)

lemmas f64_eval = f64_mul_def f64_round_def f64_neg_def f64_is_nan_def f64_is_inf_def f64_exp_def f64_frac_def
  f64_mag_def f64_mant_def f64_scale_def bit_len.simps round_half_even_def Let_def f64_as_i64_def
  f64_trunc_abs_def f64_of_int_def f64_of_nat_def

text \<open>The products the tests need: 100 milliseconds times the powers, and times the attempt.\<close>

lemma hundred: "f64_of_int 100 = 0x4059000000000000"
  by (simp add: f64_eval)

lemma hundred_times:
  "f64_as_i64 (f64_mul 0x4059000000000000 0x3FF0000000000000) = 100"
  "f64_as_i64 (f64_mul 0x4059000000000000 0x4000000000000000) = 200"
  "f64_as_i64 (f64_mul 0x4059000000000000 0x4010000000000000) = 400"
  "f64_as_i64 (f64_mul 0x4059000000000000 0x4020000000000000) = 800"
  "f64_as_i64 (f64_mul 0x4059000000000000 0x4080000000000000) = 51200"
  by (simp_all add: f64_eval)

lemma linear_products:
  "f64_as_i64 (f64_mul (f64_mul 0x4059000000000000 0x4000000000000000) (f64_of_nat 0)) = 0"
  "f64_as_i64 (f64_mul (f64_mul 0x4059000000000000 0x4000000000000000) (f64_of_nat 1)) = 200"
  "f64_as_i64 (f64_mul (f64_mul 0x4059000000000000 0x4000000000000000) (f64_of_nat 2)) = 400"
  "f64_as_i64 (f64_mul (f64_mul 0x4059000000000000 0x3FE0000000000000) (f64_of_nat 2)) = 100"
  by (simp_all add: f64_eval)

lemmas [recovery_test] = default_backoff_def new_backoff_def with_multiplier_def calculate_delay_def
  new_retry_strategy_def max_attempts_def retry_backoff_def Let_def

lemma backoff_tests:
  assumes "small_durations lib"
  shows test_backoff_default test_backoff_accessors "test_backoff_linear lib" "test_backoff_fixed lib"
    "test_backoff_multiplier lib"
  using hundred linear_products
  by (simp_all add: recovery_test small_durationsD [OF assms] test_backoff_default_def test_backoff_accessors_def
      test_backoff_linear_def test_backoff_fixed_def test_backoff_multiplier_def)

lemma exponential_tests:
  assumes "small_durations lib" "powers_of_two lib"
  shows "test_backoff_exponential lib" "test_backoff_clamped lib"
  using hundred hundred_times assms(2)
  by (simp_all add: recovery_test small_durationsD [OF assms(1)] powers_of_two_def test_backoff_exponential_def
      test_backoff_clamped_def)

section \<open>Circuit breakers\<close>

text \<open>\<open>t\<close>, \<open>u\<close>, ... are the readings of the clock, in the order of the calls.\<close>

definition test_breaker :: "u32 \<Rightarrow> u32 \<Rightarrow> duration \<Rightarrow> circuit_breaker" where
  "test_breaker f s t =
     new_circuit_breaker \<lparr>failure_threshold = f, success_threshold = s, recovery_timeout = t\<rparr>"

definition test_breaker_opens_after_failures :: "datetime \<Rightarrow> datetime \<Rightarrow> datetime \<Rightarrow> bool" where
  "test_breaker_opens_after_failures t u v =
     (let cb = record_failure u (record_failure t (test_breaker 3 2 (30 * 10 ^ 9)))
      in cb_state cb = Closed \<and> cb_state (record_failure v cb) = Open)"

definition test_breaker_allows_in_half_open :: "datetime \<Rightarrow> datetime \<Rightarrow> datetime \<Rightarrow> bool" where
  "test_breaker_allows_in_half_open t u v =
     (let cb = record_failure u (record_failure t (test_breaker 2 1 (10 * 10 ^ 6)));
          (ok, cb1) = is_allowed v cb
      in cb_state cb = Open \<and> ok \<and> cb_state cb1 = HalfOpen)"

definition test_breaker_closes_after_successes :: "datetime \<Rightarrow> datetime \<Rightarrow> datetime \<Rightarrow> bool" where
  "test_breaker_closes_after_successes t u v =
     (let cb = record_failure u (record_failure t (test_breaker 2 2 (10 * 10 ^ 6)));
          (_, cb1) = is_allowed v cb
      in cb_state cb = Open \<and> cb_state (record_success (record_success cb1)) = Closed)"

definition test_breaker_config_defaults :: bool where
  "test_breaker_config_defaults =
     (failure_threshold default_circuit_breaker_config = 5 \<and> success_threshold default_circuit_breaker_config = 2 \<and>
      recovery_timeout default_circuit_breaker_config = 30 * 10 ^ 9)"

definition test_closed_circuit_resets_failures :: "datetime \<Rightarrow> datetime \<Rightarrow> datetime \<Rightarrow> datetime \<Rightarrow> bool" where
  "test_closed_circuit_resets_failures t u v w =
     (let (ok, cb) = is_allowed t (test_breaker 3 1 (30 * 10 ^ 9));
          cb1 = record_success (record_failure u cb)
      in ok \<and> cb_state cb = Closed \<and> cb_state cb1 = Closed \<and>
         cb_state (record_failure w (record_failure v cb1)) = Closed)"

definition test_open_circuit_rejects :: "datetime \<Rightarrow> datetime \<Rightarrow> datetime \<Rightarrow> bool" where
  "test_open_circuit_rejects t u v =
     (let cb = record_failure t (test_breaker 1 1 (3600 * 10 ^ 9)); (ok, cb1) = is_allowed u cb
      in cb_state cb = Open \<and> \<not> ok \<and> cb_state cb1 = Open \<and>
         cb_state (record_success (record_failure v cb1)) = Open)"

definition test_half_open_failure_reopens ::
  "datetime \<Rightarrow> datetime \<Rightarrow> datetime \<Rightarrow> datetime \<Rightarrow> bool" where
  "test_half_open_failure_reopens t u v w =
     (let (ok, cb) = is_allowed u (record_failure t (test_breaker 1 2 (5 * 10 ^ 6)));
          cb1 = record_failure v cb;
          (ok2, cb2) = is_allowed w cb1
      in ok \<and> cb_state cb = HalfOpen \<and> cb_state cb1 = Open \<and> ok2 \<and>
         cb_state (record_success cb2) = HalfOpen)"

lemmas [recovery_test] = test_breaker_def new_circuit_breaker_def record_failure_def record_success_def
  is_allowed_def default_circuit_breaker_config_def

lemma counts_apart [recovery_test]: "\<not> 3 \<le> (1 :: u32)" "\<not> 2 \<le> (1 :: u32)"
  by (simp_all add: word_le_nat_alt)

lemma breaker_tests:
  "test_breaker_opens_after_failures t u v" test_breaker_config_defaults
  "test_closed_circuit_resets_failures t u v w"
  "15 * 10 ^ 6 \<le> v - u \<Longrightarrow> test_breaker_allows_in_half_open t u v"
  "15 * 10 ^ 6 \<le> v - u \<Longrightarrow> test_breaker_closes_after_successes t u v"
  "u - t < 10 ^ 9 \<Longrightarrow> test_open_circuit_rejects t u v"
  "10 * 10 ^ 6 \<le> u - t \<Longrightarrow> 10 * 10 ^ 6 \<le> w - v \<Longrightarrow> test_half_open_failure_reopens t u v w"
  by (simp_all add: recovery_test test_breaker_opens_after_failures_def test_breaker_config_defaults_def
      test_closed_circuit_resets_failures_def test_breaker_allows_in_half_open_def
      test_breaker_closes_after_successes_def test_open_circuit_rejects_def test_half_open_failure_reopens_def)

section \<open>Strategies\<close>

text \<open>Operations that are ready at once, and operations that look at the number of earlier calls.\<close>

definition async_ok :: "verification_result \<Rightarrow> 'w operation" where
  "async_ok r = (\<lambda>w. (Inr r, w))"

definition async_err :: "recovery_error \<Rightarrow> 'w operation" where
  "async_err e = (\<lambda>w. (Inl e, w))"

definition counting :: "(nat \<Rightarrow> recovery_error + verification_result) \<Rightarrow> nat operation" where
  "counting answer = (\<lambda>seen. (answer seen, seen + 1))"

definition test_state :: "'w \<Rightarrow> 'w recovery_state" where
  "test_state w = \<lparr>rs_world = w, rs_breakers = (\<lambda>_. breaker_with_default_config), rs_log = []\<rparr>"

definition provider_error :: recovery_error where
  "provider_error = UnderlyingError ''provider unavailable''"

definition test_retry_success_on_first_attempt :: "'w recovery_lib \<Rightarrow> 'w \<Rightarrow> bool" where
  "test_retry_success_on_first_attempt lib w =
     (fst (retry_execute lib (with_default_backoff 3) (async_ok Verified) (test_state w)) = Some (Success Verified))"

definition test_retry_retries_on_unknown :: "nat recovery_lib \<Rightarrow> bool" where
  "test_retry_retries_on_unknown lib =
     (let (outcome, st) = retry_execute lib (with_default_backoff 3)
            (counting (\<lambda>seen. if seen + 1 < 3 then Inr Unknown else Inr Verified)) (test_state 0)
      in outcome = Some (Success Verified) \<and> rs_world st = 3)"

definition short_backoff :: backoff where
  "short_backoff = new_backoff Fixed (10 ^ 6) (10 ^ 9)"

definition test_retry_max_attempts :: "'w recovery_lib \<Rightarrow> 'w \<Rightarrow> bool" where
  "test_retry_max_attempts lib w =
     (fst (retry_execute lib (new_retry_strategy 2 short_backoff) (async_ok Unknown) (test_state w))
      = Some (Failure (MaxAttemptsExceeded 2)))"

definition test_retry_reports_attempts_for_errors :: "'w recovery_lib \<Rightarrow> 'w \<Rightarrow> bool" where
  "test_retry_reports_attempts_for_errors lib w =
     (fst (retry_execute lib (new_retry_strategy 2 short_backoff) (async_err provider_error) (test_state w))
      = Some (Failure (MaxAttemptsExceeded 2)))"

definition test_retry_surfaces_last_error :: "nat recovery_lib \<Rightarrow> bool" where
  "test_retry_surfaces_last_error lib =
     (let (outcome, st) = retry_execute lib (new_retry_strategy 2 short_backoff)
            (counting (\<lambda>seen. if seen = 0 then Inr Failed else Inl provider_error)) (test_state 0)
      in outcome = Some (Failure (UnderlyingError ''provider unavailable'')) \<and> rs_world st = 2)"

definition test_retry_stops_on_open_breaker :: "nat recovery_lib \<Rightarrow> bool" where
  "test_retry_stops_on_open_breaker lib =
     (let (outcome, st) = retry_execute lib (new_retry_strategy 5 short_backoff)
            (counting (\<lambda>_. Inl CircuitBreakerOpen)) (test_state 0)
      in outcome = Some (Failure (MaxAttemptsExceeded 5)) \<and> rs_world st = 1)"

definition test_retry_surfaces_terminal_failure :: "'w recovery_lib \<Rightarrow> 'w \<Rightarrow> bool" where
  "test_retry_surfaces_terminal_failure lib w =
     (fst (retry_execute lib (new_retry_strategy 2 short_backoff) (async_ok Failed) (test_state w))
      = Some (Failure (NotApplicable_for Failed)))"

definition test_retry_duplicate_stops :: "'w recovery_lib \<Rightarrow> 'w \<Rightarrow> bool" where
  "test_retry_duplicate_stops lib w =
     (fst (retry_execute lib (with_default_backoff 2) (async_ok Duplicate) (test_state w)) = Some (Success Duplicate))"

definition test_retry_applicable :: bool where
  "test_retry_applicable =
     (map (retry_is_applicable (with_default_backoff 3)) [Unknown, Failed, Partial, Verified, Duplicate]
      = [True, True, True, False, False])"

definition test_fallback_budget :: bool where
  "test_fallback_budget =
     (let f = with_max_uses 2 (new_fallback ''cache-read''); once = clone_fallback f
      in fallback_name f = ''cache-read'' \<and> \<not> is_exhausted f \<and>
         fallback_name once = ''cache-read'' \<and> \<not> is_exhausted once \<and> \<not> is_exhausted (new_fallback ''always''))"

definition test_fallback_exhaustion :: "'w recovery_lib \<Rightarrow> 'w \<Rightarrow> bool" where
  "test_fallback_exhaustion lib w =
     (let fs = with_named_fallback ''archive'' (add_fallback (new_fallback ''cache'') new_fallback_strategy)
      in length fs = 2 \<and>
         fst (fallback_strategy_execute fs (async_ok Verified) (test_state w)) = Some (Failure AllFallbacksExhausted))"

definition test_fallback_variant_exhaustion :: "'w recovery_lib \<Rightarrow> 'w \<Rightarrow> bool" where
  "test_fallback_variant_exhaustion lib w =
     (fst (strategy_execute lib (async_ok Verified) (Fallback_s new_fallback_strategy) (test_state w))
      = Some (Failure AllFallbacksExhausted))"

definition test_fallback_applicable :: bool where
  "test_fallback_applicable =
     (map (fallback_is_applicable new_fallback_strategy) [Failed, Partial, Unknown, Verified, Duplicate]
      = [True, True, True, False, False])"

definition test_chain_second :: "'w \<Rightarrow> bool" where
  "test_chain_second w =
     (fst (execute_fallback_chain [(''first'', async_ok Unknown), (''second'', async_ok Verified)] (test_state w))
      = Inr Verified)"

definition test_chain_skips_unsuccessful :: "'w \<Rightarrow> bool" where
  "test_chain_skips_unsuccessful w =
     (fst (execute_fallback_chain [(''stale'', async_ok Partial), (''fresh'', async_ok Verified)] (test_state w))
      = Inr Verified)"

definition test_chain_all_fail :: "'w \<Rightarrow> bool" where
  "test_chain_all_fail w =
     (\<not> is_ok (fst (execute_fallback_chain
        [(''first'', async_err (MaxAttemptsExceeded 1)), (''second'', async_err CircuitBreakerOpen)] (test_state w))))"

definition test_errors_render :: "(duration \<Rightarrow> string) \<Rightarrow> bool" where
  "test_errors_render sd =
     (map (show_recovery_error sd)
        [MaxAttemptsExceeded 3, CircuitBreakerOpen, Timeout_after (2 * 10 ^ 9), AllFallbacksExhausted,
         NotApplicable_for Unknown, UnderlyingError ''provider 500'']
      = [''Maximum retry attempts (3) exceeded'', ''Circuit breaker is open, retry not allowed'',
         ''Operation timed out after PT2S'', ''All fallback strategies exhausted'',
         ''Recovery not applicable for result: unknown'', ''Recovery failed: provider 500''])"

lemmas [recovery_test] = async_ok_def async_err_def counting_def test_state_def provider_error_def short_backoff_def
  with_default_backoff_def retry_execute_def run_operation_def retry_pause_def retry_verdict_def
  breaker_with_default_config_def new_fallback_def with_max_uses_def clone_fallback_def is_exhausted_def
  fallback_name_def with_named_fallback_def add_fallback_def new_fallback_strategy_def is_ok_def

lemma retry_loop_numeral [recovery_test]:
  "retry_loop lib s op (numeral k) attempt e f st =
     (case retry_pause lib (rt_backoff s) attempt st of
        None \<Rightarrow> (None, st)
      | Some st1 \<Rightarrow>
          (case run_operation op st1 of
             (Inr r, st2) \<Rightarrow>
               if is_success r then (Some (Success r), st2)
               else retry_loop lib s op (pred_numeral k) (attempt + 1) (Some (NotApplicable_for r)) (f \<or> is_failure r) st2
           | (Inl e1, st2) \<Rightarrow>
               if e1 = CircuitBreakerOpen
               then (Some (retry_verdict (rt_max_attempts s) (Some e1) f), st2)
               else retry_loop lib s op (pred_numeral k) (attempt + 1) (Some e1) f st2))"
  unfolding numeral_eq_Suc by (rule retry_loop.simps(2))

lemma fallback_tests:
  test_fallback_budget "test_fallback_exhaustion lib w" "test_fallback_variant_exhaustion lib w"
  test_fallback_applicable "test_chain_second w" "test_chain_skips_unsuccessful w" "test_chain_all_fail w"
  test_retry_applicable
  by (simp_all add: recovery_test test_fallback_budget_def test_fallback_exhaustion_def
      test_fallback_variant_exhaustion_def test_fallback_applicable_def test_chain_second_def
      test_chain_skips_unsuccessful_def test_chain_all_fail_def test_retry_applicable_def
      fallback_is_applicable_def retry_is_applicable_def)

text \<open>Sleeping does not touch the counter of calls.\<close>

definition calls_kept :: "nat recovery_lib \<Rightarrow> bool" where
  "calls_kept lib \<longleftrightarrow> rl_sleep lib = (\<lambda>_ n. n)"

lemma retry_tests:
  assumes "small_durations lib"
  shows "test_retry_max_attempts lib w" "test_retry_reports_attempts_for_errors lib w"
    "test_retry_surfaces_terminal_failure lib w" "test_retry_success_on_first_attempt lib w"
    "test_retry_duplicate_stops lib w"
  by (simp_all add: recovery_test small_durationsD [OF assms] test_retry_max_attempts_def
      test_retry_reports_attempts_for_errors_def test_retry_surfaces_terminal_failure_def
      test_retry_success_on_first_attempt_def test_retry_duplicate_stops_def)

lemma retry_counting_tests:
  assumes "small_durations lib" "powers_of_two lib" "calls_kept lib"
  shows "test_retry_retries_on_unknown lib" "test_retry_surfaces_last_error lib"
    "test_retry_stops_on_open_breaker lib"
  using assms(2,3) hundred hundred_times
  by (simp_all add: recovery_test small_durationsD [OF assms(1)] powers_of_two_def calls_kept_def
      test_retry_retries_on_unknown_def test_retry_surfaces_last_error_def test_retry_stops_on_open_breaker_def)

lemma error_text_test: "sd (2 * 10 ^ 9) = ''PT2S'' \<Longrightarrow> test_errors_render sd"
  by (simp add: test_errors_render_def show_nat.simps digit_char_def char_of_def bit_0)

section \<open>Breakers, timeouts, composites and the executor\<close>

text \<open>The breakers of a test live at the addresses from 0.\<close>

definition with_breaker :: "circuit_breaker \<Rightarrow> 'w recovery_state \<Rightarrow> 'w recovery_state" where
  "with_breaker cb st = st\<lparr>rs_breakers := (rs_breakers st)(0 := cb)\<rparr>"

definition retry_one :: strategy where
  "retry_one = Retry_s (with_default_backoff 1)"

definition test_enum_dispatches_execute :: "'w recovery_lib \<Rightarrow> 'w \<Rightarrow> bool" where
  "test_enum_dispatches_execute lib w =
     list_all (\<lambda>s. fst (strategy_execute lib (async_ok Verified) s (test_state w)) = Some (Success Verified))
       [retry_one, new_breaker_strategy 0, new_timeout_strategy (10 ^ 9),
        Composite_s (add_strategy retry_one new_composite)]"

definition test_enum_dispatches_is_applicable :: bool where
  "test_enum_dispatches_is_applicable =
     list_all (\<lambda>s. is_applicable s Verified = (case s of CircuitBreaker_s _ \<Rightarrow> True | _ \<Rightarrow> False) \<and>
         is_applicable s Unknown \<and> is_applicable s Partial)
       [retry_one, Fallback_s (with_named_fallback ''cache'' new_fallback_strategy), new_breaker_strategy 0,
        new_timeout_strategy (10 ^ 9), Composite_s (add_strategy (new_timeout_strategy (10 ^ 9)) new_composite)]"

definition test_breaker_execute_records :: "'w recovery_lib \<Rightarrow> 'w \<Rightarrow> bool" where
  "test_breaker_execute_records lib w =
     (let (r1, st1) = breaker_execute lib 0 (async_ok Verified)
            (with_breaker (test_breaker 2 1 (30 * 10 ^ 9)) (test_state w));
          (r2, st2) = breaker_execute lib 0 (async_ok Failed) st1;
          (r3, st3) = breaker_execute lib 0 (async_err (UnderlyingError ''boom'')) st2;
          (r4, st4) = breaker_execute lib 0 (async_ok Verified) st3
      in r1 = Inr Verified \<and> r2 = Inr Failed \<and> breaker_state 0 st2 = Closed \<and>
         r3 = Inl (UnderlyingError ''boom'') \<and> breaker_state 0 st3 = Open \<and> r4 = Inl CircuitBreakerOpen)"

definition test_breaker_strategy_wraps :: "'w recovery_lib \<Rightarrow> 'w \<Rightarrow> bool" where
  "test_breaker_strategy_wraps lib w =
     (let (strategy, st) = breaker_strategy_default 0 (test_state w)
      in breaker_state 0 st = Closed \<and>
         fst (strategy_execute lib (async_ok Verified) strategy st) = Some (Success Verified) \<and>
         is_applicable strategy Failed)"

text \<open>\<open>t\<close> is the reading of the clock when the failure is recorded.\<close>

definition test_breaker_strategy_reports_open :: "'w recovery_lib \<Rightarrow> datetime \<Rightarrow> 'w \<Rightarrow> bool" where
  "test_breaker_strategy_reports_open lib t w =
     (fst (strategy_execute lib (async_ok Verified) (new_breaker_strategy 0)
        (with_breaker (record_failure t (test_breaker 1 1 (3600 * 10 ^ 9))) (test_state w)))
      = Some (Failure CircuitBreakerOpen))"

definition test_breaker_strategy_propagates :: "'w recovery_lib \<Rightarrow> 'w \<Rightarrow> bool" where
  "test_breaker_strategy_propagates lib w =
     (fst (strategy_execute lib (async_err CircuitBreakerOpen) (new_breaker_strategy 0)
        (with_breaker (test_breaker 5 1 (30 * 10 ^ 9)) (test_state w))) = Some (Failure CircuitBreakerOpen))"

definition test_timeout_propagates :: "'w recovery_lib \<Rightarrow> 'w \<Rightarrow> bool" where
  "test_timeout_propagates lib w =
     (fst (strategy_execute lib (async_err (UnderlyingError ''rejected'')) (new_timeout_strategy (10 ^ 9)) (test_state w))
      = Some (Failure (UnderlyingError ''rejected'')))"

definition test_timeout_applicable :: bool where
  "test_timeout_applicable =
     (map (is_applicable (new_timeout_strategy (10 ^ 9))) [Unknown, Partial, Failed, Verified, Duplicate]
      = [True, True, False, False, False])"

definition test_executor_tries_fallbacks :: "'w recovery_lib \<Rightarrow> 'w \<Rightarrow> bool" where
  "test_executor_tries_fallbacks lib w =
     (case fst (recovery_execute lib (with_fallback retry_one (new_recovery_executor retry_one)) (async_ok Unknown)
        (test_state w)) of Some (Failure _) \<Rightarrow> True | _ \<Rightarrow> False)"

definition test_executor_primary_success :: "nat recovery_lib \<Rightarrow> bool" where
  "test_executor_primary_success lib =
     (let (outcome, st) = recovery_execute lib
            (with_fallback (Fallback_s new_fallback_strategy) (new_recovery_executor (Retry_s (with_default_backoff 2))))
            (counting (\<lambda>_. Inr Verified)) (test_state 0)
      in outcome = Some (Success Verified) \<and> rs_world st = 1)"

definition test_executor_falls_back :: "nat recovery_lib \<Rightarrow> bool" where
  "test_executor_falls_back lib =
     (let (outcome, st) = recovery_execute lib
            (with_fallback (Retry_s (with_default_backoff 2)) (new_recovery_executor retry_one))
            (counting (\<lambda>seen. if seen = 0 then Inr Unknown else Inr Verified)) (test_state 0)
      in outcome = Some (Success Verified) \<and> rs_world st = 2)"

definition test_executor_blocked :: "'w recovery_lib \<Rightarrow> datetime \<Rightarrow> 'w \<Rightarrow> bool" where
  "test_executor_blocked lib t w =
     (fst (recovery_execute lib (with_circuit_breaker 0 (with_fallback retry_one (new_recovery_executor retry_one)))
        (async_ok Unknown) (with_breaker (record_failure t (test_breaker 1 1 (3600 * 10 ^ 9))) (test_state w)))
      = Some (Failure CircuitBreakerOpen))"

definition test_composite_tries_all :: "nat recovery_lib \<Rightarrow> bool" where
  "test_composite_tries_all lib =
     (let (outcome, st) = strategy_execute lib (counting (\<lambda>_. Inr Unknown))
            (Composite_s (add_strategy retry_one (add_strategy retry_one new_composite))) (test_state 0)
      in (case outcome of Some (Failure _) \<Rightarrow> True | _ \<Rightarrow> False) \<and> rs_world st = 2)"

definition test_composite_stops_at_first :: "nat recovery_lib \<Rightarrow> bool" where
  "test_composite_stops_at_first lib =
     (fst (strategy_execute lib (counting (\<lambda>seen. if seen = 0 then Inr Unknown else Inr Verified))
        (Composite_s (add_strategy (new_timeout_strategy (10 ^ 9)) (add_strategy retry_one new_composite))) (test_state 0))
      = Some (Success Verified))"

definition test_composite_empty :: "'w recovery_lib \<Rightarrow> 'w \<Rightarrow> bool" where
  "test_composite_empty lib w =
     (fst (strategy_execute lib (async_ok Unknown) (Composite_s new_composite) (test_state w))
      = Some (Failure (MaxAttemptsExceeded 1)))"

definition test_composite_applicable :: bool where
  "test_composite_applicable =
     (let composite = Composite_s (add_strategy (new_timeout_strategy (10 ^ 9)) new_composite)
      in is_applicable composite Unknown \<and> \<not> is_applicable composite Failed \<and>
         \<not> is_applicable (Composite_s new_composite) Unknown)"

lemmas [recovery_test] = with_breaker_def retry_one_def new_breaker_strategy_def new_timeout_strategy_def
  add_strategy_def new_composite_def retry_is_applicable_def fallback_is_applicable_def breaker_is_applicable_def
  timeout_is_applicable_def breaker_execute_def breaker_allows_def breaker_fails_def breaker_succeeds_def
  breaker_state_def read_clock_def breaker_strategy_default_def breaker_strategy_execute_def
  timeout_execute_def recovery_execute_def new_recovery_executor_def with_fallback_def with_circuit_breaker_def

lemma applicable_tests: test_enum_dispatches_is_applicable test_timeout_applicable test_composite_applicable
  by (simp_all add: recovery_test test_enum_dispatches_is_applicable_def test_timeout_applicable_def
      test_composite_applicable_def)

text \<open>Operations that are ready at once do not time out.\<close>

definition ready_in_time :: "'w recovery_lib \<Rightarrow> bool" where
  "ready_in_time lib \<longleftrightarrow> rl_timeout lib = (\<lambda>_ op w. case op w of (r, w1) \<Rightarrow> (Some r, w1))"

lemma strategy_tests:
  assumes "ready_in_time lib"
  shows "test_enum_dispatches_execute lib w" "test_timeout_propagates lib w"
    "test_breaker_strategy_wraps lib w" "test_composite_empty lib w"
  using assms by (simp_all add: recovery_test ready_in_time_def test_enum_dispatches_execute_def
      test_timeout_propagates_def test_breaker_strategy_wraps_def test_composite_empty_def)

lemma composite_tests:
  assumes "ready_in_time lib'"
  shows "test_composite_tries_all lib" "test_composite_stops_at_first lib'"
    "test_executor_primary_success lib" "test_executor_falls_back lib" "test_executor_tries_fallbacks lib'' w"
  using assms by (simp_all add: recovery_test ready_in_time_def test_composite_tries_all_def
      test_composite_stops_at_first_def test_executor_primary_success_def test_executor_falls_back_def
      test_executor_tries_fallbacks_def)

text \<open>A clock that goes on less than a second in a test.\<close>

definition slow_clock :: "'w recovery_lib \<Rightarrow> datetime \<Rightarrow> bool" where
  "slow_clock lib t \<longleftrightarrow> (\<forall>w. t \<le> fst (rl_now lib w) \<and> fst (rl_now lib w) < t + 10 ^ 9)"

lemma slow_clockD: "slow_clock lib t \<Longrightarrow> rl_now lib w = (x, w1) \<Longrightarrow> t \<le> x \<and> x < t + 10 ^ 9"
  by (metis fst_conv slow_clock_def)

lemma open_breaker_tests:
  assumes "slow_clock lib t"
  shows "test_breaker_strategy_reports_open lib t w" "test_executor_blocked lib t w"
    "test_breaker_execute_records lib w" "test_breaker_strategy_propagates lib w"
  by (auto simp: recovery_test test_breaker_strategy_reports_open_def test_executor_blocked_def
      test_breaker_execute_records_def test_breaker_strategy_propagates_def
      dest!: slow_clockD [OF assms] split: prod.splits)

end
