(* ===== verification/Executor_Tests.thy ===== *)
theory Executor_Tests
  imports Executor_Replay Cli Engine_Tests
begin

text \<open>
  Unit tests of the executor (\<open>mod tests\<close> of \<open>agentverify-runtime/src/executor.rs\<close>) run on the model.
  Each definition is a test function, true when its assertions hold, for any libraries and any
  identifiers and clock readings drawn (\<open>test_libs\<close>). The counters of the tests' adapters and observers are
  the world of the run.
\<close>

section \<open>Adapters, observers and environments of the tests\<close>

record test_world =
  tw_dispatches :: nat
  tw_observations :: nat

record 're test_libs =
  tl_engine :: "'re engine_lib"
  tl_receipt :: receipt_lib
  tl_backoff :: backoff_lib
  tl_fresh_id :: "test_world \<Rightarrow> uuid"
  tl_clock :: "test_world \<Rightarrow> datetime"
  tl_uid :: uuid
  tl_now :: datetime

type_synonym test_adapter = "action \<Rightarrow> test_world \<Rightarrow> (dispatch_error + dispatch_outcome) \<times> test_world"

type_synonym test_observer = "u64 \<Rightarrow> action \<Rightarrow> contract \<Rightarrow> test_world \<Rightarrow> observe_result \<times> test_world"

definition outcome_executor :: "dispatch_outcome \<Rightarrow> test_adapter" where
  "outcome_executor d = (\<lambda>_ w. (Inr d, w))"

definition failing_executor :: "dispatch_error \<Rightarrow> test_adapter" where
  "failing_executor e = (\<lambda>_ w. (Inl e, w))"

definition counting_dispatch :: test_adapter where
  "counting_dispatch = (\<lambda>_ w. (Inr Completed_out, w\<lparr>tw_dispatches := tw_dispatches w + 1\<rparr>))"

definition static_observer :: "'re test_libs \<Rightarrow> json \<Rightarrow> string \<Rightarrow> test_observer" where
  "static_observer lib state source = (\<lambda>_ _ _ w. (Some (Inr (new_observation (tl_now lib) source state)), w))"

definition counting_observer :: "'re test_libs \<Rightarrow> json \<Rightarrow> test_observer" where
  "counting_observer lib state =
     (\<lambda>_ _ _ w. (Some (Inr (new_observation (tl_now lib) ''counting'' state)),
        w\<lparr>tw_observations := tw_observations w + 1\<rparr>))"

text \<open>An observer that is ready after \<open>delay\<close> milliseconds, when the timeout has not come first.\<close>

definition slow_observer :: "'re test_libs \<Rightarrow> u64 \<Rightarrow> test_observer" where
  "slow_observer lib delay =
     (\<lambda>timeout _ _ w. (if timeout < delay then None
        else Some (Inr (new_observation (tl_now lib) ''slow'' (json_object []))), w))"

definition refusing_observer :: "executor_error \<Rightarrow> test_observer" where
  "refusing_observer e = (\<lambda>_ _ _ w. (Some (Inl e), w))"

definition unavailable_observer :: test_observer where
  "unavailable_observer = refusing_observer (ContractNotFound ''state_source'')"

definition test_env ::
  "'re test_libs \<Rightarrow> executor_config \<Rightarrow> test_adapter \<Rightarrow> test_observer option
   \<Rightarrow> ('re, test_world, registry, mem_receipts) exec_env" where
  "test_env lib cfg adapter observer =
     \<lparr>ee_config = cfg, ee_claim = registry_claim_or_check, ee_complete = registry_complete,
      ee_release = registry_release, ee_others = (\<lambda>_ s. s), ee_receipt_store = None, ee_observer = observer,
      ee_dispatch = adapter, ee_fresh = (\<lambda>w. ((tl_fresh_id lib w, tl_clock lib w), w)), ee_engine = tl_engine lib,
      ee_receipt_lib = tl_receipt lib, ee_backoff_lib = tl_backoff lib\<rparr>"

definition fresh_executor :: "(test_world, registry, mem_receipts) exec_state" where
  "fresh_executor =
     \<lparr>es_world = \<lparr>tw_dispatches = 0, tw_observations = 0\<rparr>, es_store = new_registry,
      es_receipts = new_mem_receipts, es_trace = []\<rparr>"

definition observing_config :: "u64 \<Rightarrow> executor_config" where
  "observing_config ms = \<lparr>verification_timeout_ms = ms, max_retries = 3, verify_before_retry = True\<rparr>"

definition test_action :: "'re test_libs \<Rightarrow> action" where
  "test_action lib = new_action (tl_uid lib) (tl_now lib) ''test'' (json_object [])"

definition keyed_action :: "'re test_libs \<Rightarrow> string \<Rightarrow> action" where
  "keyed_action lib key = with_idempotency (tl_uid lib) (tl_now lib) ''test'' (json_object []) (new_idempotency_key key)"

definition test_contract :: "'re test_libs \<Rightarrow> contract" where
  "test_contract lib = new_contract (tl_uid lib) (tl_now lib) ''test''"

definition wants :: "'re test_libs \<Rightarrow> string \<Rightarrow> contract" where
  "wants lib path = with_postcondition (p_exists path) (path @ '' exists'') (test_contract lib)"

definition must_be_completed :: "'re test_libs \<Rightarrow> contract" where
  "must_be_completed lib =
     with_postcondition (p_equals ''result.status'' (JString ''completed'')) ''must be completed'' (test_contract lib)"

definition status_state :: "string \<Rightarrow> json" where
  "status_state s = json_object [(''result'', json_object [(''status'', JString s)])]"

text \<open>The verdict and the number of attempts on the receipt.\<close>

definition answer :: "executor_error + verification_result \<times> receipt \<Rightarrow> (verification_result \<times> u32) option" where
  "answer res = (case res of Inl _ \<Rightarrow> None | Inr (r, x) \<Rightarrow> Some (r, rc_attempts x))"

lemma answer_simps [simp]: "answer (Inl e) = None" "answer (Inr (r, x)) = Some (r, rc_attempts x)"
  by (simp_all add: answer_def)

section \<open>Evaluation\<close>

lemma receipt_fields [simp]:
  "rc_attempts (with_contract_version_and_key rl u t a c v r n k) = n"
  "rc_result (with_contract_version_and_key rl u t a c v r n k) = r"
  "rc_idempotency_key (with_contract_version_and_key rl u t a c v r n k) = k"
  "rc_observations (with_contract_version_and_key rl u t a c v r n k) = []"
  "rc_postcondition_results (with_contract_version_and_key rl u t a c v r n k) = []"
  "rc_attempts (with_observation rl ob x) = rc_attempts x"
  "rc_result (with_observation rl ob x) = rc_result x"
  "rc_idempotency_key (with_observation rl ob x) = rc_idempotency_key x"
  "rc_observations (with_observation rl ob x) = rc_observations x @ [ob]"
  "rc_postcondition_results (with_observation rl ob x) = rc_postcondition_results x"
  by (simp_all add: with_contract_version_and_key_def with_digest_def with_observation_def Let_def)

lemma receipt_fields_result [simp]:
  "rc_attempts (with_postcondition_result rl d x) = rc_attempts x"
  "rc_result (with_postcondition_result rl d x) = rc_result x"
  "rc_idempotency_key (with_postcondition_result rl d x) = rc_idempotency_key x"
  "rc_observations (with_postcondition_result rl d x) = rc_observations x"
  "rc_postcondition_results (with_postcondition_result rl d x) = rc_postcondition_results x @ [d]"
  by (simp_all add: with_postcondition_result_def Let_def)

lemma receipt_fields_fold [simp]:
  "rc_attempts (fold (with_postcondition_result rl) ds x) = rc_attempts x"
  "rc_result (fold (with_postcondition_result rl) ds x) = rc_result x"
  "rc_idempotency_key (fold (with_postcondition_result rl) ds x) = rc_idempotency_key x"
  "rc_observations (fold (with_postcondition_result rl) ds x) = rc_observations x"
  "rc_postcondition_results (fold (with_postcondition_result rl) ds x) = rc_postcondition_results x @ ds"
  by (induction ds arbitrary: x) simp_all

named_theorems run_executor

lemmas [run_executor] = outcome_executor_def failing_executor_def counting_dispatch_def static_observer_def
  counting_observer_def slow_observer_def refusing_observer_def unavailable_observer_def test_env_def
  fresh_executor_def observing_config_def test_action_def keyed_action_def test_contract_def wants_def
  must_be_completed_def status_state_def new_action_def with_idempotency_def new_idempotency_key_def
  new_contract_def with_postcondition_def with_precondition_def new_observation_def default_executor_config_def

lemmas [run_executor] = execute_with_executor_def execute_def run_claimed_def attempt_def
  attempt_dispatched_def attempt_simulated_def prepare_def dispatch_phase_def bind_phase_def advance_or_abort_def
  abort_claimed_run_def pre_state_phase_def precondition_phase_def validate_preconditions_def observe_pre_state_def
  reject_def observe_dispatched_def observe_simulated_def fabricate_observation_def run_observer_def suspend_def
  sleep_def log_event_def verify_phase_def verify_postconditions_def evaluate_fresh_def postcondition_detail_def
  decide_def should_retry_def finish_def create_receipt_def create_receipt_with_observation_def store_receipt_def
  answer_without_run_def claim_or_check_def complete_key_def release_key_def resolve_claim_on_error_def
  registry_claim_or_check_def registry_complete_def registry_release_def new_registry_def
  advance_def transition_def new_machine_def

text \<open>
  The loop, as a rule that the simplifier can use: the next round waits until the state it
  starts from is known.
\<close>

definition next_round ::
  "('re, 'w, 's, 'r) exec_env \<Rightarrow> mode \<Rightarrow> action \<Rightarrow> contract \<Rightarrow> u32 \<Rightarrow> postcondition_result list
   \<Rightarrow> ('w, 's, 'r) exec_state
   \<Rightarrow> (executor_error + verification_result \<times> observation option \<times> u32 \<times> postcondition_result list)
      \<times> ('w, 's, 'r) exec_state" where
  "next_round = run_loop"

lemma run_loop_round [run_executor]:
  "run_loop env m act c a details st =
     (case attempt env m act c (a + 1) st of
        (Abort e, st1) \<Rightarrow> (Inl e, st1)
      | (Stop r, st1) \<Rightarrow> (Inr (r, None, a + 1, details), st1)
      | (Go (details1, Final r obs), st1) \<Rightarrow> (Inr (r, obs, a + 1, details1), st1)
      | (Go (details1, Again ms), st1) \<Rightarrow> next_round env m act c (a + 1) details1 (sleep env ms st1))"
  unfolding next_round_def by (rule run_loop.simps)

lemma next_round_known [run_executor]:
  "next_round env m act c a details \<lparr>es_world = w, es_store = s, es_receipts = r, es_trace = t\<rparr>
    = run_loop env m act c a details \<lparr>es_world = w, es_store = s, es_receipts = r, es_trace = t\<rparr>"
  by (simp add: next_round_def)

abbreviation (input) dispatching ::
  "'re test_libs \<Rightarrow> executor_config \<Rightarrow> test_adapter \<Rightarrow> test_observer option \<Rightarrow> action \<Rightarrow> contract
   \<Rightarrow> (test_world, registry, mem_receipts) exec_state
   \<Rightarrow> (executor_error + verification_result \<times> receipt) \<times> (test_world, registry, mem_receipts) exec_state" where
  "dispatching lib cfg adapter observer \<equiv> execute_with_executor (test_env lib cfg adapter observer)"

abbreviation (input) simulating ::
  "'re test_libs \<Rightarrow> executor_config \<Rightarrow> test_observer option \<Rightarrow> action \<Rightarrow> contract
   \<Rightarrow> (test_world, registry, mem_receipts) exec_state
   \<Rightarrow> (executor_error + verification_result \<times> receipt) \<times> (test_world, registry, mem_receipts) exec_state" where
  "simulating lib cfg observer \<equiv> execute (test_env lib cfg simulated_execute observer)"

section \<open>Outcomes of a dispatch\<close>

definition test_unobserved_fails :: "'re test_libs \<Rightarrow> bool" where
  "test_unobserved_fails lib =
     (map_option fst (answer (fst (simulating lib default_executor_config None (test_action lib) (wants lib ''x'')
        fresh_executor))) = Some Failed)"

definition test_cached_verdict :: "'re test_libs \<Rightarrow> bool" where
  "test_cached_verdict lib =
     (let go = simulating lib default_executor_config None (keyed_action lib ''test-key'') (wants lib ''result'');
          (first, st) = go fresh_executor
      in is_ok first \<and> answer (fst (go st)) = Some (Failed, 0))"

definition test_timeout_before_dispatch :: "'re test_libs \<Rightarrow> bool" where
  "test_timeout_before_dispatch lib =
     (answer (fst (dispatching lib default_executor_config (outcome_executor TimeoutBeforeDispatch) None
        (test_action lib) (wants lib ''result'') fresh_executor)) = Some (Failed, 3))"

definition test_transport_error_unknown :: "'re test_libs \<Rightarrow> bool" where
  "test_transport_error_unknown lib =
     (answer (fst (dispatching lib default_executor_config (outcome_executor (TransportError ''connection refused''))
        None (test_action lib) (wants lib ''result'') fresh_executor)) = Some (Unknown, 1))"

definition test_ambiguous_unknown :: "'re test_libs \<Rightarrow> bool" where
  "test_ambiguous_unknown lib =
     (answer (fst (dispatching lib default_executor_config (outcome_executor (Ambiguous ''result unclear''))
        None (test_action lib) (wants lib ''result'') fresh_executor)) = Some (Unknown, 1))"

definition test_retry_exhaustion :: "'re test_libs \<Rightarrow> bool" where
  "test_retry_exhaustion lib =
     (answer (fst (dispatching lib (observing_config 5000) (outcome_executor TimeoutBeforeDispatch) None
        (test_action lib) (wants lib ''result'') fresh_executor)) = Some (Failed, 3))"

definition test_retry_exhaustion_max_attempts :: "'re test_libs \<Rightarrow> bool" where
  "test_retry_exhaustion_max_attempts lib =
     (answer (fst (dispatching lib (observing_config 5000) (outcome_executor TimeoutBeforeDispatch) None
        (test_action lib) (wants lib ''result'') fresh_executor)) = Some (Failed, 3))"

definition test_observer_error_unknown :: "'re test_libs \<Rightarrow> bool" where
  "test_observer_error_unknown lib =
     (answer (fst (dispatching lib default_executor_config (outcome_executor Completed_out)
        (Some (refusing_observer (Unknown_err ''Observer unavailable''))) (test_action lib) (wants lib ''result'')
        fresh_executor)) = Some (Unknown, 1))"

definition test_observer_error_returns_unknown :: "'re test_libs \<Rightarrow> bool" where
  "test_observer_error_returns_unknown lib =
     (answer (fst (dispatching lib default_executor_config (outcome_executor Completed_out)
        (Some (refusing_observer (Unknown_err ''Observer unavailable''))) (test_action lib) (wants lib ''result'')
        fresh_executor)) = Some (Unknown, 1))"

definition test_stale_read_fails :: "'re test_libs \<Rightarrow> bool" where
  "test_stale_read_fails lib =
     (let state = json_object [(''result'', json_object
            [(''status'', JString ''pending''), (''updated_at'', JString ''2020-01-01T00:00:00Z'')])]
      in map_option fst (answer (fst (dispatching lib default_executor_config (outcome_executor Completed_out)
           (Some (static_observer lib state ''stale-source'')) (test_action lib) (must_be_completed lib)
           fresh_executor))) = Some Failed)"

definition test_timeout_after_dispatch :: "'re test_libs \<Rightarrow> bool" where
  "test_timeout_after_dispatch lib =
     (map_option fst (answer (fst (dispatching lib default_executor_config (outcome_executor TimeoutAfterDispatch) None
        (test_action lib) (wants lib ''result'') fresh_executor))) = Some Failed)"

definition test_default_executor_ready :: "'re test_libs \<Rightarrow> bool" where
  "test_default_executor_ready lib =
     (map_option fst (answer (fst (simulating lib default_executor_config None (test_action lib) (wants lib ''x'')
        fresh_executor))) = Some Failed)"

definition test_simulated_executor_verifies :: "'re test_libs \<Rightarrow> bool" where
  "test_simulated_executor_verifies lib =
     (case fst (dispatching lib (observing_config 1000) simulated_execute
        (Some (static_observer lib (status_state ''completed'') ''simulated'')) (test_action lib)
        (must_be_completed lib) fresh_executor) of
        Inl _ \<Rightarrow> False
      | Inr (r, x) \<Rightarrow> r = Verified \<and> rc_attempts x = 1 \<and> length (rc_observations x) = 1)"

lemmas [run_executor] = simulated_execute_def is_ok_def

lemma outcome_tests:
  "test_unobserved_fails lib" "test_cached_verdict lib" "test_timeout_before_dispatch lib"
  "test_transport_error_unknown lib" "test_ambiguous_unknown lib" "test_retry_exhaustion lib"
  "test_retry_exhaustion_max_attempts lib" "test_observer_error_unknown lib"
  "test_observer_error_returns_unknown lib" "test_stale_read_fails lib" "test_timeout_after_dispatch lib"
  "test_default_executor_ready lib" "test_simulated_executor_verifies lib"
  by (simp_all add: run_executor run_test test_unobserved_fails_def test_cached_verdict_def
      test_timeout_before_dispatch_def test_transport_error_unknown_def test_ambiguous_unknown_def
      test_retry_exhaustion_def test_retry_exhaustion_max_attempts_def test_observer_error_unknown_def
      test_observer_error_returns_unknown_def test_stale_read_fails_def test_timeout_after_dispatch_def
      test_default_executor_ready_def test_simulated_executor_verifies_def)

section \<open>What becomes of the key\<close>

text \<open>What the registry answers to the next claim of a key.\<close>

definition next_claim :: "string \<Rightarrow> (test_world, registry, mem_receipts) exec_state \<Rightarrow> claim_answer" where
  "next_claim key st = fst (registry_claim_or_check key (es_store st))"

definition test_transport_error_consumes_claim :: "'re test_libs \<Rightarrow> bool" where
  "test_transport_error_consumes_claim lib =
     (let (res, st) = dispatching lib default_executor_config (outcome_executor (TransportError ''connection refused''))
            None (keyed_action lib ''transport-outcome-key'') (wants lib ''result'') fresh_executor
      in map_option fst (answer res) = Some Unknown \<and>
         next_claim ''transport-outcome-key'' st = (AlreadyClaimed, Some Unknown))"

definition fail_once_executor :: test_adapter where
  "fail_once_executor = (\<lambda>_ w.
     let call = tw_dispatches w + 1
     in (if call = 1 then Inl (ActionNotSupported ''stage unavailable'') else Inr Completed_out,
         w\<lparr>tw_dispatches := call\<rparr>))"

definition test_adapter_error_releases_claim :: "'re test_libs \<Rightarrow> bool" where
  "test_adapter_error_releases_claim lib =
     (let key = ''adapter-error-release-key'';
          go = dispatching lib default_executor_config fail_once_executor None (keyed_action lib key) (wants lib ''result'');
          (first, st) = go fresh_executor;
          (claim, reg1) = registry_claim_or_check key (es_store st);
          (second, st2) = go (st\<lparr>es_store := registry_release key reg1\<rparr>)
      in \<not> is_ok first \<and> claim = (Claimed, None) \<and> map_option fst (answer second) = Some Failed \<and>
         tw_dispatches (es_world st2) > 1)"

definition test_ambiguous_error_consumes_claim :: "'re test_libs \<Rightarrow> bool" where
  "test_ambiguous_error_consumes_claim lib =
     (let (res, st) = dispatching lib default_executor_config (failing_executor (Ambiguous_err ''connection dropped mid-flight''))
            None (keyed_action lib ''ambiguous-adapter-key'') (wants lib ''result'') fresh_executor
      in \<not> is_ok res \<and> next_claim ''ambiguous-adapter-key'' st = (AlreadyClaimed, Some Unknown))"

fun is_timeout :: "executor_error + 'a \<Rightarrow> bool" where
  "is_timeout (Inl (Timeout_err _)) = True"
| "is_timeout _ = False"

fun is_adapter_error :: "executor_error + 'a \<Rightarrow> bool" where
  "is_adapter_error (Inl (ActionExecutor_err _)) = True"
| "is_adapter_error _ = False"

fun is_verification_error :: "executor_error + 'a \<Rightarrow> bool" where
  "is_verification_error (Inl (VerificationFailed_err _)) = True"
| "is_verification_error _ = False"

definition test_observer_timeout_consumes_claim :: "'re test_libs \<Rightarrow> bool" where
  "test_observer_timeout_consumes_claim lib =
     (let (res, st) = dispatching lib (observing_config 50) (outcome_executor Completed_out)
            (Some (slow_observer lib 200)) (keyed_action lib ''observer-timeout-key'') (wants lib ''result'') fresh_executor
      in is_timeout res \<and> next_claim ''observer-timeout-key'' st = (AlreadyClaimed, Some Unknown))"

definition test_observer_error_consumes_claim :: "'re test_libs \<Rightarrow> bool" where
  "test_observer_error_consumes_claim lib =
     (let (res, st) = dispatching lib default_executor_config (outcome_executor Completed_out)
            (Some (refusing_observer (ActionExecutor_err ''collector returned 500'')))
            (keyed_action lib ''observer-error-key'') (wants lib ''result'') fresh_executor
      in is_adapter_error res \<and> next_claim ''observer-error-key'' st = (AlreadyClaimed, Some Unknown))"

text \<open>A contract whose pattern does not compile.\<close>

definition invalid_pattern :: "'re test_libs \<Rightarrow> contract" where
  "invalid_pattern lib =
     with_postcondition (p_matches ''result'' ''[invalid('') ''result must match the pattern'' (test_contract lib)"

definition completed_observer :: "'re test_libs \<Rightarrow> string \<Rightarrow> test_observer" where
  "completed_observer lib source = static_observer lib (json_object [(''result'', JString ''completed'')]) source"

definition test_verification_error_consumes_claim :: "'re test_libs \<Rightarrow> bool" where
  "test_verification_error_consumes_claim lib =
     (let (res, st) = dispatching lib default_executor_config (outcome_executor Completed_out)
            (Some (completed_observer lib ''post-dispatch'')) (keyed_action lib ''verify-error-key'')
            (invalid_pattern lib) fresh_executor
      in is_verification_error res \<and> next_claim ''verify-error-key'' st = (AlreadyClaimed, Some Unknown))"

definition test_simulated_verification_error_releases :: "'re test_libs \<Rightarrow> bool" where
  "test_simulated_verification_error_releases lib =
     (let (res, st) = simulating lib default_executor_config (Some (completed_observer lib ''simulated''))
            (keyed_action lib ''simulated-verify-error-key'') (invalid_pattern lib) fresh_executor
      in is_verification_error res \<and> next_claim ''simulated-verify-error-key'' st = (Claimed, None))"

definition test_adapter_errors_release_when_unsent :: bool where
  "test_adapter_errors_release_when_unsent =
     (list_all (\<lambda>e. claim_policy_for e = Release)
        [ActionNotSupported ''unsupported'', TimeoutBeforeDispatch_err, Rejected_err ''quota exceeded''] \<and>
      list_all (\<lambda>e. claim_policy_for e = ConsumeUnknown)
        [TransportError_err ''connection reset'', TimeoutAfterDispatch_err, Ambiguous_err ''split brain''])"

definition test_key_prevents_double_dispatch :: "'re test_libs \<Rightarrow> bool" where
  "test_key_prevents_double_dispatch lib =
     (let go = dispatching lib default_executor_config (outcome_executor Completed_out)
            (Some (static_observer lib (status_state ''completed'') ''fast''))
            (keyed_action lib ''idempotent-test-key'') (must_be_completed lib);
          (first, st) = go fresh_executor
      in (case answer first of None \<Rightarrow> False | Some (r, n) \<Rightarrow> r = Verified \<and> n \<ge> 1) \<and>
         (case answer (fst (go st)) of
            None \<Rightarrow> False | Some (r, n) \<Rightarrow> (r = Duplicate \<or> r = Verified) \<and> n = 0))"

definition test_registry_release_frees :: bool where
  "test_registry_release_frees =
     (let ((claim, _), reg1) = registry_claim_or_check ''released-key'' new_registry
      in claim = Claimed \<and>
         fst (registry_claim_or_check ''released-key'' (registry_release ''released-key'' reg1)) = (Claimed, None))"

definition test_transport_error_key_not_redispatched :: "'re test_libs \<Rightarrow> bool" where
  "test_transport_error_key_not_redispatched lib =
     (let (res, st) = dispatching lib default_executor_config (outcome_executor (TransportError ''connection refused''))
            None (keyed_action lib ''transport-failure-key'') (wants lib ''result'') fresh_executor
      in answer res = Some (Unknown, 1) \<and>
         next_claim ''transport-failure-key'' st = (AlreadyClaimed, Some Unknown))"

lemmas [run_executor] = next_claim_def fail_once_executor_def invalid_pattern_def completed_observer_def
  new_engine_def

lemma key_tests:
  "test_transport_error_consumes_claim lib" "test_adapter_error_releases_claim lib"
  "test_ambiguous_error_consumes_claim lib" "test_observer_timeout_consumes_claim lib"
  "test_observer_error_consumes_claim lib" test_adapter_errors_release_when_unsent
  "test_key_prevents_double_dispatch lib" test_registry_release_frees
  "test_transport_error_key_not_redispatched lib"
  by (simp_all add: run_executor run_test test_transport_error_consumes_claim_def
      test_adapter_error_releases_claim_def test_ambiguous_error_consumes_claim_def
      test_observer_timeout_consumes_claim_def test_observer_error_consumes_claim_def
      test_adapter_errors_release_when_unsent_def test_key_prevents_double_dispatch_def
      test_registry_release_frees_def test_transport_error_key_not_redispatched_def)

lemma verification_error_tests:
  assumes "rx_new (tl_engine lib) ''[invalid('' = Inl e"
  shows "test_verification_error_consumes_claim lib" "test_simulated_verification_error_releases lib"
  using assms by (simp_all add: run_executor run_test test_verification_error_consumes_claim_def
      test_simulated_verification_error_releases_def)

section \<open>Preconditions\<close>

definition gate :: "'re test_libs \<Rightarrow> contract" where
  "gate lib = with_precondition (p_equals ''gate'' (JString ''open'')) ''gate must be open'' (test_contract lib)"

definition gate_present :: "'re test_libs \<Rightarrow> contract" where
  "gate_present lib = with_postcondition (p_exists ''result'') ''result exists''
     (with_precondition (p_exists ''gate'') ''gate must be open'' (test_contract lib))"

definition x_is_one :: predicate where
  "x_is_one = p_equals ''x'' (JNumber (PosInt 1))"

definition test_simulated_rejects_precondition :: "'re test_libs \<Rightarrow> bool" where
  "test_simulated_rejects_precondition lib =
     (let state = json_object [(''x'', JNumber (PosInt 1)), (''gate'', JString ''closed'')];
          (res, st) = simulating lib (observing_config 1000) (Some (counting_observer lib state)) (test_action lib)
            (with_postcondition x_is_one ''x is 1'' (gate lib)) fresh_executor
      in (case res of
            Inl _ \<Rightarrow> False
          | Inr (r, x) \<Rightarrow> r = Failed \<and> rc_attempts x = 1 \<and> rc_postcondition_results x = []) \<and>
         tw_observations (es_world st) = 1)"

definition test_rejects_precondition :: "'re test_libs \<Rightarrow> bool" where
  "test_rejects_precondition lib =
     (let (res, st) = dispatching lib (observing_config 1000) counting_dispatch
            (Some (counting_observer lib (json_object [(''gate'', JString ''closed'')]))) (test_action lib)
            (with_postcondition (p_exists ''result'') ''result exists'' (gate lib)) fresh_executor
      in answer res = Some (Failed, 1) \<and> tw_dispatches (es_world st) = 0)"

definition test_no_precondition_observes_once :: "'re test_libs \<Rightarrow> bool" where
  "test_no_precondition_observes_once lib =
     (let (res, st) = dispatching lib (observing_config 1000) counting_dispatch
            (Some (counting_observer lib (status_state ''completed''))) (test_action lib) (must_be_completed lib)
            fresh_executor
      in answer res = Some (Verified, 1) \<and> es_world st = \<lparr>tw_dispatches = 1, tw_observations = 1\<rparr>)"

definition test_satisfied_precondition_dispatches :: "'re test_libs \<Rightarrow> bool" where
  "test_satisfied_precondition_dispatches lib =
     (let state = json_object [(''gate'', JString ''open''), (''result'', json_object [(''status'', JString ''done'')])];
          (res, st) = dispatching lib (observing_config 1000) counting_dispatch (Some (counting_observer lib state))
            (test_action lib)
            (with_postcondition (p_equals ''result.status'' (JString ''done'')) ''result must be done'' (gate lib))
            fresh_executor
      in answer res = Some (Verified, 1) \<and> es_world st = \<lparr>tw_dispatches = 1, tw_observations = 2\<rparr>)"

definition test_simulated_satisfied_precondition :: "'re test_libs \<Rightarrow> bool" where
  "test_simulated_satisfied_precondition lib =
     (let state = json_object [(''gate'', JString ''open''), (''x'', JNumber (PosInt 1))]
      in answer (fst (simulating lib (observing_config 1000) (Some (static_observer lib state ''pre-dispatch''))
           (test_action lib) (with_postcondition x_is_one ''x is 1'' (gate lib)) fresh_executor)) = Some (Verified, 1))"

definition test_precondition_on_arguments :: "'re test_libs \<Rightarrow> bool" where
  "test_precondition_on_arguments lib =
     (let state = json_object [(''account'', json_object [(''status'', JString ''active'')])];
          expected = p_equals ''account.status'' (JString ''$args.expected_status'');
          act = new_action (tl_uid lib) (tl_now lib) ''test'' (json_object [(''expected_status'', JString ''active'')]);
          (res, st) = dispatching lib (observing_config 1000) counting_dispatch (Some (counting_observer lib state)) act
            (with_postcondition expected ''account is still in the requested status''
              (with_precondition expected ''account must already be in the requested status'' (test_contract lib)))
            fresh_executor
      in map_option fst (answer res) = Some Verified \<and> tw_dispatches (es_world st) = 1)"

definition test_precondition_without_observer :: "'re test_libs \<Rightarrow> bool" where
  "test_precondition_without_observer lib =
     (let (res, st) = dispatching lib (observing_config 1000) counting_dispatch None (test_action lib)
            (gate_present lib) fresh_executor
      in (case validate_preconditions (tl_engine lib) (tl_receipt lib) (test_action lib) (gate_present lib) None of
            Inr _ \<Rightarrow> False | Inl message \<Rightarrow> contains_str ''precondition'' message) \<and>
         answer res = Some (Failed, 1) \<and> tw_dispatches (es_world st) = 0)"

definition test_pre_observation_error :: "'re test_libs \<Rightarrow> bool" where
  "test_pre_observation_error lib =
     (let (res, st) = dispatching lib (observing_config 1000) counting_dispatch (Some unavailable_observer)
            (test_action lib) (gate_present lib) fresh_executor
      in answer res = Some (Failed, 1) \<and> tw_dispatches (es_world st) = 0)"

definition test_pre_observation_timeout :: "'re test_libs \<Rightarrow> bool" where
  "test_pre_observation_timeout lib =
     (let (res, st) = dispatching lib (observing_config 40) counting_dispatch (Some (slow_observer lib 250))
            (test_action lib) (gate_present lib) fresh_executor
      in answer res = Some (Failed, 1) \<and> tw_dispatches (es_world st) = 0)"

definition test_validate_preconditions :: "'re test_libs \<Rightarrow> bool" where
  "test_validate_preconditions lib =
     (let check = validate_preconditions (tl_engine lib) (tl_receipt lib);
          on = (\<lambda>status. new_action (tl_uid lib) (tl_now lib) ''test'' (json_object [(''expected_status'', JString status)]));
          pre_state = json_object [(''account'', json_object [(''status'', JString ''active'')])];
          present = with_precondition (p_exists ''account.status'') ''account must be present'' (test_contract lib);
          absent = with_precondition (p_not_exists ''audit_entry'') ''no audit entry yet'' (test_contract lib);
          lacking = with_precondition (p_exists ''ledger_row'') ''ledger row must exist'' (test_contract lib);
          ordered = with_precondition (p_exists ''second'') ''second present''
            (with_precondition (p_exists ''account'') ''account present'' (test_contract lib));
          on_args = with_precondition (p_equals ''account.status'' (JString ''$args.expected_status''))
            ''status must match the requested status'' (test_contract lib)
      in check (on ''active'') present (Some pre_state) = Inr () \<and>
         check (on ''active'') absent (Some (json_object [])) = Inr () \<and>
         check (on ''active'') lacking (Some pre_state) = Inl ''Precondition failed: ledger row must exist'' \<and>
         check (on ''active'') ordered (Some pre_state) = Inl ''Precondition failed: second present'' \<and>
         check (on ''active'') on_args (Some pre_state) = Inr () \<and>
         check (on ''closed'') on_args (Some pre_state)
           = Inl ''Precondition failed: status must match the requested status'' \<and>
         (case check (on ''active'') present None of
            Inr _ \<Rightarrow> False
          | Inl e \<Rightarrow> contains_str ''1 precondition(s)'' e \<and>
              contains_str ''no pre-execution state was observed'' e \<and> contains_str ''configure an observer'' e) \<and>
         check (on ''active'') (test_contract lib) None = Inr ())"

text \<open>The message names what is missing, whatever the contract's identifier looks like.\<close>

lemma contains_str_after: "contains_str p s \<Longrightarrow> contains_str p (a @ s)"
  unfolding contains_str_iff sublist_def by (metis append.assoc)

lemma missing_message:
  assumes "length (preconditions c) = 1"
    and "p \<in> {''precondition'', ''1 precondition(s)'', ''no pre-execution state was observed'', ''configure an observer''}"
  shows "contains_str p (missing_pre_state_message rl c)"
proof -
  let ?rest = "CHR 0x27 # '' declares 1 precondition(s) but no pre-execution state was observed; configure an observer so preconditions can be checked before dispatch''"
  have "missing_pre_state_message rl c = (''Contract '' @ [CHR 0x27] @ show_uuid rl (contract_id c)) @ ?rest"
    using assms(1) by (simp add: missing_pre_state_message_def show_nat.simps digit_char_def char_of_def bit_0)
  moreover have "contains_str p ?rest" using assms(2) by (auto simp: starts_with_def)
  ultimately show ?thesis by (simp only: contains_str_after)
qed

lemmas [run_executor] = gate_def gate_present_def x_is_one_def

lemma precondition_tests:
  "test_simulated_rejects_precondition lib" "test_rejects_precondition lib"
  "test_no_precondition_observes_once lib" "test_satisfied_precondition_dispatches lib"
  "test_simulated_satisfied_precondition lib" "test_precondition_on_arguments lib"
  "test_precondition_without_observer lib" "test_pre_observation_error lib" "test_pre_observation_timeout lib"
  "test_validate_preconditions lib"
  by (simp_all add: run_executor run_test missing_message test_simulated_rejects_precondition_def
      test_rejects_precondition_def test_no_precondition_observes_once_def
      test_satisfied_precondition_dispatches_def test_simulated_satisfied_precondition_def
      test_precondition_on_arguments_def test_precondition_without_observer_def test_pre_observation_error_def
      test_pre_observation_timeout_def test_validate_preconditions_def)

section \<open>Evidence, errors and timeouts\<close>

definition test_records_evidence :: "'re test_libs \<Rightarrow> bool" where
  "test_records_evidence lib =
     (case fst (simulating lib (observing_config 1000) (Some (completed_observer lib ''postgres-primary''))
        (keyed_action lib ''evidence-key'')
        (with_postcondition (p_equals ''result'' (JString ''completed'')) ''result must be completed'' (test_contract lib))
        fresh_executor) of
        Inl _ \<Rightarrow> False
      | Inr (r, x) \<Rightarrow> r = Verified \<and> rc_result x = Verified \<and> rc_attempts x = 1 \<and>
          rc_idempotency_key x = Some ''evidence-key'' \<and> length (rc_observations x) = 1 \<and>
          obs_source (rc_observations x ! 0) = ''postgres-primary'' \<and> length (rc_postcondition_results x) = 1 \<and>
          pcr_passed (rc_postcondition_results x ! 0) \<and> pcr_error (rc_postcondition_results x ! 0) = None)"

definition test_receipt_has_key :: "'re test_libs \<Rightarrow> bool" where
  "test_receipt_has_key lib =
     (case fst (simulating lib default_executor_config None (keyed_action lib ''test-key-123'') (wants lib ''result'')
        fresh_executor) of
        Inl _ \<Rightarrow> False | Inr (_, x) \<Rightarrow> rc_idempotency_key x = Some ''test-key-123'')"

definition test_simulated_observer_failure :: "'re test_libs \<Rightarrow> bool" where
  "test_simulated_observer_failure lib =
     (fst (simulating lib (observing_config 1000) (Some unavailable_observer) (test_action lib) (wants lib ''result'')
        fresh_executor) = Inl (ContractNotFound ''state_source''))"

text \<open>The error is a timeout whose message contains \<open>part\<close>.\<close>

definition timeout_naming :: "string \<Rightarrow> executor_error + 'a \<Rightarrow> bool" where
  "timeout_naming part res = (case res of Inl (Timeout_err message) \<Rightarrow> contains_str part message | _ \<Rightarrow> False)"

definition test_simulated_observation_timeout :: "'re test_libs \<Rightarrow> bool" where
  "test_simulated_observation_timeout lib =
     timeout_naming ''40ms'' (fst (simulating lib (observing_config 40) (Some (slow_observer lib 250))
       (test_action lib) (wants lib ''result'') fresh_executor))"

definition test_observer_failure :: "'re test_libs \<Rightarrow> bool" where
  "test_observer_failure lib =
     (case fst (dispatching lib (observing_config 1000) (outcome_executor Completed_out) (Some unavailable_observer)
        (test_action lib) (wants lib ''result'') fresh_executor) of
        Inl (ContractNotFound _) \<Rightarrow> True | _ \<Rightarrow> False)"

definition test_observation_timeout :: "'re test_libs \<Rightarrow> bool" where
  "test_observation_timeout lib =
     timeout_naming ''40ms'' (fst (dispatching lib (observing_config 40) (outcome_executor Accepted)
       (Some (slow_observer lib 250)) (test_action lib) (wants lib ''result'') fresh_executor))"

definition with_optional :: "'re test_libs \<Rightarrow> contract" where
  "with_optional lib =
     (let c = with_postcondition (p_not_exists ''rollback_entry'') ''no rollback entry'' (test_contract lib)
      in c\<lparr>postconditions := postconditions c @ [\<lparr>post_predicate = p_exists ''optional_receipt'',
             post_description = ''optional receipt recorded'', mandatory = False\<rparr>]\<rparr>)"

definition test_partial_is_terminal :: "'re test_libs \<Rightarrow> bool" where
  "test_partial_is_terminal lib =
     (case fst (dispatching lib (observing_config 1000) (outcome_executor Completed_out) None (test_action lib)
        (with_optional lib) fresh_executor) of
        Inl _ \<Rightarrow> False
      | Inr (r, x) \<Rightarrow> r = Partial \<and> rc_result x = Partial \<and> rc_attempts x = 1 \<and>
          map pcr_passed (rc_postcondition_results x) = [True, False])"

definition test_simulated_partial_is_terminal :: "'re test_libs \<Rightarrow> bool" where
  "test_simulated_partial_is_terminal lib =
     (answer (fst (simulating lib (observing_config 1000) None (test_action lib) (with_optional lib) fresh_executor))
      = Some (Partial, 1))"

definition test_mandatory_failure :: "'re test_libs \<Rightarrow> bool" where
  "test_mandatory_failure lib =
     (case fst (simulating lib (observing_config 1000) None (test_action lib)
        (with_postcondition (p_exists ''required_receipt'') ''required receipt'' (test_contract lib)) fresh_executor) of
        Inl _ \<Rightarrow> False
      | Inr (r, x) \<Rightarrow> r = Failed \<and> \<not> pcr_passed (rc_postcondition_results x ! 0) \<and>
          pcr_error (rc_postcondition_results x ! 0) = None)"

text \<open>The SiblingWinsStore: its state says whether the key was asked for before.\<close>

definition sibling_claim :: "verification_result \<Rightarrow> string \<Rightarrow> bool \<Rightarrow> claim_answer \<times> bool" where
  "sibling_claim result key asked = ((AlreadyClaimed, if asked then Some result else None), True)"

definition sibling_env :: "'re test_libs \<Rightarrow> ('re, test_world, bool, mem_receipts) exec_env" where
  "sibling_env lib =
     \<lparr>ee_config = default_executor_config, ee_claim = sibling_claim Verified, ee_complete = (\<lambda>_ _ s. s),
      ee_release = (\<lambda>_ s. s), ee_others = (\<lambda>_ s. s), ee_receipt_store = None, ee_observer = None,
      ee_dispatch = outcome_executor Completed_out, ee_fresh = (\<lambda>w. ((tl_fresh_id lib w, tl_clock lib w), w)),
      ee_engine = tl_engine lib, ee_receipt_lib = tl_receipt lib, ee_backoff_lib = tl_backoff lib\<rparr>"

definition test_poll_returns_sibling_result :: "'re test_libs \<Rightarrow> bool" where
  "test_poll_returns_sibling_result lib =
     (answer (fst (execute_with_executor (sibling_env lib) (keyed_action lib ''sibling-key'') (wants lib ''result'')
        \<lparr>es_world = \<lparr>tw_dispatches = 0, tw_observations = 0\<rparr>, es_store = False,
         es_receipts = new_mem_receipts, es_trace = []\<rparr>)) = Some (Verified, 0))"

lemmas [run_executor] = with_optional_def sibling_env_def sibling_claim_def timeout_naming_def
  observation_timeout_text_def timeout_text_def

lemma forty: "show_nat 40 = ''40''"
  by (simp add: show_nat.simps digit_char_def char_of_def bit_0)

lemma evidence_tests:
  "test_records_evidence lib" "test_receipt_has_key lib" "test_simulated_observer_failure lib"
  "test_simulated_observation_timeout lib" "test_observer_failure lib" "test_observation_timeout lib"
  "test_partial_is_terminal lib" "test_simulated_partial_is_terminal lib" "test_mandatory_failure lib"
  "test_poll_returns_sibling_result lib"
  by (simp_all add: run_executor run_test forty test_records_evidence_def test_receipt_has_key_def
      test_simulated_observer_failure_def test_simulated_observation_timeout_def test_observer_failure_def
      test_observation_timeout_def test_partial_is_terminal_def test_simulated_partial_is_terminal_def
      test_mandatory_failure_def test_poll_returns_sibling_result_def)

section \<open>Retries and backoff\<close>

definition fast_recovery :: "recovery_strategy \<Rightarrow> u32 \<Rightarrow> recovery_config" where
  "fast_recovery s n =
     \<lparr>strategy = s, max_attempts = n,
      backoff = Some \<lparr>backoff_type = Linear, bc_initial = 10 ^ 6, bc_max = 2 * 10 ^ 6,
        bc_multiplier = 0x4000000000000000\<rparr>,
      on_unknown = []\<rparr>"

definition pending_run :: "'re test_libs \<Rightarrow> executor_config \<Rightarrow> recovery_config \<Rightarrow> executor_error + verification_result \<times> receipt" where
  "pending_run lib cfg rec =
     fst (dispatching lib cfg (outcome_executor Completed_out)
       (Some (static_observer lib (status_state ''pending'') ''stale'')) (test_action lib)
       (with_recovery rec (must_be_completed lib)) fresh_executor)"

definition test_recovery_config_drives_attempts :: "'re test_libs \<Rightarrow> bool" where
  "test_recovery_config_drives_attempts lib =
     (case pending_run lib (observing_config 1000) (fast_recovery VerifyThenRetry 2) of
        Inl _ \<Rightarrow> False
      | Inr (r, x) \<Rightarrow> r = Failed \<and> rc_attempts x = 2 \<and> map pcr_passed (rc_postcondition_results x) = [False])"

definition test_no_action_suppresses_retries :: "'re test_libs \<Rightarrow> bool" where
  "test_no_action_suppresses_retries lib =
     (answer (pending_run lib (observing_config 1000) (fast_recovery NoAction 5)) = Some (Failed, 1))"

definition test_verify_before_retry_disabled :: "'re test_libs \<Rightarrow> bool" where
  "test_verify_before_retry_disabled lib =
     (answer (pending_run lib \<lparr>verification_timeout_ms = 1000, max_retries = 3, verify_before_retry = False\<rparr>
        (fast_recovery VerifyThenRetry 3)) = Some (Failed, 1))"

definition test_should_retry :: bool where
  "test_should_retry =
     (let retry_twice = Some (fast_recovery VerifyThenRetry 2); never = Some (fast_recovery NoAction 5)
      in should_retry 1 retry_twice 3 \<and> \<not> should_retry 2 retry_twice 3 \<and> \<not> should_retry 1 never 3 \<and>
         should_retry 2 None 3 \<and> \<not> should_retry 3 None 3)"

text \<open>The multipliers 2.0 and 3.0.\<close>

definition test_calculate_backoff :: "backoff_lib \<Rightarrow> bool" where
  "test_calculate_backoff bl =
     (let linear = fast_recovery VerifyThenRetry 3;
          exponential = linear\<lparr>backoff := Some \<lparr>backoff_type = Exponential, bc_initial = 10 * 10 ^ 6,
            bc_max = 50 * 10 ^ 6, bc_multiplier = 0x4008000000000000\<rparr>\<rparr>;
          delay = (\<lambda>attempt rec. calculate_backoff bl attempt rec 100 5000 0x4000000000000000)
      in delay 1 (Some linear) = 1 \<and> delay 3 (Some linear) = 2 \<and>
         delay 1 (Some exponential) = 10 \<and> delay 2 (Some exponential) = 30 \<and> delay 5 (Some exponential) = 50 \<and>
         delay 2 (Some (linear\<lparr>backoff := None\<rparr>)) = 200 \<and> delay 2 None = 200 \<and> delay 20 None = 5000)"

lemmas [run_executor] = fast_recovery_def pending_run_def with_recovery_def

lemma retry_decision_tests:
  "test_recovery_config_drives_attempts lib" "test_no_action_suppresses_retries lib"
  "test_verify_before_retry_disabled lib" test_should_retry
  by (simp_all add: run_executor run_test test_recovery_config_drives_attempts_def
      test_no_action_suppresses_retries_def test_verify_before_retry_disabled_def test_should_retry_def)

text \<open>The durations and powers of the test.\<close>

lemma backoff_products:
  "f64_as_u64 (f64_mul (f64_of_nat 10) 0x3FF0000000000000) = 10"
  "f64_as_u64 (f64_mul (f64_of_nat 10) 0x4008000000000000) = 30"
  "f64_as_u64 (f64_mul (f64_of_nat 10) 0x4054400000000000) = 810"
  "f64_as_u64 (f64_mul (f64_of_nat 100) 0x4000000000000000) = 200"
  "f64_as_u64 (f64_mul (f64_of_nat 100) 0x4120000000000000) = 52428800"
  by (simp_all add: f64_mul_def f64_round_def f64_neg_def f64_is_nan_def f64_is_inf_def f64_exp_def f64_frac_def
      f64_mag_def f64_mant_def f64_scale_def bit_len.simps round_half_even_def Let_def f64_as_u64_def
      f64_trunc_abs_def f64_of_nat_def)

lemma backoff_test:
  assumes "num_milliseconds bl (10 ^ 6) = 1" "num_milliseconds bl (2 * 10 ^ 6) = 2"
    "num_milliseconds bl (10 * 10 ^ 6) = 10" "num_milliseconds bl (50 * 10 ^ 6) = 50"
    and "f64_powi bl 0x4008000000000000 0 = 0x3FF0000000000000" "f64_powi bl 0x4008000000000000 1 = 0x4008000000000000"
    "f64_powi bl 0x4008000000000000 4 = 0x4054400000000000" "f64_powi bl 0x4000000000000000 1 = 0x4000000000000000"
    "f64_powi bl 0x4000000000000000 19 = 0x4120000000000000"
  shows "test_calculate_backoff bl"
  using assms backoff_products
  by (simp add: test_calculate_backoff_def fast_recovery_def calculate_backoff_def exponential_delay_def Let_def
      min_def word_le_nat_alt)

section \<open>Receipts\<close>

definition keeping_env :: "'re test_libs \<Rightarrow> ('re, test_world, registry, mem_receipts) exec_env" where
  "keeping_env lib = (test_env lib default_executor_config simulated_execute None)\<lparr>ee_receipt_store := Some mem_store\<rparr>"

definition test_receipt_persisted :: "'re test_libs \<Rightarrow> bool" where
  "test_receipt_persisted lib =
     (case execute (keeping_env lib) (test_action lib) (wants lib ''result'') fresh_executor of
        (Inl _, _) \<Rightarrow> False
      | (Inr (_, x), st) \<Rightarrow>
          (case mem_get (rc_id x) (es_receipts st) of None \<Rightarrow> False | Some y \<Rightarrow> rc_id y = rc_id x))"

definition test_receipt_retrievable :: "'re test_libs \<Rightarrow> bool" where
  "test_receipt_retrievable lib =
     (case execute (keeping_env lib) (test_action lib) (wants lib ''result'') fresh_executor of
        (Inl _, _) \<Rightarrow> False
      | (Inr (_, x), st) \<Rightarrow>
          (case get_receipt (Some mem_get) (rc_id x) (es_receipts st) of None \<Rightarrow> False | Some y \<Rightarrow> rc_id y = rc_id x))"

definition test_no_receipt_store :: "'re test_libs \<Rightarrow> bool" where
  "test_no_receipt_store lib =
     (case simulating lib default_executor_config None (test_action lib) (wants lib ''result'') fresh_executor of
        (Inl _, _) \<Rightarrow> False
      | (Inr (_, x), st) \<Rightarrow> get_receipt None (rc_id x) (es_receipts st) = None)"

lemmas [run_executor] = keeping_env_def mem_store_def mem_get_def get_receipt_def

lemma receipt_tests: "test_receipt_persisted lib" "test_receipt_retrievable lib" "test_no_receipt_store lib"
  by (simp_all add: run_executor run_test test_receipt_persisted_def test_receipt_retrievable_def
      test_no_receipt_store_def)

section \<open>Dispatch outcomes\<close>

definition test_terminal_outcomes :: bool where
  "test_terminal_outcomes =
     (map outcome_is_terminal [Completed_out, TransportError ''connection refused'', Ambiguous ''state unclear'',
        Accepted, TimeoutBeforeDispatch, TimeoutAfterDispatch] = [True, True, True, False, False, False])"

definition test_timeout_outcomes :: bool where
  "test_timeout_outcomes =
     (map outcome_is_timeout [TimeoutBeforeDispatch, TimeoutAfterDispatch, Accepted, Completed_out,
        TransportError ''dns failure'', Ambiguous ''state unclear''] = [True, True, False, False, False, False])"

definition test_retriable_outcomes :: bool where
  "test_retriable_outcomes =
     (map outcome_should_retry [TimeoutBeforeDispatch, TimeoutAfterDispatch, Accepted, Completed_out,
        TransportError ''connection reset'', Ambiguous ''state unclear''] = [True, True, False, False, False, False])"

definition test_dispatch_error_messages :: bool where
  "test_dispatch_error_messages =
     (map show_dispatch_error [ActionNotSupported ''purge_all'', TransportError_err ''connection refused'',
        TimeoutBeforeDispatch_err, TimeoutAfterDispatch_err, Rejected_err ''quota exceeded'', Ambiguous_err ''split brain'']
      = [''Action not supported: purge_all'', ''Transport error: connection refused'', ''Timeout before dispatch'',
         ''Timeout after dispatch'', ''Action rejected: quota exceeded'', ''Ambiguous result: split brain''])"

definition test_simulated_reports_completion :: "action \<Rightarrow> test_world \<Rightarrow> bool" where
  "test_simulated_reports_completion act w =
     (case fst (simulated_execute act w) of
        Inl _ \<Rightarrow> False | Inr d \<Rightarrow> outcome_is_terminal d \<and> \<not> outcome_is_timeout d \<and> \<not> outcome_should_retry d)"

definition test_simulated_default :: "action \<Rightarrow> test_world \<Rightarrow> bool" where
  "test_simulated_default act w = (fst (simulated_execute act w) = Inr Completed_out)"

lemma dispatch_outcome_tests:
  test_terminal_outcomes test_timeout_outcomes test_retriable_outcomes test_dispatch_error_messages
  "test_simulated_reports_completion act w" "test_simulated_default act w"
  by (simp_all add: simulated_execute_def outcome_is_timeout_def outcome_should_retry_def test_terminal_outcomes_def
      test_timeout_outcomes_def test_retriable_outcomes_def test_dispatch_error_messages_def
      test_simulated_reports_completion_def test_simulated_default_def)

end
