(* ===== verification/Store_Tests.thy ===== *)
theory Store_Tests
  imports Idempotency Receipt_Store
begin

text \<open>
  Unit tests of the stores and of receipts run on the model: those of the file store of
  \<open>idempotency_store.rs\<close>, of \<open>receipt.rs\<close> and of \<open>signing.rs\<close>. Each definition is a test function,
  true when its assertions hold; a temporary directory is an empty file system, and dropping it
  makes every later write fail. That serde reads back what it wrote is a hypothesis of the lemmas,
  and so is that a test's identifiers are distinct. Tests of \<open>Debug\<close> and of the text that serde writes
  are left out.
\<close>

named_theorems store_test

section \<open>The file idempotency store\<close>

text \<open>The outside of one call that goes well, and of one whose directory is gone.\<close>

definition fine :: "string \<Rightarrow> idem_io" where
  "fine now = \<lparr>io_now = now, io_read_ok = True, io_write = WriteOk, io_rename_ok = True,
     io_remove_ok = True\<rparr>"

definition gone :: "string \<Rightarrow> idem_io" where
  "gone now = (fine now)\<lparr>io_write := WriteFails None, io_rename_ok := False, io_remove_ok := False\<rparr>"

lemma fine_sel [simp]:
  "io_now (fine n) = n" "io_read_ok (fine n)" "io_write (fine n) = WriteOk" "io_rename_ok (fine n)"
  "io_remove_ok (fine n)"
  by (simp_all add: fine_def)

lemma gone_sel [simp]:
  "io_now (gone n) = n" "io_read_ok (gone n)" "io_write (gone n) = WriteFails None"
  by (simp_all add: gone_def)

definition test_file_claim_and_complete :: "file_idem_lib \<Rightarrow> string \<Rightarrow> path \<Rightarrow> bool" where
  "test_file_claim_and_complete ext now dir =
     (let key = ''test-key-123'';
          store = new_file_idem dir Map.empty;
          (a1, store) = file_claim_or_check ext (fine now) key store;
          (a2, store) = file_claim_or_check ext (fine now) key store;
          store = file_complete ext (fine now) key Verified store;
          (a3, store) = file_claim_or_check ext (fine now) key store
      in fst a1 = Claimed \<and> fst a2 = AlreadyClaimed \<and> a3 = (AlreadyClaimed, Some Verified))"

definition test_file_release :: "file_idem_lib \<Rightarrow> string \<Rightarrow> path \<Rightarrow> bool" where
  "test_file_release ext now dir =
     (let key = ''release-test-key'';
          (a1, store) = file_claim_or_check ext (fine now) key (new_file_idem dir Map.empty);
          store = file_release ext (fine now) key store;
          (a2, store) = file_claim_or_check ext (fine now) key store
      in fst a1 = Claimed \<and> fst a2 = Claimed)"

definition test_file_persists_across_instances :: "file_idem_lib \<Rightarrow> string \<Rightarrow> path \<Rightarrow> bool" where
  "test_file_persists_across_instances ext now dir =
     (let key = ''persist-key'';
          (a1, store1) = file_claim_or_check ext (fine now) key (new_file_idem dir Map.empty);
          store1 = file_complete ext (fine now) key Verified store1;
          (a2, store2) = file_claim_or_check ext (fine now) key (new_file_idem dir (fi_fs store1))
      in fst a1 = Claimed \<and> a2 = (AlreadyClaimed, Some Verified))"

definition test_file_roundtrips_every_result :: "file_idem_lib \<Rightarrow> string \<Rightarrow> path \<Rightarrow> string \<Rightarrow> bool" where
  "test_file_roundtrips_every_result ext now dir key =
     list_all (\<lambda>expected.
       let (claim, writer) = file_claim_or_check ext (fine now) key (new_file_idem dir Map.empty);
           writer = file_complete ext (fine now) key expected writer;
           (observed, reader) = file_claim_or_check ext (fine now) key (new_file_idem dir (fi_fs writer))
       in claim = (Claimed, None) \<and> observed = (AlreadyClaimed, Some expected))
     [Verified, Failed, Unknown, Partial, Duplicate]"

definition test_file_reports_in_flight :: "file_idem_lib \<Rightarrow> string \<Rightarrow> path \<Rightarrow> string \<Rightarrow> bool" where
  "test_file_reports_in_flight ext now dir key =
     (let (a1, claimer) = file_claim_or_check ext (fine now) key (new_file_idem dir Map.empty);
          (a2, second_instance) =
            file_claim_or_check ext (fine now) key (new_file_idem dir (fi_fs claimer));
          claimer = file_complete ext (fine now) key Partial (claimer\<lparr>fi_fs := fi_fs second_instance\<rparr>);
          (a3, claimer) = file_claim_or_check ext (fine now) key claimer;
          (a4, third_instance) =
            file_claim_or_check ext (fine now) key (new_file_idem dir (fi_fs claimer))
      in fst a1 = Claimed \<and> a2 = (AlreadyClaimed, None) \<and> a3 = (AlreadyClaimed, Some Partial) \<and>
         a4 = (AlreadyClaimed, Some Partial))"

text \<open>The next three write an entry by hand: its text is \<open>foreign\<close>, and bytes that are no UTF-8 make
  the read fail.\<close>

definition test_file_ignores_unknown_outcomes ::
  "file_idem_lib \<Rightarrow> string \<Rightarrow> path \<Rightarrow> string \<Rightarrow> bool" where
  "test_file_ignores_unknown_outcomes ext now dir key =
     (let foreign = ''{\"original_key\":\"'' @ key @ ''\",\"state\":{\"Completed\":\"provisional\"},'' @
                    ''\"created_at\":\"2026-01-01T00:00:00+00:00\"}'';
          store = new_file_idem dir [entry_path ext dir key \<mapsto> foreign]
      in fst (file_claim_or_check ext (fine now) key store) = (AlreadyClaimed, None))"

definition test_file_survives_unreadable :: "file_idem_lib \<Rightarrow> string \<Rightarrow> path \<Rightarrow> string \<Rightarrow> bool" where
  "test_file_survives_unreadable ext now dir key =
     (let store = new_file_idem dir [entry_path ext dir key \<mapsto> ''{\"state\": \"Completed\"'']
      in fst (file_claim_or_check ext (fine now) key store) = (Claimed, None))"

definition test_file_survives_undecodable :: "file_idem_lib \<Rightarrow> string \<Rightarrow> path \<Rightarrow> string \<Rightarrow> bool" where
  "test_file_survives_undecodable ext now dir key =
     (let store = new_file_idem dir [entry_path ext dir key \<mapsto> map char_of [0xFF :: nat, 0xFE, 0, 0xC3]]
      in fst (file_claim_or_check ext ((fine now)\<lparr>io_read_ok := False\<rparr>) key store) = (Claimed, None))"

definition test_file_warns_when_unwritable :: "file_idem_lib \<Rightarrow> string \<Rightarrow> path \<Rightarrow> string \<Rightarrow> bool" where
  "test_file_warns_when_unwritable ext now dir key =
     (let (a1, store) = file_claim_or_check ext (gone now) key (new_file_idem dir Map.empty);
          store = file_complete ext (gone now) key Verified store;
          (a2, store) = file_claim_or_check ext (gone now) key store
      in a1 = (Claimed, None) \<and> a2 = (AlreadyClaimed, Some Verified))"

definition test_file_release_unknown_key :: "file_idem_lib \<Rightarrow> string \<Rightarrow> path \<Rightarrow> string \<Rightarrow> bool" where
  "test_file_release_unknown_key ext now dir key =
     (file_release ext (fine now) key (new_file_idem dir Map.empty) = new_file_idem dir Map.empty)"

text \<open>Sixteen calls that hold the lock of the cache one after the other.\<close>

definition test_file_one_winner :: "file_idem_lib \<Rightarrow> string \<Rightarrow> path \<Rightarrow> string \<Rightarrow> bool" where
  "test_file_one_winner ext now dir key =
     (let (answers, store) = fold (\<lambda>_ (answers, store).
            let (a, store) = file_claim_or_check ext (fine now) key store in (answers @ [a], store))
            [0 ..< 16 :: nat] ([], new_file_idem dir Map.empty)
      in length (filter (\<lambda>a. fst a = Claimed) answers) = 1 \<and>
         length (filter (\<lambda>a. fst a = AlreadyClaimed) answers) = 15)"

definition entries_roundtrip :: "file_idem_lib \<Rightarrow> bool" where
  "entries_roundtrip ext \<longleftrightarrow> (\<forall>e. Option.bind (entry_to_string ext e) (entry_from_str ext) = Some e)"

lemma entries_roundtripD:
  "entries_roundtrip ext \<Longrightarrow> \<exists>c. entry_to_string ext e = Some c \<and> entry_from_str ext c = Some e"
  by (simp add: entries_roundtrip_def bind_eq_Some_conv)

text \<open>A save that goes well, and the load of the next instance.\<close>

lemma save_then_load:
  assumes "entries_roundtrip ext" "original_key e = key"
  shows "load_entry ext (fine n) (new_file_idem (fi_base_path s) (fi_fs (save_entry ext (fine n') e s))) key
    = Some e"
  using entries_roundtripD [OF assms(1), of e] assms(2)
  by (auto simp: load_entry_def save_entry_def new_file_idem_def fs_read_def write_atomic_def
      fs_write_def fs_rename_def Let_def)

lemma save_entry_sels [simp]:
  "fi_cache (save_entry ext io e s) = fi_cache s" "fi_base_path (save_entry ext io e s) = fi_base_path s"
  by (simp_all add: save_entry_def split: option.split)

lemma new_file_idem_sel [simp]:
  "fi_cache (new_file_idem dir f) = Map.empty" "fi_base_path (new_file_idem dir f) = dir"
  "fi_fs (new_file_idem dir f) = f"
  by (simp_all add: new_file_idem_def)

lemma load_entry_empty [simp]: "load_entry ext io (new_file_idem dir Map.empty) key = None"
  by (simp add: load_entry_def new_file_idem_def Let_def)

lemmas file_ops = file_claim_or_check_def file_complete_def file_release_def cache_insert_def
  new_in_flight_def new_completed_def to_result_def parse_result_def

lemma file_claim_tests [store_test]:
  "test_file_claim_and_complete ext now dir"
  "test_file_warns_when_unwritable ext now dir key"
  "test_file_release_unknown_key ext now dir key"
  by (simp_all add: test_file_claim_and_complete_def test_file_warns_when_unwritable_def
      test_file_release_unknown_key_def file_ops Let_def fs_remove_def new_file_idem_def load_entry_def)

lemma file_release_test [store_test]: "test_file_release ext now dir"
  by (simp add: test_file_release_def file_ops Let_def load_entry_def fs_remove_def)

lemma claim_after_complete:
  assumes "entries_roundtrip ext"
  shows "fst (file_claim_or_check ext (fine n) key
      (new_file_idem (fi_base_path s) (fi_fs (file_complete ext (fine n') key r s))))
    = (AlreadyClaimed, Some r)"
  using save_then_load [OF assms, of "new_completed n' key r" key n s n']
  by (simp add: file_claim_or_check_def file_complete_def cache_insert_def Let_def to_result_def
      new_completed_def)

lemma file_persist_tests [store_test]:
  assumes "entries_roundtrip ext"
  shows "test_file_persists_across_instances ext now dir"
    and "test_file_roundtrips_every_result ext now dir key"
  using claim_after_complete [OF assms, of now _ "snd (file_claim_or_check ext (fine now) _ (new_file_idem dir Map.empty))"]
  by (simp_all add: test_file_persists_across_instances_def test_file_roundtrips_every_result_def Let_def
      case_prod_beta file_claim_or_check_def cache_insert_def)

text \<open>Entries that some other program wrote.\<close>

lemma claim_of_content:
  "fst (file_claim_or_check ext (fine n) key (new_file_idem dir [entry_path ext dir key \<mapsto> c])) =
     (case entry_from_str ext c of Some e \<Rightarrow> (AlreadyClaimed, to_result e) | None \<Rightarrow> (Claimed, None))"
  by (simp add: file_claim_or_check_def load_entry_def fs_read_def Let_def split: option.split)

lemma file_foreign_test [store_test]:
  assumes "\<And>c. c = ''{\"original_key\":\"'' @ key @ ''\",\"state\":{\"Completed\":\"provisional\"},'' @
      ''\"created_at\":\"2026-01-01T00:00:00+00:00\"}'' \<Longrightarrow>
      entry_from_str ext c = Some \<lparr>original_key = key, pe_state = PCompleted ''provisional'',
        pe_created_at = ''2026-01-01T00:00:00+00:00''\<rparr>"
  shows "test_file_ignores_unknown_outcomes ext now dir key"
  unfolding test_file_ignores_unknown_outcomes_def Let_def claim_of_content
  by (subst assms) (rule refl, simp add: to_result_def parse_result_def)

lemma file_unreadable_test [store_test]:
  assumes "entry_from_str ext ''{\"state\": \"Completed\"'' = None"
  shows "test_file_survives_unreadable ext now dir key"
  unfolding test_file_survives_unreadable_def Let_def claim_of_content assms by simp

lemma file_undecodable_test [store_test]: "test_file_survives_undecodable ext now dir key"
  by (simp add: test_file_survives_undecodable_def file_claim_or_check_def load_entry_def fs_read_def Let_def)

lemma claim_vacant:
  "file_claim_or_check ext io key (new_file_idem dir Map.empty) =
     ((Claimed, None), cache_insert key (new_in_flight (io_now io) key)
        (save_entry ext io (new_in_flight (io_now io) key) (new_file_idem dir Map.empty)))"
  by (simp add: file_claim_or_check_def Let_def)

lemma claim_cached:
  "fi_cache s key = Some e \<Longrightarrow>
   file_claim_or_check ext io key s = ((AlreadyClaimed, to_result e), s)"
  by (simp add: file_claim_or_check_def to_result_def split: persisted_state.split)

lemma cache_insert_sels [simp]:
  "fi_cache (cache_insert key e s) = (fi_cache s)(key \<mapsto> e)" "fi_fs (cache_insert key e s) = fi_fs s"
  "fi_base_path (cache_insert key e s) = fi_base_path s"
  by (simp_all add: cache_insert_def)

lemma file_in_flight_test [store_test]:
  assumes "entries_roundtrip ext"
  shows "test_file_reports_in_flight ext now dir key"
proof -
  define s1 where "s1 = snd (file_claim_or_check ext (fine now) key (new_file_idem dir Map.empty))"
  have base: "fi_base_path s1 = dir" by (simp add: s1_def claim_vacant)
  have a2: "load_entry ext (fine now) (new_file_idem dir (fi_fs s1)) key = Some (new_in_flight now key)"
    using save_then_load [OF assms, of "new_in_flight now key" key now "new_file_idem dir Map.empty" now]
    by (simp add: s1_def claim_vacant new_in_flight_def)
  then have c2: "file_claim_or_check ext (fine now) key (new_file_idem dir (fi_fs s1)) =
      ((AlreadyClaimed, None), cache_insert key (new_in_flight now key) (new_file_idem dir (fi_fs s1)))"
    by (simp add: file_claim_or_check_def to_result_def new_in_flight_def)
  have "fst (file_claim_or_check ext (fine now) key
      (new_file_idem dir (fi_fs (file_complete ext (fine now) key Partial s1)))) = (AlreadyClaimed, Some Partial)"
    using claim_after_complete [OF assms, of now key s1 now Partial] by (simp add: base)
  with c2 show ?thesis
    by (simp add: test_file_reports_in_flight_def Let_def case_prod_beta flip: s1_def)
      (simp_all add: claim_cached file_complete_def Let_def to_result_def new_completed_def parse_result_def
        s1_def claim_vacant)
qed

lemma claims_lose:
  assumes "fi_cache s key = Some e" "to_result e = None"
  shows "fold (\<lambda>_ (answers, store). let (a, store) = file_claim_or_check ext io key store
      in (answers @ [a], store)) (xs :: nat list) (as, s) =
    (as @ map (\<lambda>_. (AlreadyClaimed, None)) xs, s)"
  using assms by (induction xs arbitrary: "as") (simp_all add: claim_cached)

lemma file_one_winner_test [store_test]: "test_file_one_winner ext now dir key"
proof -
  have "[0 ..< 16 :: nat] = 0 # [1 ..< 16]" by (simp add: upt_conv_Cons)
  then show ?thesis
    using claims_lose [of "snd (file_claim_or_check ext (fine now) key (new_file_idem dir Map.empty))"
        key "new_in_flight now key" ext "fine now" "[1 ..< 16]" "[(Claimed, None)]"]
    by (simp add: test_file_one_winner_def claim_vacant Let_def) (simp add: new_in_flight_def to_result_def)
qed

section \<open>Receipts\<close>

definition test_receipt_has_version :: "receipt_lib \<Rightarrow> uuid \<Rightarrow> datetime \<Rightarrow> uuid \<Rightarrow> uuid \<Rightarrow> bool" where
  "test_receipt_has_version ext uid now a c =
     (receipt_version (new_receipt ext uid now a c Verified 1) = ''1.0'')"

definition test_receipt_computes_digest ::
  "receipt_lib \<Rightarrow> uuid \<Rightarrow> datetime \<Rightarrow> uuid \<Rightarrow> uuid \<Rightarrow> bool" where
  "test_receipt_computes_digest ext uid now a c =
     (let receipt = new_receipt ext uid now a c Verified 1
      in rc_digest receipt \<noteq> [] \<and> length (rc_digest receipt) = 64)"

definition test_receipt_verify_digest ::
  "receipt_lib \<Rightarrow> uuid \<Rightarrow> datetime \<Rightarrow> uuid \<Rightarrow> uuid \<Rightarrow> bool" where
  "test_receipt_verify_digest ext uid now a c =
     verify_digest ext (new_receipt ext uid now a c Verified 1)"

definition test_receipt_with_version_and_key ::
  "receipt_lib \<Rightarrow> uuid \<Rightarrow> datetime \<Rightarrow> uuid \<Rightarrow> uuid \<Rightarrow> bool" where
  "test_receipt_with_version_and_key ext uid now a c =
     (let receipt = with_contract_version_and_key ext uid now a c ''2.0'' Verified 1 (Some ''idem-key-123'')
      in rc_contract_version receipt = ''2.0'' \<and> rc_idempotency_key receipt = Some ''idem-key-123'')"

definition test_receipt_with_key_id ::
  "receipt_lib \<Rightarrow> uuid \<Rightarrow> datetime \<Rightarrow> uuid \<Rightarrow> uuid \<Rightarrow> bool" where
  "test_receipt_with_key_id ext uid now a c =
     (receipt_key_id (with_key_id ''key-fingerprint-abc'' (new_receipt ext uid now a c Verified 1)) =
      Some ''key-fingerprint-abc'')"

definition test_digest_changes_on_tamper ::
  "receipt_lib \<Rightarrow> uuid \<Rightarrow> datetime \<Rightarrow> uuid \<Rightarrow> uuid \<Rightarrow> bool" where
  "test_digest_changes_on_tamper ext uid now a c =
     (let receipt = new_receipt ext uid now a c Verified 1;
          original_digest = rc_digest receipt;
          tampered = receipt\<lparr>rc_result := Failed\<rparr>
      in verify_digest ext receipt \<and> \<not> verify_digest ext tampered \<and>
         compute_digest ext tampered \<noteq> original_digest)"

definition test_digest_covers_observation ::
  "receipt_lib \<Rightarrow> uuid \<Rightarrow> datetime \<Rightarrow> uuid \<Rightarrow> uuid \<Rightarrow> datetime \<Rightarrow> bool" where
  "test_digest_covers_observation ext uid now a c onow =
     (let receipt = with_observation ext
            (new_observation onow ''ledger'' (json_object [(''status'', JString ''ok'')]))
            (new_receipt ext uid now a c Verified 1)
      in verify_digest ext receipt \<and> length (rc_observations receipt) = 1)"

definition test_digest_covers_postcondition ::
  "receipt_lib \<Rightarrow> uuid \<Rightarrow> datetime \<Rightarrow> uuid \<Rightarrow> uuid \<Rightarrow> bool" where
  "test_digest_covers_postcondition ext uid now a c =
     (let receipt = with_postcondition_result ext
            \<lparr>pcr_predicate = p_exists ''refund.status'', pcr_description = ''refund succeeded'',
             pcr_passed = True, pcr_error = None\<rparr>
            (new_receipt ext uid now a c Verified 1)
      in verify_digest ext receipt \<and> length (rc_postcondition_results receipt) = 1)"

definition test_unsigned :: "receipt_lib \<Rightarrow> uuid \<Rightarrow> datetime \<Rightarrow> uuid \<Rightarrow> uuid \<Rightarrow> bool" where
  "test_unsigned ext uid now a c = (\<not> is_signed (new_receipt ext uid now a c Verified 1))"

definition test_signed :: "receipt_lib \<Rightarrow> uuid \<Rightarrow> datetime \<Rightarrow> uuid \<Rightarrow> uuid \<Rightarrow> bool" where
  "test_signed ext uid now a c =
     is_signed (sign_receipt (replicate 64 0) (new_receipt ext uid now a c Verified 1))"

definition test_schema_version_current ::
  "receipt_lib \<Rightarrow> uuid \<Rightarrow> datetime \<Rightarrow> uuid \<Rightarrow> uuid \<Rightarrow> bool" where
  "test_schema_version_current ext uid now a c =
     (RECEIPT_SCHEMA_VERSION = ''1.0'' \<and>
      receipt_version (new_receipt ext uid now a c Verified 1) = RECEIPT_SCHEMA_VERSION)"

definition test_digest_excludes_signature ::
  "receipt_lib \<Rightarrow> uuid \<Rightarrow> datetime \<Rightarrow> uuid \<Rightarrow> uuid \<Rightarrow> bool" where
  "test_digest_excludes_signature ext uid now a c =
     (let receipt = new_receipt ext uid now a c Verified 1;
          signed = sign_receipt (replicate 64 1) receipt
      in rc_digest signed = rc_digest receipt \<and> verify_digest ext signed)"

definition sample_receipt ::
  "receipt_lib \<Rightarrow> datetime \<Rightarrow> contract_id \<Rightarrow> receipt_id \<Rightarrow> action_id \<Rightarrow> receipt" where
  "sample_receipt ext now c uid action =
     with_postcondition_result ext
       \<lparr>pcr_predicate = p_exists ''refund.status'', pcr_description = ''refund recorded'',
        pcr_passed = True, pcr_error = None\<rparr>
       (with_observation ext
          (new_observation now ''postgres''
             (json_object [(''refund'', json_object [(''status'', JString ''ok'')])]))
          (with_key_id ''test-key''
             (with_contract_version_and_key ext uid now action c ''1.2'' Verified 1 (Some ''idem-1''))))"

text \<open>A receipt with another observed state, another outcome of a postcondition, another error.\<close>

definition tampered_copies :: "receipt \<Rightarrow> receipt list" where
  "tampered_copies receipt =
     (let o1 = (hd (rc_observations receipt))\<lparr>obs_state :=
                 json_object [(''refund'', json_object [(''status'', JString ''failed'')])]\<rparr>;
          p1 = (hd (rc_postcondition_results receipt))\<lparr>pcr_passed := False\<rparr>;
          p2 = (hd (rc_postcondition_results receipt))\<lparr>pcr_error := Some ''overflow''\<rparr>
      in [receipt\<lparr>rc_observations := (rc_observations receipt)[0 := o1]\<rparr>,
          receipt\<lparr>rc_postcondition_results := (rc_postcondition_results receipt)[0 := p1]\<rparr>,
          receipt\<lparr>rc_postcondition_results := (rc_postcondition_results receipt)[0 := p2]\<rparr>])"

definition test_digest_detects_tampering ::
  "receipt_lib \<Rightarrow> datetime \<Rightarrow> uuid \<Rightarrow> uuid \<Rightarrow> uuid \<Rightarrow> bool" where
  "test_digest_detects_tampering ext now c uid a =
     (let receipt = sample_receipt ext now c uid a
      in verify_digest ext receipt \<and>
         list_all (\<lambda>tampered. \<not> verify_digest ext tampered) (tampered_copies receipt))"

lemma receipt_builder_tests [store_test]:
  "test_receipt_has_version ext uid now a c" "test_receipt_verify_digest ext uid now a c"
  "test_receipt_with_version_and_key ext uid now a c" "test_receipt_with_key_id ext uid now a c"
  "test_digest_covers_observation ext uid now a c onow" "test_digest_covers_postcondition ext uid now a c"
  "test_unsigned ext uid now a c" "test_signed ext uid now a c" "test_schema_version_current ext uid now a c"
  "test_digest_excludes_signature ext uid now a c"
  by (simp_all add: test_receipt_has_version_def test_receipt_verify_digest_def receipt_version_def
      test_receipt_with_version_and_key_def test_receipt_with_key_id_def receipt_key_id_def
      test_digest_covers_observation_def test_digest_covers_postcondition_def test_unsigned_def
      test_signed_def is_signed_def test_schema_version_current_def test_digest_excludes_signature_def
      RECEIPT_SCHEMA_VERSION_def new_receipt_def with_contract_version_and_key_def Let_def)
    (simp_all add: with_key_id_def with_observation_def with_postcondition_result_def sign_receipt_def
      with_digest_def Let_def)

lemma digest_length_test [store_test]:
  assumes "\<And>bytes. length (sha256_hex ext bytes) = 64"
  shows "test_receipt_computes_digest ext uid now a c"
proof -
  have "length (rc_digest (new_receipt ext uid now a c Verified 1)) = 64"
    by (simp add: new_receipt_def with_digest_def compute_digest_def assms)
  then show ?thesis by (auto simp: test_receipt_computes_digest_def Let_def)
qed

text \<open>What makes tampering visible: two documents that differ have digests that differ.\<close>

definition no_collision :: "receipt_lib \<Rightarrow> receipt \<Rightarrow> receipt \<Rightarrow> bool" where
  "no_collision ext r s \<longleftrightarrow>
     (compute_digest ext r = compute_digest ext s \<longrightarrow> canonical_json ext r = canonical_json ext s)"

lemma tampered:
  assumes "no_collision ext r s" "verify_digest ext r" "rc_digest s = rc_digest r"
    and "canonical_json ext s \<noteq> canonical_json ext r"
  shows "\<not> verify_digest ext s" "compute_digest ext s \<noteq> rc_digest r"
  using assms unfolding no_collision_def verify_digest_def by metis+

lemma tamper_result_test [store_test]:
  assumes "no_collision ext (new_receipt ext uid now a c Verified 1)
      ((new_receipt ext uid now a c Verified 1)\<lparr>rc_result := Failed\<rparr>)"
  shows "test_digest_changes_on_tamper ext uid now a c"
proof -
  let ?r = "new_receipt ext uid now a c Verified 1"
  have v: "verify_digest ext ?r" by (rule built_digest) (rule built.new)
  have "canonical_json ext (?r\<lparr>rc_result := Failed\<rparr>) \<noteq> canonical_json ext ?r"
    by (simp add: canonical_json_sorted new_receipt_def with_digest_def)
  from tampered [OF assms v _ this] v show ?thesis
    by (simp add: test_digest_changes_on_tamper_def Let_def)
qed

lemma sample_receipt_sel:
  "rc_id (sample_receipt ext now c uid a) = uid" "rc_action_id (sample_receipt ext now c uid a) = a"
  "rc_observations (sample_receipt ext now c uid a) = [new_observation now ''postgres''
     (json_object [(''refund'', json_object [(''status'', JString ''ok'')])])]"
  "rc_postcondition_results (sample_receipt ext now c uid a) =
     [\<lparr>pcr_predicate = p_exists ''refund.status'', pcr_description = ''refund recorded'',
       pcr_passed = True, pcr_error = None\<rparr>]"
  by (simp_all add: sample_receipt_def with_postcondition_result_def with_observation_def with_key_id_def
      with_contract_version_and_key_def with_digest_def Let_def)

lemma sample_verifies: "verify_digest ext (sample_receipt ext now c uid a)"
  unfolding sample_receipt_def by (intro built_digest built.intros)

lemma tamper_evidence_test [store_test]:
  assumes "\<And>s. s \<in> set (tampered_copies (sample_receipt ext now c uid a)) \<Longrightarrow>
      no_collision ext (sample_receipt ext now c uid a) s"
    and "inj (obs_to_json ext)" "inj (pcr_to_json ext)"
  shows "test_digest_detects_tampering ext now c uid a"
proof -
  let ?r = "sample_receipt ext now c uid a"
  have "\<not> verify_digest ext s" if "s \<in> set (tampered_copies ?r)" for s
  proof (rule tampered(1) [OF assms(1) [OF that] sample_verifies])
    show "rc_digest s = rc_digest ?r" using that by (auto simp: tampered_copies_def Let_def)
    show "canonical_json ext s \<noteq> canonical_json ext ?r"
      using that by (auto simp: tampered_copies_def canonical_json_sorted sample_receipt_sel Let_def
        inj_eq [OF assms(2)] inj_eq [OF assms(3)] new_observation_def json_object_def)
  qed
  then show ?thesis
    by (simp add: test_digest_detects_tampering_def Let_def sample_verifies list_all_iff)
qed

section \<open>Receipt stores\<close>

text \<open>
  In these tests \<open>rx\<close> is what receipts take from libraries, \<open>ext\<close> what the file store takes, and
  \<open>now\<close>, \<open>c\<close>, \<open>a\<close>, \<open>b\<close>, \<open>i\<close>, \<open>j\<close>, \<open>k\<close> are a time and fresh identifiers.
\<close>

definition test_mem_roundtrips :: "receipt_lib \<Rightarrow> datetime \<Rightarrow> uuid \<Rightarrow> uuid \<Rightarrow> uuid \<Rightarrow> uuid \<Rightarrow> bool" where
  "test_mem_roundtrips rx now c a i other =
     (let receipt = sample_receipt rx now c i a;
          (stored, store) = mem_store receipt new_mem_receipts
      in stored = Inr () \<and> mem_exists i store \<and> \<not> mem_exists other store \<and>
         mem_get i store = Some receipt \<and> mem_get other store = None)"

definition test_mem_lists_action ::
  "receipt_lib \<Rightarrow> datetime \<Rightarrow> uuid \<Rightarrow> uuid \<Rightarrow> uuid \<Rightarrow> uuid \<Rightarrow> uuid \<Rightarrow> uuid \<Rightarrow> uuid \<Rightarrow> bool" where
  "test_mem_lists_action rx now c a b other i j k =
     (let (r1, store) = mem_store (sample_receipt rx now c i a) new_mem_receipts;
          (r2, store) = mem_store (sample_receipt rx now c j a) store;
          (r3, store) = mem_store (sample_receipt rx now c k b) store;
          for_a = mem_list_by_action a store
      in r1 = Inr () \<and> r2 = Inr () \<and> r3 = Inr () \<and>
         length for_a = 2 \<and> list_all (\<lambda>r. rc_action_id r = a) for_a \<and>
         length (mem_list_by_action b store) = 1 \<and> mem_list_by_action other store = [])"

definition test_mem_absent_action :: "action_id \<Rightarrow> receipt_id \<Rightarrow> bool" where
  "test_mem_absent_action a i =
     (mem_list_by_action a new_mem_receipts = [] \<and> \<not> mem_exists i new_mem_receipts)"

lemma mem_receipt_tests [store_test]:
  "test_mem_absent_action a i"
  "i \<noteq> other \<Longrightarrow> test_mem_roundtrips rx now c a i other"
  "distinct [i, j, k] \<Longrightarrow> distinct [a, b, other] \<Longrightarrow> test_mem_lists_action rx now c a b other i j k"
  by (auto simp: test_mem_absent_action_def test_mem_roundtrips_def test_mem_lists_action_def Let_def
      mem_store_def mem_get_def mem_exists_def mem_list_by_action_def push_entry_def
      new_mem_receipts_def sample_receipt_sel List.map_filter_simps)

text \<open>A call of the file store that goes well.\<close>

definition calm :: rstore_io where
  "calm = \<lparr>ri_write = WriteOk, ri_rename_ok = True, ri_mkdir_ok = True, ri_index_read_ok = True,
     ri_index_write = WriteOk, ri_index_rename_ok = True, ri_error = []\<rparr>"

definition test_file_persists_receipt ::
  "receipt_lib \<Rightarrow> rstore_lib \<Rightarrow> path \<Rightarrow> datetime \<Rightarrow> uuid \<Rightarrow> uuid \<Rightarrow> uuid \<Rightarrow> bool" where
  "test_file_persists_receipt rx ext dir now c a i =
     (let receipt = new_receipt rx i now a c Verified 1;
          files = snd (file_store ext dir calm receipt Map.empty)
      in case file_get_ok ext dir i files of
           None \<Rightarrow> False
         | Some retrieved \<Rightarrow> rc_id retrieved = i \<and> rc_digest retrieved = rc_digest receipt)"

definition test_file_exists ::
  "receipt_lib \<Rightarrow> rstore_lib \<Rightarrow> path \<Rightarrow> datetime \<Rightarrow> uuid \<Rightarrow> uuid \<Rightarrow> uuid \<Rightarrow> uuid \<Rightarrow> bool" where
  "test_file_exists rx ext dir now c a i other =
     (let files = snd (file_store ext dir calm (new_receipt rx i now a c Verified 1) Map.empty)
      in file_exists ext dir i files \<and> \<not> file_exists ext dir other files)"

definition test_file_missing_receipt :: "rstore_lib \<Rightarrow> path \<Rightarrow> uuid \<Rightarrow> uuid \<Rightarrow> uuid \<Rightarrow> bool" where
  "test_file_missing_receipt ext dir i j a =
     (file_get_ok ext dir i Map.empty = None \<and> \<not> file_exists ext dir j Map.empty \<and>
      file_list_ok ext dir a Map.empty = [])"

text \<open>Two receipts of one action, as the next three tests store them.\<close>

definition two_stored ::
  "receipt_lib \<Rightarrow> rstore_lib \<Rightarrow> path \<Rightarrow> datetime \<Rightarrow> uuid \<Rightarrow> uuid \<Rightarrow> uuid \<Rightarrow> uuid
   \<Rightarrow> (receipt_store_error + unit) \<times> (receipt_store_error + unit) \<times> fs" where
  "two_stored rx ext dir now c a i j =
     (let (r1, files) = file_store ext dir calm (sample_receipt rx now c i a) Map.empty;
          (r2, files) = file_store ext dir calm (sample_receipt rx now c j a) files
      in (r1, r2, files))"

definition test_file_lists_action ::
  "receipt_lib \<Rightarrow> rstore_lib \<Rightarrow> path \<Rightarrow> datetime \<Rightarrow> uuid \<Rightarrow> uuid \<Rightarrow> uuid \<Rightarrow> uuid \<Rightarrow> bool" where
  "test_file_lists_action rx ext dir now c a i j =
     (let (r1, r2, files) = two_stored rx ext dir now c a i j;
          listed = file_list_ok ext dir a files;
          reopened_list = file_list_ok ext dir a files
      in r1 = Inr () \<and> r2 = Inr () \<and> length listed = 2 \<and>
         i \<in> set (map rc_id listed) \<and> j \<in> set (map rc_id listed) \<and> length reopened_list = 2 \<and>
         (case file_get_ok ext dir i files of None \<Rightarrow> False | Some r \<Rightarrow> verify_digest rx r))"

definition test_file_skips_unparsable ::
  "receipt_lib \<Rightarrow> rstore_lib \<Rightarrow> path \<Rightarrow> datetime \<Rightarrow> uuid \<Rightarrow> uuid \<Rightarrow> uuid \<Rightarrow> uuid \<Rightarrow> bool" where
  "test_file_skips_unparsable rx ext dir now c a i j =
     (let (r1, r2, files) = two_stored rx ext dir now c a i j;
          files = files(receipt_path ext dir j \<mapsto> ''{ not json'');
          listed = file_list_ok ext dir a files
      in r1 = Inr () \<and> r2 = Inr () \<and> length listed = 1 \<and> rc_id (listed ! 0) = i \<and>
         file_get_ok ext dir j files = None \<and> verify_digest rx (listed ! 0))"

definition test_file_tolerates_missing ::
  "receipt_lib \<Rightarrow> rstore_lib \<Rightarrow> path \<Rightarrow> datetime \<Rightarrow> uuid \<Rightarrow> uuid \<Rightarrow> uuid \<Rightarrow> uuid \<Rightarrow> bool" where
  "test_file_tolerates_missing rx ext dir now c a i j =
     (let (r1, r2, files) = two_stored rx ext dir now c a i j;
          files = files(receipt_path ext dir j := None);
          listed = file_list_ok ext dir a files
      in r1 = Inr () \<and> r2 = Inr () \<and> length listed = 1 \<and> rc_id (listed ! 0) = i)"

definition test_file_unreadable_index :: "rstore_lib \<Rightarrow> path \<Rightarrow> uuid \<Rightarrow> bool" where
  "test_file_unreadable_index ext dir a =
     (file_list_ok ext dir a [index_path dir \<mapsto> ''not a json index''] = [])"

definition test_file_rebuilds_index ::
  "receipt_lib \<Rightarrow> rstore_lib \<Rightarrow> path \<Rightarrow> datetime \<Rightarrow> uuid \<Rightarrow> uuid \<Rightarrow> uuid \<Rightarrow> uuid \<Rightarrow> bool" where
  "test_file_rebuilds_index rx ext dir now c a other i =
     (let (r1, files) = file_store ext dir calm (sample_receipt rx now c i a)
            [index_path dir \<mapsto> ''not a json index''];
          listed = file_list_ok ext dir a files
      in r1 = Inr () \<and> file_list_ok ext dir other files = [] \<and>
         length listed = 1 \<and> rc_id (listed ! 0) = i)"

definition test_file_not_in_a_file :: "path \<Rightarrow> string \<Rightarrow> bool" where
  "test_file_not_in_a_file blocker err =
     (\<exists>e. new_file_receipts False err (path_join blocker ''receipts'') = Inl e)"

definition test_file_overwrites ::
  "receipt_lib \<Rightarrow> rstore_lib \<Rightarrow> path \<Rightarrow> datetime \<Rightarrow> uuid \<Rightarrow> uuid \<Rightarrow> uuid \<Rightarrow> bool" where
  "test_file_overwrites rx ext dir now c a i =
     (let receipt = sample_receipt rx now c i a;
          (r1, files) = file_store ext dir calm receipt Map.empty;
          (r2, files) = file_store ext dir calm (sign_receipt (replicate 64 7) receipt) files
      in r1 = Inr () \<and> r2 = Inr () \<and> file_exists ext dir i files \<and>
         (case file_get_ok ext dir i files of None \<Rightarrow> False | Some r \<Rightarrow> is_signed r))"

text \<open>The trait object of either store.\<close>

definition test_stores_through_the_trait ::
  "receipt_lib \<Rightarrow> rstore_lib \<Rightarrow> path \<Rightarrow> datetime \<Rightarrow> uuid \<Rightarrow> uuid \<Rightarrow> uuid \<Rightarrow> uuid \<Rightarrow> uuid \<Rightarrow> bool" where
  "test_stores_through_the_trait rx ext dir now c a other i j =
     (let (r1, store) = mem_store (sample_receipt rx now c i a) new_mem_receipts;
          (r2, files) = file_store ext dir calm (sample_receipt rx now c j a) Map.empty
      in r1 = Inr () \<and> mem_exists i store \<and> mem_get i store \<noteq> None \<and>
         length (mem_list_by_action a store) = 1 \<and> mem_list_by_action other store = [] \<and>
         r2 = Inr () \<and> file_exists ext dir j files \<and> file_get_ok ext dir j files \<noteq> None \<and>
         length (file_list_ok ext dir a files) = 1 \<and> file_list_ok ext dir other files = [])"

text \<open>What serde does: the receipts of a test and finite indexes are read back as written.\<close>

definition receipt_kept :: "rstore_lib \<Rightarrow> receipt \<Rightarrow> bool" where
  "receipt_kept ext r \<longleftrightarrow>
     (\<exists>t. receipt_to_string ext r = Inr t \<and> receipt_from_str ext t = Some r)"

definition indexes_kept :: "rstore_lib \<Rightarrow> bool" where
  "indexes_kept ext \<longleftrightarrow> (\<forall>idx. finite (dom idx) \<longrightarrow>
     (\<exists>t. index_to_string ext idx = Some t \<and> index_from_str ext t = Some idx))"

text \<open>What a directory shows: an index, and the receipts that can be read.\<close>

definition dir_shows ::
  "rstore_lib \<Rightarrow> path \<Rightarrow> fs \<Rightarrow> receipt_index \<Rightarrow> (receipt_id \<Rightarrow> receipt option) \<Rightarrow> bool" where
  "dir_shows ext dir f idx m \<longleftrightarrow> read_index ext True dir f = Some idx \<and> finite (dom idx) \<and>
     (\<forall>i. file_get_ok ext dir i f = m i)"

lemma calm_sel [simp]:
  "ri_write calm = WriteOk" "ri_rename_ok calm" "ri_mkdir_ok calm" "ri_index_read_ok calm"
  "ri_index_write calm = WriteOk" "ri_index_rename_ok calm"
  by (simp_all add: calm_def)

text \<open>A store that goes well, in a directory whose index can be read or not.\<close>

lemma store_shows:
  assumes "id_lib_ok ext" "indexes_kept ext" "receipt_kept ext r"
    and "case read_index ext True dir f of None \<Rightarrow> idx = Map.empty | Some x \<Rightarrow> x = idx"
    and "finite (dom idx)" "\<And>i. file_get_ok ext dir i f = m i"
  shows "fst (file_store ext dir calm r f) = Inr ()"
    and "dir_shows ext dir (snd (file_store ext dir calm r f))
      (push_entry (id_string ext (rc_action_id r)) (id_string ext (rc_id r)) idx) (m(rc_id r \<mapsto> r))"
    and "file_exists ext dir i (snd (file_store ext dir calm r f)) \<longleftrightarrow>
      i = rc_id r \<or> file_exists ext dir i f"
proof -
  obtain t where t: "receipt_to_string ext r = Inr t" "receipt_from_str ext t = Some r"
    using assms(3) by (auto simp: receipt_kept_def)
  define idx' where "idx' = push_entry (id_string ext (rc_action_id r)) (id_string ext (rc_id r)) idx"
  have fin: "finite (dom idx')" using assms(5) by (simp add: idx'_def push_entry_def)
  with assms(2) obtain it where it: "index_to_string ext idx' = Some it" "index_from_str ext it = Some idx'"
    by (auto simp: indexes_kept_def)
  define f1 where "f1 = (f(receipt_tmp_path ext dir (rc_id r) := None))
    (receipt_path ext dir (rc_id r) \<mapsto> t)"
  define f2 where "f2 = (f1(path_join dir ''index.tmp'' := None))(index_path dir \<mapsto> it)"
  have s1: "store_receipt_file ext dir calm r f = (Inr (), f1)"
    using t by (simp add: store_receipt_file_def f1_def write_atomic_def fs_write_def fs_rename_def)
  have same: "f1 (index_path dir) = f (index_path dir)"
    using receipt_path_index [OF assms(1)] by (simp add: f1_def) metis
  have s2: "store_load_index ext dir calm f1 = Inr idx"
    using assms(4) read_index_cong [of f1 dir f ext True, OF same]
    by (auto simp: store_load_index_def new_file_receipts_def split: option.splits)
  have s3: "store_save_index ext dir calm r idx f1 = (Inr (), f2)"
    using it by (simp add: store_save_index_def write_index_def f2_def write_atomic_def fs_write_def
        fs_rename_def flip: idx'_def)
  have f2: "f2 (receipt_path ext dir i) = (if i = rc_id r then Some t else f (receipt_path ext dir i))" for i
    using receipt_path_inject [OF assms(1)] receipt_path_index [OF assms(1)] by (simp add: f2_def f1_def)
  have all: "file_store ext dir calm r f = (Inr (), f2)" using s1 s2 s3 by (simp add: file_store_def)
  then show "fst (file_store ext dir calm r f) = Inr ()"
    and "file_exists ext dir i (snd (file_store ext dir calm r f)) \<longleftrightarrow>
      i = rc_id r \<or> file_exists ext dir i f"
    by (simp_all add: file_exists_def f2)
  show "dir_shows ext dir (snd (file_store ext dir calm r f))
      (push_entry (id_string ext (rc_action_id r)) (id_string ext (rc_id r)) idx) (m(rc_id r \<mapsto> r))"
    unfolding dir_shows_def idx'_def [symmetric] all snd_conv
    using fin it t assms(6) by (auto simp: file_get_eq f2) (simp add: read_index_def fs_read_def f2_def)
qed

text \<open>Files that someone else overwrites or removes.\<close>

lemma spoiled_shows:
  assumes "dir_shows ext dir f idx m" "id_lib_ok ext" "Option.bind t (receipt_from_str ext) = None"
  shows "dir_shows ext dir (f(receipt_path ext dir i := t)) idx (m(i := None))"
  using assms receipt_path_index [OF assms(2)] receipt_path_inject [OF assms(2)]
  by (auto simp: dir_shows_def file_get_eq) (metis fun_upd_other read_index_cong)

lemma list_shows:
  assumes "dir_shows ext dir f idx m"
  shows "file_list_ok ext dir a f = (case idx (id_string ext a) of None \<Rightarrow> []
    | Some ids \<Rightarrow> List.map_filter (\<lambda>x. Option.bind (f (path_join dir (x @ ''.json'')))
        (receipt_from_str ext)) ids)"
  using assms file_list_eq by (simp add: dir_shows_def)

lemma list_shows_ids:
  assumes "dir_shows ext dir f idx m" "idx (id_string ext a) = Some (map (id_string ext) is)"
  shows "file_list_ok ext dir a f = List.map_filter m is"
proof -
  have "Option.bind (f (path_join dir (id_string ext i @ ''.json''))) (receipt_from_str ext) = m i" for i
    using assms(1) by (simp add: dir_shows_def file_get_eq flip: receipt_path_def)
  then show ?thesis by (simp add: list_shows [OF assms(1)] assms(2) List.map_filter_def o_def filter_map)
qed

lemma empty_reads [simp]:
  "read_index ext ok dir Map.empty = Some Map.empty" "file_get ext dir ok i Map.empty = None"
  by (simp_all add: read_index_def file_get_def)

text \<open>The first store into a directory without receipts, and the two stores of the tests.\<close>

lemma first_store:
  assumes "id_lib_ok ext" "indexes_kept ext" "receipt_kept ext r"
    and "case read_index ext True dir f of None \<Rightarrow> True | Some x \<Rightarrow> x = Map.empty"
    and "\<And>i. file_get_ok ext dir i f = None"
  shows "fst (file_store ext dir calm r f) = Inr ()"
    and "dir_shows ext dir (snd (file_store ext dir calm r f))
      [id_string ext (rc_action_id r) \<mapsto> [id_string ext (rc_id r)]] [rc_id r \<mapsto> r]"
    and "file_exists ext dir i (snd (file_store ext dir calm r f)) \<longleftrightarrow>
      i = rc_id r \<or> file_exists ext dir i f"
proof -
  have "case read_index ext True dir f of None \<Rightarrow> (Map.empty :: receipt_index) = Map.empty
      | Some x \<Rightarrow> x = Map.empty"
    using assms(4) by (simp split: option.splits)
  note st = store_shows [OF assms(1-3) this, where m = Map.empty]
  show "fst (file_store ext dir calm r f) = Inr ()" by (rule st) (simp_all add: assms(5))
  show "dir_shows ext dir (snd (file_store ext dir calm r f))
      [id_string ext (rc_action_id r) \<mapsto> [id_string ext (rc_id r)]] [rc_id r \<mapsto> r]"
    using st(2) by (simp add: assms(5) push_entry_def)
  show "file_exists ext dir i (snd (file_store ext dir calm r f)) \<longleftrightarrow>
      i = rc_id r \<or> file_exists ext dir i f"
    by (rule st) (simp_all add: assms(5))
qed

lemmas first_store_empty = first_store [where f = Map.empty, simplified]

lemma two_stored_shows:
  assumes "id_lib_ok ext" "indexes_kept ext" "i \<noteq> j"
    and "receipt_kept ext (sample_receipt rx now c i a)" "receipt_kept ext (sample_receipt rx now c j a)"
  obtains f where "two_stored rx ext dir now c a i j = (Inr (), Inr (), f)"
    and "dir_shows ext dir f [id_string ext a \<mapsto> map (id_string ext) [i, j]]
      [i \<mapsto> sample_receipt rx now c i a, j \<mapsto> sample_receipt rx now c j a]"
proof -
  define f1 where "f1 = snd (file_store ext dir calm (sample_receipt rx now c i a) Map.empty)"
  note one = first_store_empty [OF assms(1,2,4), of dir, folded f1_def, unfolded sample_receipt_sel]
  then have idx: "read_index ext True dir f1 = Some [id_string ext a \<mapsto> [id_string ext i]]"
    and get: "\<And>k. file_get_ok ext dir k f1 = [i \<mapsto> sample_receipt rx now c i a] k"
    by (simp_all add: dir_shows_def)
  have "case read_index ext True dir f1 of None \<Rightarrow> [id_string ext a \<mapsto> [id_string ext i]] = Map.empty
      | Some x \<Rightarrow> x = [id_string ext a \<mapsto> [id_string ext i]]"
    by (simp add: idx)
  note two = store_shows [where m = "[i \<mapsto> sample_receipt rx now c i a]", OF assms(1,2,5) this _ get,
      unfolded sample_receipt_sel]
  show ?thesis
  proof (rule that)
    show "two_stored rx ext dir now c a i j =
        (Inr (), Inr (), snd (file_store ext dir calm (sample_receipt rx now c j a) f1))"
      using one(1) two(1) by (simp add: two_stored_def f1_def prod_eq_iff case_prod_beta)
    show "dir_shows ext dir (snd (file_store ext dir calm (sample_receipt rx now c j a) f1))
        [id_string ext a \<mapsto> map (id_string ext) [i, j]]
        [i \<mapsto> sample_receipt rx now c i a, j \<mapsto> sample_receipt rx now c j a]"
      using two(2) by (simp add: push_entry_def)
  qed
qed

lemma file_receipt_plain_tests [store_test]:
  "test_file_missing_receipt ext dir i j a" "test_file_not_in_a_file dir err"
  by (simp_all add: test_file_missing_receipt_def file_exists_def file_list_by_action_def
      new_file_receipts_def test_file_not_in_a_file_def)

lemma file_unreadable_index_test [store_test]:
  assumes "index_from_str ext ''not a json index'' = None"
  shows "test_file_unreadable_index ext dir a"
  by (simp add: test_file_unreadable_index_def file_list_by_action_def new_file_receipts_def
      read_index_def fs_read_def assms)

lemma file_two_receipts_tests [store_test]:
  assumes "id_lib_ok ext" "indexes_kept ext" "i \<noteq> j"
    and "receipt_kept ext (sample_receipt rx now c i a)" "receipt_kept ext (sample_receipt rx now c j a)"
  shows "test_file_lists_action rx ext dir now c a i j"
    and "receipt_from_str ext ''{ not json'' = None \<Longrightarrow> test_file_skips_unparsable rx ext dir now c a i j"
    and "test_file_tolerates_missing rx ext dir now c a i j"
proof -
  obtain f where st: "two_stored rx ext dir now c a i j = (Inr (), Inr (), f)"
    and sh: "dir_shows ext dir f [id_string ext a \<mapsto> map (id_string ext) [i, j]]
      [i \<mapsto> sample_receipt rx now c i a, j \<mapsto> sample_receipt rx now c j a]"
    by (rule two_stored_shows [OF assms])
  have list: "file_list_ok ext dir a f = [sample_receipt rx now c i a, sample_receipt rx now c j a]"
    using list_shows_ids [OF sh, of a "[i, j]"] assms(3) by (simp add: List.map_filter_simps)
  from sh have "file_get_ok ext dir i f = Some (sample_receipt rx now c i a)"
    using assms(3) by (simp add: dir_shows_def)
  with st list show "test_file_lists_action rx ext dir now c a i j"
    by (simp add: test_file_lists_action_def sample_receipt_sel sample_verifies)
  have spoiled: "file_list_ok ext dir a (f(receipt_path ext dir j := t)) = [sample_receipt rx now c i a]
      \<and> file_get_ok ext dir j (f(receipt_path ext dir j := t)) = None"
    if "Option.bind t (receipt_from_str ext) = None" for t
  proof -
    note sp = spoiled_shows [OF sh assms(1) that, of j]
    from list_shows_ids [OF sp, of a "[i, j]"] sp assms(3) show ?thesis
      by (simp add: List.map_filter_simps dir_shows_def)
  qed
  from spoiled [of "Some ''{ not json''"] st
  show "receipt_from_str ext ''{ not json'' = None \<Longrightarrow> test_file_skips_unparsable rx ext dir now c a i j"
    by (simp add: test_file_skips_unparsable_def sample_receipt_sel sample_verifies)
  from spoiled [of None] st show "test_file_tolerates_missing rx ext dir now c a i j"
    by (simp add: test_file_tolerates_missing_def sample_receipt_sel)
qed

lemma file_one_receipt_tests [store_test]:
  assumes "id_lib_ok ext" "indexes_kept ext" "receipt_kept ext (new_receipt rx i now a c Verified 1)"
  shows "test_file_persists_receipt rx ext dir now c a i"
    and "other \<noteq> i \<Longrightarrow> test_file_exists rx ext dir now c a i other"
proof -
  have sel: "rc_id (new_receipt rx i now a c Verified 1) = i"
    by (simp add: new_receipt_def with_digest_def)
  note one = first_store_empty [OF assms, of dir, unfolded sel]
  from one(2) have "file_get_ok ext dir i
      (snd (file_store ext dir calm (new_receipt rx i now a c Verified 1) Map.empty)) =
      Some (new_receipt rx i now a c Verified 1)"
    by (simp add: dir_shows_def)
  with one(3) show "test_file_persists_receipt rx ext dir now c a i"
    "other \<noteq> i \<Longrightarrow> test_file_exists rx ext dir now c a i other"
    by (simp_all add: test_file_persists_receipt_def test_file_exists_def sel) (simp add: file_exists_def)
qed

lemma file_rebuild_test [store_test]:
  assumes "id_lib_ok ext" "indexes_kept ext" "receipt_kept ext (sample_receipt rx now c i a)"
    and "index_from_str ext ''not a json index'' = None" "other \<noteq> a"
  shows "test_file_rebuilds_index rx ext dir now c a other i"
proof -
  let ?f = "[index_path dir \<mapsto> ''not a json index'']"
  let ?g = "snd (file_store ext dir calm (sample_receipt rx now c i a) ?f)"
  have "read_index ext True dir ?f = None" by (simp add: read_index_def fs_read_def assms(4))
  moreover have "file_get_ok ext dir k ?f = None" for k
    using receipt_path_index [OF assms(1)] by (simp add: file_get_eq)
  ultimately have f: "fst (file_store ext dir calm (sample_receipt rx now c i a) ?f) = Inr ()"
    "dir_shows ext dir ?g [id_string ext a \<mapsto> [id_string ext i]] [i \<mapsto> sample_receipt rx now c i a]"
    using first_store [OF assms(1-3), of dir ?f, unfolded sample_receipt_sel] by simp_all
  have "id_string ext other \<noteq> id_string ext a"
    using assms(1,5) by (auto simp: id_lib_ok_def dest: injD)
  with f(1) list_shows [OF f(2), of other] list_shows_ids [OF f(2), of a "[i]"] show ?thesis
    by (simp add: test_file_rebuilds_index_def List.map_filter_simps sample_receipt_sel case_prod_beta)
qed

lemma file_overwrite_test [store_test]:
  assumes "id_lib_ok ext" "indexes_kept ext" "receipt_kept ext (sample_receipt rx now c i a)"
    and "receipt_kept ext (sign_receipt (replicate 64 7) (sample_receipt rx now c i a))"
  shows "test_file_overwrites rx ext dir now c a i"
proof -
  let ?s = "sign_receipt (replicate 64 7) (sample_receipt rx now c i a)"
  have sel: "rc_id ?s = i" "rc_action_id ?s = a" by (simp_all add: sign_receipt_def sample_receipt_sel)
  define f1 where "f1 = snd (file_store ext dir calm (sample_receipt rx now c i a) Map.empty)"
  note one = first_store_empty [OF assms(1-3), of dir, folded f1_def, unfolded sample_receipt_sel]
  then have idx: "read_index ext True dir f1 = Some [id_string ext a \<mapsto> [id_string ext i]]"
    and get: "\<And>k. file_get_ok ext dir k f1 = [i \<mapsto> sample_receipt rx now c i a] k"
    by (simp_all add: dir_shows_def)
  have "case read_index ext True dir f1 of None \<Rightarrow> [id_string ext a \<mapsto> [id_string ext i]] = Map.empty
      | Some x \<Rightarrow> x = [id_string ext a \<mapsto> [id_string ext i]]"
    by (simp add: idx)
  note two = store_shows [where m = "[i \<mapsto> sample_receipt rx now c i a]", OF assms(1,2,4) this _ get,
      unfolded sel]
  have "file_get_ok ext dir i (snd (file_store ext dir calm ?s f1)) = Some ?s"
    using two(2) by (simp add: dir_shows_def)
  with one(1) two(1,3) show ?thesis
    by (simp add: test_file_overwrites_def case_prod_beta f1_def is_signed_def)
      (simp add: sign_receipt_def)
qed

lemma file_trait_test [store_test]:
  assumes "id_lib_ok ext" "indexes_kept ext" "receipt_kept ext (sample_receipt rx now c j a)" "other \<noteq> a"
  shows "test_stores_through_the_trait rx ext dir now c a other i j"
proof -
  note one = first_store_empty [OF assms(1-3), of dir, unfolded sample_receipt_sel]
  have "id_string ext other \<noteq> id_string ext a"
    using assms(1,4) by (auto simp: id_lib_ok_def dest: injD)
  with list_shows [OF one(2), of other] list_shows_ids [OF one(2), of a "[j]"] one assms(4) show ?thesis
    by (simp add: test_stores_through_the_trait_def List.map_filter_simps case_prod_beta dir_shows_def)
      (simp add: mem_store_def mem_exists_def mem_get_def mem_list_by_action_def new_mem_receipts_def
        push_entry_def sample_receipt_sel List.map_filter_simps)
qed

section \<open>Errors and signatures\<close>

definition show_receipt_store_error :: "receipt_store_error \<Rightarrow> string" where
  "show_receipt_store_error e = (case e of
     Persist m \<Rightarrow> ''failed to persist receipt: '' @ m
   | Serialize m \<Rightarrow> ''failed to serialize receipt: '' @ m)"

definition test_receipt_store_errors :: bool where
  "test_receipt_store_errors =
     (show_receipt_store_error (Persist ''disk full'') = ''failed to persist receipt: disk full'' \<and>
      show_receipt_store_error (Serialize ''bad utf-8'') = ''failed to serialize receipt: bad utf-8'')"

definition test_sign_and_verify ::
  "receipt_lib \<Rightarrow> ('sk, 'vk) sig_lib \<Rightarrow> 'sk \<Rightarrow> datetime \<Rightarrow> uuid \<Rightarrow> uuid \<Rightarrow> uuid \<Rightarrow> bool" where
  "test_sign_and_verify rx sx key now i a c =
     (case service_sign rx sx (new_signing_service sx key) (new_receipt rx i now a c Verified 1) of
        Inl _ \<Rightarrow> False | Inr signature \<Rightarrow> length signature = 64)"

definition signed_by ::
  "receipt_lib \<Rightarrow> ('sk, 'vk) sig_lib \<Rightarrow> ('sk, 'vk) ed25519_service \<Rightarrow> receipt \<Rightarrow> signing_error + receipt" where
  "signed_by rx sx service receipt =
     (case service_sign rx sx service receipt of
        Inl e \<Rightarrow> Inl e
      | Inr signature \<Rightarrow> Inr ((sign_receipt signature receipt)\<lparr>rc_key_id := Some (service_key_id sx service)\<rparr>))"

definition test_verify_valid ::
  "receipt_lib \<Rightarrow> ('sk, 'vk) sig_lib \<Rightarrow> 'sk \<Rightarrow> datetime \<Rightarrow> uuid \<Rightarrow> uuid \<Rightarrow> uuid \<Rightarrow> bool" where
  "test_verify_valid rx sx key now i a c =
     (let service = new_signing_service sx key
      in case signed_by rx sx service (new_receipt rx i now a c Verified 1) of
           Inl _ \<Rightarrow> False | Inr signed_receipt \<Rightarrow> service_verify rx sx service signed_receipt = Inr True)"

definition test_verify_tampered ::
  "receipt_lib \<Rightarrow> ('sk, 'vk) sig_lib \<Rightarrow> 'sk \<Rightarrow> datetime \<Rightarrow> uuid \<Rightarrow> uuid \<Rightarrow> uuid \<Rightarrow> bool" where
  "test_verify_tampered rx sx key now i a c =
     (let service = new_signing_service sx key
      in case signed_by rx sx service (new_receipt rx i now a c Verified 1) of
           Inl _ \<Rightarrow> False
         | Inr signed_receipt \<Rightarrow> service_verify rx sx service (signed_receipt\<lparr>rc_result := Failed\<rparr>) = Inr False)"

definition test_from_base64_roundtrip ::
  "('sk, 'vk) sig_lib \<Rightarrow> (byte list \<Rightarrow> string) \<Rightarrow> 'sk \<Rightarrow> bool" where
  "test_from_base64_roundtrip sx base64_encode key =
     (\<exists>service2. from_base64 sx (verifying_key_base64 sx base64_encode (new_signing_service sx key))
        = Inr service2)"

lemma receipt_store_error_test [store_test]: test_receipt_store_errors
  by (simp add: test_receipt_store_errors_def show_receipt_store_error_def)

lemma signing_tests [store_test]:
  assumes "\<And>m. length (ed_sign sx key m) = 64"
  shows "test_sign_and_verify rx sx key now i a c"
    and "(\<And>m. ed_verify_strict sx (verifying_key_of sx key) m (ed_sign sx key m)) \<Longrightarrow>
      test_verify_valid rx sx key now i a c"
  by (simp_all add: test_sign_and_verify_def test_verify_valid_def signed_by_def service_sign_def
      service_verify_def new_signing_service_def canonicalize_def signing_json_def sign_receipt_def Let_def
      assms)

text \<open>A tampered receipt fails when the signature is good for no other document.\<close>

lemma signing_tamper_test [store_test]:
  assumes "\<And>m. length (ed_sign sx key m) = 64"
    and "\<not> ed_verify_strict sx (verifying_key_of sx key)
      (canonicalize rx ((new_receipt rx i now a c Verified 1)\<lparr>rc_result := Failed\<rparr>))
      (ed_sign sx key (canonicalize rx (new_receipt rx i now a c Verified 1)))"
  shows "test_verify_tampered rx sx key now i a c"
proof -
  let ?r = "new_receipt rx i now a c Verified 1"
  have "canonicalize rx (r\<lparr>rc_signature := g, rc_key_id := k, rc_result := Failed\<rparr>) =
      canonicalize rx (r\<lparr>rc_result := Failed\<rparr>)" for r g k
    by (simp add: canonicalize_def signing_json_def)
  with assms show ?thesis
    by (simp add: test_verify_tampered_def signed_by_def service_sign_def service_verify_def
        new_signing_service_def sign_receipt_def Let_def)
qed

lemma base64_test [store_test]:
  assumes "\<And>b. base64_decode sx (enc b) = Inr b" "length (vk_bytes sx (verifying_key_of sx key)) = 32"
  shows "test_from_base64_roundtrip sx enc key"
  by (simp add: test_from_base64_roundtrip_def from_base64_def verifying_key_base64_def
      new_signing_service_def assms)

end
