(* ===== verification/Storage_Tests.thy ===== *)
theory Storage_Tests
  imports Storage
begin

text \<open>
  Unit tests of \<open>agentverify-storage/src/lib.rs\<close> run on the model. Each definition is a test
  function, true when its assertions hold; \<open>rx\<close> is what receipts take from libraries, \<open>ext\<close> what the
  backend takes, \<open>dir\<close> a directory without files, \<open>now\<close> a time and the other arguments fresh
  identifiers. \<open>listing\<close> is the outside of a call that goes well while the directory holds the
  receipt files of some identifiers. Tests of \<open>Debug\<close> are left out.
\<close>

named_theorems storage_test

definition create_test_receipt ::
  "receipt_lib \<Rightarrow> datetime \<Rightarrow> receipt_id \<Rightarrow> action_id \<Rightarrow> contract_id \<Rightarrow> receipt" where
  "create_test_receipt rx now uid a c =
     with_observation rx
       (new_observation now ''test-source'' (json_object [(''status'', JString ''ok'')]))
       (with_contract_version_and_key rx uid now a c ''1.0'' Verified 1 (Some ''test-key''))"

definition file_name_of :: "storage_lib \<Rightarrow> receipt_id \<Rightarrow> string" where
  "file_name_of ext i = sg_id_string ext i @ ''.json''"

definition listing :: "storage_lib \<Rightarrow> receipt_id list \<Rightarrow> storage_io" where
  "listing ext ids =
     \<lparr>so_write = WriteOk, so_rename_ok = True, so_read_ok = (\<lambda>_. True), so_remove_ok = True,
      so_read_dir = Some (map (file_name_of ext) ids, True), so_error = []\<rparr>"

text \<open>A call whose directory has vanished.\<close>

definition vanished :: "string \<Rightarrow> storage_io" where
  "vanished err =
     \<lparr>so_write = WriteFails None, so_rename_ok = False, so_read_ok = (\<lambda>_. False), so_remove_ok = False,
      so_read_dir = None, so_error = err\<rparr>"

definition opened :: "path \<Rightarrow> file_storage" where
  "opened dir = \<lparr>sg_base = dir, sg_cache = [], sg_fs = Map.empty\<rparr>"

section \<open>File storage\<close>

definition test_store_and_load ::
  "receipt_lib \<Rightarrow> storage_lib \<Rightarrow> path \<Rightarrow> datetime \<Rightarrow> uuid \<Rightarrow> uuid \<Rightarrow> uuid \<Rightarrow> bool" where
  "test_store_and_load rx ext dir now i a c =
     (let receipt = create_test_receipt rx now i a c;
          (stored, storage) = sg_store ext (listing ext []) receipt (opened dir)
      in stored = Inr () \<and>
         (case sg_load ext (listing ext [i]) i storage of
            Inr (Some loaded) \<Rightarrow> rc_id loaded = i \<and> rc_action_id loaded = rc_action_id receipt \<and>
              rc_contract_id loaded = rc_contract_id receipt
          | _ \<Rightarrow> False))"

definition test_load_nonexistent :: "storage_lib \<Rightarrow> path \<Rightarrow> uuid \<Rightarrow> bool" where
  "test_load_nonexistent ext dir i = (sg_load ext (listing ext []) i (opened dir) = Inr None)"

definition test_delete ::
  "receipt_lib \<Rightarrow> storage_lib \<Rightarrow> path \<Rightarrow> datetime \<Rightarrow> uuid \<Rightarrow> uuid \<Rightarrow> uuid \<Rightarrow> bool" where
  "test_delete rx ext dir now i a c =
     (let (r1, storage) = sg_store ext (listing ext []) (create_test_receipt rx now i a c) (opened dir);
          (r2, storage) = sg_exists ext (listing ext [i]) i storage;
          (r3, storage) = sg_delete ext (listing ext [i]) i storage;
          (r4, storage) = sg_exists ext (listing ext []) i storage
      in r1 = Inr () \<and> r2 = Inr True \<and> r3 = Inr () \<and> r4 = Inr False)"

definition test_delete_nonexistent :: "storage_lib \<Rightarrow> path \<Rightarrow> uuid \<Rightarrow> bool" where
  "test_delete_nonexistent ext dir i =
     (fst (sg_delete ext (listing ext []) i (opened dir)) = Inl (NotFound i))"

definition test_exists ::
  "receipt_lib \<Rightarrow> storage_lib \<Rightarrow> path \<Rightarrow> datetime \<Rightarrow> uuid \<Rightarrow> uuid \<Rightarrow> uuid \<Rightarrow> bool" where
  "test_exists rx ext dir now i a c =
     (let (r1, storage) = sg_exists ext (listing ext []) i (opened dir);
          (r2, storage) = sg_store ext (listing ext []) (create_test_receipt rx now i a c) storage;
          (r3, storage) = sg_exists ext (listing ext [i]) i storage
      in r1 = Inr False \<and> r2 = Inr () \<and> r3 = Inr True)"

definition test_list_ids ::
  "receipt_lib \<Rightarrow> storage_lib \<Rightarrow> path \<Rightarrow> datetime \<Rightarrow> uuid \<Rightarrow> uuid \<Rightarrow> uuid \<Rightarrow> uuid \<Rightarrow> bool" where
  "test_list_ids rx ext dir now i j a c =
     (let (r1, storage) = sg_store ext (listing ext []) (create_test_receipt rx now i a c) (opened dir);
          (r2, storage) = sg_store ext (listing ext [i]) (create_test_receipt rx now j a c) storage
      in r1 = Inr () \<and> r2 = Inr () \<and>
         (case fst (sg_list_ids ext (listing ext [i, j]) storage) of
            Inl _ \<Rightarrow> False | Inr ids \<Rightarrow> length ids = 2 \<and> i \<in> set ids \<and> j \<in> set ids))"

definition test_list_by_action ::
  "receipt_lib \<Rightarrow> storage_lib \<Rightarrow> path \<Rightarrow> datetime \<Rightarrow> uuid \<Rightarrow> uuid \<Rightarrow> uuid \<Rightarrow> uuid \<Rightarrow> uuid \<Rightarrow> uuid \<Rightarrow> bool" where
  "test_list_by_action rx ext dir now i j k action_id other_action_id c =
     (let (r1, storage) =
            sg_store ext (listing ext []) (create_test_receipt rx now i action_id c) (opened dir);
          (r2, storage) = sg_store ext (listing ext [i]) (create_test_receipt rx now j action_id c) storage;
          (r3, storage) =
            sg_store ext (listing ext [i, j]) (create_test_receipt rx now k other_action_id c) storage
      in r1 = Inr () \<and> r2 = Inr () \<and> r3 = Inr () \<and>
         (case fst (sg_list_by_action ext (listing ext [i, j, k]) action_id storage) of
            Inl _ \<Rightarrow> False | Inr receipts \<Rightarrow> length receipts = 2))"

definition test_store_duplicate ::
  "receipt_lib \<Rightarrow> storage_lib \<Rightarrow> path \<Rightarrow> datetime \<Rightarrow> uuid \<Rightarrow> uuid \<Rightarrow> uuid \<Rightarrow> bool" where
  "test_store_duplicate rx ext dir now i a c =
     (let receipt = create_test_receipt rx now i a c;
          (r1, storage) = sg_store ext (listing ext []) receipt (opened dir)
      in r1 = Inr () \<and> fst (sg_store ext (listing ext [i]) receipt storage) = Inl (AlreadyExists i))"

definition test_preserves_receipt_data ::
  "receipt_lib \<Rightarrow> storage_lib \<Rightarrow> path \<Rightarrow> datetime \<Rightarrow> uuid \<Rightarrow> uuid \<Rightarrow> uuid \<Rightarrow> bool" where
  "test_preserves_receipt_data rx ext dir now i a c =
     (let receipt = create_test_receipt rx now i a c;
          (stored, storage) = sg_store ext (listing ext []) receipt (opened dir)
      in stored = Inr () \<and>
         (case sg_load ext (listing ext [i]) i storage of
            Inr (Some loaded) \<Rightarrow>
              rc_version loaded = rc_version receipt \<and> rc_id loaded = rc_id receipt \<and>
              rc_action_id loaded = rc_action_id receipt \<and>
              rc_contract_id loaded = rc_contract_id receipt \<and>
              rc_contract_version loaded = rc_contract_version receipt \<and>
              rc_result loaded = rc_result receipt \<and> rc_attempts loaded = rc_attempts receipt \<and>
              length (rc_observations loaded) = length (rc_observations receipt) \<and>
              length (rc_postcondition_results loaded) = length (rc_postcondition_results receipt) \<and>
              rc_digest loaded = rc_digest receipt \<and>
              rc_idempotency_key loaded = rc_idempotency_key receipt
          | _ \<Rightarrow> False))"

definition test_rejects_invalid_paths :: "path \<Rightarrow> bool" where
  "test_rejects_invalid_paths invalid =
     (new_file_storage False True [] invalid Map.empty =
      Inl (InvalidPath ''Path must be a valid UTF-8 string''))"

definition test_new_surfaces_io_failures :: "path \<Rightarrow> string \<Rightarrow> bool" where
  "test_new_surfaces_io_failures blocking_file err =
     (new_file_storage True False err (path_join blocking_file ''receipts'') [blocking_file \<mapsto> ''not a directory'']
      = Inl (Io err))"

definition test_store_surfaces_io_failures ::
  "receipt_lib \<Rightarrow> storage_lib \<Rightarrow> path \<Rightarrow> datetime \<Rightarrow> uuid \<Rightarrow> uuid \<Rightarrow> uuid \<Rightarrow> string \<Rightarrow> bool" where
  "test_store_surfaces_io_failures rx ext dir now i a c err =
     (let (stored, storage) = sg_store ext (vanished err) (create_test_receipt rx now i a c) (opened dir)
      in stored = Inl (Io err) \<and> fst (sg_list_ids ext (vanished err) storage) = Inl (Io err))"

definition test_load_reports_serialization_errors :: "storage_lib \<Rightarrow> path \<Rightarrow> uuid \<Rightarrow> bool" where
  "test_load_reports_serialization_errors ext dir i =
     (let storage = (opened dir)\<lparr>sg_fs := [path_join dir (file_name_of ext i) \<mapsto> ''{not a receipt'']\<rparr>
      in case sg_load ext (listing ext [i]) i storage of Inl (Serialization _) \<Rightarrow> True | _ \<Rightarrow> False)"

definition test_list_skips_unreadable ::
  "receipt_lib \<Rightarrow> storage_lib \<Rightarrow> path \<Rightarrow> datetime \<Rightarrow> uuid \<Rightarrow> uuid \<Rightarrow> uuid \<Rightarrow> uuid \<Rightarrow> bool" where
  "test_list_skips_unreadable rx ext dir now good corrupt_id action_id c =
     (let (r1, storage) =
            sg_store ext (listing ext []) (create_test_receipt rx now good action_id c) (opened dir);
          storage = storage\<lparr>sg_fs := (sg_fs storage)(path_join dir (file_name_of ext corrupt_id) \<mapsto> ''{corrupt'')\<rparr>;
          (ids, storage) = sg_list_ids ext (listing ext [good, corrupt_id]) storage;
          (receipts, storage) = sg_list_by_action ext (listing ext [good, corrupt_id]) action_id storage
      in r1 = Inr () \<and> (case ids of Inl _ \<Rightarrow> False | Inr xs \<Rightarrow> length xs = 2) \<and>
         (case receipts of Inl _ \<Rightarrow> False | Inr rs \<Rightarrow> length rs = 1 \<and> rc_id (rs ! 0) = good))"

text \<open>A directory with foreign files: a text, a name that is no identifier, and an identifier.\<close>

definition test_refresh_ignores_foreign_files ::
  "receipt_lib \<Rightarrow> storage_lib \<Rightarrow> path \<Rightarrow> datetime \<Rightarrow> uuid \<Rightarrow> uuid \<Rightarrow> uuid \<Rightarrow> bool" where
  "test_refresh_ignores_foreign_files rx ext dir now i a c =
     (let (r1, storage) = sg_store ext (listing ext []) (create_test_receipt rx now i a c) (opened dir);
          io = (listing ext [])\<lparr>so_read_dir := Some ([file_name_of ext i, ''README.txt'', ''not-a-uuid.json'',
                 ''00000000-0000-0000-0000-000000000000.json''], True)\<rparr>
      in r1 = Inr () \<and>
         (case fst (sg_list_ids ext io storage) of
            Inl _ \<Rightarrow> False | Inr ids \<Rightarrow> length ids = 2 \<and> i \<in> set ids))"

text \<open>The bytes of the last test's file name, whose stem is no UTF-8.\<close>

definition test_refresh_ignores_non_utf8 ::
  "receipt_lib \<Rightarrow> storage_lib \<Rightarrow> path \<Rightarrow> datetime \<Rightarrow> uuid \<Rightarrow> uuid \<Rightarrow> uuid \<Rightarrow> bool" where
  "test_refresh_ignores_non_utf8 rx ext dir now i a c =
     (let (r1, storage) = sg_store ext (listing ext []) (create_test_receipt rx now i a c) (opened dir);
          foreign = map char_of [0xff :: nat, 0xfe, 0x2e, 0x6a, 0x73, 0x6f, 0x6e];
          io = (listing ext [])\<lparr>so_read_dir := Some ([file_name_of ext i, foreign], True)\<rparr>
      in r1 = Inr () \<and> fst (sg_list_ids ext io storage) = Inr [i])"

section \<open>Memory storage and errors\<close>

definition test_ms_basic :: "receipt_lib \<Rightarrow> datetime \<Rightarrow> uuid \<Rightarrow> uuid \<Rightarrow> uuid \<Rightarrow> bool" where
  "test_ms_basic rx now i a c =
     (let (r1, storage) = ms_store (create_test_receipt rx now i a c) new_mem_storage;
          present = ms_exists i storage;
          loaded = ms_load i storage;
          (r2, storage) = ms_delete i storage
      in r1 = Inr () \<and> present = Inr True \<and>
         (case loaded of Inr (Some r) \<Rightarrow> rc_id r = i | _ \<Rightarrow> False) \<and>
         r2 = Inr () \<and> ms_exists i storage = Inr False)"

definition test_ms_list_by_action :: "receipt_lib \<Rightarrow> datetime \<Rightarrow> uuid \<Rightarrow> uuid \<Rightarrow> uuid \<Rightarrow> bool" where
  "test_ms_list_by_action rx now i action_id c =
     (let (r1, storage) = ms_store (create_test_receipt rx now i action_id c) new_mem_storage
      in r1 = Inr () \<and>
         (case ms_list_by_action action_id storage of Inl _ \<Rightarrow> False | Inr rs \<Rightarrow> length rs = 1))"

definition test_ms_default :: "uuid \<Rightarrow> bool" where
  "test_ms_default i = (ms_exists i new_mem_storage = Inr False)"

definition test_ms_list_ids ::
  "receipt_lib \<Rightarrow> datetime \<Rightarrow> uuid \<Rightarrow> uuid \<Rightarrow> uuid \<Rightarrow> uuid \<Rightarrow> uuid \<Rightarrow> bool" where
  "test_ms_list_ids rx now i j a c unknown =
     (let (r1, storage) = ms_store (create_test_receipt rx now i a c) new_mem_storage;
          (r2, storage) = ms_store (create_test_receipt rx now j a c) storage
      in r1 = Inr () \<and> r2 = Inr () \<and>
         (case ms_list_ids storage of
            Inl _ \<Rightarrow> False | Inr ids \<Rightarrow> length ids = 2 \<and> i \<in> set ids \<and> j \<in> set ids) \<and>
         fst (ms_delete unknown storage) = Inl (NotFound unknown))"

text \<open>\<open>Display\<close> of the errors.\<close>

definition show_storage_error :: "(uuid \<Rightarrow> string) \<Rightarrow> storage_error \<Rightarrow> string" where
  "show_storage_error show_id e = (case e of
     Io m \<Rightarrow> ''IO error: '' @ m
   | Serialization m \<Rightarrow> ''Serialization error: '' @ m
   | NotFound i \<Rightarrow> ''Receipt not found: '' @ show_id i
   | AlreadyExists i \<Rightarrow> ''Receipt already exists: '' @ show_id i
   | InvalidPath m \<Rightarrow> ''Invalid path: '' @ m)"

definition test_storage_error_display :: "(uuid \<Rightarrow> string) \<Rightarrow> string \<Rightarrow> string \<Rightarrow> uuid \<Rightarrow> bool" where
  "test_storage_error_display show_id io_error serialization_error i =
     (take 10 (show_storage_error show_id (Io io_error)) = ''IO error: '' \<and>
      take 21 (show_storage_error show_id (Serialization serialization_error)) = ''Serialization error: '' \<and>
      show_storage_error show_id (NotFound i) = ''Receipt not found: '' @ show_id i \<and>
      show_storage_error show_id (AlreadyExists i) = ''Receipt already exists: '' @ show_id i \<and>
      show_storage_error show_id (InvalidPath ''not utf-8'') = ''Invalid path: not utf-8'')"

section \<open>The tests hold\<close>

text \<open>What UUIDs and serde do.\<close>

definition uuids_parse :: "storage_lib \<Rightarrow> bool" where
  "uuids_parse ext \<longleftrightarrow>
     (\<forall>i. sg_id_string ext i \<noteq> [] \<and> parse_uuid ext (sg_id_string ext i) = Some i)"

definition receipt_written :: "storage_lib \<Rightarrow> receipt \<Rightarrow> bool" where
  "receipt_written ext r \<longleftrightarrow> (\<exists>t. sg_to_string ext r = Inr t \<and> sg_from_str ext t = Inr r)"

lemma uuids_parse_inj: "uuids_parse ext \<Longrightarrow> inj (sg_id_string ext)"
  unfolding uuids_parse_def by (intro injI) (metis option.inject)

lemma json_name:
  assumes "x \<noteq> []"
  shows "path_extension (x @ ''.json'') = Some ''json''" "file_stem (x @ ''.json'') = x"
  using assms by (simp_all add: path_extension_def file_stem_def rsplit_dot_def)

lemma cache_file_name:
  "uuids_parse ext \<Longrightarrow> cache_entry ext (file_name_of ext i) cache = set_insert i cache"
  using json_name [of "sg_id_string ext i"] by (simp add: cache_entry_def file_name_of_def uuids_parse_def)

lemma file_name_path: "path_join dir (file_name_of ext i) = sg_receipt_path ext dir i"
  by (simp add: file_name_of_def sg_receipt_path_def)

lemma listing_sel [simp]:
  "so_write (listing ext ids) = WriteOk" "so_rename_ok (listing ext ids)" "so_remove_ok (listing ext ids)"
  "so_read_ok (listing ext ids) i" "so_read_dir (listing ext ids) = Some (map (file_name_of ext) ids, True)"
  by (simp_all add: listing_def)

lemma opened_sel [simp]:
  "sg_base (opened dir) = dir" "sg_cache (opened dir) = []" "sg_fs (opened dir) = Map.empty"
  by (simp_all add: opened_def)

lemma test_receipt_sel [simp]:
  "rc_id (create_test_receipt rx now i a c) = i" "rc_action_id (create_test_receipt rx now i a c) = a"
  "rc_contract_id (create_test_receipt rx now i a c) = c"
  by (simp_all add: create_test_receipt_def with_observation_def with_contract_version_and_key_def
      with_digest_def Let_def)

text \<open>A store that goes well.\<close>

lemma store_written:
  assumes "sg_to_string ext r = Inr t" "sg_fs s (sg_receipt_path ext (sg_base s) (rc_id r)) = None"
  shows "sg_store ext (listing ext ids) r s =
    (Inr (), s\<lparr>sg_fs := ((sg_fs s)(sg_tmp_path ext (sg_base s) (rc_id r) := None))
        (sg_receipt_path ext (sg_base s) (rc_id r) \<mapsto> t),
      sg_cache := set_insert (rc_id r) (sg_cache s)\<rparr>)"
  using assms by (simp add: sg_store_def store_inner_def write_atomic_def fs_write_def fs_rename_def)

lemmas sg_ops = sg_load_def load_inner_def sg_delete_def delete_inner_def sg_exists_def exists_inner_def
  refresh_cache_def sg_list_ids_def fs_read_def fs_remove_def

lemma storage_plain_tests [storage_test]:
  "test_load_nonexistent ext dir i" "test_delete_nonexistent ext dir i" "test_rejects_invalid_paths dir"
  "test_new_surfaces_io_failures dir err" "test_ms_default i"
  "test_storage_error_display show_id e1 e2 i"
  "sg_from_str ext ''{not a receipt'' = Inl e \<Longrightarrow> test_load_reports_serialization_errors ext dir i"
  by (simp_all add: test_load_nonexistent_def test_delete_nonexistent_def test_rejects_invalid_paths_def
      test_new_surfaces_io_failures_def test_ms_default_def test_storage_error_display_def
      show_storage_error_def test_load_reports_serialization_errors_def new_file_storage_def
      ms_exists_def new_mem_storage_def sg_ops file_name_path)

lemma ms_tests [storage_test]:
  "test_ms_basic rx now i a c" "test_ms_list_by_action rx now i a c"
  "distinct [i, j, unknown] \<Longrightarrow> test_ms_list_ids rx now i j a c unknown"
  by (auto simp: test_ms_basic_def test_ms_list_by_action_def test_ms_list_ids_def new_mem_storage_def
      ms_store_def ms_exists_def ms_load_def ms_delete_def ms_list_by_action_def ms_list_ids_def)

lemma one_receipt_tests [storage_test]:
  assumes "receipt_written ext (create_test_receipt rx now i a c)"
  shows "test_store_and_load rx ext dir now i a c" "test_delete rx ext dir now i a c"
    and "test_exists rx ext dir now i a c" "test_store_duplicate rx ext dir now i a c"
    and "test_preserves_receipt_data rx ext dir now i a c"
  using assms
  by (auto simp: receipt_written_def test_store_and_load_def test_delete_def test_exists_def
      test_store_duplicate_def test_preserves_receipt_data_def store_written sg_ops set_insert_def Let_def
      sg_store_def [of _ "listing _ [_]"] store_inner_def)

lemma vanished_test [storage_test]:
  assumes "sg_to_string ext (create_test_receipt rx now i a c) = Inr t"
  shows "test_store_surfaces_io_failures rx ext dir now i a c err"
  using assms by (simp add: test_store_surfaces_io_failures_def sg_store_def store_inner_def write_atomic_def
      fs_write_def vanished_def sg_list_ids_def refresh_cache_def)

lemma more_receipts_tests [storage_test]:
  assumes "uuids_parse ext" "\<And>u b. receipt_written ext (create_test_receipt rx now u b c)"
    and "distinct [i, j, k]" "a \<noteq> other"
  shows "test_list_ids rx ext dir now i j a c"
    and "test_list_by_action rx ext dir now i j k a other c"
proof -
  obtain t where t: "sg_to_string ext (create_test_receipt rx now u b c) = Inr (t u b)"
    "sg_from_str ext (t u b) = Inr (create_test_receipt rx now u b c)" for u b
    using assms(2) unfolding receipt_written_def by metis
  note facts = sg_path_inject [OF uuids_parse_inj [OF assms(1)]] cache_file_name [OF assms(1)]
  have ne: "i \<noteq> j" "j \<noteq> i" "i \<noteq> k" "k \<noteq> i" "j \<noteq> k" "k \<noteq> j" "other \<noteq> a"
    using assms(3,4) by auto
  show "test_list_ids rx ext dir now i j a c"
    by (simp add: ne test_list_ids_def store_written t facts sg_ops set_insert_def Let_def)
  show "test_list_by_action rx ext dir now i j k a other c"
    by (simp add: ne test_list_by_action_def store_written t facts sg_ops set_insert_def Let_def
        sg_list_by_action_def List.map_filter_simps)
qed

lemma unreadable_test [storage_test]:
  assumes "uuids_parse ext" "receipt_written ext (create_test_receipt rx now i a c)" "i \<noteq> j"
    and "sg_from_str ext ''{corrupt'' = Inl e"
  shows "test_list_skips_unreadable rx ext dir now i j a c"
proof -
  obtain t where t: "sg_to_string ext (create_test_receipt rx now i a c) = Inr t"
    "sg_from_str ext t = Inr (create_test_receipt rx now i a c)"
    using assms(2) by (auto simp: receipt_written_def)
  have ne: "j \<noteq> i" using assms(3) by simp
  show ?thesis
    by (simp add: t ne assms(3,4) test_list_skips_unreadable_def store_written sg_ops set_insert_def
        Let_def sg_list_by_action_def List.map_filter_simps file_name_path
        sg_path_inject [OF uuids_parse_inj [OF assms(1)]] cache_file_name [OF assms(1)])
qed

lemma foreign_files_tests [storage_test]:
  assumes "uuids_parse ext" "receipt_written ext (create_test_receipt rx now i a c)"
    and "parse_uuid ext ''not-a-uuid'' = None" "parse_uuid ext (map char_of [0xff :: nat, 0xfe]) = None"
    and "parse_uuid ext ''00000000-0000-0000-0000-000000000000'' = Some nil" "i \<noteq> nil"
  shows "test_refresh_ignores_foreign_files rx ext dir now i a c"
    and "test_refresh_ignores_non_utf8 rx ext dir now i a c"
proof -
  note names = cache_entry_def path_extension_def file_stem_def rsplit_dot_def
  have foreign: "cache_entry ext ''README.txt'' ids = ids" "cache_entry ext ''not-a-uuid.json'' ids = ids"
    "cache_entry ext ''00000000-0000-0000-0000-000000000000.json'' ids = set_insert nil ids"
    "cache_entry ext (map char_of [0xff :: nat, 0xfe, 0x2e, 0x6a, 0x73, 0x6f, 0x6e]) ids = ids" for ids
    using assms(3-5) by (simp_all add: names)
  note facts = cache_file_name [OF assms(1)] store_written sg_ops set_insert_def Let_def
  from assms(2) show "test_refresh_ignores_foreign_files rx ext dir now i a c"
    using assms(6) by (auto simp: receipt_written_def test_refresh_ignores_foreign_files_def foreign facts)
  from assms(2) foreign(4) show "test_refresh_ignores_non_utf8 rx ext dir now i a c"
    by (auto simp: receipt_written_def test_refresh_ignores_non_utf8_def facts simp del: list.map)
qed

end
