(* ===== verification/Client_Tests.thy ===== *)
theory Client_Tests
  imports Mcp_Client Control_Center Contract_Parse
begin

text \<open>
  Unit tests of \<open>agentverify-contract/src/contract.rs\<close>, of the control center client
  (\<open>agentverify-http/src/client.rs\<close>) and of \<open>agentverify-mcp\<close> run on the model. Each definition is a
  test function, true when its assertions hold. Tests that read or write JSON or YAML text are left
  out, and so are those that need a server.
\<close>

named_theorems client_test

section \<open>Contract files\<close>

definition test_validate_empty_action_name :: "uuid \<Rightarrow> datetime \<Rightarrow> bool" where
  "test_validate_empty_action_name uid now =
     (\<exists>e. validate_contract (new_contract uid now []) = Inl e)"

definition test_validate_no_postconditions :: "uuid \<Rightarrow> datetime \<Rightarrow> bool" where
  "test_validate_no_postconditions uid now =
     (\<exists>e. validate_contract (new_contract uid now ''test'') = Inl e)"

definition test_validate_valid :: "uuid \<Rightarrow> datetime \<Rightarrow> bool" where
  "test_validate_valid uid now =
     (validate_contract (with_postcondition (p_exists ''x'') ''x exists'' (new_contract uid now ''test'')) =
      Inr ())"

definition test_validate_empty_all :: bool where
  "test_validate_empty_all = (\<exists>e. validate_predicate (p_all []) ''test'' None = Inl e)"

definition test_validate_empty_any :: bool where
  "test_validate_empty_any = (\<exists>e. validate_predicate (p_any []) ''test'' None = Inl e)"

definition test_validate_nested :: bool where
  "test_validate_nested =
     (let predicate = p_all [p_any [p_exists ''a'', p_exists ''b''], p_not_exists ''c'']
      in validate_predicate predicate ''test'' None = Inr ())"

definition test_validate_implies :: bool where
  "test_validate_implies =
     (validate_predicate (Implies (p_exists ''a'') (p_exists ''b'')) ''test'' None = Inr ())"

definition test_validate_nested_empty_all :: bool where
  "test_validate_nested_empty_all =
     (\<exists>e. validate_predicate (p_any [p_all [], p_exists ''a'']) ''test'' None = Inl e)"

lemma contract_validation_tests [client_test]:
  "test_validate_empty_action_name uid now" "test_validate_no_postconditions uid now"
  "test_validate_valid uid now" test_validate_empty_all test_validate_empty_any test_validate_nested
  test_validate_implies test_validate_nested_empty_all
  by (simp_all add: test_validate_empty_action_name_def test_validate_no_postconditions_def
      test_validate_valid_def test_validate_empty_all_def test_validate_empty_any_def
      test_validate_nested_def test_validate_implies_def test_validate_nested_empty_all_def
      validate_contract_def new_contract_def with_postcondition_def p_exists_def p_all_def p_any_def
      p_not_exists_def and_then_res_def Let_def)

section \<open>The control center client\<close>

definition test_cc_config_default :: bool where
  "test_cc_config_default =
     (cc_base_url default_cc_config = ''http://localhost:8080'' \<and>
      cc_timeout_ms default_cc_config = 10000 \<and> cc_bearer_token default_cc_config = None)"

definition test_cc_builder :: "('cl, 'w) cc_lib \<Rightarrow> bool" where
  "test_cc_builder lib =
     (case bd_build lib (bd_timeout_ms 5000 (bd_bearer_token ''test-token''
             (bd_base_url ''https://cc.example.com'' new_builder))) of
        Inl _ \<Rightarrow> False | Inr client \<Rightarrow> cc_bearer_token (cc_config client) \<noteq> None)"

definition test_cc_config_with_token :: bool where
  "test_cc_config_with_token =
     (let config = with_redact_field ''signature'' (cc_with_timeout 5000
            (with_bearer_token ''my-token'' (new_cc_config ''https://cc.example.com'')))
      in cc_bearer_token config = Some ''my-token'' \<and> cc_timeout_ms config = 5000 \<and>
         length (redact_fields config) = 1)"

definition test_cc_client_creation :: "('cl, 'w) cc_lib \<Rightarrow> bool" where
  "test_cc_client_creation lib =
     (\<exists>client. new_cc_client lib (new_cc_config ''https://cc.example.com'') = Inr client)"

definition test_cc_error_messages :: bool where
  "test_cc_error_messages =
     (contains_str ''5000'' (show_cc_error (CcTimeout 5000)) \<and>
      contains_str ''Unauthorized'' (show_cc_error CcUnauthorized) \<and>
      contains_str ''Forbidden'' (show_cc_error CcForbidden) \<and>
      contains_str ''Stale contract'' (show_cc_error (CcRejected ''Stale contract'')))"

definition test_cc_config_chain :: bool where
  "test_cc_config_chain =
     (let config = with_redact_field ''secret'' (with_redact_field ''password'' (cc_with_timeout 3000
            (with_bearer_token ''token123'' (new_cc_config ''http://localhost:8080''))))
      in cc_base_url config = ''http://localhost:8080'' \<and> cc_bearer_token config = Some ''token123'' \<and>
         cc_timeout_ms config = 3000 \<and> length (redact_fields config) = 2)"

definition test_cc_redact_field_chaining :: bool where
  "test_cc_redact_field_chaining =
     (let config = with_redact_field ''field3'' (with_redact_field ''field2'' (with_redact_field ''field1''
            (new_cc_config ''http://localhost:8080'')))
      in length (redact_fields config) = 3)"

definition test_cc_builder_sets_every_knob :: "('cl, 'w) cc_lib \<Rightarrow> bool" where
  "test_cc_builder_sets_every_knob lib =
     (case bd_build lib (bd_redact_field ''key_id'' (bd_redact_field ''signature''
             (bd_max_receipt_size 2048 (bd_timeout_ms 1500 (bd_bearer_token ''cc-token-9''
               (bd_base_url ''https://cc.eu-west.example.com'' new_builder)))))) of
        Inl _ \<Rightarrow> False
      | Inr client \<Rightarrow>
          cc_base_url (cc_config client) = ''https://cc.eu-west.example.com'' \<and>
          cc_bearer_token (cc_config client) = Some ''cc-token-9'' \<and>
          cc_timeout_ms (cc_config client) = 1500 \<and> max_receipt_size (cc_config client) = 2048 \<and>
          redact_fields (cc_config client) = [''signature'', ''key_id''])"

definition test_cc_builder_defaults :: "('cl, 'w) cc_lib \<Rightarrow> bool" where
  "test_cc_builder_defaults lib =
     (case bd_build lib new_builder of
        Inl _ \<Rightarrow> False
      | Inr client \<Rightarrow> cc_base_url (cc_config client) = ''http://localhost:8080'' \<and>
          max_receipt_size (cc_config client) = 1024 * 1024)"

definition sample_receipt_cc ::
  "receipt_lib \<Rightarrow> datetime \<Rightarrow> receipt_id \<Rightarrow> action_id \<Rightarrow> contract_id \<Rightarrow> receipt" where
  "sample_receipt_cc rx now uid a c =
     with_key_id ''vk-2026-08''
       (with_postcondition_result rx
          \<lparr>pcr_predicate = Exists ''customers.0.id'', pcr_description = ''customer row exists'',
           pcr_passed = True, pcr_error = None\<rparr>
          (with_observation rx
             (new_observation now ''postgres''
                (json_object [(''customers'', JArray [json_object [(''id'', JNumber (PosInt 42))]])]))
             (with_contract_version_and_key rx uid now a c ''1.0.0'' Verified 2 (Some ''create-customer-42''))))"

text \<open>The server of the next test counts its requests: \<open>w\<close> is its state before and after.\<close>

definition test_cc_oversized_is_refused ::
  "('cl, 'w) cc_lib \<Rightarrow> string \<Rightarrow> receipt_lib \<Rightarrow> datetime \<Rightarrow> uuid \<Rightarrow> uuid \<Rightarrow> uuid \<Rightarrow> 'w \<Rightarrow> bool" where
  "test_cc_oversized_is_refused lib uri rx now uid a c w =
     (case bd_build lib (bd_max_receipt_size 64 (bd_base_url uri new_builder)) of
        Inl _ \<Rightarrow> False
      | Inr client \<Rightarrow>
          (case submit_receipt lib client (sample_receipt_cc rx now uid a c) w of
             (Inl _, _) \<Rightarrow> False
           | (Inr response, w1) \<Rightarrow>
               \<not> sr_accepted response \<and> sr_correlation_id response = None \<and>
               sr_error response = Some ''Receipt exceeds maximum size'' \<and> w1 = w))"

text \<open>\<open>value[key]\<close>.\<close>

definition at :: "json \<Rightarrow> string \<Rightarrow> json" where
  "at v key = (case v of JObject es \<Rightarrow> (case map_of es key of None \<Rightarrow> JNull | Some w \<Rightarrow> w) | _ \<Rightarrow> JNull)"

definition test_redact_field_nested :: bool where
  "test_redact_field_nested =
     (let value = json_object
            [(''receipt'', json_object
                [(''key_id'', JString ''vk-2026-08''),
                 (''issued_by'', json_object
                    [(''key_id'', JString ''vk-2026-08''), (''region'', JString ''eu-west-1'')])]),
             (''key_id'', JString ''vk-2026-08'')];
          value = redact_field ''key_id'' value
      in at value ''key_id'' = REDACTED \<and> at (at value ''receipt'') ''key_id'' = REDACTED \<and>
         at (at (at value ''receipt'') ''issued_by'') ''key_id'' = REDACTED \<and>
         at (at (at value ''receipt'') ''issued_by'') ''region'' = JString ''eu-west-1'')"

definition test_redact_field_wildcard :: bool where
  "test_redact_field_wildcard =
     (let value = json_object
            [(''result'', JString ''verified''), (''attempts'', JNumber (PosInt 2)),
             (''nested'', json_object [(''digest'', JString ''abc''), (''keep'', JBool True)])];
          value = redact_field ''*'' value
      in at value ''result'' = REDACTED \<and> at value ''attempts'' = REDACTED \<and> at value ''nested'' = REDACTED)"

definition test_redact_field_non_objects :: bool where
  "test_redact_field_non_objects =
     (redact_field ''result'' (JString ''verified'') = JString ''verified'' \<and>
      redact_field ''0'' (JArray [JString ''verified'', JNumber (PosInt 2)]) =
        JArray [JString ''verified'', JNumber (PosInt 2)])"

definition test_cc_invalid_url_message :: bool where
  "test_cc_invalid_url_message =
     (show_cc_error (CcInvalidUrl ''no scheme in url'') = ''Invalid URL: no scheme in url'')"

lemma cc_config_tests [client_test]:
  test_cc_config_default test_cc_config_with_token test_cc_config_chain test_cc_redact_field_chaining
  test_cc_invalid_url_message test_redact_field_non_objects
  by (simp_all add: test_cc_config_default_def test_cc_config_with_token_def test_cc_config_chain_def
      test_cc_redact_field_chaining_def test_cc_invalid_url_message_def test_redact_field_non_objects_def
      default_cc_config_def new_cc_config_def with_redact_field_def cc_with_timeout_def
      with_bearer_token_def Let_def)

lemma cc_client_tests [client_test]:
  assumes "\<And>ms. cc_http_client lib ms = Inr cl"
  shows "test_cc_builder lib" "test_cc_client_creation lib" "test_cc_builder_sets_every_knob lib"
    "test_cc_builder_defaults lib"
  by (simp_all add: test_cc_builder_def test_cc_client_creation_def test_cc_builder_sets_every_knob_def
      test_cc_builder_defaults_def bd_build_def new_cc_client_def assms new_builder_def bd_base_url_def
      bd_bearer_token_def bd_timeout_ms_def bd_max_receipt_size_def bd_redact_field_def
      default_cc_config_def new_cc_config_def)

lemma cc_error_test [client_test]: test_cc_error_messages
  by (simp add: test_cc_error_messages_def starts_with_def show_nat.simps digit_char_def char_of_def bit_0)

text \<open>The document of a receipt carries its digest, so it has more than 64 bytes.\<close>

lemma cc_oversized_test [client_test]:
  assumes "\<And>ms. cc_http_client lib ms = Inr cl"
    and "receipt_to_value lib (sample_receipt_cc rx now uid a c) = Some v"
    and "value_to_string lib v = Inr body" "64 < length body"
  shows "test_cc_oversized_is_refused lib uri rx now uid a c w"
  using assms(2-4)
  by (simp add: test_cc_oversized_is_refused_def bd_build_def new_cc_client_def assms(1) new_builder_def
      bd_base_url_def bd_max_receipt_size_def default_cc_config_def new_cc_config_def submit_receipt_def
      redact_receipt_def)

lemma redact_tests [client_test]: test_redact_field_nested test_redact_field_wildcard
  by (simp_all add: test_redact_field_nested_def test_redact_field_wildcard_def json_object_def at_def
      REDACTED_def)

section \<open>MCP\<close>

definition test_error_codes :: bool where
  "test_error_codes =
     (PARSE_ERROR = - 32700 \<and> INVALID_REQUEST = - 32600 \<and> METHOD_NOT_FOUND = - 32601 \<and>
      INVALID_PARAMS = - 32602 \<and> INTERNAL_ERROR = - 32603)"

definition success_of :: "json_rpc_response \<Rightarrow> (json \<times> json) option" where
  "success_of response = (case response of RSuccess _ i r \<Rightarrow> Some (i, r) | RError _ _ _ \<Rightarrow> None)"

definition error_of :: "json_rpc_response \<Rightarrow> json_rpc_error option" where
  "error_of response = (case response of RError _ _ e \<Rightarrow> Some e | RSuccess _ _ _ \<Rightarrow> None)"

definition embedded_resource_of :: "content_block \<Rightarrow> resource_contents option" where
  "embedded_resource_of block = (case block of Resource r \<Rightarrow> Some r | _ \<Rightarrow> None)"

definition test_error_display :: bool where
  "test_error_display =
     (show_rpc_error (new_rpc_error (- 32601) ''method not found'') =
      ''JSON-RPC error -32601: method not found'')"

definition test_error_constructors :: bool where
  "test_error_constructors =
     (let plain = new_rpc_error 1 ''a'';
          with_data = rpc_error_with_data 2 ''b'' (JArray [JNumber (PosInt 1), JNumber (PosInt 2)])
      in er_data plain = None \<and> er_code plain = 1 \<and> er_message plain = ''a'' \<and>
         er_data with_data = Some (JArray [JNumber (PosInt 1), JNumber (PosInt 2)]))"

definition test_mcp_error_codes :: bool where
  "test_mcp_error_codes =
     (MCP_ERROR_BASE = - 32020 \<and> HEADER_MISMATCH = - 32020 \<and>
      MISSING_REQUIRED_CLIENT_CAPABILITY = - 32021 \<and> UNSUPPORTED_PROTOCOL_VERSION = - 32022 \<and>
      LEGACY_RANGE_START = - 32000 \<and> LEGACY_RANGE_END = - 32019 \<and>
      MCP_PROTOCOL_VERSION = ''2026-07-28'')"

definition test_response_helpers :: bool where
  "test_response_helpers =
     (let success = RSuccess ''2.0'' (JNumber (PosInt 1)) (json_object []);
          error = RError ''2.0'' (JNumber (PosInt 1)) (new_rpc_error (- 32603) ''boom'')
      in success_of error = None \<and> error_of success = None \<and> embedded_resource_of (Text ''body'') = None)"

definition test_client_config_default :: "string \<Rightarrow> bool" where
  "test_client_config_default pkg_version =
     (let config = default_mcp_client_config pkg_version
      in timeout_secs config = 30 \<and> im_name (client_info config) = ''agentverify-mcp'' \<and>
         im_version (client_info config) = pkg_version \<and> mcp_command config = [] \<and>
         mcp_args config = [] \<and> cc_sampling (capabilities config) = None)"

definition test_client_error_messages :: bool where
  "test_client_error_messages =
     (show_mcp_error (Transport NotConnected) = ''Transport error: Not connected'' \<and>
      show_mcp_error Timeout_mcp = ''Request timeout'' \<and>
      show_mcp_error NotInitialized = ''Not initialized'' \<and>
      show_mcp_error (JsonRpc (new_rpc_error (- 32601) ''no such method'')) =
        ''JSON-RPC error: JSON-RPC error -32601: no such method'' \<and>
      show_mcp_error (ServerError (- 32022) ''unsupported version'') =
        ''Server returned error: -32022 unsupported version'' \<and>
      show_mcp_error (InvalidResponse ''InitializeResult'' ''missing field `serverInfo`'') =
        ''Invalid response: expected InitializeResult, got missing field `serverInfo`'' \<and>
      show_mcp_error (CapabilityNotSupported ''sampling'') = ''Capability not supported: sampling'' \<and>
      show_mcp_error (Channel_mcp ''Receiver dropped'') = ''Channel error: Receiver dropped'')"

definition test_response_ids :: bool where
  "test_response_ids =
     (let success = RSuccess ''2.0'' (JNumber (PosInt 3)) (json_object []);
          error = RError ''2.0'' (JString ''abc'') (new_rpc_error (- 32603) ''boom'')
      in response_id success = JNumber (PosInt 3) \<and> response_id error = JString ''abc'' \<and>
         as_u64 (response_id success) = Some 3 \<and> as_u64 (response_id error) = None)"

definition sample_request :: "u64 \<Rightarrow> json_rpc_message" where
  "sample_request i = Request (new_request i ''tools/list'' None)"

definition sample_response :: "u64 \<Rightarrow> json_rpc_message" where
  "sample_response i =
     Response (RSuccess ''2.0'' (JNumber (PosInt i)) (json_object [(''tools'', JArray [])]))"

definition test_channel_transport :: bool where
  "test_channel_transport =
     (let (sent, pair) = channel_send False (Notification (new_notification ''test'' None)) channel;
          (received, pair) = peer_recv False pair
      in sent = Some (Inr ()) \<and>
         (case received of Some (Inr (Notification _)) \<Rightarrow> True | _ \<Rightarrow> False))"

definition test_channel_roundtrips :: bool where
  "test_channel_roundtrips =
     (let (s1, pair) = channel_send False (sample_request 1) channel;
          (r1, pair) = peer_recv False pair;
          (s2, pair) = channel_send False (sample_response 2) pair;
          (r2, pair) = peer_recv False pair;
          (s3, pair) = peer_send False (sample_response 1) pair;
          (r3, pair) = channel_recv False pair
      in s1 = Some (Inr ()) \<and> r1 = Some (Inr (sample_request 1)) \<and>
         s2 = Some (Inr ()) \<and> r2 = Some (Inr (sample_response 2)) \<and> s3 = Some (Inr ()) \<and>
         (case r3 of Some (Inr (Response _)) \<Rightarrow> True | _ \<Rightarrow> False))"

definition test_channel_receiver_dropped :: bool where
  "test_channel_receiver_dropped =
     (fst (channel_send False (sample_request 1) (channel\<lparr>ch_peer_alive := False\<rparr>)) =
      Some (Inl (Channel_terr ''Receiver dropped'')))"

definition test_channel_sender_dropped :: bool where
  "test_channel_sender_dropped =
     (fst (peer_recv False (channel\<lparr>ch_client_alive := False\<rparr>)) =
      Some (Inl (Channel_terr ''Sender dropped'')))"

definition test_transport_error_messages :: "string \<Rightarrow> bool" where
  "test_transport_error_messages parse_error =
     (show_transport_error (Io_terr ''pipe closed'') = ''IO error: pipe closed'' \<and>
      take 12 (show_transport_error (Json_terr parse_error)) = ''JSON error: '' \<and>
      show_transport_error (Channel_terr ''Receiver dropped'') = ''Channel error: Receiver dropped'' \<and>
      show_transport_error (ProcessExited 3) = ''Process exited: 3'' \<and>
      show_transport_error NotConnected = ''Not connected'')"

definition test_channel_closed :: bool where
  "test_channel_closed =
     (let pair = channel\<lparr>ch_connected := False\<rparr>;
          (s1, pair1) = channel_send False (sample_request 1) pair;
          (r1, pair1) = channel_recv False pair1;
          (s2, pair1) = channel_send False (sample_request 1) (pair1\<lparr>ch_connected := True\<rparr>);
          (r2, pair1) = peer_recv False pair1
      in \<not> ch_connected pair \<and> \<not> ch_connected (flip_channel pair) \<and>
         s1 = Some (Inl NotConnected) \<and> r1 = Some (Inl NotConnected) \<and> s2 = Some (Inr ()) \<and>
         (case r2 of Some (Inr (Request _)) \<Rightarrow> True | _ \<Rightarrow> False))"

lemma mcp_protocol_tests [client_test]:
  test_error_codes test_error_constructors test_mcp_error_codes test_response_helpers
  "test_client_config_default pkg_version" test_response_ids
  by (simp_all add: test_error_codes_def PARSE_ERROR_def INVALID_REQUEST_def METHOD_NOT_FOUND_def
      INVALID_PARAMS_def INTERNAL_ERROR_def test_error_constructors_def new_rpc_error_def
      rpc_error_with_data_def test_mcp_error_codes_def MCP_ERROR_BASE_def HEADER_MISMATCH_def
      MISSING_REQUIRED_CLIENT_CAPABILITY_def UNSUPPORTED_PROTOCOL_VERSION_def LEGACY_RANGE_START_def
      LEGACY_RANGE_END_def MCP_PROTOCOL_VERSION_def test_response_helpers_def success_of_def error_of_def
      embedded_resource_of_def test_client_config_default_def default_mcp_client_config_def
      default_client_capabilities_def test_response_ids_def Let_def)

lemma mcp_message_tests [client_test]:
  test_error_display test_client_error_messages "test_transport_error_messages e"
  by (simp_all add: test_error_display_def test_client_error_messages_def
      test_transport_error_messages_def show_rpc_error_def new_rpc_error_def show_int_def
      show_nat.simps digit_char_def char_of_def bit_0)

lemma channel_tests [client_test]:
  test_channel_transport test_channel_roundtrips test_channel_receiver_dropped
  test_channel_sender_dropped test_channel_closed
  by (simp_all add: test_channel_transport_def test_channel_roundtrips_def
      test_channel_receiver_dropped_def test_channel_sender_dropped_def test_channel_closed_def
      channel_send_def channel_recv_def peer_send_def peer_recv_def flip_channel_def channel_def
      CHANNEL_CAPACITY_def sample_response_def sample_request_def Let_def)

end
