(* ===== verification/Value_Tests.thy ===== *)
theory Value_Tests
  imports Testkit Rest_Observer
begin

text \<open>
  Unit tests of the value types of \<open>agentverify-core\<close> (\<open>verification_result.rs\<close>, \<open>observation.rs\<close>,
  \<open>predicate.rs\<close>, the identifiers of \<open>lib.rs\<close>), of the mock store of \<open>agentverify-testkit\<close> and of the
  REST observer (\<open>agentverify-http/src/observer.rs\<close>) run on the model. Each definition is a test
  function, true when its assertions hold. Tests of \<open>Debug\<close>, \<open>Clone\<close> and serde are left out.
\<close>

named_theorems value_test

section \<open>Verification results\<close>

definition test_verified_is_success :: bool where
  "test_verified_is_success = is_success Verified"

definition test_duplicate_is_success :: bool where
  "test_duplicate_is_success = is_success Duplicate"

definition test_failed_is_not_success :: bool where
  "test_failed_is_not_success = (\<not> is_success Failed)"

definition test_unknown_is_not_failure :: bool where
  "test_unknown_is_not_failure = (\<not> is_failure Unknown)"

definition test_can_retry_without_verify :: bool where
  "test_can_retry_without_verify =
     (\<not> can_retry_without_verify Failed \<and> \<not> can_retry_without_verify Unknown)"

definition test_partial_is_failure :: bool where
  "test_partial_is_failure = (is_failure Partial \<and> \<not> is_success Partial)"

definition test_unknown_is_non_terminal :: bool where
  "test_unknown_is_non_terminal = (\<not> is_failure Unknown \<and> \<not> is_success Unknown)"

definition test_duplicate_is_terminal_success :: bool where
  "test_duplicate_is_terminal_success = (is_success Duplicate \<and> \<not> is_failure Duplicate)"

definition test_partial_is_not_success :: bool where
  "test_partial_is_not_success = (\<not> is_success Partial)"

definition test_only_unknown_is_unknown :: bool where
  "test_only_unknown_is_unknown =
     (is_unknown Unknown \<and> \<not> is_unknown Verified \<and> \<not> is_unknown Failed \<and> \<not> is_unknown Partial \<and>
      \<not> is_unknown Duplicate)"

definition test_no_result_is_retryable :: bool where
  "test_no_result_is_retryable =
     (\<not> can_retry_without_verify Verified \<and> \<not> can_retry_without_verify Duplicate \<and>
      \<not> can_retry_without_verify Partial)"

definition test_result_display :: bool where
  "test_result_display =
     list_all (\<lambda>(result, name). show_result result = name)
       [(Verified, ''verified''), (Failed, ''failed''), (Unknown, ''unknown''), (Partial, ''partial''),
        (Duplicate, ''duplicate'')]"

lemma result_tests [value_test]:
  test_verified_is_success test_duplicate_is_success test_failed_is_not_success
  test_unknown_is_not_failure test_can_retry_without_verify test_partial_is_failure
  test_unknown_is_non_terminal test_duplicate_is_terminal_success test_partial_is_not_success
  test_only_unknown_is_unknown test_no_result_is_retryable test_result_display
  by (simp_all add: test_verified_is_success_def test_duplicate_is_success_def
      test_failed_is_not_success_def test_unknown_is_not_failure_def test_can_retry_without_verify_def
      test_partial_is_failure_def test_unknown_is_non_terminal_def test_duplicate_is_terminal_success_def
      test_partial_is_not_success_def test_only_unknown_is_unknown_def test_no_result_is_retryable_def
      test_result_display_def can_retry_without_verify_def)

section \<open>Identifiers\<close>

definition test_ids_display :: "(uuid \<Rightarrow> string) \<Rightarrow> uuid \<Rightarrow> uuid \<Rightarrow> uuid \<Rightarrow> bool" where
  "test_ids_display su a c r =
     (show_action_id su (new_action_id a) = su a \<and> show_contract_id su (new_contract_id c) = su c \<and>
      show_receipt_id su (new_receipt_id r) = su r)"

definition test_key_from_action_id :: "(uuid \<Rightarrow> string) \<Rightarrow> uuid \<Rightarrow> bool" where
  "test_key_from_action_id su a =
     (let key = from_action_id su (new_action_id a)
      in key = new_idempotency_key (''av_'' @ su a) \<and> starts_with ''av_'' key)"

definition test_key_accepts_any_string :: bool where
  "test_key_accepts_any_string = (new_idempotency_key ''caller-supplied-key'' = ''caller-supplied-key'')"

lemma id_tests [value_test]:
  "test_ids_display su a c r" "test_key_from_action_id su a" test_key_accepts_any_string
  by (simp_all add: test_ids_display_def test_key_from_action_id_def test_key_accepts_any_string_def
      show_action_id_def show_contract_id_def show_receipt_id_def new_action_id_def new_contract_id_def
      new_receipt_id_def from_action_id_def new_idempotency_key_def starts_with_def Let_def)

section \<open>Observations\<close>

definition test_get_nested :: "datetime \<Rightarrow> bool" where
  "test_get_nested now =
     (let obs = new_observation now ''test'' (json_object [(''customer'', json_object
            [(''email'', JString ''test@example.com''), (''status'', JString ''active'')])])
      in observation_get obs ''customer.email'' = Some (JString ''test@example.com'') \<and>
         observation_get obs ''customer.status'' = Some (JString ''active'') \<and>
         observation_get obs ''customer.nonexistent'' = None)"

definition test_get_array :: "datetime \<Rightarrow> bool" where
  "test_get_array now =
     (let obs = new_observation now ''test''
            (json_object [(''items'', JArray [JString ''a'', JString ''b'', JString ''c''])])
      in observation_get obs ''items.0'' = Some (JString ''a'') \<and>
         observation_get obs ''items.2'' = Some (JString ''c''))"

definition test_evidence_new :: "datetime \<Rightarrow> datetime \<Rightarrow> datetime \<Rightarrow> bool" where
  "test_evidence_new before now after =
     (let evidence = new_evidence now ''postgres'' (json_object [(''rows'', JNumber (PosInt 1))])
      in ev_source evidence = ''postgres'' \<and>
         ev_data evidence = json_object [(''rows'', JNumber (PosInt 1))] \<and>
         before \<le> ev_timestamp evidence \<and> ev_timestamp evidence \<le> after)"

definition test_evidence_in_order :: "datetime \<Rightarrow> datetime \<Rightarrow> datetime \<Rightarrow> bool" where
  "test_evidence_in_order now t1 t2 =
     (let obs = with_evidence (new_evidence t2 ''audit-log'' (json_object [(''attempt'', JNumber (PosInt 2))]))
            (with_evidence (new_evidence t1 ''rest'' (json_object [(''attempt'', JNumber (PosInt 1))]))
              (new_observation now ''rest'' (json_object [(''ok'', JBool True)])))
      in obs_source obs = ''rest'' \<and> length (obs_evidence obs) = 2 \<and>
         ev_source (obs_evidence obs ! 0) = ''rest'' \<and> ev_source (obs_evidence obs ! 1) = ''audit-log'' \<and>
         observation_get obs ''ok'' = Some (JBool True))"

definition test_path_not_resolvable :: "datetime \<Rightarrow> bool" where
  "test_path_not_resolvable now =
     (let one = JNumber (PosInt 1);
          scalar = new_observation now ''s'' (JString ''plain'');
          obs = new_observation now ''s'' (json_object
            [(''list'', JArray [one, JNumber (PosInt 2), JNumber (PosInt 3)]),
             (''nested'', json_object [(''deep'', json_object [(''x'', one)])])])
      in observation_get scalar ''anything'' = None \<and> observation_get obs ''list.name'' = None \<and>
         observation_get obs ''list.9'' = None \<and> observation_get obs ''missing.entirely'' = None \<and>
         observation_get obs ''nested.deep'' = Some (json_object [(''x'', one)]) \<and>
         observation_get obs ''nested.deep.x'' = Some one \<and> observation_get obs [] = None)"

definition test_get_preserves_null :: "datetime \<Rightarrow> bool" where
  "test_get_preserves_null now =
     (let obs = new_observation now ''s'' (json_object [(''refund'', json_object [(''completed_at'', JNull)])])
      in observation_get obs ''refund.completed_at'' = Some JNull)"

lemmas lookups = observation_get_def new_observation_def jsonpath_get_def path_step_def parse_uint_def
  digit_value_def usize_max_def json_object_def

lemma observation_tests [value_test]:
  "test_get_nested now" "test_get_array now" "test_evidence_in_order now t1 t2"
  "test_path_not_resolvable now" "test_get_preserves_null now"
  "before \<le> now \<Longrightarrow> now \<le> after \<Longrightarrow> test_evidence_new before now after"
  by (simp_all add: test_get_nested_def test_get_array_def test_evidence_in_order_def
      test_path_not_resolvable_def test_get_preserves_null_def test_evidence_new_def new_evidence_def
      with_evidence_def lookups)

section \<open>Predicates\<close>

definition test_predicate_constructors :: bool where
  "test_predicate_constructors =
     list_all (\<lambda>(built, expected). built = expected)
       [(p_exists ''refund.status'', Exists ''refund.status''),
        (p_not_exists ''refund.id'', NotExists ''refund.id''),
        (p_equals ''charge.status'' (JString ''captured''), Equals ''charge.status'' (JString ''captured'')),
        (p_not_equals ''charge.status'' (JString ''declined''), NotEquals ''charge.status'' (JString ''declined'')),
        (p_contains ''tags'' (JString ''priority''), Contains ''tags'' (JString ''priority'')),
        (p_matches ''email'' ''^[^@]+@[^@]+$'', Matches ''email'' ''^[^@]+@[^@]+$''),
        (p_greater_than ''amount'' (JNumber (PosInt 100)), GreaterThan ''amount'' (JNumber (PosInt 100))),
        (p_less_than ''amount'' (JNumber (PosInt 10)), LessThan ''amount'' (JNumber (PosInt 10))),
        (p_count ''items'' Gt 3, Count ''items'' Gt 3),
        (p_is_empty ''queue'', IsEmpty ''queue''),
        (p_is_not_empty ''queue'', IsNotEmpty ''queue''),
        (p_all [p_exists ''a'', p_exists ''b''], PAll [p_exists ''a'', p_exists ''b'']),
        (p_any [p_exists ''a''], PAny [p_exists ''a'']),
        (p_negate (p_exists ''a''), PNot (p_exists ''a''))]"

lemma predicate_test [value_test]: test_predicate_constructors
  by (simp add: test_predicate_constructors_def p_exists_def p_not_exists_def p_equals_def
      p_not_equals_def p_contains_def p_matches_def p_greater_than_def p_less_than_def p_count_def
      p_is_empty_def p_is_not_empty_def p_all_def p_any_def p_negate_def)

section \<open>The mock store\<close>

definition test_mock_claim_calls :: bool where
  "test_mock_claim_calls =
     (let store = set_result ''key1'' (Claimed, None) new_mock;
          (_, store) = mock_claim_or_check ''key1'' store;
          (_, store) = mock_claim_or_check ''key2'' store
      in claim_or_check_call_count store = 2 \<and> claim_or_check_calls store = [''key1'', ''key2''])"

definition test_mock_complete_calls :: bool where
  "test_mock_complete_calls =
     (let store = mock_complete ''key2'' Failed (mock_complete ''key1'' Verified new_mock)
      in complete_call_count store = 2 \<and>
         complete_calls store = [(''key1'', Verified), (''key2'', Failed)])"

definition test_mock_release_calls :: bool where
  "test_mock_release_calls =
     (let store = mock_release ''key2'' (mock_release ''key1'' new_mock)
      in release_call_count store = 2 \<and> release_calls store = [''key1'', ''key2''])"

definition test_mock_configured_result :: bool where
  "test_mock_configured_result =
     (let store = set_result ''test-key'' (AlreadyClaimed, Some Verified) new_mock
      in fst (mock_claim_or_check ''test-key'' store) = (AlreadyClaimed, Some Verified))"

definition test_mock_default_result :: bool where
  "test_mock_default_result =
     (let store = set_default_result (Claimed, None) new_mock
      in fst (mock_claim_or_check ''unknown-key'' store) = (Claimed, None))"

definition test_mock_reset_calls :: bool where
  "test_mock_reset_calls =
     (let (_, store) = mock_claim_or_check ''key1'' new_mock;
          store = mock_release ''key1'' (mock_complete ''key1'' Verified store);
          cleared = reset_calls store
      in claim_or_check_call_count store = 1 \<and> complete_call_count store = 1 \<and>
         release_call_count store = 1 \<and> claim_or_check_call_count cleared = 0 \<and>
         complete_call_count cleared = 0 \<and> release_call_count cleared = 0)"

definition test_mock_reset_all :: bool where
  "test_mock_reset_all =
     (let store = set_default_result (Claimed, None)
            (set_result ''key1'' (AlreadyClaimed, Some Verified) new_mock);
          (_, store) = mock_claim_or_check ''key1'' store;
          (answer, store) = mock_claim_or_check ''key1'' (reset_all store)
      in fst answer = Claimed)"

lemma mock_tests [value_test]:
  test_mock_claim_calls test_mock_complete_calls test_mock_release_calls test_mock_configured_result
  test_mock_default_result test_mock_reset_calls test_mock_reset_all
  by (simp_all add: test_mock_claim_calls_def test_mock_complete_calls_def test_mock_release_calls_def
      test_mock_configured_result_def test_mock_default_result_def test_mock_reset_calls_def
      test_mock_reset_all_def set_result_def set_default_result_def mock_claim_or_check_def
      mock_complete_def mock_release_def mock_answer_def new_mock_def reset_all_is_new reset_calls_def
      claim_or_check_call_count_def complete_call_count_def release_call_count_def
      claim_or_check_calls_def complete_calls_def release_calls_def starts_with_def Let_def)

section \<open>The REST observer\<close>

definition test_rest_config_default :: bool where
  "test_rest_config_default =
     (rest_base_url default_rest_config = ''http://localhost:8080'' \<and> rest_timeout_ms default_rest_config = 5000)"

definition test_rest_config_builder :: bool where
  "test_rest_config_builder =
     (let config = with_header ''Authorization'' ''Bearer token'' (with_redact_path ''secret''
            (with_redact_path ''password'' (rest_with_timeout 10000 (new_rest_config ''http://api.example.com''))))
      in rest_base_url config = ''http://api.example.com'' \<and> rest_timeout_ms config = 10000 \<and>
         length (redact_paths config) = 2 \<and> length (rest_headers config) = 1)"

definition test_url_path_traversal :: "('cl, 'w) rest_lib \<Rightarrow> uuid \<Rightarrow> uuid \<Rightarrow> datetime \<Rightarrow> bool" where
  "test_url_path_traversal lib uid cid now =
     (case build_url lib (new_rest_config ''http://api.example.com'')
             (new_action uid now ''test'' (json_object [])) (new_contract cid now ''../../../etc/passwd'') of
        Inl (InvalidUrl url) \<Rightarrow> contains_str ''..'' url
      | _ \<Rightarrow> False)"

definition test_url_double_slash :: "('cl, 'w) rest_lib \<Rightarrow> uuid \<Rightarrow> uuid \<Rightarrow> datetime \<Rightarrow> bool" where
  "test_url_double_slash lib uid cid now =
     (\<exists>e. build_url lib (new_rest_config ''http://api.example.com'')
             (new_action uid now ''auto-id'' (json_object [])) (new_contract cid now ''test//etc/passwd'') = Inl e)"

definition test_url_scheme_injection :: "('cl, 'w) rest_lib \<Rightarrow> uuid \<Rightarrow> uuid \<Rightarrow> datetime \<Rightarrow> bool" where
  "test_url_scheme_injection lib uid cid now =
     (let config = new_rest_config ''http://api.example.com'';
          action = new_action uid now ''auto-id'' (json_object [])
      in (\<exists>url. build_url lib config action (new_contract cid now ''test'') = Inr url) \<and>
         (\<exists>e. build_url lib config action (new_contract cid now ''test/../../../etc/passwd'') = Inl e))"

text \<open>\<open>state[key]\<close>.\<close>

definition member :: "json \<Rightarrow> string \<Rightarrow> json" where
  "member v key = (case v of JObject es \<Rightarrow> (case map_of es key of None \<Rightarrow> JNull | Some w \<Rightarrow> w) | _ \<Rightarrow> JNull)"

definition test_redaction_password :: "('cl, 'w) rest_lib \<Rightarrow> bool" where
  "test_redaction_password lib =
     (let config = with_redact_path ''/password'' (new_rest_config ''http://api.example.com'');
          state = redact lib (redact_paths config) (json_object
            [(''username'', JString ''testuser''), (''password'', JString ''secret123'')])
      in member state ''username'' = JString ''testuser'' \<and> member state ''password'' = JString ''[REDACTED]'')"

definition test_redaction_nested :: "('cl, 'w) rest_lib \<Rightarrow> bool" where
  "test_redaction_nested lib =
     (let config = with_redact_path ''/data/api_key'' (new_rest_config ''http://api.example.com'');
          state = redact lib (redact_paths config) (json_object
            [(''data'', json_object [(''api_key'', JString ''sk-12345''), (''name'', JString ''test'')])])
      in member (member state ''data'') ''api_key'' = JString ''[REDACTED]'' \<and>
         member (member state ''data'') ''name'' = JString ''test'')"

definition test_redaction_multiple :: "('cl, 'w) rest_lib \<Rightarrow> bool" where
  "test_redaction_multiple lib =
     (let config = with_redact_path ''/token'' (with_redact_path ''/secret''
            (with_redact_path ''/password'' (new_rest_config ''http://api.example.com'')));
          state = redact lib (redact_paths config) (json_object
            [(''password'', JString ''pass1''), (''secret'', JString ''pass2''), (''token'', JString ''pass3''),
             (''public'', JString ''data'')])
      in member state ''password'' = JString ''[REDACTED]'' \<and> member state ''secret'' = JString ''[REDACTED]'' \<and>
         member state ''token'' = JString ''[REDACTED]'' \<and> member state ''public'' = JString ''data'')"

definition test_truncation_large :: "('cl, 'w) rest_lib \<Rightarrow> bool" where
  "test_truncation_large lib =
     (let config = with_max_evidence_size 100 (new_rest_config ''http://api.example.com'')
      in case truncate_evidence lib config (json_object [(''data'', JString (replicate 500 CHR ''x''))]) of
           JString s \<Rightarrow> contains_str ''[TRUNCATED:'' s \<and> contains_str ''> 100'' s
         | _ \<Rightarrow> False)"

definition test_truncation_small :: "('cl, 'w) rest_lib \<Rightarrow> bool" where
  "test_truncation_small lib =
     (let config = with_max_evidence_size 1000 (new_rest_config ''http://api.example.com'');
          small_state = json_object [(''data'', JString ''small'')]
      in truncate_evidence lib config small_state = small_state)"

definition test_truncation_boundary :: "('cl, 'w) rest_lib \<Rightarrow> bool" where
  "test_truncation_boundary lib =
     (let config = with_max_evidence_size 100 (new_rest_config ''http://api.example.com'');
          state = json_object [(''d'', JString (replicate 50 CHR ''x''))]
      in case rest_to_string lib state of
           None \<Rightarrow> False
         | Some json_str \<Rightarrow> length json_str \<le> 100 \<and> truncate_evidence lib config state = state)"

lemma rest_config_tests [value_test]: test_rest_config_default test_rest_config_builder
  by (simp_all add: test_rest_config_default_def test_rest_config_builder_def default_rest_config_def
      new_rest_config_def rest_with_timeout_def with_redact_path_def with_header_def Let_def)

text \<open>A printed UUID has neither dots nor slashes.\<close>

lemma rest_url_tests [value_test]:
  assumes "CHR ''.'' \<notin> set (rest_show_uuid lib uid)" "CHR ''/'' \<notin> set (rest_show_uuid lib uid)"
  shows "test_url_path_traversal lib uid cid now" "test_url_double_slash lib uid cid now"
    and "test_url_scheme_injection lib uid cid now"
proof -
  have "\<not> contains_str ''..'' (rest_show_uuid lib uid)" "\<not> contains_str ''//'' (rest_show_uuid lib uid)"
    using assms by (auto simp: contains_str_iff dest: set_mono_sublist)
  moreover have "strip_prefix_str ''/'' (rest_show_uuid lib uid) = None"
    using assms(2) by (cases "rest_show_uuid lib uid") auto
  ultimately show "test_url_path_traversal lib uid cid now" "test_url_double_slash lib uid cid now"
    "test_url_scheme_injection lib uid cid now"
    by (simp_all add: test_url_path_traversal_def test_url_double_slash_def test_url_scheme_injection_def
        build_url_def observation_url_def path_portion_def new_rest_config_def new_action_def
        new_contract_def trim_end_char_def starts_with_def Let_def)
qed

text \<open>JSON pointers into objects, for keys without the characters that pointers escape.\<close>

definition pointers_follow :: "('cl, 'w) rest_lib \<Rightarrow> bool" where
  "pointers_follow lib \<longleftrightarrow>
     (\<forall>w v. pointer_set lib [] w v = Some w) \<and>
     (\<forall>key rest w es. CHR ''/'' \<notin> set key \<and> CHR ''~'' \<notin> set key \<and> (rest = [] \<or> hd rest = CHR ''/'') \<longrightarrow>
        pointer_set lib (CHR ''/'' # key @ rest) w (JObject es) =
          (case map_of es key of
             None \<Rightarrow> None
           | Some v \<Rightarrow> map_option (\<lambda>u. JObject (obj_insert key u es)) (pointer_set lib rest w v)))"

lemma rest_redaction_tests [value_test]:
  assumes "pointers_follow lib"
  shows "test_redaction_password lib" "test_redaction_nested lib" "test_redaction_multiple lib"
proof -
  from assms have top: "pointer_set lib (CHR ''/'' # key) w (JObject es) =
      (if map_of es key = None then None else Some (JObject (obj_insert key w es)))"
    if "CHR ''/'' \<notin> set key" "CHR ''~'' \<notin> set key" for key w es
    using that unfolding pointers_follow_def
    by (elim conjE) (drule spec [of _ key], drule spec [of _ "[]"], simp split: option.split)
  from assms have nested: "pointer_set lib ''/data/api_key'' w (JObject es) =
      (case map_of es ''data'' of None \<Rightarrow> None
       | Some v \<Rightarrow> map_option (\<lambda>u. JObject (obj_insert ''data'' u es)) (pointer_set lib ''/api_key'' w v))" for w es
    unfolding pointers_follow_def
    by (elim conjE) (drule spec [of _ "''data''"], drule spec [of _ "''/api_key''"], simp)
  show "test_redaction_password lib" "test_redaction_nested lib" "test_redaction_multiple lib"
    by (simp_all add: test_redaction_password_def test_redaction_nested_def test_redaction_multiple_def
        redact_def with_redact_path_def new_rest_config_def json_object_def member_def top nested Let_def)
qed

text \<open>The JSON text of the three states: quotes, braces, a colon and the string.\<close>

lemma rest_truncation_tests [value_test]:
  assumes "\<And>k s. set s \<subseteq> set ''almsx'' \<Longrightarrow> rest_to_string lib (JObject [(k, JString s)]) =
      Some (''{'' @ [CHR 0x22] @ k @ [CHR 0x22] @ '':'' @ [CHR 0x22] @ s @ [CHR 0x22] @ ''}'')"
  shows "test_truncation_large lib" "test_truncation_small lib" "test_truncation_boundary lib"
proof -
  show "test_truncation_large lib"
    by (simp add: test_truncation_large_def truncate_evidence_def json_object_def assms
        with_max_evidence_size_def new_rest_config_def truncated_text_def show_nat.simps digit_char_def
        char_of_def bit_0 set_replicate_conv_if starts_with_def)
  show "test_truncation_small lib" "test_truncation_boundary lib"
    by (simp_all add: test_truncation_small_def test_truncation_boundary_def truncate_evidence_def
        json_object_def assms with_max_evidence_size_def new_rest_config_def set_replicate_conv_if)
qed

end
