(* ===== verification/Spec2Isabelle.thy ===== *)
theory Spec2Isabelle
  imports Cli Storage Recovery Policy Mcp_Correct Postgres_Observer Redis_Observer Wasm_Store
    Control_Center Testkit Telemetry Idem_Interleaving Breaker_Interleaving
    Executor_Concurrent Core_Tests Engine_Tests Policy_Tests Recovery_Tests Executor_Tests Observer_Tests
    Store_Tests Storage_Tests Client_Tests Value_Tests
begin

text \<open>
  A verification development for AgentVerify (\<open>src/crates\<close>), a Rust workspace that runs actions
  of AI agents and verifies their outcome against contracts.

  \<^bold>\<open>The program.\<close> An \<^emph>\<open>action\<close> is proposed together with a \<^emph>\<open>contract\<close>: predicates on the state of the
  outside before and after the action. The \<^emph>\<open>executor\<close> claims the action's idempotency key,
  checks the preconditions, dispatches the action through an adapter, asks an \<^emph>\<open>observer\<close> for the
  state, lets the \<^emph>\<open>predicate engine\<close> evaluate the postconditions, retries after a failed
  verification within the bounds of the contract, completes or releases the key, and issues a
  \<^emph>\<open>receipt\<close> with a digest, which can be signed, stored, submitted to a control center and
  exported as telemetry. Around it stand stores for keys and receipts, recovery strategies, a policy
  engine, contract files, an MCP client, observers for REST, PostgreSQL and Redis, browser
  counterparts of some of these, a mock for tests and a command line.

  \<^bold>\<open>The theories\<close>, with the files under \<open>src/crates\<close> they model:
  \<^item> \<open>AV_Prelude\<close>, \<open>Str_Ops\<close>, \<open>Float64\<close>: result combinators, Rust's string operations, decimal
    numbers, and IEEE 754 doubles on their bit patterns.
  \<^item> \<open>Json\<close>: \<open>serde_json::Value\<close>, its equality and the two dotted-path lookups (\<open>observation.rs\<close>,
    \<open>engine.rs\<close>).
  \<^item> \<open>Core_Types\<close>, \<open>State_Machine\<close>, \<open>Contract\<close>, \<open>Receipt\<close>: \<open>agentverify-core\<close> and the signing service
    of \<open>agentverify-receipt\<close>.
  \<^item> \<open>Predicate_Semantics\<close>, \<open>Predicate_Engine\<close>: \<open>agentverify-engine\<close>. The first theory says by rules what
    a dotted path denotes in a document, when documents are equal and what counts as empty, without
    the functions of the code; the second has the engine, a reference evaluator and the truth of a
    predicate, \<open>psem\<close>, which rests on those rules.
  \<^item> \<open>File_System\<close>: files as a map from paths to contents, with writes that fail half-way.
  \<^item> \<open>Idempotency\<close>: the registry of \<open>executor.rs\<close> and the file and Redis stores of
    \<open>idempotency_store.rs\<close>; the locale \<open>idempotency_store\<close> is the trait's contract.
  \<^item> \<open>Receipt_Store\<close>, \<open>Storage\<close>: the receipt stores of \<open>receipt.rs\<close> and \<open>agentverify-storage\<close>; the
    locales \<open>receipt_store\<close> and \<open>storage\<close>.
  \<^item> \<open>Executor\<close>, \<open>Executor_Correct\<close>, \<open>Verdict\<close>: the two pipelines of \<open>executor.rs\<close>, the events a run
    leaves behind, and what its verdicts are worth; the locale \<open>executor_on_store\<close> joins the
    executor to any store that keeps the contract. \<open>Executor_Replay\<close> is about sequences of runs with one
    key, on one executor and across a restart; \<open>Executor_Concurrent\<close> about any number of concurrent calls
    that share the registry, as interleavings of the events they leave behind (the locale
    \<open>run_events\<close> carries what both pipelines keep).
  \<^item> \<open>Interleaving\<close>: executions of threads that share a state, and what bounds them (the locale
    \<open>threads\<close>); \<open>Idem_Interleaving\<close> runs the methods of the file store one file operation, and those of
    the Redis store one command at a time; \<open>Breaker_Interleaving\<close> runs the methods of the circuit
    breaker one lock or atomic operation at a time.
  \<^item> \<open>Recovery\<close>, \<open>Policy\<close>, \<open>Contract_Parse\<close>: \<open>agentverify-recovery\<close>, \<open>agentverify-policy\<close>,
    \<open>agentverify-contract\<close>.
  \<^item> \<open>Mcp_Protocol\<close>, \<open>Mcp_Client\<close>, \<open>Mcp_Correct\<close>: \<open>agentverify-mcp\<close>; the client with concurrent
    callers is the step relation \<open>mcp_step\<close>.
  \<^item> \<open>Postgres_Observer\<close>, \<open>Redis_Observer\<close>: \<open>agentverify-observe\<close>.
  \<^item> \<open>Rest_Observer\<close>, \<open>Control_Center\<close>, \<open>Wasm_Store\<close>: \<open>agentverify-http\<close>, its WebAssembly modules
    included; the browser stores are further instances of \<open>idempotency_store\<close> and \<open>receipt_store\<close>.
  \<^item> \<open>Telemetry\<close>, \<open>Testkit\<close>, \<open>Cli\<close>: \<open>agentverify-otel\<close>, \<open>agentverify-testkit\<close>, \<open>agentverify-cli\<close>.
  \<^item> \<open>Core_Tests\<close>, \<open>Engine_Tests\<close>, \<open>Policy_Tests\<close>, \<open>Recovery_Tests\<close>, \<open>Executor_Tests\<close>,
    \<open>Observer_Tests\<close>, \<open>Store_Tests\<close>, \<open>Storage_Tests\<close>, \<open>Client_Tests\<close>, \<open>Value_Tests\<close>: unit tests of the
    repository, one definition each, that the kernel runs on the model. They show that the model
    answers as the program's authors expect the program to.

  \<^bold>\<open>How code corresponds to definitions.\<close> Structs are records, enums are datatypes, a method is a
  definition that takes the state and returns it updated. \<open>Result\<close> is a sum with the error on the
  left, with one constructor for every variant of the source's error enums. Integers keep their
  width (\<open>u32\<close>, \<open>u64\<close>, \<open>i64\<close> are words and wrap, as in a release build); \<open>usize\<close> lengths are natural
  numbers. Strings are lists of bytes. What the code calls outside the repository (regular
  expressions, SHA-256, Ed25519, serde, HTTP, SQL, Redis, clocks, random identifiers, file contents) is a
  field of a record that the definitions take as an argument, and a property that relies on such a
  library says so in its hypotheses. Waiting is explicit: while the executor waits, other callers
  may change the key store as \<open>ee_others\<close> says; every step of an MCP caller is a step of the
  system, in any order.

  \<^bold>\<open>What is shown.\<close>
  \<^item> Executor: a verdict \<open>Verified\<close> rests on an observed state in which every postcondition is true;
    no second dispatch without an observation and a failed verdict in between; a bound on
    dispatches; a claimed key is always resolved; a taken key is never dispatched again, and every
    repetition of a request is answered with its recorded verdict, by a restarted process too when it
    can read the entry; a concurrent caller dispatches under the key of another only after that one has
    given the key back on an error whose policy is to release; callers agree on the verdict. Where the
    code breaks its documented discipline (a key released after a dispatch, a claim won and lost in
    the poll, blind retries without an observer, a key run again because its entry could not be read),
    a theorem exhibits the run.
  \<^item> Engine: evaluation with its regex cache equals the semantics of predicates, and answers
    nothing but \<open>Verified\<close>, \<open>Failed\<close> or a regex error; comparisons of integers are exact below
    \<open>2 ^ 53\<close> and not above.
  \<^item> Stores: at most one winner per key under any interleaving, for every store that implements
    the contract; the file store refines the registry; durability across restarts; receipts read back as
    stored; \<open>FileStorage\<close> refines a map; the interleavings and read errors that lose index entries.
  \<^item> Concurrency: the callers of one handle of the file store have one winner at the grain of file
    operations and cannot deadlock, callers of two handles can both win, the winners of a Redis key
    are bounded by its removals; an open circuit can always recover, and a failure reported to a
    half-open one can be lost to a success, under any thresholds.
  \<^item> Receipts: digests of built receipts check out and determine the content; signatures verify;
    the fields a signature does not bind; a run's receipt can be read back; the key of a
    submission identifies the receipt.
  \<^item> State machine: the reachable states are exactly fourteen, and at most eight transitions happen.
  \<^item> Recovery and policy: invariant of the circuit breaker, fail-fast, first success of a retry,
    the number of requests a bucket and the engine grant under the limit in force (that of the first
    policy that asked), the exact condition under which a policy allows, patterns that survive
    serialisation.
  \<^item> MCP client: responses reach the caller whose identifier they carry, pending entries belong to
    callers that are live or were dropped (such an entry stays), no response channel is closed under a
    caller; a request whose transport takes the message at the first poll returns by its deadline. A
    send has no deadline: behind a full queue, a full pipe or another writer it waits as long as they
    do; and a deadline that passes while a rejection is half written leaves a torn line on the pipe.
  \<^item> Observers and HTTP: connection URIs round trip; redaction reaches every nested object and no
    array; truncation, quoting and opaque states that make verification answer wrongly.
  \<^item> Command line: exit code 0 of \<open>verify\<close> is earned, and the exit codes of \<open>validate\<close>.

  \<^bold>\<open>Termination and fuel.\<close> The retry loop of the executor is a total function: a retry needs the
  attempt counter to be below a bound that does not change, and \<open>attempts_left\<close> decreases. The
  retry loops of the recovery crate recurse on the attempts left. Writing a line to the pipe of the MCP
  client takes at least a byte with each write or waits, which is the measure of \<open>write_all\<close>. A request of the MCP client and the
  wait of the gateway are driven by a list of what happens next; \<open>None\<close> is a wait that this list
  does not end, and nothing is claimed from a list that is too short: the properties quantify over
  all of them.

  \<^bold>\<open>Not modelled.\<close> Argument parsing, HTTP routing, logging and the signal task of the command line
  (clap, axum and tokio do the work), the OTLP transport, \<open>Debug\<close> and derived \<open>Serialize\<close> or
  \<open>Deserialize\<close> implementations (they are parameters where their output matters), the partial
  reads of \<open>read_line\<close> inside \<open>select!\<close>, poisoned locks, the order in which tokio's locks and channels serve those
  who wait (any of them may be next), and the crate roots, which only re-export. Unit tests
  that match regular expressions, print or read JSON, check \<open>Debug\<close> and \<open>Clone\<close> or need a server, and
  those of telemetry and the browser modules, are not translated.
\<close>

section \<open>Properties that span components\<close>

text \<open>What a run that owns its key leaves in the receipt store: its receipt, stored last.\<close>

lemma run_claimed_stores:
  assumes "run_claimed env m act c st = (Inr (r, x), st1)" "ee_receipt_store env = Some rs"
  shows "\<exists>s. es_receipts st1 = snd (rs x s)"
proof -
  from assms(1) obtain ob k ds s1 where fin: "finish env act c r ob k ds s1 = (Inr (r, x), st1)"
    using finish_sel(1) by (fastforce simp: run_claimed_def split: prod.splits sum.splits)
  then obtain s2 where "st1 = store_receipt env x s2"
    by (auto simp: finish_def Let_def split: prod.splits)
  with assms(2) show ?thesis
    by (auto simp: store_receipt_def split: prod.split intro!: exI [of _ "es_receipts s2"])
qed

text \<open>
  Property C24 (round trip): the receipt of a run can be read back. When the executor keeps its
  receipts in the in-memory store and a run finds its key vacant in the registry and returns a
  verdict, then the receipt it returns is what the store answers for its identifier, the receipt
  passes its digest check, and its verdict is the verdict recorded for the key.
\<close>

theorem run_receipt_is_kept:
  assumes "act_idempotency_key act = Some key" "es_store st key = None"
    and "ee_receipt_store env = Some mem_store"
    and "execute_with_executor (on_registry env) act c st = (Inr (r, x), st1)"
  shows "mem_get (rc_id x) (es_receipts st1) = Some x \<and> verify_digest (ee_receipt_lib env) x
    \<and> es_store st1 key = Some (Completed (rc_result x))"
proof -
  have lib: "ee_receipt_store (on_registry env) = Some mem_store" "ee_receipt_lib (on_registry env) = ee_receipt_lib env"
    using assms(3) by (simp_all add: on_registry_def)
  from assms(1,2,4) obtain s where "run_claimed (on_registry env) Dispatching act c s = (Inr (r, x), st1)"
    by (auto simp: execute_with_executor_def claim_or_check_def on_registry_def registry_claim_or_check_def)
  from run_claimed_stores [OF this lib(1)] obtain s2 where "es_receipts st1 = snd (mem_store x s2)" ..
  then have "mem_get (rc_id x) (es_receipts st1) = Some x"
    by (simp add: mem_store_def mem_get_def Let_def)
  moreover from reg_exec.winner_resolves [OF TrueI TrueI TrueI assms(1,2)] assms(4)
  have "es_store st1 key = Some (Completed r)" "receipt_for (ee_receipt_lib env) act c r x"
    unfolding lib [symmetric] by fastforce+
  ultimately show ?thesis by (simp add: receipt_for_def)
qed

text \<open>An instance: the transport fails, so that the run ends at once with \<open>Unknown\<close>.\<close>

definition reset_env :: "(string, script, registry, mem_receipts) exec_env" where
  "reset_env =
     \<lparr>ee_config = default_executor_config, ee_claim = registry_claim_or_check,
      ee_complete = registry_complete, ee_release = registry_release, ee_others = (\<lambda>_. id),
      ee_receipt_store = Some mem_store, ee_observer = None,
      ee_dispatch = (\<lambda>_ w. (Inr (TransportError ''reset''), w)), ee_fresh = (\<lambda>w. ((0, 0), w)),
      ee_engine = literal_ext, ee_receipt_lib = demo_ext,
      ee_backoff_lib = \<lparr>num_milliseconds = (\<lambda>d. of_int (d div 1000000)), f64_powi = (\<lambda>_ _. 0)\<rparr>\<rparr>"

theorem run_receipt_is_kept_witness:
  "\<exists>x st1. mem_get (rc_id x) (es_receipts (st1 :: (script, registry, mem_receipts) exec_state)) = Some x
    \<and> verify_digest (ee_receipt_lib reset_env) x \<and> es_store st1 ''k'' = Some (Completed (rc_result x))"
proof -
  let ?st = "\<lparr>es_world = ([], []), es_store = new_registry, es_receipts = new_mem_receipts, es_trace = []\<rparr>"
  let ?go = "execute_with_executor (on_registry reset_env) script_action script_contract ?st"
  have "\<exists>s1. ?go = run_claimed (on_registry reset_env) Dispatching script_action script_contract s1"
    by (auto simp: execute_with_executor_def claim_or_check_def on_registry_def registry_claim_or_check_def
        new_registry_def)
  then obtain s1 where go: "?go = run_claimed (on_registry reset_env) Dispatching script_action script_contract s1" ..
  have "ee_dispatch (on_registry reset_env) = (\<lambda>_ w. (Inr (TransportError ''reset''), w))"
    by (simp add: on_registry_def reset_env_def)
  from transport_error_run [OF this, of script_contract script_action s1] go
  obtain r x st1 where run: "?go = (Inr (r, x), st1)" by auto
  have "ee_receipt_store reset_env = Some mem_store" by (simp add: reset_env_def)
  from run_receipt_is_kept [OF _ _ this run] show ?thesis by (auto simp: new_registry_def)
qed

text \<open>
  Property C25 (safety): the idempotency key of a submission identifies the receipt. When two
  requests to the Control Center for receipts that the builders made carry the same
  \<open>X-Idempotency-Key\<close>, the receipts agree on every field that the digest covers, provided the
  serialiser and SHA-256 do not collide on them: the server may drop the second as a repetition.
\<close>

theorem submission_key_identifies_receipt:
  assumes "built ext r" "built ext s"
    and "map_of (rq_headers (submission_request cfg r b)) ''X-Idempotency-Key''
      = map_of (rq_headers (submission_request cfg' s b')) ''X-Idempotency-Key''"
    and "sha256_hex ext (canonical_data ext r) = sha256_hex ext (canonical_data ext s)
      \<Longrightarrow> canonical_data ext r = canonical_data ext s"
    and "js_to_vec ext (canonical_json ext r) \<noteq> None" "js_to_vec ext (canonical_json ext s) \<noteq> None"
    and "js_to_vec ext (canonical_json ext r) = js_to_vec ext (canonical_json ext s)
      \<Longrightarrow> canonical_json ext r = canonical_json ext s"
    and "faithful_encoding ext r s"
  shows "same_content r s"
proof -
  from assms(3) have "rc_digest r = rc_digest s" by (simp add: submission_request_def)
  from same_digest_same_content [OF built_digest [OF assms(1)] built_digest [OF assms(2)] this assms(4-8)]
  show ?thesis .
qed

theorem submission_key_identifies_receipt_witness:
  "same_content
     (with_observation demo_ext (new_observation 0 ''db'' JNull) (new_receipt demo_ext 1 0 2 3 Verified 1))
     (with_key_id ''k''
       (with_observation demo_ext (new_observation 0 ''db'' JNull) (new_receipt demo_ext 1 0 2 3 Verified 1)))"
proof (rule submission_key_identifies_receipt [of demo_ext _ _ default_cc_config "''x''" default_cc_config "''y''"])
  let ?r = "with_observation demo_ext (new_observation 0 ''db'' JNull) (new_receipt demo_ext 1 0 2 3 Verified 1)"
  have "rc_observations ?r = [new_observation 0 ''db'' JNull]" "rc_postcondition_results ?r = []"
    by (simp_all add: with_observation_def new_receipt_def with_digest_def Let_def)
  then show "faithful_encoding demo_ext ?r (with_key_id ''k'' ?r)"
    by (intro faithful_key_id demo_ext_uuid) simp_all
  show "built demo_ext ?r" "built demo_ext (with_key_id ''k'' ?r)" by (intro built.intros)+
qed (simp_all add: canonical_data_def demo_ext_vec, simp add: with_key_id_def submission_request_def)

end
